(* ===== verification/Omniphi_Prelude.thy ===== *)
theory Omniphi_Prelude
  imports Main "HOL-Library.Word" "HOL-Library.Multiset"
begin

text \<open>
  Shared vocabulary of the development: Rust's fixed-width integers with their checked and
  saturating operations, the three ways a call can end (value, error, panic), the ordered map
  \<^verbatim>\<open>std::collections::BTreeMap\<close> as a strictly sorted association list, and the
  interface locales the components are interpreted into: \<open>ordered_map\<close> (what a map client may
  rely on), \<open>preserving_machine\<close>, \<open>monotone_machine\<close>, \<open>budget_machine\<close> and
  \<open>once_machine\<close> (invariants, monotone ranks, spending within a budget and at-most-once emission
  along every run of a handler) and \<open>refined_machine\<close> (runs that implement an abstract machine).

  Unchecked \<open>+\<close>, \<open>-\<close> and \<open>*\<close> on machine integers wrap, as in the release profile
  of the crates (no \<^verbatim>\<open>overflow-checks\<close> is configured).
\<close>

section \<open>Collections of rewrite rules\<close>

named_theorems machine_simps \<open>values of the checked and saturating operations\<close>
named_theorems map_simps \<open>lookup and key laws of the ordered map\<close>

section \<open>Machine integers\<close>

type_synonym u8 = "8 word"
type_synonym u16 = "16 word"
type_synonym u32 = "32 word"
type_synonym u64 = "64 word"
type_synonym u128 = "128 word"

text \<open>\<open>i128\<close> has the same bits; it is read through \<^const>\<open>sint\<close>.\<close>

type_synonym i128 = "128 word"
type_synonym usize = nat
type_synonym bytes = "u8 list"

text \<open>
  \<^verbatim>\<open>[u8; 32]\<close> read as a big-endian number: the derived lexicographic order of the array is the
  order of the numbers, and \<^verbatim>\<open>[0u8; 32]\<close> is \<open>0\<close>.
\<close>

type_synonym bytes32 = "256 word"
type_synonym bytes64 = "512 word"

definition sat_add :: "'a::len word \<Rightarrow> 'a word \<Rightarrow> 'a word" where
  "sat_add a b = (if unat a + unat b < 2 ^ LENGTH('a) then a + b else - 1)"

definition sat_sub :: "'a::len word \<Rightarrow> 'a word \<Rightarrow> 'a word" where
  "sat_sub a b = (if b \<le> a then a - b else 0)"

definition sat_mul :: "'a::len word \<Rightarrow> 'a word \<Rightarrow> 'a word" where
  "sat_mul a b = (if unat a * unat b < 2 ^ LENGTH('a) then a * b else - 1)"

definition checked_add :: "'a::len word \<Rightarrow> 'a word \<Rightarrow> 'a word option" where
  "checked_add a b = (if unat a + unat b < 2 ^ LENGTH('a) then Some (a + b) else None)"

definition checked_sub :: "'a::len word \<Rightarrow> 'a word \<Rightarrow> 'a word option" where
  "checked_sub a b = (if b \<le> a then Some (a - b) else None)"

definition checked_div :: "'a::len word \<Rightarrow> 'a word \<Rightarrow> 'a word option" where
  "checked_div a b = (if b = 0 then None else Some (a div b))"

text \<open>The cast \<^verbatim>\<open>as u128\<close> of a \<open>u64\<close>, and the truncating cast \<^verbatim>\<open>as u64\<close> of a \<open>u128\<close>.\<close>

abbreviation to_u128 :: "u64 \<Rightarrow> u128" where
  "to_u128 x \<equiv> ucast x"

abbreviation to_u64 :: "u128 \<Rightarrow> u64" where
  "to_u64 x \<equiv> ucast x"

text \<open>\<^verbatim>\<open>to_be_bytes()\<close> and \<^verbatim>\<open>to_le_bytes()\<close> of an \<open>n\<close>-byte integer, and \<^verbatim>\<open>as_bytes()\<close> of a string.\<close>

definition be_bytes :: "nat \<Rightarrow> 'a::len word \<Rightarrow> bytes" where
  "be_bytes n w = map (\<lambda>i. ucast (drop_bit (8 * i) w)) (rev [0..<n])"

definition le_bytes :: "nat \<Rightarrow> 'a::len word \<Rightarrow> bytes" where
  "le_bytes n w = map (\<lambda>i. ucast (drop_bit (8 * i) w)) [0..<n]"

definition string_bytes :: "string \<Rightarrow> bytes" where
  "string_bytes s = map of_char s"

section \<open>How a call ends\<close>

datatype ('e, 'a) outcome = Ok 'a | Err 'e | Panic

fun obind :: "('e, 'a) outcome \<Rightarrow> ('a \<Rightarrow> ('e, 'b) outcome) \<Rightarrow> ('e, 'b) outcome" where
  "obind (Ok x) f = f x"
| "obind (Err e) f = Err e"
| "obind Panic f = Panic"

text \<open>A panicking primitive: \<open>None\<close> unwinds.\<close>

definition or_panic :: "'a option \<Rightarrow> ('e, 'a) outcome" where
  "or_panic x = (case x of None \<Rightarrow> Panic | Some v \<Rightarrow> Ok v)"

text \<open>A \<^verbatim>\<open>Result\<close> inside a call that may also panic.\<close>

definition of_result :: "'e + 'a \<Rightarrow> ('e, 'a) outcome" where
  "of_result r = (case r of Inl e \<Rightarrow> Err e | Inr v \<Rightarrow> Ok v)"

text \<open>\<^verbatim>\<open>ok_or_else(|| e)?\<close> and the \<^verbatim>\<open>?\<close> of a \<^verbatim>\<open>Result\<close>.\<close>

definition ok_or :: "'e \<Rightarrow> 'a option \<Rightarrow> 'e + 'a" where
  "ok_or e x = (case x of None \<Rightarrow> Inl e | Some v \<Rightarrow> Inr v)"

fun rbind :: "'e + 'a \<Rightarrow> ('a \<Rightarrow> 'e + 'b) \<Rightarrow> 'e + 'b" where
  "rbind (Inl e) f = Inl e"
| "rbind (Inr x) f = f x"

definition require :: "bool \<Rightarrow> 'e \<Rightarrow> 'e + unit" where
  "require c e = (if c then Inr () else Inl e)"

section \<open>The ordered map of the standard library\<close>

type_synonym ('k, 'v) btree = "('k \<times> 'v) list"

definition bt_ok :: "('k::linorder, 'v) btree \<Rightarrow> bool" where
  "bt_ok m = sorted_wrt (<) (map fst m)"

definition bt_get :: "('k, 'v) btree \<Rightarrow> 'k \<Rightarrow> 'v option" where
  "bt_get m k = map_of m k"

definition bt_has :: "('k, 'v) btree \<Rightarrow> 'k \<Rightarrow> bool" where
  "bt_has m k = (bt_get m k \<noteq> None)"

fun bt_put :: "'k::linorder \<Rightarrow> 'v \<Rightarrow> ('k, 'v) btree \<Rightarrow> ('k, 'v) btree" where
  "bt_put k v [] = [(k, v)]"
| "bt_put k v ((k', v') # m) =
     (if k < k' then (k, v) # (k', v') # m
      else if k = k' then (k, v) # m
      else (k', v') # bt_put k v m)"

definition bt_del :: "'k \<Rightarrow> ('k, 'v) btree \<Rightarrow> ('k, 'v) btree" where
  "bt_del k m = filter (\<lambda>e. fst e \<noteq> k) m"

text \<open>\<^verbatim>\<open>if let Some(v) = m.get_mut(k) { *v = f(v) }\<close>\<close>

definition bt_adjust :: "'k \<Rightarrow> ('v \<Rightarrow> 'v) \<Rightarrow> ('k, 'v) btree \<Rightarrow> ('k, 'v) btree" where
  "bt_adjust k f m = map (\<lambda>e. if fst e = k then (fst e, f (snd e)) else e) m"

text \<open>\<^verbatim>\<open>m.retain(|k, v| p(k, v))\<close>\<close>

definition bt_retain :: "('k \<Rightarrow> 'v \<Rightarrow> bool) \<Rightarrow> ('k, 'v) btree \<Rightarrow> ('k, 'v) btree" where
  "bt_retain p m = filter (\<lambda>e. p (fst e) (snd e)) m"

definition bt_keys :: "('k, 'v) btree \<Rightarrow> 'k list" where
  "bt_keys m = map fst m"

definition bt_values :: "('k, 'v) btree \<Rightarrow> 'v list" where
  "bt_values m = map snd m"

text \<open>\<^verbatim>\<open>if let Some(v) = m.values_mut().find(p) { *v = f(v) }\<close>\<close>

fun bt_adjust_first :: "('v \<Rightarrow> bool) \<Rightarrow> ('v \<Rightarrow> 'v) \<Rightarrow> ('k, 'v) btree \<Rightarrow> ('k, 'v) btree" where
  "bt_adjust_first p f [] = []"
| "bt_adjust_first p f ((k, v) # m) =
     (if p v then (k, f v) # m else (k, v) # bt_adjust_first p f m)"

text \<open>The sum of a weight over all entries, a measure the components use for supplies.\<close>

definition bt_total :: "('v \<Rightarrow> nat) \<Rightarrow> ('k, 'v) btree \<Rightarrow> nat" where
  "bt_total w m = sum_list (map (\<lambda>e. w (snd e)) m)"

text \<open>A map of vectors: \<^verbatim>\<open>get(k).cloned().unwrap_or_default()\<close> and \<^verbatim>\<open>entry(k).or_default().push(x)\<close>.\<close>

definition bt_list :: "('k, 'v list) btree \<Rightarrow> 'k \<Rightarrow> 'v list" where
  "bt_list m k = (case bt_get m k of None \<Rightarrow> [] | Some xs \<Rightarrow> xs)"

definition bt_push :: "'k::linorder \<Rightarrow> 'v \<Rightarrow> ('k, 'v list) btree \<Rightarrow> ('k, 'v list) btree" where
  "bt_push k x m = bt_put k (bt_list m k @ [x]) m"

section \<open>Runs of a handler\<close>

fun run :: "('s \<Rightarrow> 'i \<Rightarrow> 's \<times> 'o) \<Rightarrow> 's \<Rightarrow> 'i list \<Rightarrow> 's \<times> 'o list" where
  "run step s [] = (s, [])"
| "run step s (i # is) =
     (let (s1, o1) = step s i; (s2, os) = run step s1 is in (s2, o1 # os))"

section \<open>Lemmas: machine integers\<close>

lemma unat_max_word: "unat (- 1 :: 'a::len word) = 2 ^ LENGTH('a) - 1"
  by (simp add: unsigned_minus_1_eq_mask mask_eq_exp_minus_1)

lemma unat_sat_add [machine_simps]:
  "unat (sat_add a b) = min (unat a + unat b) (2 ^ LENGTH('a) - 1)" for a b :: "'a::len word"
  by (auto simp: sat_add_def unat_max_word unat_word_ariths)

lemma unat_sat_sub [machine_simps]: "unat (sat_sub a b) = unat a - unat b"
  by (auto simp: sat_sub_def unat_sub_if' word_le_nat_alt)

lemma unat_sat_mul [machine_simps]:
  "unat (sat_mul a b) = min (unat a * unat b) (2 ^ LENGTH('a) - 1)" for a b :: "'a::len word"
  by (auto simp: sat_mul_def unat_max_word unat_word_ariths)

lemma unat_less_2p: "unat (a :: 'a::len word) < 2 ^ LENGTH('a)"
  by (rule unsigned_less)

lemma unat_bound: "unat (a :: 'a::len word) \<le> 2 ^ LENGTH('a) - 1"
  using unat_less_2p [of a] by linarith

lemma sat_add_ge: "a \<le> sat_add a b" for a b :: "'a::len word"
  using unat_bound [of a] by (simp add: word_le_nat_alt machine_simps)

lemma checked_add_Some [machine_simps]:
  "checked_add a b = Some c \<longleftrightarrow> unat a + unat b < 2 ^ LENGTH('a) \<and> c = a + b" for a b :: "'a::len word"
  by (auto simp: checked_add_def)

lemma checked_add_None [machine_simps]:
  "checked_add a b = None \<longleftrightarrow> 2 ^ LENGTH('a) \<le> unat a + unat b" for a b :: "'a::len word"
  by (auto simp: checked_add_def)

lemma checked_sub_Some [machine_simps]: "checked_sub a b = Some c \<longleftrightarrow> b \<le> a \<and> c = a - b"
  by (auto simp: checked_sub_def)

lemma checked_sub_None [machine_simps]: "checked_sub a b = None \<longleftrightarrow> a < b"
  by (auto simp: checked_sub_def not_le)

lemma unat_add_fits: "unat a + unat b < 2 ^ LENGTH('a) \<Longrightarrow> unat (a + b) = unat a + unat b"
  for a b :: "'a::len word"
  by (simp add: unat_word_ariths)

lemma unat_sub_fits: "b \<le> a \<Longrightarrow> unat (a - b) = unat a - unat b" for a b :: "'a::len word"
  by (simp add: unat_sub_if' word_le_nat_alt)

lemma unat_to_u128 [simp]: "unat (to_u128 x) = unat x"
  using unat_less_2p [of x]
  by (simp add: unsigned_ucast_eq take_bit_nat_eq_self)

lemma unat_to_u64: "unat (to_u64 x) = unat x mod 2 ^ 64"
  by (simp add: unsigned_ucast_eq take_bit_eq_mod)

section \<open>Lemmas: big-endian bytes\<close>

lemma length_be_bytes [simp]: "length (be_bytes n w) = n"
  by (simp add: be_bytes_def)

lemma be_bytes_inject [simp]:
  fixes w v :: "'a::len word"
  assumes "LENGTH('a) \<le> 8 * n"
  shows "be_bytes n w = be_bytes n v \<longleftrightarrow> w = v"
proof
  assume eq: "be_bytes n w = be_bytes n v"
  show "w = v"
  proof (rule bit_word_eqI)
    fix j assume "j < LENGTH('a)"
    then have "j div 8 < n" using assms by linarith
    then have "(ucast (drop_bit (8 * (j div 8)) w) :: u8) = ucast (drop_bit (8 * (j div 8)) v)"
      using eq by (simp add: be_bytes_def)
    then have "bit (ucast (drop_bit (8 * (j div 8)) w) :: u8) (j mod 8)
        = bit (ucast (drop_bit (8 * (j div 8)) v) :: u8) (j mod 8)" by simp
    then show "bit w j = bit v j"
      by (simp add: bit_ucast_iff bit_drop_bit_eq)
  qed
qed simp

lemma be_bytes_Suc: "be_bytes (Suc n) w = ucast (drop_bit (8 * n) w) # be_bytes n w"
  by (simp add: be_bytes_def)

lemma last_be_bytes: "0 < n \<Longrightarrow> last (be_bytes n w) = ucast w"
  by (simp add: be_bytes_def last_map last_rev)

lemma concat_be_bytes_inject:
  "length xs = length ys \<Longrightarrow>
     concat (map (be_bytes 32) xs) = concat (map (be_bytes 32) (ys :: bytes32 list)) \<longleftrightarrow> xs = ys"
  by (induction xs ys rule: list_induct2) auto

lemma concat_bytes32_inject:
  "concat (map (be_bytes 32) xs) = concat (map (be_bytes 32) ys) \<longleftrightarrow> xs = (ys :: bytes32 list)"
proof
  assume eq: "concat (map (be_bytes 32) xs) = concat (map (be_bytes 32) ys)"
  have len: "length (concat (map (be_bytes 32) zs)) = 32 * length (zs :: bytes32 list)" for zs by (induction zs) simp_all
  have "32 * length xs = 32 * length ys" using arg_cong [OF eq, of length] by (simp only: len)
  then show "xs = ys" using eq concat_be_bytes_inject [of xs ys] by simp
qed simp

section \<open>Lemmas: results\<close>

lemma rbind_Inr_iff: "rbind r f = Inr y \<longleftrightarrow> (\<exists>x. r = Inr x \<and> f x = Inr y)"
  by (cases r) auto

lemma ok_or_Inr_iff [simp]: "ok_or e x = Inr v \<longleftrightarrow> x = Some v"
  by (auto simp: ok_or_def split: option.splits)

lemma ok_or_Inl_iff [simp]: "ok_or e x = Inl d \<longleftrightarrow> x = None \<and> d = e"
  by (auto simp: ok_or_def split: option.splits)

lemma require_Inr_iff [simp]: "require c e = Inr u \<longleftrightarrow> c"
  by (auto simp: require_def)

lemma require_Inl_iff [simp]: "require c e = Inl d \<longleftrightarrow> \<not> c \<and> d = e"
  by (auto simp: require_def)

lemma obind_Ok_iff: "obind r f = Ok y \<longleftrightarrow> (\<exists>x. r = Ok x \<and> f x = Ok y)"
  by (cases r) auto

lemma or_panic_Ok_iff [simp]: "or_panic x = Ok v \<longleftrightarrow> x = Some v"
  by (auto simp: or_panic_def split: option.splits)

lemma of_result_Ok_iff [simp]: "of_result r = Ok v \<longleftrightarrow> r = Inr v"
  by (auto simp: of_result_def split: sum.splits)

lemma of_result_Err_iff [simp]: "of_result r = Err e \<longleftrightarrow> r = Inl e"
  by (auto simp: of_result_def split: sum.splits)

lemma of_result_not_Panic [simp]: "of_result r \<noteq> Panic"
  by (auto simp: of_result_def split: sum.splits)


section \<open>Lemmas: the ordered map\<close>

lemma bt_ok_Nil [simp]: "bt_ok []"
  by (simp add: bt_ok_def)

lemma bt_ok_Cons: "bt_ok (e # m) \<longleftrightarrow> (\<forall>k \<in> fst ` set m. fst e < k) \<and> bt_ok m"
  by (auto simp: bt_ok_def)

lemma bt_ok_distinct: "bt_ok m \<Longrightarrow> distinct (map fst m)"
  by (simp add: bt_ok_def strict_sorted_iff)

lemma bt_get_Nil [simp]: "bt_get [] k = None"
  by (simp add: bt_get_def)

lemma bt_get_Cons: "bt_get ((k', v) # m) k = (if k = k' then Some v else bt_get m k)"
  by (simp add: bt_get_def)

lemma bt_get_in: "bt_get m k = Some v \<Longrightarrow> (k, v) \<in> set m"
  by (simp add: bt_get_def map_of_SomeD)

lemma bt_in_get: "bt_ok m \<Longrightarrow> (k, v) \<in> set m \<Longrightarrow> bt_get m k = Some v"
  by (simp add: bt_get_def bt_ok_distinct)

lemma bt_get_None_iff: "bt_get m k = None \<longleftrightarrow> k \<notin> fst ` set m"
  by (simp add: bt_get_def map_of_eq_None_iff)

lemma bt_has_iff: "bt_has m k \<longleftrightarrow> k \<in> fst ` set m"
  by (simp add: bt_has_def bt_get_None_iff)

lemma bt_keys_iff: "k \<in> set (bt_keys m) \<longleftrightarrow> bt_get m k \<noteq> None"
  by (simp add: bt_keys_def bt_get_None_iff)

lemma bt_values_in: "bt_ok m \<Longrightarrow> v \<in> set (bt_values m) \<longleftrightarrow> (\<exists>k. bt_get m k = Some v)"
  by (force simp: bt_values_def dest: bt_get_in bt_in_get)

lemma bt_put_get [map_simps]: "bt_get (bt_put k v m) k' = (if k' = k then Some v else bt_get m k')"
  by (induction k v m rule: bt_put.induct) (auto simp: bt_get_Cons)

lemma set_keys_bt_put: "fst ` set (bt_put k v m) = insert k (fst ` set m)"
  by (induction k v m rule: bt_put.induct) auto

lemma bt_put_ok: "bt_ok m \<Longrightarrow> bt_ok (bt_put k v m)"
  by (induction k v m rule: bt_put.induct) (auto simp: bt_ok_Cons set_keys_bt_put)

lemma bt_del_get [map_simps]: "bt_get (bt_del k m) k' = (if k' = k then None else bt_get m k')"
  by (induction m) (auto simp: bt_del_def bt_get_def)

lemma bt_del_ok: "bt_ok m \<Longrightarrow> bt_ok (bt_del k m)"
  by (simp add: bt_ok_def bt_del_def sorted_wrt_map sorted_wrt_filter)

lemma keys_bt_adjust [simp]: "map fst (bt_adjust k f m) = map fst m"
  by (simp add: bt_adjust_def comp_def)

lemma bt_adjust_get [map_simps]:
  "bt_get (bt_adjust k f m) k' = (if k' = k then map_option f (bt_get m k) else bt_get m k')"
  by (induction m) (auto simp: bt_adjust_def bt_get_def)

lemma bt_adjust_ok: "bt_ok m \<Longrightarrow> bt_ok (bt_adjust k f m)"
  by (simp add: bt_ok_def)

lemma bt_retain_get:
  "bt_ok m \<Longrightarrow> bt_get (bt_retain p m) k =
     (case bt_get m k of None \<Rightarrow> None | Some v \<Rightarrow> if p k v then Some v else None)"
proof (induction m)
  case Nil
  then show ?case by (simp add: bt_retain_def)
next
  case (Cons e m)
  obtain a b where e: "e = (a, b)" by fastforce
  have "bt_get m a = None"
    using Cons.prems by (auto simp: bt_ok_Cons e bt_get_None_iff)
  with Cons show ?case by (auto simp: e bt_retain_def bt_get_Cons bt_ok_Cons)
qed

lemma bt_retain_ok: "bt_ok m \<Longrightarrow> bt_ok (bt_retain p m)"
  by (simp add: bt_ok_def bt_retain_def sorted_wrt_map sorted_wrt_filter)

lemma bt_eq_keys: "bt_ok m \<Longrightarrow> m = map (\<lambda>k. (k, the (bt_get m k))) (map fst m)"
  by (auto simp: comp_def bt_in_get intro!: map_idI [symmetric])

lemma bt_ext:
  assumes "bt_ok m" and "bt_ok m'" and "\<And>k. bt_get m k = bt_get m' k"
  shows "m = m'"
proof -
  have "fst ` set m = fst ` set m'"
    using assms(3) bt_get_None_iff [of m] bt_get_None_iff [of m'] by (metis subsetI subset_antisym)
  then have keys: "map fst m = map fst m'"
    using assms(1,2) by (intro strict_sorted_equal) (auto simp: bt_ok_def)
  have "m = map (\<lambda>k. (k, the (bt_get m k))) (map fst m)"
    using assms(1) by (rule bt_eq_keys)
  also have "\<dots> = map (\<lambda>k. (k, the (bt_get m' k))) (map fst m')"
    by (simp only: keys assms(3))
  also have "\<dots> = m'" using bt_eq_keys [OF assms(2)] by simp
  finally show ?thesis .
qed

lemma bt_list_push [simp]: "bt_list (bt_push k x m) k' = (if k' = k then bt_list m k @ [x] else bt_list m k')"
  by (simp add: bt_list_def bt_push_def map_simps)

lemma bt_get_iff: "bt_ok m \<Longrightarrow> bt_get m k = Some v \<longleftrightarrow> (k, v) \<in> set m"
  using bt_get_in [of m k v] bt_in_get [of m k v] by blast

lemma option_eqI: "(\<And>v. a = Some v \<longleftrightarrow> b = Some v) \<Longrightarrow> a = b"
  by (cases a; cases b) auto

lemma bt_ok_set_eq:
  assumes "bt_ok m" and "bt_ok m'" and "set m = set m'"
  shows "m = m'"
  by (rule bt_ext [OF assms(1,2)], rule option_eqI) (simp only: bt_get_iff [OF assms(1)] bt_get_iff [OF assms(2)] assms(3))

text \<open>Keys, lengths and values after an update.\<close>

lemma bt_keys_put: "set (bt_keys (bt_put k v m)) = insert k (set (bt_keys m))"
  by (auto simp: bt_keys_iff map_simps split: if_splits)

lemma bt_keys_del: "set (bt_keys (bt_del k m)) = set (bt_keys m) - {k}"
  by (auto simp: bt_keys_iff map_simps split: if_splits)

lemma bt_keys_adjust [simp]: "bt_keys (bt_adjust k f m) = bt_keys m"
  by (simp add: bt_keys_def)

lemma length_bt_del: "bt_get m k \<noteq> None \<Longrightarrow> length (bt_del k m) < length m"
  by (auto simp: bt_del_def bt_get_None_iff intro!: length_filter_less)

lemma length_bt_del_le: "length (bt_del k m) \<le> length m"
  by (simp add: bt_del_def)

lemma length_bt_put_le: "length (bt_put k v m) \<le> Suc (length m)"
  by (induction k v m rule: bt_put.induct) auto

lemma length_bt_adjust [simp]: "length (bt_adjust k f m) = length m"
  by (simp add: bt_adjust_def)

lemma bt_map_values:
  "fst \<circ> (\<lambda>(i, e). (i, f e)) = fst"
  "bt_get (map (\<lambda>(i, e). (i, f e)) m) k = map_option f (bt_get m k)"
  by (auto, induction m) (auto simp: bt_get_def)

text \<open>Sorting commutes with a projection of the key, and a total \<open>map_filter\<close> is a map.\<close>

lemma insort_key_map: "insort_key f (g x) (map g ys) = map g (insort_key (\<lambda>x. f (g x)) x ys)"
  by (induction ys) auto

lemma sort_key_map: "sort_key f (map g xs) = map g (sort_key (\<lambda>x. f (g x)) xs)"
  by (induction xs) (auto simp: insort_key_map)

lemma map_filter_total: "(\<And>x. x \<in> set xs \<Longrightarrow> f x = Some (g x)) \<Longrightarrow> List.map_filter f xs = map g xs"
  by (induction xs) (auto simp: List.map_filter_def)

text \<open>The first \<open>k\<close> of a sorted list are best: nothing left out has a smaller key.\<close>

lemma take_sort_key:
  defines "best \<equiv> \<lambda>k f xs. take k (sort_key f xs)"
  shows "length (best k f xs) = min (length xs) k" "set (best k f xs) \<subseteq> set xs" "sorted (map f (best k f xs))"
    "distinct xs \<Longrightarrow> distinct (best k f xs)"
    "x \<in> set (best k f xs) \<Longrightarrow> y \<in> set xs - set (best k f xs) \<Longrightarrow> f x \<le> f y"
proof -
  let ?s = "sort_key f xs"
  show "length (best k f xs) = min (length xs) k" by (simp add: best_def)
  show "set (best k f xs) \<subseteq> set xs" using set_take_subset [of k ?s] by (simp add: best_def)
  show "sorted (map f (best k f xs))" by (simp add: best_def take_map [symmetric] sorted_wrt_take)
  show "distinct xs \<Longrightarrow> distinct (best k f xs)" by (simp add: best_def)
  assume x: "x \<in> set (best k f xs)" and y: "y \<in> set xs - set (best k f xs)"
  have "y \<in> set (take k ?s @ drop k ?s)" using y by simp
  then have "y \<in> set (drop k ?s)" using y by (simp add: best_def del: append_take_drop_id)
  moreover have "sorted (map f (take k ?s @ drop k ?s))" by simp
  ultimately show "f x \<le> f y" using x by (auto simp: best_def sorted_append simp del: append_take_drop_id)
qed

text \<open>
  What a client of a map relies on, as a contract: lookups after each update, and an invariant
  every update keeps. The lemmas inside are what the components use.
\<close>

locale ordered_map =
  fixes get :: "'m \<Rightarrow> 'k \<Rightarrow> 'v option"
    and put :: "'k \<Rightarrow> 'v \<Rightarrow> 'm \<Rightarrow> 'm"
    and del :: "'k \<Rightarrow> 'm \<Rightarrow> 'm"
    and adjust :: "'k \<Rightarrow> ('v \<Rightarrow> 'v) \<Rightarrow> 'm \<Rightarrow> 'm"
    and ok :: "'m \<Rightarrow> bool"
  assumes get_put: "get (put k v m) k' = (if k' = k then Some v else get m k')"
    and get_del: "get (del k m) k' = (if k' = k then None else get m k')"
    and get_adjust: "get (adjust k f m) k' = (if k' = k then map_option f (get m k) else get m k')"
    and ok_put: "ok m \<Longrightarrow> ok (put k v m)"
    and ok_del: "ok m \<Longrightarrow> ok (del k m)"
    and ok_adjust: "ok m \<Longrightarrow> ok (adjust k f m)"
begin

lemma put_preserves_all:
  "\<forall>k v. get m k = Some v \<longrightarrow> P k v \<Longrightarrow> P k0 v0 \<Longrightarrow> get (put k0 v0 m) k = Some v \<Longrightarrow> P k v"
  by (auto simp: get_put split: if_splits)

lemma adjust_preserves_all:
  "\<forall>k v. get m k = Some v \<longrightarrow> P k v \<Longrightarrow> (\<And>v. P k0 v \<Longrightarrow> P k0 (f v)) \<Longrightarrow>
   get (adjust k0 f m) k = Some v \<Longrightarrow> P k v"
  by (auto simp: get_adjust split: if_splits)

lemma del_preserves_all:
  "\<forall>k v. get m k = Some v \<longrightarrow> P k v \<Longrightarrow> get (del k0 m) k = Some v \<Longrightarrow> P k v"
  by (auto simp: get_del split: if_splits)

lemma ok_fold_put: "ok m \<Longrightarrow> ok (fold (\<lambda>e. put (fst e) (snd e)) es m)"
  by (induction es arbitrary: m) (auto simp: ok_put)

lemma get_fold_put_other:
  "k \<notin> fst ` set es \<Longrightarrow> get (fold (\<lambda>e. put (fst e) (snd e)) es m) k = get m k"
  by (induction es arbitrary: m) (auto simp: get_put)

end

text \<open>A map with a total weight: what an update of one entry does to the total.\<close>

locale weighted_map = ordered_map get put del adjust ok
  for get :: "'m \<Rightarrow> 'k \<Rightarrow> 'v option"
    and put :: "'k \<Rightarrow> 'v \<Rightarrow> 'm \<Rightarrow> 'm"
    and del :: "'k \<Rightarrow> 'm \<Rightarrow> 'm"
    and adjust :: "'k \<Rightarrow> ('v \<Rightarrow> 'v) \<Rightarrow> 'm \<Rightarrow> 'm"
    and ok :: "'m \<Rightarrow> bool" +
  fixes total :: "('v \<Rightarrow> nat) \<Rightarrow> 'm \<Rightarrow> nat"
  assumes total_adjust:
    "ok m \<Longrightarrow> get m k = Some v \<Longrightarrow> total w (adjust k f m) + w v = total w m + w (f v)"
    and total_ge: "get m k = Some v \<Longrightarrow> w v \<le> total w m"
begin

lemma total_adjust_same:
  "ok m \<Longrightarrow> get m k = Some v \<Longrightarrow> w (f v) = w v \<Longrightarrow> total w (adjust k f m) = total w m"
  using total_adjust [of m k v w f] by simp

lemma total_transfer:
  assumes "ok m" and "get m i = Some v" and "get (adjust i f m) j = Some u"
    and "w (f v) + d = w v" and "w (g u) = w u + d"
  shows "total w (adjust j g (adjust i f m)) = total w m"
  using total_adjust [of m i v w f] total_adjust [of "adjust i f m" j u w g] assms ok_adjust
  by fastforce

end

lemma bt_adjust_fresh: "bt_get m k = None \<Longrightarrow> bt_adjust k f m = m"
  by (induction m) (auto simp: bt_adjust_def bt_get_def)

lemma bt_adjust_Cons:
  "bt_adjust k f ((a, b) # m) = (a, if a = k then f b else b) # bt_adjust k f m"
  by (simp add: bt_adjust_def)

lemma bt_total_Cons [simp]: "bt_total w (e # m) = w (snd e) + bt_total w m"
  by (simp add: bt_total_def)

lemma bt_total_adjust:
  "bt_ok m \<Longrightarrow> bt_get m k = Some v \<Longrightarrow> bt_total w (bt_adjust k f m) + w v = bt_total w m + w (f v)"
proof (induction m)
  case (Cons e m)
  obtain a b where e: "e = (a, b)" by fastforce
  have "a = k \<Longrightarrow> bt_get m k = None"
    using Cons.prems(1) by (auto simp: e bt_ok_Cons bt_get_None_iff)
  with Cons show ?case
    by (auto simp: e bt_adjust_Cons bt_get_Cons bt_ok_Cons bt_adjust_fresh split: if_splits)
qed simp

lemma bt_total_ge: "bt_get m k = Some v \<Longrightarrow> w v \<le> bt_total w m"
  by (induction m) (auto simp: bt_get_def bt_total_def split: if_splits)

interpretation btm: weighted_map bt_get bt_put bt_del bt_adjust bt_ok bt_total
  by unfold_locales
    (simp_all add: map_simps bt_put_ok bt_del_ok bt_adjust_ok bt_total_adjust bt_total_ge)

lemma bt_adjust_first_as_adjust:
  "bt_ok m \<Longrightarrow> find p (bt_values m) = Some v \<Longrightarrow>
     \<exists>k. bt_get m k = Some v \<and> p v \<and> bt_adjust_first p f m = bt_adjust k f m"
proof (induction m)
  case (Cons e m)
  obtain a b where e: "e = (a, b)" by fastforce
  have fresh: "bt_get m a = None"
    using Cons.prems(1) by (auto simp: e bt_ok_Cons bt_get_None_iff)
  show ?case
  proof (cases "p b")
    case True
    with Cons.prems(2) fresh show ?thesis
      by (intro exI [of _ a]) (auto simp: e bt_values_def bt_get_Cons bt_adjust_Cons bt_adjust_fresh)
  next
    case False
    with Cons obtain k where "bt_get m k = Some v" "p v" "bt_adjust_first p f m = bt_adjust k f m"
      by (auto simp: e bt_values_def bt_ok_Cons)
    with False fresh show ?thesis
      by (intro exI [of _ k]) (auto simp: e bt_get_Cons bt_adjust_Cons)
  qed
qed (simp add: bt_values_def)

lemma bt_adjust_first_none:
  "find p (bt_values m) = None \<Longrightarrow> bt_adjust_first p f m = m"
  by (induction m) (auto simp: bt_values_def split: if_splits)

lemma bt_find_value_in: "find p (bt_values m) = Some v \<Longrightarrow> p v \<and> v \<in> set (bt_values m)"
  by (auto simp: find_Some_iff)

section \<open>Machines: what holds along every run\<close>

lemma run_Cons:
  "fst (run step s (i # is)) = fst (run step (fst (step s i)) is)"
  "snd (run step s (i # is)) = snd (step s i) # snd (run step (fst (step s i)) is)"
  by (simp_all add: Let_def case_prod_beta)

lemma run_append:
  "fst (run step s (is @ js)) = fst (run step (fst (run step s is)) js)"
  "snd (run step s (is @ js)) = snd (run step s is) @ snd (run step (fst (run step s is)) js)"
  by (induction "is" arbitrary: s) (auto simp: run_Cons simp del: run.simps(2))

declare run.simps(2) [simp del]

text \<open>
  The invariant of a machine may depend on the inputs still to come: \<open>inv is s\<close> says that
  \<open>s\<close> is a good state to receive \<open>is\<close> in. So an invariant can bound the number of
  steps left, or ask of every input what the environment guarantees.
\<close>

locale preserving_machine =
  fixes step :: "'s \<Rightarrow> 'i \<Rightarrow> 's \<times> 'o"
    and inv :: "'i list \<Rightarrow> 's \<Rightarrow> bool"
  assumes step_inv: "inv (i # is) s \<Longrightarrow> inv is (fst (step s i))"
begin

lemma run_inv: "inv (is @ js) s \<Longrightarrow> inv js (fst (run step s is))"
proof (induction "is" arbitrary: s)
  case (Cons i "is")
  then have "inv js (fst (run step (fst (step s i)) is))" by (simp add: step_inv)
  then show ?case by (simp add: run_Cons)
qed simp

end

locale monotone_machine = preserving_machine step inv
  for step :: "'s \<Rightarrow> 'i \<Rightarrow> 's \<times> 'o" and inv :: "'i list \<Rightarrow> 's \<Rightarrow> bool" +
  fixes rank :: "'s \<Rightarrow> 'r::preorder"
  assumes step_rank: "inv (i # is) s \<Longrightarrow> rank s \<le> rank (fst (step s i))"
begin

lemma run_rank: "inv is s \<Longrightarrow> rank s \<le> rank (fst (run step s is))"
proof (induction "is" arbitrary: s)
  case (Cons i "is")
  have "rank s \<le> rank (fst (step s i))" using Cons.prems by (rule step_rank)
  also have "\<dots> \<le> rank (fst (run step (fst (step s i)) is))"
    using Cons step_inv by blast
  finally show ?case by (simp add: run_Cons)
qed simp

end

text \<open>A machine that spends from a budget: what it spends along a run stays within what it started with.\<close>

locale budget_machine = preserving_machine step inv
  for step :: "'s \<Rightarrow> 'i \<Rightarrow> 's \<times> 'o" and inv :: "'i list \<Rightarrow> 's \<Rightarrow> bool" +
  fixes spent :: "'o \<Rightarrow> nat"
    and budget :: "'s \<Rightarrow> nat"
  assumes step_budget: "inv (i # is) s \<Longrightarrow> spent (snd (step s i)) + budget (fst (step s i)) \<le> budget s"
begin

lemma run_budget:
  "inv is s \<Longrightarrow> sum_list (map spent (snd (run step s is))) + budget (fst (run step s is)) \<le> budget s"
proof (induction "is" arbitrary: s)
  case (Cons i "is")
  note now = step_budget [OF Cons.prems]
  from Cons.IH [OF step_inv [OF Cons.prems]] now show ?case by (simp add: run_Cons)
qed simp

end

text \<open>
  A machine that emits keyed outputs and remembers the keys: no key is emitted twice on any run.
\<close>

locale once_machine = preserving_machine step inv
  for step :: "'s \<Rightarrow> 'i \<Rightarrow> 's \<times> 'o" and inv :: "'i list \<Rightarrow> 's \<Rightarrow> bool" +
  fixes emitted :: "'o \<Rightarrow> 'key list"
    and seen :: "'s \<Rightarrow> 'key \<Rightarrow> bool"
  assumes emit_distinct: "inv (i # is) s \<Longrightarrow> distinct (emitted (snd (step s i)))"
    and emit_fresh: "inv (i # is) s \<Longrightarrow> k \<in> set (emitted (snd (step s i))) \<Longrightarrow> \<not> seen s k"
    and emit_seen: "inv (i # is) s \<Longrightarrow> k \<in> set (emitted (snd (step s i))) \<Longrightarrow> seen (fst (step s i)) k"
    and seen_mono: "inv (i # is) s \<Longrightarrow> seen s k \<Longrightarrow> seen (fst (step s i)) k"
begin

lemma run_once:
  "inv is s \<Longrightarrow> distinct (concat (map emitted (snd (run step s is)))) \<and>
     (\<forall>k. seen s k \<longrightarrow> k \<notin> set (concat (map emitted (snd (run step s is)))))"
proof (induction "is" arbitrary: s)
  case (Cons i "is")
  let ?s = "fst (step s i)" and ?o = "snd (step s i)"
  let ?rest = "concat (map emitted (snd (run step ?s is)))"
  have IH: "distinct ?rest" "\<forall>k. seen ?s k \<longrightarrow> k \<notin> set ?rest"
    using Cons.IH [of ?s] step_inv [OF Cons.prems] by blast+
  have run: "snd (run step s (i # is)) = ?o # snd (run step ?s is)"
    by (simp add: run_Cons)
  have "set (emitted ?o) \<inter> set ?rest = {}"
    using IH(2) emit_seen [OF Cons.prems] by blast
  then show ?case
    using IH emit_distinct [OF Cons.prems] emit_fresh [OF Cons.prems] seen_mono [OF Cons.prems]
    by (auto simp: run)
qed simp

end

text \<open>
  A machine that implements an abstract one: every step commutes with the abstraction and gives the
  same output, so whole runs do.
\<close>

locale refined_machine = preserving_machine step "\<lambda>_. ok"
  for step :: "'s \<Rightarrow> 'i \<Rightarrow> 's \<times> 'o" and ok :: "'s \<Rightarrow> bool" +
  fixes spec :: "'a \<Rightarrow> 'i \<Rightarrow> 'a \<times> 'o"
    and abs :: "'s \<Rightarrow> 'a"
  assumes step_spec: "ok s \<Longrightarrow> spec (abs s) i = (abs (fst (step s i)), snd (step s i))"
begin

lemma run_spec: "ok s \<Longrightarrow> run spec (abs s) is = (abs (fst (run step s is)), snd (run step s is))"
proof (induction "is" arbitrary: s)
  case (Cons i "is")
  then have "run spec (abs (fst (step s i))) is =
      (abs (fst (run step (fst (step s i)) is)), snd (run step (fst (step s i)) is))"
    using step_inv by blast
  then show ?case by (simp add: prod_eq_iff run_Cons step_spec [OF Cons.prems])
qed simp

end

end
