(* ===== verification/Capabilities.thy ===== *)
theory Capabilities
  imports Omniphi_Prelude
begin

text \<open>
  Errors and capabilities of the runtime: \<^verbatim>\<open>runtime/src/errors.rs\<close> and the
  capability sets of \<^verbatim>\<open>runtime/src/capabilities/checker.rs\<close>. A \<^verbatim>\<open>BTreeSet\<close>
  that is only tested for membership is a set. A formatted message keeps its template and its
  numbers; its rendering as decimal text is not modelled.
\<close>

section \<open>Capabilities\<close>

datatype capability =
    ReadObject
  | WriteObject
  | TransferAsset
  | SwapAsset
  | ProvideLiquidity
  | WithdrawLiquidity
  | MintAsset
  | BurnAsset
  | ModifyGovernance
  | UpdateIdentity
  | ContractCallCap bytes32
  | ContractAdmin bytes32
  | ContractDeploy

type_synonym capability_set = "capability set"

definition caps_empty :: capability_set where
  "caps_empty = {}"

definition caps_all :: capability_set where
  "caps_all = {ReadObject, WriteObject, TransferAsset, SwapAsset, ProvideLiquidity,
     WithdrawLiquidity, MintAsset, BurnAsset, ModifyGovernance, UpdateIdentity}"

definition caps_user_default :: capability_set where
  "caps_user_default = {ReadObject, WriteObject, TransferAsset, SwapAsset}"

definition caps_add :: "capability_set \<Rightarrow> capability \<Rightarrow> capability_set" where
  "caps_add s c = insert c s"

definition caps_remove :: "capability_set \<Rightarrow> capability \<Rightarrow> capability_set" where
  "caps_remove s c = s - {c}"

section \<open>Errors\<close>

datatype err_text = Text string | Fmt string "nat list"

datatype runtime_error =
    InvalidIntent err_text
  | UnauthorizedCapability capability capability_set
  | ObjectNotFound bytes32
  | InsufficientBalance u128 u128
  | ConstraintViolation err_text
  | SchedulerConflict err_text
  | ResolutionFailure err_text
  | SettlementFailure err_text
  | ObjectQuarantined bytes32
  | DomainPaused string
  | SolverNotRegistered string
  | SolverNotEligible string string
  | NoCandidatePlans
  | AllPlansInvalid
  | PlanValidationFailed bytes32 err_text
  | PolicyViolation err_text
  | SimulationError err_text
  | GoalPacketInvalid err_text
  | RightsCapsuleViolation bytes32 err_text
  | CausalViolation err_text
  | BranchExecutionFailed u32 err_text
  | FinalityEscalationRequired err_text
  | CRXSettlementFailed err_text
  | ContractNotFound bytes32
  | ContractConstraintViolation bytes32 err_text
  | ContractValidatorError err_text
  | ContractDeploymentFailed err_text
  | ContractStateOverflow bytes32 u64 u64
  | SafetyViolation string string
  | ContainmentFailed string err_text
  | KernelEvaluationError err_text
  | IncidentLedgerFull
  | RecoveryRequiresGovernance err_text

section \<open>The checker\<close>

text \<open>\<^verbatim>\<open>CapabilityChecker::check\<close>: the first missing capability is the error.\<close>

fun caps_check :: "capability_set \<Rightarrow> capability list \<Rightarrow> runtime_error + unit" where
  "caps_check held [] = Inr ()"
| "caps_check held (c # cs) =
     (if c \<notin> held then Inl (UnauthorizedCapability c held) else caps_check held cs)"

section \<open>Lemmas\<close>

lemma caps_check_ok_iff: "caps_check held req = Inr u \<longleftrightarrow> set req \<subseteq> held"
  by (induction req) auto

lemma caps_check_err:
  "caps_check held req = Inl e \<Longrightarrow>
     \<exists>pre c post. req = pre @ c # post \<and> set pre \<subseteq> held \<and> c \<notin> held \<and> e = UnauthorizedCapability c held"
proof (induction req)
  case (Cons a req)
  show ?case
  proof (cases "a \<in> held")
    case True
    with Cons obtain pre c post where
      "req = pre @ c # post" "set pre \<subseteq> held" "c \<notin> held" "e = UnauthorizedCapability c held"
      by auto
    with True have "a # req = (a # pre) @ c # post \<and> set (a # pre) \<subseteq> held \<and> c \<notin> held \<and>
        e = UnauthorizedCapability c held"
      by simp
    then show ?thesis by blast
  next
    case False
    with Cons.prems have "a # req = [] @ a # req \<and> set [] \<subseteq> held \<and> a \<notin> held \<and>
        e = UnauthorizedCapability a held"
      by simp
    then show ?thesis by blast
  qed
qed simp

lemma caps_user_default_sub: "caps_user_default \<subseteq> caps_all"
  by (auto simp: caps_user_default_def caps_all_def)

end
