(* ===== verification/Objects.thy ===== *)
theory Objects
  imports Capabilities "HOL-Library.Monad_Syntax"
begin

text \<open>
  The object model: \<^verbatim>\<open>runtime/src/objects/base.rs\<close> and
  \<^verbatim>\<open>runtime/src/objects/types.rs\<close>. Every struct is a record with its own field prefix,
  and a \<^verbatim>\<open>Box<dyn Object>\<close> is the tagged union \<open>obj\<close>.

  The crates the code calls are parameters: \<open>extern\<close> holds SHA-256, bincode and the four
  decode-after-encode calls the store uses as downcasts; \<open>u256_ops\<close> holds the 256-bit
  arithmetic of \<^verbatim>\<open>primitive_types\<close>, where \<open>None\<close> is the documented panic on
  overflow, underflow and division by zero. What the code relies on is stated by \<open>extern_ok\<close>
  and \<open>u256_ok\<close>.
\<close>

section \<open>Base types\<close>

type_synonym object_id = bytes32
type_synonym schema_id = bytes32
type_synonym object_version = u64

datatype object_type =
    TWallet | TBalance | TToken | TLiquidityPool | TVault | TGovernanceProposal | TIdentity
  | TExecutionReceipt | TContract schema_id

datatype access_mode = ReadOnly | ReadWrite

record object_access =
  oa_object_id :: object_id
  oa_mode :: access_mode

definition access_read :: "object_id \<Rightarrow> object_access" where
  "access_read i = \<lparr>oa_object_id = i, oa_mode = ReadOnly\<rparr>"

definition access_write :: "object_id \<Rightarrow> object_access" where
  "access_write i = \<lparr>oa_object_id = i, oa_mode = ReadWrite\<rparr>"

record object_meta =
  om_id :: object_id
  om_object_type :: object_type
  om_owner :: bytes32
  om_version :: object_version
  om_created_at :: u64
  om_updated_at :: u64

definition object_meta_new :: "object_id \<Rightarrow> object_type \<Rightarrow> bytes32 \<Rightarrow> u64 \<Rightarrow> object_meta" where
  "object_meta_new i t owner now =
     \<lparr>om_id = i, om_object_type = t, om_owner = owner, om_version = 0,
      om_created_at = now, om_updated_at = now\<rparr>"

section \<open>Object structs\<close>

record wallet_object =
  wo_meta :: object_meta
  wo_address :: bytes32
  wo_authorized_keys :: "bytes32 list"
  wo_nonce :: u64

definition wallet_new :: "object_id \<Rightarrow> bytes32 \<Rightarrow> bytes32 \<Rightarrow> u64 \<Rightarrow> wallet_object" where
  "wallet_new i owner address now =
     \<lparr>wo_meta = object_meta_new i TWallet owner now, wo_address = address,
      wo_authorized_keys = [owner], wo_nonce = 0\<rparr>"

record balance_object =
  bo_meta :: object_meta
  bo_owner :: bytes32
  bo_asset_id :: bytes32
  bo_amount :: u128
  bo_locked_amount :: u128

definition balance_new :: "object_id \<Rightarrow> bytes32 \<Rightarrow> bytes32 \<Rightarrow> u128 \<Rightarrow> u64 \<Rightarrow> balance_object" where
  "balance_new i owner asset amount now =
     \<lparr>bo_meta = object_meta_new i TBalance owner now, bo_owner = owner, bo_asset_id = asset,
      bo_amount = amount, bo_locked_amount = 0\<rparr>"

definition bo_available :: "balance_object \<Rightarrow> u128" where
  "bo_available b = sat_sub (bo_amount b) (bo_locked_amount b)"

record token_object =
  to_meta :: object_meta
  to_asset_id :: bytes32
  to_symbol :: string
  to_decimals :: u8
  to_total_supply :: u128
  to_max_supply :: "u128 option"
  to_mint_authority :: "bytes32 option"

definition token_new ::
  "object_id \<Rightarrow> bytes32 \<Rightarrow> bytes32 \<Rightarrow> string \<Rightarrow> u8 \<Rightarrow> u128 \<Rightarrow> u64 \<Rightarrow> token_object" where
  "token_new i owner asset symbol decimals supply now =
     \<lparr>to_meta = object_meta_new i TToken owner now, to_asset_id = asset, to_symbol = symbol,
      to_decimals = decimals, to_total_supply = supply, to_max_supply = None,
      to_mint_authority = Some owner\<rparr>"

record liquidity_pool_object =
  lp_meta :: object_meta
  lp_asset_a :: bytes32
  lp_asset_b :: bytes32
  lp_reserve_a :: u128
  lp_reserve_b :: u128
  lp_fee_bps :: u32
  lp_lp_token_id :: bytes32
  lp_total_lp_supply :: u128

definition liquidity_pool_new ::
  "object_id \<Rightarrow> bytes32 \<Rightarrow> bytes32 \<Rightarrow> bytes32 \<Rightarrow> u128 \<Rightarrow> u128 \<Rightarrow> u32 \<Rightarrow> bytes32 \<Rightarrow> u64
     \<Rightarrow> liquidity_pool_object" where
  "liquidity_pool_new i owner asset_a asset_b reserve_a reserve_b fee_bps lp_token now =
     \<lparr>lp_meta = object_meta_new i TLiquidityPool owner now, lp_asset_a = asset_a,
      lp_asset_b = asset_b, lp_reserve_a = reserve_a, lp_reserve_b = reserve_b,
      lp_fee_bps = fee_bps, lp_lp_token_id = lp_token, lp_total_lp_supply = 0\<rparr>"

record vault_object =
  vo_meta :: object_meta
  vo_asset_id :: bytes32
  vo_deposited_amount :: u128
  vo_strategy_id :: "bytes32 option"
  vo_withdrawal_lock_until :: u64

definition vault_new :: "object_id \<Rightarrow> bytes32 \<Rightarrow> bytes32 \<Rightarrow> u64 \<Rightarrow> vault_object" where
  "vault_new i owner asset now =
     \<lparr>vo_meta = object_meta_new i TVault owner now, vo_asset_id = asset, vo_deposited_amount = 0,
      vo_strategy_id = None, vo_withdrawal_lock_until = 0\<rparr>"

datatype proposal_status = PActive | PPassed | PRejected | PExpired

record governance_proposal_object =
  gp_meta :: object_meta
  gp_proposal_id :: u64
  gp_proposer :: bytes32
  gp_title :: string
  gp_description :: string
  gp_vote_yes :: u128
  gp_vote_no :: u128
  gp_vote_abstain :: u128
  gp_deadline_epoch :: u64
  gp_status :: proposal_status

definition governance_proposal_new ::
  "object_id \<Rightarrow> bytes32 \<Rightarrow> u64 \<Rightarrow> bytes32 \<Rightarrow> string \<Rightarrow> string \<Rightarrow> u64 \<Rightarrow> u64
     \<Rightarrow> governance_proposal_object" where
  "governance_proposal_new i owner pid proposer title description deadline now =
     \<lparr>gp_meta = object_meta_new i TGovernanceProposal owner now, gp_proposal_id = pid,
      gp_proposer = proposer, gp_title = title, gp_description = description, gp_vote_yes = 0,
      gp_vote_no = 0, gp_vote_abstain = 0, gp_deadline_epoch = deadline, gp_status = PActive\<rparr>"

record identity_object =
  io_meta :: object_meta
  io_address :: bytes32
  io_display_name :: string
  io_verified :: bool
  io_reputation_score :: u64
  io_kyc_tier :: u8

definition identity_new :: "object_id \<Rightarrow> bytes32 \<Rightarrow> bytes32 \<Rightarrow> string \<Rightarrow> u64 \<Rightarrow> identity_object" where
  "identity_new i owner address name now =
     \<lparr>io_meta = object_meta_new i TIdentity owner now, io_address = address,
      io_display_name = name, io_verified = False, io_reputation_score = 0, io_kyc_tier = 0\<rparr>"

record execution_receipt_object =
  er_meta :: object_meta
  er_tx_id :: bytes32
  er_success :: bool
  er_affected_objects :: "object_id list"
  er_old_versions :: "(object_id \<times> object_version) list"
  er_new_versions :: "(object_id \<times> object_version) list"
  er_error_code :: "u32 option"
  er_gas_used :: u64
  er_executed_at_epoch :: u64

definition execution_receipt_new ::
  "object_id \<Rightarrow> bytes32 \<Rightarrow> bytes32 \<Rightarrow> bool \<Rightarrow> u64 \<Rightarrow> execution_receipt_object" where
  "execution_receipt_new i owner tx success now =
     \<lparr>er_meta = object_meta_new i TExecutionReceipt owner now, er_tx_id = tx, er_success = success,
      er_affected_objects = [], er_old_versions = [], er_new_versions = [], er_error_code = None,
      er_gas_used = 0, er_executed_at_epoch = now\<rparr>"

record contract_object =
  co_meta :: object_meta
  co_schema_id :: schema_id
  co_state :: bytes
  co_state_hash :: bytes32
  co_created_by :: bytes32
  co_admin :: "bytes32 option"
  co_max_state_bytes :: u64

datatype obj =
    OWallet wallet_object
  | OBalance balance_object
  | OToken token_object
  | OPool liquidity_pool_object
  | OVault vault_object
  | OProposal governance_proposal_object
  | OIdentity identity_object
  | OReceipt execution_receipt_object
  | OContract contract_object

section \<open>The crates the code calls\<close>

record extern =
  x_sha256 :: "bytes \<Rightarrow> bytes32"
  x_bincode :: "obj \<Rightarrow> bytes"
  x_as_balance :: "obj \<Rightarrow> balance_object option"
  x_as_pool :: "obj \<Rightarrow> liquidity_pool_object option"
  x_as_vault :: "obj \<Rightarrow> vault_object option"
  x_as_contract :: "obj \<Rightarrow> contract_object option"

text \<open>Decoding what was encoded from the same struct gives the struct back.\<close>

definition extern_ok :: "extern \<Rightarrow> bool" where
  "extern_ok X \<longleftrightarrow>
     (\<forall>b. x_as_balance X (OBalance b) = Some b) \<and> (\<forall>p. x_as_pool X (OPool p) = Some p) \<and>
     (\<forall>v. x_as_vault X (OVault v) = Some v) \<and> (\<forall>c. x_as_contract X (OContract c) = Some c)"

record u256_ops =
  u_add :: "nat \<Rightarrow> nat \<Rightarrow> nat option"
  u_sub :: "nat \<Rightarrow> nat \<Rightarrow> nat option"
  u_mul :: "nat \<Rightarrow> nat \<Rightarrow> nat option"
  u_div :: "nat \<Rightarrow> nat \<Rightarrow> nat option"

definition u256_ok :: "u256_ops \<Rightarrow> bool" where
  "u256_ok U \<longleftrightarrow>
     (\<forall>a b. u_add U a b = (if a + b < 2 ^ 256 then Some (a + b) else None)) \<and>
     (\<forall>a b. u_sub U a b = (if b \<le> a then Some (a - b) else None)) \<and>
     (\<forall>a b. u_mul U a b = (if a * b < 2 ^ 256 then Some (a * b) else None)) \<and>
     (\<forall>a b. u_div U a b = (if b = 0 then None else Some (a div b)))"

section \<open>The trait\<close>

fun obj_meta :: "obj \<Rightarrow> object_meta" where
  "obj_meta (OWallet w) = wo_meta w"
| "obj_meta (OBalance b) = bo_meta b"
| "obj_meta (OToken t) = to_meta t"
| "obj_meta (OPool p) = lp_meta p"
| "obj_meta (OVault v) = vo_meta v"
| "obj_meta (OProposal g) = gp_meta g"
| "obj_meta (OIdentity i) = io_meta i"
| "obj_meta (OReceipt r) = er_meta r"
| "obj_meta (OContract c) = co_meta c"

text \<open>Writing through \<^verbatim>\<open>meta_mut()\<close>.\<close>

fun obj_meta_mut :: "(object_meta \<Rightarrow> object_meta) \<Rightarrow> obj \<Rightarrow> obj" where
  "obj_meta_mut f (OWallet w) = OWallet (w\<lparr>wo_meta := f (wo_meta w)\<rparr>)"
| "obj_meta_mut f (OBalance b) = OBalance (b\<lparr>bo_meta := f (bo_meta b)\<rparr>)"
| "obj_meta_mut f (OToken t) = OToken (t\<lparr>to_meta := f (to_meta t)\<rparr>)"
| "obj_meta_mut f (OPool p) = OPool (p\<lparr>lp_meta := f (lp_meta p)\<rparr>)"
| "obj_meta_mut f (OVault v) = OVault (v\<lparr>vo_meta := f (vo_meta v)\<rparr>)"
| "obj_meta_mut f (OProposal g) = OProposal (g\<lparr>gp_meta := f (gp_meta g)\<rparr>)"
| "obj_meta_mut f (OIdentity i) = OIdentity (i\<lparr>io_meta := f (io_meta i)\<rparr>)"
| "obj_meta_mut f (OReceipt r) = OReceipt (r\<lparr>er_meta := f (er_meta r)\<rparr>)"
| "obj_meta_mut f (OContract c) = OContract (c\<lparr>co_meta := f (co_meta c)\<rparr>)"

fun obj_object_type :: "obj \<Rightarrow> object_type" where
  "obj_object_type (OWallet _) = TWallet"
| "obj_object_type (OBalance _) = TBalance"
| "obj_object_type (OToken _) = TToken"
| "obj_object_type (OPool _) = TLiquidityPool"
| "obj_object_type (OVault _) = TVault"
| "obj_object_type (OProposal _) = TGovernanceProposal"
| "obj_object_type (OIdentity _) = TIdentity"
| "obj_object_type (OReceipt _) = TExecutionReceipt"
| "obj_object_type (OContract c) = TContract (co_schema_id c)"

fun required_capabilities_for_write :: "obj \<Rightarrow> capability list" where
  "required_capabilities_for_write (OWallet _) = [WriteObject]"
| "required_capabilities_for_write (OBalance _) = [TransferAsset]"
| "required_capabilities_for_write (OToken _) = [MintAsset, BurnAsset]"
| "required_capabilities_for_write (OPool _) = [ProvideLiquidity]"
| "required_capabilities_for_write (OVault _) = [WriteObject]"
| "required_capabilities_for_write (OProposal _) = [ModifyGovernance]"
| "required_capabilities_for_write (OIdentity _) = [UpdateIdentity]"
| "required_capabilities_for_write (OReceipt _) = [WriteObject]"
| "required_capabilities_for_write (OContract c) = [WriteObject, ContractCallCap (co_schema_id c)]"

definition obj_encode :: "extern \<Rightarrow> obj \<Rightarrow> bytes" where
  "obj_encode X x = x_bincode X x"

text \<open>\<^verbatim>\<open>CapabilityChecker::check_object_write\<close>\<close>

definition check_object_write :: "capability_set \<Rightarrow> obj \<Rightarrow> runtime_error + unit" where
  "check_object_write held x =
     (if WriteObject \<notin> held then Inl (UnauthorizedCapability WriteObject held)
      else caps_check held (required_capabilities_for_write x))"

section \<open>Contract objects\<close>

definition contract_new ::
  "extern \<Rightarrow> object_id \<Rightarrow> bytes32 \<Rightarrow> schema_id \<Rightarrow> bytes \<Rightarrow> u64 \<Rightarrow> u64 \<Rightarrow> contract_object" where
  "contract_new X i owner schema initial max_bytes now =
     \<lparr>co_meta = object_meta_new i (TContract schema) owner now, co_schema_id = schema,
      co_state = initial, co_state_hash = x_sha256 X initial, co_created_by = owner,
      co_admin = Some owner, co_max_state_bytes = max_bytes\<rparr>"

definition contract_set_state :: "extern \<Rightarrow> bytes \<Rightarrow> contract_object \<Rightarrow> contract_object" where
  "contract_set_state X st c = c\<lparr>co_state_hash := x_sha256 X st, co_state := st\<rparr>"

definition contract_state_size :: "contract_object \<Rightarrow> u64" where
  "contract_state_size c = of_nat (length (co_state c))"

section \<open>The pool's own price function\<close>

text \<open>\<^verbatim>\<open>LiquidityPoolObject::compute_output\<close>; \<open>None\<close> is a panic of the 256-bit arithmetic.\<close>

definition compute_output ::
  "u256_ops \<Rightarrow> liquidity_pool_object \<Rightarrow> u128 \<Rightarrow> bool \<Rightarrow> u128 option" where
  "compute_output U p input_amount input_is_a =
     (let reserve_in = (if input_is_a then lp_reserve_a p else lp_reserve_b p);
          reserve_out = (if input_is_a then lp_reserve_b p else lp_reserve_a p);
          input = unat input_amount; r_in = unat reserve_in; r_out = unat reserve_out;
          fee = unat (lp_fee_bps p); scale = 10000
      in do {
        fee_factor \<leftarrow> u_sub U scale fee;
        scaled \<leftarrow> u_mul U input fee_factor;
        numerator \<leftarrow> u_mul U scaled r_out;
        base \<leftarrow> u_mul U r_in scale;
        scaled' \<leftarrow> u_mul U input fee_factor;
        denominator \<leftarrow> u_add U base scaled';
        if denominator = 0 then Some 0
        else do {
          result \<leftarrow> u_div U numerator denominator;
          Some (if result > unat (- 1 :: u128) then - 1 else of_nat result)
        }
      })"

section \<open>A concrete instance of the parameters\<close>

text \<open>Shows that \<open>extern_ok\<close> and \<open>u256_ok\<close> can hold; used by the witnesses only.\<close>

definition extern_std :: extern where
  "extern_std =
     \<lparr>x_sha256 = (\<lambda>bs. of_nat (foldl (\<lambda>h b. 257 * h + unat b + 1) 7 bs)),
      x_bincode = (\<lambda>x. [word_of_nat (unat (om_version (obj_meta x)))]),
      x_as_balance = (\<lambda>x. case x of OBalance b \<Rightarrow> Some b | _ \<Rightarrow> None),
      x_as_pool = (\<lambda>x. case x of OPool p \<Rightarrow> Some p | _ \<Rightarrow> None),
      x_as_vault = (\<lambda>x. case x of OVault v \<Rightarrow> Some v | _ \<Rightarrow> None),
      x_as_contract = (\<lambda>x. case x of OContract c \<Rightarrow> Some c | _ \<Rightarrow> None)\<rparr>"

definition u256_std :: u256_ops where
  "u256_std =
     \<lparr>u_add = (\<lambda>a b. if a + b < 2 ^ 256 then Some (a + b) else None),
      u_sub = (\<lambda>a b. if b \<le> a then Some (a - b) else None),
      u_mul = (\<lambda>a b. if a * b < 2 ^ 256 then Some (a * b) else None),
      u_div = (\<lambda>a b. if b = 0 then None else Some (a div b))\<rparr>"

section \<open>Lemmas\<close>

lemma extern_std_ok [simp]: "extern_ok extern_std"
  by (simp add: extern_ok_def extern_std_def)

lemma u256_std_ok [simp]: "u256_ok u256_std"
  by (simp add: u256_ok_def u256_std_def)

lemma obj_meta_meta_mut [simp]: "obj_meta (obj_meta_mut f x) = f (obj_meta x)"
  by (cases x) simp_all

lemma obj_object_type_meta_mut [simp]: "obj_object_type (obj_meta_mut f x) = obj_object_type x"
  by (cases x) simp_all

lemma unat_bo_available [machine_simps]:
  "unat (bo_available b) = unat (bo_amount b) - unat (bo_locked_amount b)"
  by (simp add: bo_available_def machine_simps)

lemma bo_available_ge_iff:
  "amount \<le> bo_available b \<longleftrightarrow> unat amount \<le> unat (bo_amount b) - unat (bo_locked_amount b)"
  by (simp add: word_le_nat_alt machine_simps)

lemma check_object_write_ok_iff:
  "check_object_write held x = Inr u \<longleftrightarrow>
     WriteObject \<in> held \<and> set (required_capabilities_for_write x) \<subseteq> held"
  by (auto simp: check_object_write_def caps_check_ok_iff)

lemma contract_set_state_hash: "co_state_hash (contract_set_state X st c) = x_sha256 X (co_state (contract_set_state X st c))"
  by (simp add: contract_set_state_def)

end
