(* ===== verification/Store.thy ===== *)
theory Store
  imports Objects
begin

text \<open>
  The in-memory object store, \<^verbatim>\<open>runtime/src/state/store.rs\<close>: one canonical map of all
  objects and three typed overlays (balances, pools, vaults) that settlement mutates.
  A mutable accessor \<^verbatim>\<open>get_..._mut\<close> takes the mutation as an argument and returns the
  store with it applied, or \<open>None\<close> where the code gets \<^verbatim>\<open>None\<close>.

  \<open>store_ok\<close> is the invariant the source states in a comment: the overlays and the canonical map
  agree on which ids hold a balance, a pool or a vault. \<open>synced\<close> says that they also agree on
  the values.
\<close>

section \<open>State\<close>

record object_store =
  st_objects :: "(object_id, obj) btree"
  st_balances :: "(object_id, balance_object) btree"
  st_pools :: "(object_id, liquidity_pool_object) btree"
  st_vaults :: "(object_id, vault_object) btree"

definition store_new :: object_store where
  "store_new = \<lparr>st_objects = [], st_balances = [], st_pools = [], st_vaults = []\<rparr>"

section \<open>Insert and remove\<close>

text \<open>\<^verbatim>\<open>insert\<close>: the \<^verbatim>\<open>expect\<close> on the decoded copy is the \<open>None\<close> case.\<close>

definition store_insert :: "extern \<Rightarrow> obj \<Rightarrow> object_store \<Rightarrow> object_store option" where
  "store_insert X x s =
     (let i = om_id (obj_meta x) in
      case (case obj_object_type x of
              TBalance \<Rightarrow>
                map_option (\<lambda>b. s\<lparr>st_balances := bt_put i b (st_balances s)\<rparr>) (x_as_balance X x)
            | TLiquidityPool \<Rightarrow>
                map_option (\<lambda>p. s\<lparr>st_pools := bt_put i p (st_pools s)\<rparr>) (x_as_pool X x)
            | TVault \<Rightarrow>
                map_option (\<lambda>v. s\<lparr>st_vaults := bt_put i v (st_vaults s)\<rparr>) (x_as_vault X x)
            | _ \<Rightarrow> Some s)
      of None \<Rightarrow> None
       | Some s' \<Rightarrow> Some (s'\<lparr>st_objects := bt_put i x (st_objects s')\<rparr>))"

definition store_remove :: "object_id \<Rightarrow> object_store \<Rightarrow> object_store \<times> obj option" where
  "store_remove i s =
     (s\<lparr>st_balances := bt_del i (st_balances s), st_pools := bt_del i (st_pools s),
        st_vaults := bt_del i (st_vaults s), st_objects := bt_del i (st_objects s)\<rparr>,
      bt_get (st_objects s) i)"

section \<open>Type-erased access\<close>

definition store_get :: "object_store \<Rightarrow> object_id \<Rightarrow> obj option" where
  "store_get s i = bt_get (st_objects s) i"

definition store_get_mut :: "object_id \<Rightarrow> (obj \<Rightarrow> obj) \<Rightarrow> object_store \<Rightarrow> object_store option" where
  "store_get_mut i f s =
     (case bt_get (st_objects s) i of None \<Rightarrow> None
      | Some _ \<Rightarrow> Some (s\<lparr>st_objects := bt_adjust i f (st_objects s)\<rparr>))"

definition find_by_type :: "object_store \<Rightarrow> object_type \<Rightarrow> obj list" where
  "find_by_type s t = filter (\<lambda>x. obj_object_type x = t) (bt_values (st_objects s))"

section \<open>Balances\<close>

definition balance_is :: "bytes32 \<Rightarrow> bytes32 \<Rightarrow> balance_object \<Rightarrow> bool" where
  "balance_is owner asset b \<longleftrightarrow> bo_owner b = owner \<and> bo_asset_id b = asset"

definition find_balance :: "object_store \<Rightarrow> bytes32 \<Rightarrow> bytes32 \<Rightarrow> balance_object option" where
  "find_balance s owner asset = find (balance_is owner asset) (bt_values (st_balances s))"

definition find_balance_mut ::
  "bytes32 \<Rightarrow> bytes32 \<Rightarrow> (balance_object \<Rightarrow> balance_object) \<Rightarrow> object_store \<Rightarrow> object_store option" where
  "find_balance_mut owner asset f s =
     (case find_balance s owner asset of None \<Rightarrow> None
      | Some _ \<Rightarrow>
          Some (s\<lparr>st_balances := bt_adjust_first (balance_is owner asset) f (st_balances s)\<rparr>))"

definition get_balance_by_id :: "object_store \<Rightarrow> object_id \<Rightarrow> balance_object option" where
  "get_balance_by_id s i = bt_get (st_balances s) i"

definition get_balance_by_id_mut ::
  "object_id \<Rightarrow> (balance_object \<Rightarrow> balance_object) \<Rightarrow> object_store \<Rightarrow> object_store option" where
  "get_balance_by_id_mut i f s =
     (case bt_get (st_balances s) i of None \<Rightarrow> None
      | Some _ \<Rightarrow> Some (s\<lparr>st_balances := bt_adjust i f (st_balances s)\<rparr>))"

section \<open>Pools and vaults\<close>

definition pool_trades :: "bytes32 \<Rightarrow> bytes32 \<Rightarrow> liquidity_pool_object \<Rightarrow> bool" where
  "pool_trades a b p \<longleftrightarrow>
     (lp_asset_a p = a \<and> lp_asset_b p = b) \<or> (lp_asset_a p = b \<and> lp_asset_b p = a)"

definition find_pool :: "object_store \<Rightarrow> bytes32 \<Rightarrow> bytes32 \<Rightarrow> liquidity_pool_object option" where
  "find_pool s a b = find (pool_trades a b) (bt_values (st_pools s))"

definition find_pool_mut ::
  "bytes32 \<Rightarrow> bytes32 \<Rightarrow> (liquidity_pool_object \<Rightarrow> liquidity_pool_object) \<Rightarrow> object_store
     \<Rightarrow> object_store option" where
  "find_pool_mut a b f s =
     (case find_pool s a b of None \<Rightarrow> None
      | Some _ \<Rightarrow> Some (s\<lparr>st_pools := bt_adjust_first (pool_trades a b) f (st_pools s)\<rparr>))"

definition get_pool_by_id :: "object_store \<Rightarrow> object_id \<Rightarrow> liquidity_pool_object option" where
  "get_pool_by_id s i = bt_get (st_pools s) i"

definition get_pool_by_id_mut ::
  "object_id \<Rightarrow> (liquidity_pool_object \<Rightarrow> liquidity_pool_object) \<Rightarrow> object_store
     \<Rightarrow> object_store option" where
  "get_pool_by_id_mut i f s =
     (case bt_get (st_pools s) i of None \<Rightarrow> None
      | Some _ \<Rightarrow> Some (s\<lparr>st_pools := bt_adjust i f (st_pools s)\<rparr>))"

definition get_vault :: "object_store \<Rightarrow> object_id \<Rightarrow> vault_object option" where
  "get_vault s i = bt_get (st_vaults s) i"

definition get_vault_mut ::
  "object_id \<Rightarrow> (vault_object \<Rightarrow> vault_object) \<Rightarrow> object_store \<Rightarrow> object_store option" where
  "get_vault_mut i f s =
     (case bt_get (st_vaults s) i of None \<Rightarrow> None
      | Some _ \<Rightarrow> Some (s\<lparr>st_vaults := bt_adjust i f (st_vaults s)\<rparr>))"

section \<open>Sync and state root\<close>

text \<open>One overlay written back: ids in key order, only where the canonical map has the id.\<close>

definition sync_overlay ::
  "('v \<Rightarrow> obj) \<Rightarrow> (object_id, 'v) btree \<Rightarrow> (object_id, obj) btree \<Rightarrow> (object_id, obj) btree" where
  "sync_overlay wrap overlay objects =
     fold (\<lambda>e os. if bt_has os (fst e) then bt_put (fst e) (wrap (snd e)) os else os) overlay objects"

definition sync_typed_to_canonical :: "object_store \<Rightarrow> object_store" where
  "sync_typed_to_canonical s =
     s\<lparr>st_objects :=
         sync_overlay OVault (st_vaults s)
           (sync_overlay OPool (st_pools s) (sync_overlay OBalance (st_balances s) (st_objects s)))\<rparr>"

definition state_root :: "extern \<Rightarrow> object_store \<Rightarrow> bytes32" where
  "state_root X s =
     x_sha256 X (concat (map (\<lambda>(i, x). be_bytes 32 i
       @ le_bytes 8 (of_nat (length (obj_encode X x)) :: u64) @ obj_encode X x) (st_objects s)))"

definition store_len :: "object_store \<Rightarrow> usize" where
  "store_len s = length (st_objects s)"

definition store_is_empty :: "object_store \<Rightarrow> bool" where
  "store_is_empty s = (st_objects s = [])"

section \<open>Invariant\<close>

datatype overlay_kind = KBalance | KPool | KVault | KNone

fun obj_kind :: "obj \<Rightarrow> overlay_kind" where
  "obj_kind (OBalance _) = KBalance"
| "obj_kind (OPool _) = KPool"
| "obj_kind (OVault _) = KVault"
| "obj_kind _ = KNone"

text \<open>The overlay of one kind holds exactly the ids of that kind, each under its own id.\<close>

definition overlay_ok ::
  "overlay_kind \<Rightarrow> ('v \<Rightarrow> object_meta) \<Rightarrow> (object_id, 'v) btree \<Rightarrow> (object_id, obj) btree \<Rightarrow> bool" where
  "overlay_ok k meta overlay objects \<longleftrightarrow>
     bt_ok overlay \<and> (\<forall>i v. bt_get overlay i = Some v \<longrightarrow> om_id (meta v) = i) \<and>
     (\<forall>i. bt_get overlay i \<noteq> None \<longleftrightarrow> (\<exists>x. bt_get objects i = Some x \<and> obj_kind x = k))"

definition store_ok :: "object_store \<Rightarrow> bool" where
  "store_ok s \<longleftrightarrow>
     bt_ok (st_objects s) \<and>
     (\<forall>i x. bt_get (st_objects s) i = Some x \<longrightarrow> om_id (obj_meta x) = i) \<and>
     overlay_ok KBalance bo_meta (st_balances s) (st_objects s) \<and>
     overlay_ok KPool lp_meta (st_pools s) (st_objects s) \<and>
     overlay_ok KVault vo_meta (st_vaults s) (st_objects s)"

definition synced :: "object_store \<Rightarrow> bool" where
  "synced s \<longleftrightarrow>
     (\<forall>i b. bt_get (st_balances s) i = Some b \<longrightarrow> bt_get (st_objects s) i = Some (OBalance b)) \<and>
     (\<forall>i p. bt_get (st_pools s) i = Some p \<longrightarrow> bt_get (st_objects s) i = Some (OPool p)) \<and>
     (\<forall>i v. bt_get (st_vaults s) i = Some v \<longrightarrow> bt_get (st_objects s) i = Some (OVault v))"

text \<open>An insert replaces an object of another overlay kind by none: the id is free or keeps its kind.\<close>

definition insert_compatible :: "object_store \<Rightarrow> obj \<Rightarrow> bool" where
  "insert_compatible s x \<longleftrightarrow>
     (case store_get s (om_id (obj_meta x)) of None \<Rightarrow> True
      | Some old \<Rightarrow> obj_kind old = KNone \<or> obj_kind old = obj_kind x)"

text \<open>The total amount of an asset held in balances.\<close>

definition asset_weight :: "bytes32 \<Rightarrow> balance_object \<Rightarrow> nat" where
  "asset_weight asset b = (if bo_asset_id b = asset then unat (bo_amount b) else 0)"

definition asset_supply :: "bytes32 \<Rightarrow> object_store \<Rightarrow> nat" where
  "asset_supply asset s = bt_total (asset_weight asset) (st_balances s)"


section \<open>Lemmas: kinds and lookups\<close>

lemma obj_kind_simps:
  "obj_kind x = KBalance \<longleftrightarrow> (\<exists>b. x = OBalance b)"
  "obj_kind x = KPool \<longleftrightarrow> (\<exists>p. x = OPool p)"
  "obj_kind x = KVault \<longleftrightarrow> (\<exists>v. x = OVault v)"
  by (cases x; simp)+

lemma obj_kind_meta_mut [simp]: "obj_kind (obj_meta_mut f x) = obj_kind x"
  by (cases x) simp_all

lemmas store_access_defs =
  store_get_def store_get_mut_def get_balance_by_id_def get_balance_by_id_mut_def
  get_pool_by_id_def get_pool_by_id_mut_def get_vault_def get_vault_mut_def

lemma store_ok_bt [simp]:
  assumes "store_ok s"
  shows "bt_ok (st_objects s)" "bt_ok (st_balances s)" "bt_ok (st_pools s)" "bt_ok (st_vaults s)"
  using assms unfolding store_ok_def overlay_ok_def by blast+

lemma store_ok_ids:
  assumes "store_ok s"
  shows "bt_get (st_objects s) i = Some x \<Longrightarrow> om_id (obj_meta x) = i"
    and "bt_get (st_balances s) i = Some b \<Longrightarrow> om_id (bo_meta b) = i"
    and "bt_get (st_pools s) i = Some p \<Longrightarrow> om_id (lp_meta p) = i"
    and "bt_get (st_vaults s) i = Some v \<Longrightarrow> om_id (vo_meta v) = i"
  using assms unfolding store_ok_def overlay_ok_def by blast+

lemma store_ok_kind:
  assumes "store_ok s"
  shows "bt_get (st_balances s) i \<noteq> None \<longleftrightarrow> (\<exists>b. bt_get (st_objects s) i = Some (OBalance b))"
    and "bt_get (st_pools s) i \<noteq> None \<longleftrightarrow> (\<exists>p. bt_get (st_objects s) i = Some (OPool p))"
    and "bt_get (st_vaults s) i \<noteq> None \<longleftrightarrow> (\<exists>v. bt_get (st_objects s) i = Some (OVault v))"
proof -
  have ok: "overlay_ok KBalance bo_meta (st_balances s) (st_objects s)"
    "overlay_ok KPool lp_meta (st_pools s) (st_objects s)"
    "overlay_ok KVault vo_meta (st_vaults s) (st_objects s)"
    using assms by (simp_all add: store_ok_def)
  show "bt_get (st_balances s) i \<noteq> None \<longleftrightarrow> (\<exists>b. bt_get (st_objects s) i = Some (OBalance b))"
    using ok(1) unfolding overlay_ok_def obj_kind_simps by blast
  show "bt_get (st_pools s) i \<noteq> None \<longleftrightarrow> (\<exists>p. bt_get (st_objects s) i = Some (OPool p))"
    using ok(2) unfolding overlay_ok_def obj_kind_simps by blast
  show "bt_get (st_vaults s) i \<noteq> None \<longleftrightarrow> (\<exists>v. bt_get (st_objects s) i = Some (OVault v))"
    using ok(3) unfolding overlay_ok_def obj_kind_simps by blast
qed

lemma find_balance_SomeD:
  assumes "find_balance s owner asset = Some b" and "store_ok s"
  shows "get_balance_by_id s (om_id (bo_meta b)) = Some b \<and> bo_owner b = owner \<and> bo_asset_id b = asset"
proof -
  have "balance_is owner asset b" "b \<in> set (bt_values (st_balances s))"
    using bt_find_value_in [OF assms(1) [unfolded find_balance_def]] by simp_all
  moreover obtain i where "bt_get (st_balances s) i = Some b"
    using calculation(2) assms(2) by (auto simp: bt_values_in)
  ultimately show ?thesis
    using store_ok_ids(2) [OF assms(2)] by (auto simp: balance_is_def get_balance_by_id_def)
qed

lemma find_pool_SomeD:
  assumes "find_pool s a b = Some p" and "store_ok s"
  shows "get_pool_by_id s (om_id (lp_meta p)) = Some p \<and> pool_trades a b p"
proof -
  have "pool_trades a b p" "p \<in> set (bt_values (st_pools s))"
    using bt_find_value_in [OF assms(1) [unfolded find_pool_def]] by simp_all
  moreover obtain i where "bt_get (st_pools s) i = Some p"
    using calculation(2) assms(2) by (auto simp: bt_values_in)
  ultimately show ?thesis
    using store_ok_ids(3) [OF assms(2)] by (auto simp: get_pool_by_id_def)
qed

lemma find_pool_commute: "find_pool s a b = find_pool s b a"
proof -
  have "pool_trades a b = pool_trades b a" by (auto simp: fun_eq_iff pool_trades_def)
  then show ?thesis by (simp add: find_pool_def)
qed

section \<open>Lemmas: overlays and the invariant\<close>

lemma overlay_ok_insert:
  assumes "overlay_ok k meta ov os" and "obj_kind x = k \<Longrightarrow> om_id (meta v) = i"
    and "\<And>y. bt_get os i = Some y \<Longrightarrow> obj_kind y = k \<Longrightarrow> obj_kind x = k"
  shows "overlay_ok k meta (if obj_kind x = k then bt_put i v ov else ov) (bt_put i x os)"
  using assms by (auto simp: overlay_ok_def map_simps bt_put_ok)

lemma overlay_ok_replace:
  assumes "overlay_ok k meta ov os" and "bt_get os i = Some y" and "obj_kind x = obj_kind y"
  shows "overlay_ok k meta ov (bt_put i x os)"
  using assms by (auto simp: overlay_ok_def map_simps)

lemma overlay_ok_adjust_objects:
  assumes "overlay_ok k meta ov os" and "\<And>x. obj_kind (f x) = obj_kind x"
  shows "overlay_ok k meta ov (bt_adjust i f os)"
  using assms by (auto simp: overlay_ok_def map_simps)

lemma overlay_ok_adjust:
  assumes "overlay_ok k meta ov os" and "\<And>v. om_id (meta (f v)) = om_id (meta v)"
  shows "overlay_ok k meta (bt_adjust i f ov) os"
  using assms by (auto simp: overlay_ok_def map_simps bt_adjust_ok)

lemma overlay_ok_del: "overlay_ok k meta ov os \<Longrightarrow> overlay_ok k meta (bt_del i ov) (bt_del i os)"
  by (auto simp: overlay_ok_def map_simps bt_del_ok)

lemma store_new_ok: "store_ok store_new"
  by (simp add: store_ok_def store_new_def overlay_ok_def)

lemma store_remove_ok: "store_ok s \<Longrightarrow> store_ok (fst (store_remove i s))"
  by (auto simp: store_ok_def store_remove_def overlay_ok_del bt_del_ok map_simps)

lemma store_insert_total: "extern_ok X \<Longrightarrow> \<exists>s'. store_insert X x s = Some s'"
  by (cases x) (auto simp: store_insert_def extern_ok_def Let_def)

lemma store_insert_get:
  "store_insert X x s = Some s' \<Longrightarrow>
     store_get s' i = (if i = om_id (obj_meta x) then Some x else store_get s i)"
  by (auto simp: store_insert_def store_get_def map_simps Let_def split: option.splits object_type.splits)

lemma store_insert_objects:
  "store_insert X x s = Some s' \<Longrightarrow> st_objects s' = bt_put (om_id (obj_meta x)) x (st_objects s)"
  by (auto simp: store_insert_def Let_def split: option.splits object_type.splits)

lemma store_insert_overlays:
  assumes "extern_ok X" "store_insert X x s = Some s'"
  defines "i \<equiv> om_id (obj_meta x)"
  shows "st_balances s' = (if obj_kind x = KBalance then bt_put i (the (x_as_balance X x)) (st_balances s) else st_balances s)"
    "st_pools s' = (if obj_kind x = KPool then bt_put i (the (x_as_pool X x)) (st_pools s) else st_pools s)"
    "st_vaults s' = (if obj_kind x = KVault then bt_put i (the (x_as_vault X x)) (st_vaults s) else st_vaults s)"
  using assms by (cases x; auto simp: store_insert_def extern_ok_def Let_def)+
lemma store_insert_preserves_ok:
  assumes "store_ok s" and "extern_ok X" and "insert_compatible s x" and "store_insert X x s = Some s'"
  shows "store_ok s'"
proof -
  let ?i = "om_id (obj_meta x)"
  have kind: "bt_get (st_objects s) ?i = Some y \<Longrightarrow> obj_kind y = k \<Longrightarrow> k \<noteq> KNone \<Longrightarrow> obj_kind x = k" for y k
    using assms(3) by (auto simp: insert_compatible_def store_get_def)
  note ov = overlay_ok_insert [OF _ _ kind]
  note s = store_insert_objects [OF assms(4)] store_insert_overlays [OF assms(2,4)]
  have ids: "obj_kind x = KBalance \<Longrightarrow> om_id (bo_meta (the (x_as_balance X x))) = ?i"
    "obj_kind x = KPool \<Longrightarrow> om_id (lp_meta (the (x_as_pool X x))) = ?i"
    "obj_kind x = KVault \<Longrightarrow> om_id (vo_meta (the (x_as_vault X x))) = ?i"
    using assms(2) by (cases x; simp add: extern_ok_def)+
  have "overlay_ok KBalance bo_meta (st_balances s') (st_objects s')" "overlay_ok KPool lp_meta (st_pools s') (st_objects s')"
    "overlay_ok KVault vo_meta (st_vaults s') (st_objects s')"
    using assms(1) unfolding s by (intro ov ids; simp add: store_ok_def)+
  moreover have "bt_ok (st_objects s')" "\<forall>i y. bt_get (st_objects s') i = Some y \<longrightarrow> om_id (obj_meta y) = i"
    using assms(1) unfolding s by (simp_all add: store_ok_def bt_put_ok map_simps)
  ultimately show ?thesis by (simp add: store_ok_def)
qed

lemma get_balance_by_id_mut_ok:
  "store_ok s \<Longrightarrow> get_balance_by_id_mut i f s = Some s' \<Longrightarrow> (\<And>b. om_id (bo_meta (f b)) = om_id (bo_meta b))
     \<Longrightarrow> store_ok s'"
  by (auto simp: get_balance_by_id_mut_def store_ok_def overlay_ok_adjust split: option.splits)

lemma get_pool_by_id_mut_ok:
  "store_ok s \<Longrightarrow> get_pool_by_id_mut i f s = Some s' \<Longrightarrow> (\<And>p. om_id (lp_meta (f p)) = om_id (lp_meta p))
     \<Longrightarrow> store_ok s'"
  by (auto simp: get_pool_by_id_mut_def store_ok_def overlay_ok_adjust split: option.splits)

lemma get_vault_mut_ok:
  "store_ok s \<Longrightarrow> get_vault_mut i f s = Some s' \<Longrightarrow> (\<And>v. om_id (vo_meta (f v)) = om_id (vo_meta v))
     \<Longrightarrow> store_ok s'"
  by (auto simp: get_vault_mut_def store_ok_def overlay_ok_adjust split: option.splits)

lemma store_get_mut_ok:
  assumes "store_ok s" and "store_get_mut i f s = Some s'"
    and "\<And>x. obj_kind (f x) = obj_kind x" and "\<And>x. om_id (obj_meta (f x)) = om_id (obj_meta x)"
  shows "store_ok s'"
proof -
  have s': "s' = s\<lparr>st_objects := bt_adjust i f (st_objects s)\<rparr>"
    using assms(2) by (auto simp: store_get_mut_def split: option.splits)
  show ?thesis
    using assms(1,3,4) unfolding s'
    by (auto simp: store_ok_def bt_adjust_ok map_simps overlay_ok_adjust_objects)
qed

lemma find_balance_mut_adjust:
  assumes "store_ok s" and "find_balance_mut owner asset f s = Some s'"
  shows "\<exists>b. find_balance s owner asset = Some b \<and>
     get_balance_by_id_mut (om_id (bo_meta b)) f s = Some s'"
proof -
  obtain b where b: "find_balance s owner asset = Some b"
    and s': "s' = s\<lparr>st_balances := bt_adjust_first (balance_is owner asset) f (st_balances s)\<rparr>"
    using assms(2) by (auto simp: find_balance_mut_def split: option.splits)
  note ok = store_ok_bt(2) [OF assms(1)] store_ok_ids(2) [OF assms(1)]
  obtain k where "bt_get (st_balances s) k = Some b"
    "bt_adjust_first (balance_is owner asset) f (st_balances s) = bt_adjust k f (st_balances s)"
    using bt_adjust_first_as_adjust [OF ok(1)] b unfolding find_balance_def by blast
  with ok(2) have "get_balance_by_id_mut (om_id (bo_meta b)) f s = Some s'"
    by (simp add: get_balance_by_id_mut_def s')
  with b show ?thesis by blast
qed

section \<open>Lemmas: sync\<close>

lemma sync_overlay_get:
  "bt_ok ov \<Longrightarrow> bt_get (sync_overlay wrap ov os) i =
     (case bt_get ov i of None \<Rightarrow> bt_get os i
      | Some v \<Rightarrow> if bt_has os i then Some (wrap v) else None)"
proof (induction ov arbitrary: os)
  case Nil
  then show ?case by (simp add: sync_overlay_def)
next
  case (Cons e ov)
  obtain a v where e: "e = (a, v)" by fastforce
  let ?os = "if bt_has os a then bt_put a (wrap v) os else os"
  have step: "sync_overlay wrap (e # ov) os = sync_overlay wrap ov ?os"
    by (simp add: sync_overlay_def e)
  have fresh: "bt_get ov a = None"
    using Cons.prems by (auto simp: e bt_ok_Cons bt_get_None_iff)
  have IH: "bt_get (sync_overlay wrap ov ?os) i =
      (case bt_get ov i of None \<Rightarrow> bt_get ?os i
       | Some v \<Rightarrow> if bt_has ?os i then Some (wrap v) else None)"
    using Cons.IH Cons.prems by (simp add: bt_ok_Cons)
  show ?case
    unfolding step IH using fresh
    by (auto simp: e bt_get_Cons bt_has_def map_simps split: option.splits)
qed

lemma sync_overlay_ok: "bt_ok os \<Longrightarrow> bt_ok (sync_overlay wrap ov os)"
  unfolding sync_overlay_def by (induction ov arbitrary: os) (auto simp: bt_put_ok)

text \<open>What the canonical map holds after a sync: the overlay's value for a typed id.\<close>

lemma sync_get:
  assumes "store_ok s"
  shows "store_get (sync_typed_to_canonical s) i =
    (case get_balance_by_id s i of Some b \<Rightarrow> Some (OBalance b)
     | None \<Rightarrow> (case get_pool_by_id s i of Some p \<Rightarrow> Some (OPool p)
     | None \<Rightarrow> (case get_vault s i of Some v \<Rightarrow> Some (OVault v) | None \<Rightarrow> store_get s i)))"
proof -
  note kinds = store_ok_kind [OF assms, of i]
  have eq: "store_get (sync_typed_to_canonical s) i =
      (case bt_get (st_vaults s) i of
         None \<Rightarrow> (case bt_get (st_pools s) i of
           None \<Rightarrow> (case bt_get (st_balances s) i of
             None \<Rightarrow> bt_get (st_objects s) i
           | Some b \<Rightarrow> if bt_has (st_objects s) i then Some (OBalance b) else None)
         | Some p \<Rightarrow> Some (OPool p))
       | Some v \<Rightarrow> Some (OVault v))"
    using assms kinds
    by (auto simp: sync_typed_to_canonical_def store_get_def sync_overlay_get bt_has_def
        split: option.splits)
  show ?thesis
    unfolding eq using kinds
    by (auto simp: get_balance_by_id_def get_pool_by_id_def get_vault_def store_get_def bt_has_def
        split: option.splits)
qed

lemma sync_frame [simp]:
  "st_balances (sync_typed_to_canonical s) = st_balances s"
  "st_pools (sync_typed_to_canonical s) = st_pools s"
  "st_vaults (sync_typed_to_canonical s) = st_vaults s"
  by (simp_all add: sync_typed_to_canonical_def)

lemma overlay_ok_same_kinds:
  assumes "overlay_ok k meta ov os"
    and "\<And>i. map_option obj_kind (bt_get os' i) = map_option obj_kind (bt_get os i)"
  shows "overlay_ok k meta ov os'"
proof -
  have "(\<exists>x. bt_get os' i = Some x \<and> obj_kind x = k) \<longleftrightarrow> (\<exists>x. bt_get os i = Some x \<and> obj_kind x = k)" for i
    using assms(2) [of i] by (cases "bt_get os i"; cases "bt_get os' i") auto
  with assms(1) show ?thesis unfolding overlay_ok_def by simp
qed

lemma sync_kinds:
  assumes "store_ok s"
  shows "map_option obj_kind (bt_get (st_objects (sync_typed_to_canonical s)) i) =
     map_option obj_kind (bt_get (st_objects s) i)"
  using sync_get [OF assms, of i] store_ok_kind [OF assms, of i]
  by (auto simp: store_get_def get_balance_by_id_def get_pool_by_id_def get_vault_def
      split: option.splits)

lemma sync_ids:
  assumes "store_ok s" and "bt_get (st_objects (sync_typed_to_canonical s)) i = Some x"
  shows "om_id (obj_meta x) = i"
  using sync_get [OF assms(1), of i] assms(2) store_ok_ids [OF assms(1), where i = i]
  by (auto simp: store_get_def get_balance_by_id_def get_pool_by_id_def get_vault_def
      split: option.splits)

lemma sync_preserves_ok:
  assumes "store_ok s"
  shows "store_ok (sync_typed_to_canonical s)"
proof -
  have ok: "overlay_ok KBalance bo_meta (st_balances s) (st_objects s)"
    "overlay_ok KPool lp_meta (st_pools s) (st_objects s)"
    "overlay_ok KVault vo_meta (st_vaults s) (st_objects s)"
    using assms by (simp_all add: store_ok_def)
  note ov = overlay_ok_same_kinds [OF _ sync_kinds [OF assms]]
  have "bt_ok (st_objects (sync_typed_to_canonical s))"
    using assms by (simp add: sync_typed_to_canonical_def sync_overlay_ok)
  with sync_ids [OF assms] ov [OF ok(1)] ov [OF ok(2)] ov [OF ok(3)] show ?thesis
    unfolding store_ok_def sync_frame by blast
qed

lemma sync_synced:
  assumes "store_ok s"
  shows "synced (sync_typed_to_canonical s)"
proof -
  have "bt_get (st_objects (sync_typed_to_canonical s)) i = Some (OBalance b)"
    if "bt_get (st_balances s) i = Some b" for i b
    using sync_get [OF assms, of i] that by (simp add: store_get_def get_balance_by_id_def)
  moreover have "bt_get (st_objects (sync_typed_to_canonical s)) i = Some (OPool p)"
    if "bt_get (st_pools s) i = Some p" for i p
    using sync_get [OF assms, of i] store_ok_kind [OF assms, of i] that
    by (auto simp: store_get_def get_balance_by_id_def get_pool_by_id_def split: option.splits)
  moreover have "bt_get (st_objects (sync_typed_to_canonical s)) i = Some (OVault v)"
    if "bt_get (st_vaults s) i = Some v" for i v
    using sync_get [OF assms, of i] store_ok_kind [OF assms, of i] that
    by (auto simp: store_get_def get_balance_by_id_def get_pool_by_id_def get_vault_def
        split: option.splits)
  ultimately show ?thesis unfolding synced_def sync_frame by blast
qed

lemma synced_sync_id:
  assumes "store_ok s" and "synced s"
  shows "sync_typed_to_canonical s = s"
proof -
  have "bt_get (st_objects (sync_typed_to_canonical s)) i = bt_get (st_objects s) i" for i
    using sync_get [OF assms(1), of i] assms(2)
    by (auto simp: synced_def store_get_def get_balance_by_id_def get_pool_by_id_def get_vault_def
        split: option.splits)
  then have "st_objects (sync_typed_to_canonical s) = st_objects s"
    using assms(1) sync_preserves_ok [OF assms(1)] by (intro bt_ext) simp_all
  then show ?thesis by (simp add: sync_typed_to_canonical_def)
qed

section \<open>Concrete stores\<close>

text \<open>A store built by inserting the given objects, for examples and witnesses.\<close>

definition store_of :: "obj list \<Rightarrow> object_store" where
  "store_of xs = fold (\<lambda>x s. the (store_insert extern_std x s)) xs store_new"

lemma fold_insert_ok:
  "store_ok s \<Longrightarrow> \<forall>x \<in> set xs. store_get s (om_id (obj_meta x)) = None \<Longrightarrow>
    distinct (map (\<lambda>x. om_id (obj_meta x)) xs) \<Longrightarrow>
    store_ok (fold (\<lambda>x s. the (store_insert extern_std x s)) xs s)"
proof (induction xs arbitrary: s)
  case (Cons x xs)
  obtain s' where s': "store_insert extern_std x s = Some s'"
    using store_insert_total [OF extern_std_ok] by blast
  have "insert_compatible s x" using Cons.prems(2) by (simp add: insert_compatible_def)
  then have ok: "store_ok s'"
    using store_insert_preserves_ok [OF Cons.prems(1) extern_std_ok _ s'] by simp
  have "\<forall>y \<in> set xs. store_get s' (om_id (obj_meta y)) = None"
    using Cons.prems(2,3) by (auto simp: store_insert_get [OF s'] rev_image_eqI)
  with ok Cons show ?case by (simp add: s')
qed simp

lemma store_of_ok: "distinct (map (\<lambda>x. om_id (obj_meta x)) xs) \<Longrightarrow> store_ok (store_of xs)"
  unfolding store_of_def
  by (rule fold_insert_ok [OF store_new_ok]) (simp_all add: store_get_def store_new_def)

lemmas store_of_eval =
  store_of_def store_insert_def store_new_def extern_std_def balance_new_def liquidity_pool_new_def
  vault_new_def wallet_new_def object_meta_new_def find_balance_def find_pool_def balance_is_def
  pool_trades_def bt_values_def store_get_def get_balance_by_id_def get_pool_by_id_def get_vault_def
  bt_get_def

section \<open>Properties\<close>

text \<open>
  \<^verbatim>\<open>ObjectStore::insert\<close> keeps the store invariant whenever the id is free or keeps its overlay
  kind: it never panics, the inserted object is what the id holds afterwards, every other id is
  unchanged, and the overlays still hold exactly the balances, pools and vaults of the canonical map.
\<close>

theorem insert_keeps_store_invariant:
  assumes "store_ok s" and "extern_ok X" and "insert_compatible s x"
  shows "\<exists>s'. store_insert X x s = Some s' \<and> store_ok s' \<and>
    (\<forall>i. store_get s' i = (if i = om_id (obj_meta x) then Some x else store_get s i))"
  using assms store_insert_total store_insert_preserves_ok store_insert_get by metis

theorem insert_keeps_store_invariant_witness:
  "\<exists>s'. store_insert extern_std (OBalance (balance_new 5 1 9 100 0)) store_new = Some s' \<and> store_ok s' \<and>
    (\<forall>i. store_get s' i = (if i = om_id (obj_meta (OBalance (balance_new 5 1 9 100 0)))
       then Some (OBalance (balance_new 5 1 9 100 0)) else store_get store_new i))"
  by (rule insert_keeps_store_invariant [OF store_new_ok extern_std_ok])
    (simp add: insert_compatible_def store_get_def store_new_def)

text \<open>
  \<^verbatim>\<open>sync_typed_to_canonical\<close> makes the canonical map refine the overlays: afterwards every
  typed id holds its overlay value, untyped objects are untouched, the invariant holds, and a
  second sync changes nothing.
\<close>

theorem sync_makes_overlays_canonical:
  assumes "store_ok s"
  shows "store_ok (sync_typed_to_canonical s) \<and> synced (sync_typed_to_canonical s) \<and>
    sync_typed_to_canonical (sync_typed_to_canonical s) = sync_typed_to_canonical s \<and>
    (\<forall>i x. store_get s i = Some x \<and> obj_kind x = KNone \<longrightarrow>
       store_get (sync_typed_to_canonical s) i = Some x)"
proof -
  have "store_get (sync_typed_to_canonical s) i = Some x"
    if "store_get s i = Some x" "obj_kind x = KNone" for i x
    using sync_get [OF assms, of i] store_ok_kind [OF assms, of i] that
    by (auto simp: store_get_def get_balance_by_id_def get_pool_by_id_def get_vault_def
        split: option.splits)
  then show ?thesis
    using assms sync_preserves_ok sync_synced synced_sync_id by blast
qed

theorem sync_makes_overlays_canonical_witness:
  "store_ok (sync_typed_to_canonical (store_of [OWallet (wallet_new 5 1 1 0)])) \<and>
    synced (sync_typed_to_canonical (store_of [OWallet (wallet_new 5 1 1 0)])) \<and>
    store_get (sync_typed_to_canonical (store_of [OWallet (wallet_new 5 1 1 0)])) 5 =
      Some (OWallet (wallet_new 5 1 1 0))"
proof -
  have ok: "store_ok (store_of [OWallet (wallet_new 5 1 1 0)])" by (rule store_of_ok) simp
  have "store_get (store_of [OWallet (wallet_new 5 1 1 0)]) 5 = Some (OWallet (wallet_new 5 1 1 0))"
    by (simp add: store_of_eval)
  with sync_makes_overlays_canonical [OF ok] show ?thesis by simp
qed

text \<open>
  The comment's invariant is not kept by every insert: inserting a wallet under the id of a
  balance leaves the old balance in its overlay, and the next sync writes the old balance back over
  the wallet.
\<close>

theorem insert_over_balance_is_undone_by_sync:
  assumes "store_ok s" and "get_balance_by_id s i = Some b" and "om_id (wo_meta w) = i"
  shows "\<exists>s'. store_insert X (OWallet w) s = Some s' \<and> store_get s' i = Some (OWallet w) \<and>
    \<not> store_ok s' \<and> store_get (sync_typed_to_canonical s') i = Some (OBalance b)"
proof -
  let ?s = "s\<lparr>st_objects := bt_put i (OWallet w) (st_objects s)\<rparr>"
  have b: "bt_get (st_balances s) i = Some b" using assms(2) by (simp add: get_balance_by_id_def)
  have none: "bt_get (st_pools s) i = None" "bt_get (st_vaults s) i = None"
    using store_ok_kind [OF assms(1), of i] b by auto
  have "store_insert X (OWallet w) s = Some ?s"
    using assms(3) by (simp add: store_insert_def)
  moreover have get: "store_get ?s i = Some (OWallet w)"
    by (simp add: store_get_def map_simps)
  moreover have "\<not> store_ok ?s"
    using store_ok_kind(1) [of ?s i] b get by (auto simp: store_get_def)
  moreover have "store_get (sync_typed_to_canonical ?s) i = Some (OBalance b)"
    using assms(1) b none
    by (simp add: sync_typed_to_canonical_def store_get_def sync_overlay_get bt_has_def map_simps)
  ultimately show ?thesis by blast
qed

theorem insert_over_balance_is_undone_by_sync_witness:
  "\<exists>s s'. store_insert extern_std (OWallet (wallet_new 5 1 1 0)) s = Some s' \<and>
    store_get s' 5 = Some (OWallet (wallet_new 5 1 1 0)) \<and> \<not> store_ok s' \<and>
    store_get (sync_typed_to_canonical s') 5 = Some (OBalance (balance_new 5 1 9 100 0))"
proof -
  let ?b = "balance_new 5 1 9 100 0"
  have c: "insert_compatible store_new (OBalance ?b)"
    by (simp add: insert_compatible_def store_get_def store_new_def)
  obtain s where s1: "store_insert extern_std (OBalance ?b) store_new = Some s"
    using store_insert_total [OF extern_std_ok] by blast
  note s = s1 store_insert_preserves_ok [OF store_new_ok extern_std_ok c s1]
  have "get_balance_by_id s 5 = Some ?b"
    using s(1) by (auto simp: store_insert_def extern_std_def get_balance_by_id_def balance_new_def
        object_meta_new_def map_simps)
  from insert_over_balance_is_undone_by_sync [OF s(2) this, of "wallet_new 5 1 1 0" extern_std]
  show ?thesis by (auto simp: wallet_new_def object_meta_new_def)
qed

end
