(* ===== verification/Fee_Model.thy ===== *)
theory Fee_Model
  imports Capabilities
begin

text \<open>
  The fee model without the store: \<^verbatim>\<open>runtime/src/fees/envelope.rs\<close> (reserves),
  \<^verbatim>\<open>poseq_fee.rs\<close> (the sequencing price), \<^verbatim>\<open>routing.rs\<close> (the split of a fee),
  \<^verbatim>\<open>accounting.rs\<close> (the per-intent ledger and its states) and the congestion tracker and
  estimator of \<^verbatim>\<open>executor.rs\<close>. \<open>fee_step\<close> is the lifecycle the state enum documents, as a
  step relation over the accounting operations.
\<close>

section \<open>Envelope\<close>

record fee_envelope =
  fe_payer :: bytes32
  fe_fee_token :: string
  fe_max_poseq_fee :: u64
  fe_max_runtime_fee :: u64
  fe_priority_tip :: u64
  fe_expiry_epoch :: u64
  fe_refund_address :: "bytes32 option"

definition total_reserved :: "fee_envelope \<Rightarrow> u64" where
  "total_reserved e = sat_add (fe_max_poseq_fee e) (fe_max_runtime_fee e)"

definition effective_refund_address :: "fee_envelope \<Rightarrow> bytes32" where
  "effective_refund_address e = (case fe_refund_address e of None \<Rightarrow> fe_payer e | Some a \<Rightarrow> a)"

definition envelope_validate :: "fee_envelope \<Rightarrow> u64 \<Rightarrow> err_text + unit" where
  "envelope_validate e current_epoch =
     (if fe_payer e = 0 then Inl (Text ''payer must be non-zero'')
      else if fe_fee_token e \<noteq> ''omniphi'' then Inl (Text ''unsupported fee token'')
      else if fe_max_poseq_fee e = 0 \<and> fe_max_runtime_fee e = 0 then
        Inl (Text ''at least one of max_poseq_fee or max_runtime_fee must be > 0'')
      else if current_epoch \<ge> fe_expiry_epoch e then
        Inl (Fmt ''fee envelope expired at epoch {} (current: {})''
               [unat (fe_expiry_epoch e), unat current_epoch])
      else if total_reserved e = 0 then Inl (Text ''total reserved fee must be > 0'')
      else Inr ())"

definition from_legacy_max_fee :: "bytes32 \<Rightarrow> u64 \<Rightarrow> u64 \<Rightarrow> fee_envelope" where
  "from_legacy_max_fee payer max_fee expiry =
     (let poseq_share = max_fee div 5; runtime_share = max_fee - poseq_share in
      \<lparr>fe_payer = payer, fe_fee_token = ''omniphi'', fe_max_poseq_fee = poseq_share,
       fe_max_runtime_fee = runtime_share, fe_priority_tip = 0, fe_expiry_epoch = expiry,
       fe_refund_address = None\<rparr>)"

section \<open>Sequencing price\<close>

record poseq_fee_params =
  pf_base_admission_fee :: u64
  pf_fee_per_byte :: u64
  pf_target_intents_per_batch :: u64
  pf_target_bytes_per_batch :: u64
  pf_min_congestion_multiplier_bps :: u64
  pf_max_congestion_multiplier_bps :: u64
  pf_priority_tip_cap :: u64
  pf_max_tip_priority_weight_bps :: u64
  pf_intent_expiry_penalty_bps :: u64
  pf_poseq_fee_floor :: u64
  pf_max_poseq_fee_cap :: u64
  pf_burn_bps :: u64
  pf_sequencer_reward_bps :: u64
  pf_shared_security_bps :: u64
  pf_treasury_bps :: u64

definition poseq_default_params :: poseq_fee_params where
  "poseq_default_params =
     \<lparr>pf_base_admission_fee = 1000, pf_fee_per_byte = 5, pf_target_intents_per_batch = 100,
      pf_target_bytes_per_batch = 500000, pf_min_congestion_multiplier_bps = 10000,
      pf_max_congestion_multiplier_bps = 50000, pf_priority_tip_cap = 100000,
      pf_max_tip_priority_weight_bps = 2000, pf_intent_expiry_penalty_bps = 1000,
      pf_poseq_fee_floor = 500, pf_max_poseq_fee_cap = 10000000, pf_burn_bps = 2000,
      pf_sequencer_reward_bps = 5000, pf_shared_security_bps = 2000, pf_treasury_bps = 1000\<rparr>"

definition poseq_params_validate :: "poseq_fee_params \<Rightarrow> err_text list" where
  "poseq_params_validate p =
     (let total_routing = pf_burn_bps p + pf_sequencer_reward_bps p + pf_shared_security_bps p
            + pf_treasury_bps p
      in (if pf_target_intents_per_batch p = 0 then [Text ''target_intents_per_batch must be > 0''] else [])
       @ (if pf_target_bytes_per_batch p = 0 then [Text ''target_bytes_per_batch must be > 0''] else [])
       @ (if pf_min_congestion_multiplier_bps p < 10000
          then [Text ''min_congestion_multiplier_bps must be >= 10000 (1.0x)''] else [])
       @ (if pf_max_congestion_multiplier_bps p < pf_min_congestion_multiplier_bps p
          then [Text ''max_congestion_multiplier_bps must be >= min''] else [])
       @ (if pf_poseq_fee_floor p > pf_max_poseq_fee_cap p
          then [Text ''fee_floor must be <= fee_cap''] else [])
       @ (if pf_max_tip_priority_weight_bps p > 5000
          then [Text ''max_tip_priority_weight_bps must be <= 5000 (50%)''] else [])
       @ (if total_routing \<noteq> 10000
          then [Fmt ''fee routing splits must sum to 10000, got {}'' [unat total_routing]] else []))"

record congestion_state =
  cs_pool_intent_count :: u64
  cs_pool_total_bytes :: u64

record poseq_fee_result =
  pr_total_fee :: u64
  pr_base_component :: u64
  pr_bandwidth_component :: u64
  pr_tip_component :: u64
  pr_congestion_multiplier_bps :: u64
  pr_floor_applied :: bool
  pr_cap_applied :: bool

definition u64_clamp :: "u128 \<Rightarrow> u64" where
  "u64_clamp v = (if v > to_u128 (- 1) then - 1 else to_u64 v)"

definition compute_congestion_multiplier :: "poseq_fee_params \<Rightarrow> congestion_state \<Rightarrow> u64" where
  "compute_congestion_multiplier p c =
     (let intent_ratio_bps =
            (if pf_target_intents_per_batch p > 0
             then to_u64 (case checked_div (sat_mul (to_u128 (cs_pool_intent_count c)) 10000)
                                (to_u128 (pf_target_intents_per_batch p)) of None \<Rightarrow> 0 | Some q \<Rightarrow> q)
             else 10000);
          byte_ratio_bps =
            (if pf_target_bytes_per_batch p > 0
             then to_u64 (case checked_div (sat_mul (to_u128 (cs_pool_total_bytes c)) 10000)
                                (to_u128 (pf_target_bytes_per_batch p)) of None \<Rightarrow> 0 | Some q \<Rightarrow> q)
             else 10000);
          demand_bps = max intent_ratio_bps byte_ratio_bps
      in min (max demand_bps (pf_min_congestion_multiplier_bps p)) (pf_max_congestion_multiplier_bps p))"

definition poseq_calculate ::
  "poseq_fee_params \<Rightarrow> u64 \<Rightarrow> u64 \<Rightarrow> congestion_state \<Rightarrow> poseq_fee_result" where
  "poseq_calculate p intent_bytes priority_tip c =
     (let base_component = pf_base_admission_fee p;
          bandwidth_component = u64_clamp (sat_mul (to_u128 intent_bytes) (to_u128 (pf_fee_per_byte p)));
          tip_component = min priority_tip (pf_priority_tip_cap p);
          multiplier = compute_congestion_multiplier p c;
          pre_multiply = sat_add (sat_add (to_u128 base_component) (to_u128 bandwidth_component))
                           (to_u128 tip_component);
          post_multiply = (case checked_div (sat_mul pre_multiply (to_u128 multiplier)) 10000 of
                             None \<Rightarrow> - 1 | Some q \<Rightarrow> q);
          fee0 = u64_clamp post_multiply;
          floor_applied = (fee0 < pf_poseq_fee_floor p);
          fee1 = (if floor_applied then pf_poseq_fee_floor p else fee0);
          cap_applied = (fee1 > pf_max_poseq_fee_cap p);
          total_fee = (if cap_applied then pf_max_poseq_fee_cap p else fee1)
      in \<lparr>pr_total_fee = total_fee, pr_base_component = base_component,
          pr_bandwidth_component = u64_clamp (to_u128 bandwidth_component),
          pr_tip_component = tip_component, pr_congestion_multiplier_bps = multiplier,
          pr_floor_applied = floor_applied, pr_cap_applied = cap_applied\<rparr>)"

definition compute_expiry_penalty :: "poseq_fee_params \<Rightarrow> u64 \<Rightarrow> u64" where
  "compute_expiry_penalty p computed_fee =
     to_u64 (sat_mul (to_u128 computed_fee) (to_u128 (pf_intent_expiry_penalty_bps p)) div 10000)"

definition compute_tip_priority_weight :: "poseq_fee_params \<Rightarrow> u64 \<Rightarrow> u64" where
  "compute_tip_priority_weight p tip =
     (if pf_priority_tip_cap p = 0 then 0
      else let capped_tip = min tip (pf_priority_tip_cap p) in
           to_u64 (sat_mul (to_u128 capped_tip) (to_u128 (pf_max_tip_priority_weight_bps p))
                   div to_u128 (pf_priority_tip_cap p)))"

section \<open>Routing\<close>

record fee_routing_params =
  rp_burn_bps :: u64
  rp_sequencer_reward_bps :: u64
  rp_shared_security_bps :: u64
  rp_treasury_bps :: u64

definition routing_from_poseq_params :: "poseq_fee_params \<Rightarrow> fee_routing_params" where
  "routing_from_poseq_params p =
     \<lparr>rp_burn_bps = pf_burn_bps p, rp_sequencer_reward_bps = pf_sequencer_reward_bps p,
      rp_shared_security_bps = pf_shared_security_bps p, rp_treasury_bps = pf_treasury_bps p\<rparr>"

definition routing_validate :: "fee_routing_params \<Rightarrow> err_text + unit" where
  "routing_validate p =
     (let total = rp_burn_bps p + rp_sequencer_reward_bps p + rp_shared_security_bps p + rp_treasury_bps p
      in if total \<noteq> 10000 then Inl (Fmt ''routing splits must sum to 10000, got {}'' [unat total])
         else Inr ())"

record routed_fees =
  rf_total :: u64
  rf_burned :: u64
  rf_sequencer_reward :: u64
  rf_shared_security :: u64
  rf_treasury :: u64
  rf_dust :: u64

definition check_conservation :: "routed_fees \<Rightarrow> bool" where
  "check_conservation r \<longleftrightarrow>
     sat_add (sat_add (sat_add (rf_burned r) (rf_sequencer_reward r)) (rf_shared_security r))
       (rf_treasury r) = rf_total r"

definition fee_share :: "u64 \<Rightarrow> u64 \<Rightarrow> u64" where
  "fee_share amount bps = to_u64 (to_u128 amount * to_u128 bps div 10000)"

definition fee_route :: "u64 \<Rightarrow> fee_routing_params \<Rightarrow> routed_fees" where
  "fee_route amount p =
     (if amount = 0 then
        \<lparr>rf_total = 0, rf_burned = 0, rf_sequencer_reward = 0, rf_shared_security = 0,
         rf_treasury = 0, rf_dust = 0\<rparr>
      else
        let sequencer_reward = fee_share amount (rp_sequencer_reward_bps p);
            shared_security = fee_share amount (rp_shared_security_bps p);
            treasury = fee_share amount (rp_treasury_bps p);
            burn_base = fee_share amount (rp_burn_bps p);
            accounted = sat_add (sat_add (sat_add sequencer_reward shared_security) treasury) burn_base;
            dust = sat_sub amount accounted;
            burned = sat_add burn_base dust
        in \<lparr>rf_total = amount, rf_burned = burned, rf_sequencer_reward = sequencer_reward,
            rf_shared_security = shared_security, rf_treasury = treasury, rf_dust = dust\<rparr>)"

section \<open>Accounting\<close>

datatype fee_accounting_state =
    FReserved | SequencingCharged | FullyCharged | Settled | FailedIntake | FExpired | RuntimeReverted

record fee_accounting =
  fa_envelope :: fee_envelope
  fa_state :: fee_accounting_state
  fa_reserved_total :: u64
  fa_charged_poseq :: u64
  fa_charged_runtime :: u64
  fa_refunded :: u64
  fa_penalty :: u64

datatype charge_error = InvalidState string fee_accounting_state | InsufficientReserve string u64 u64

record charge_result =
  cr_success :: bool
  cr_amount_charged :: u64
  cr_error :: "charge_error option"

definition accounting_reserve :: "fee_envelope \<Rightarrow> fee_accounting" where
  "accounting_reserve e =
     \<lparr>fa_envelope = e, fa_state = FReserved, fa_reserved_total = total_reserved e,
      fa_charged_poseq = 0, fa_charged_runtime = 0, fa_refunded = 0, fa_penalty = 0\<rparr>"

definition charge_failed :: "charge_error \<Rightarrow> charge_result" where
  "charge_failed e = \<lparr>cr_success = False, cr_amount_charged = 0, cr_error = Some e\<rparr>"

definition charge_sequencing :: "poseq_fee_result \<Rightarrow> fee_accounting \<Rightarrow> fee_accounting \<times> charge_result" where
  "charge_sequencing r a =
     (if fa_state a \<noteq> FReserved then
        (a, charge_failed (InvalidState ''invalid state for sequencing charge'' (fa_state a)))
      else if pr_total_fee r > fe_max_poseq_fee (fa_envelope a) then
        (a, charge_failed (InsufficientReserve ''insufficient poseq reserve'' (pr_total_fee r)
               (fe_max_poseq_fee (fa_envelope a))))
      else
        (a\<lparr>fa_charged_poseq := pr_total_fee r, fa_state := SequencingCharged\<rparr>,
         \<lparr>cr_success = True, cr_amount_charged = pr_total_fee r, cr_error = None\<rparr>))"

definition charge_runtime :: "u64 \<Rightarrow> fee_accounting \<Rightarrow> fee_accounting \<times> charge_result" where
  "charge_runtime gas_fee a =
     (if fa_state a \<noteq> SequencingCharged then
        (a, charge_failed (InvalidState ''invalid state for runtime charge'' (fa_state a)))
      else if gas_fee > fe_max_runtime_fee (fa_envelope a) then
        (a, charge_failed (InsufficientReserve ''insufficient runtime reserve'' gas_fee
               (fe_max_runtime_fee (fa_envelope a))))
      else
        (a\<lparr>fa_charged_runtime := gas_fee, fa_state := FullyCharged\<rparr>,
         \<lparr>cr_success = True, cr_amount_charged = gas_fee, cr_error = None\<rparr>))"

definition settle_refund :: "fee_accounting \<Rightarrow> fee_accounting \<times> u64" where
  "settle_refund a =
     (let total_charged = sat_add (sat_add (fa_charged_poseq a) (fa_charged_runtime a)) (fa_penalty a);
          refunded = sat_sub (fa_reserved_total a) total_charged
      in (a\<lparr>fa_refunded := refunded, fa_state := Settled\<rparr>, refunded))"

definition fail_intake :: "u64 \<Rightarrow> fee_accounting \<Rightarrow> fee_accounting" where
  "fail_intake validation_cost a =
     (let penalty = min validation_cost (fa_reserved_total a) in
      a\<lparr>fa_penalty := penalty, fa_refunded := sat_sub (fa_reserved_total a) penalty,
        fa_state := FailedIntake\<rparr>)"

definition fee_expire :: "u64 \<Rightarrow> fee_accounting \<Rightarrow> fee_accounting" where
  "fee_expire expiry_penalty a =
     (let penalty = min expiry_penalty (fa_reserved_total a) in
      a\<lparr>fa_penalty := penalty, fa_refunded := sat_sub (fa_reserved_total a) penalty,
        fa_state := FExpired\<rparr>)"

definition revert_runtime :: "u64 \<Rightarrow> fee_accounting \<Rightarrow> fee_accounting" where
  "revert_runtime work a =
     (let charged = min work (fe_max_runtime_fee (fa_envelope a));
          total_charged = sat_add (fa_charged_poseq a) charged
      in a\<lparr>fa_charged_runtime := charged,
           fa_refunded := sat_sub (fa_reserved_total a) total_charged,
           fa_state := RuntimeReverted\<rparr>)"

definition fa_total_charged :: "fee_accounting \<Rightarrow> u64" where
  "fa_total_charged a = sat_add (sat_add (fa_charged_poseq a) (fa_charged_runtime a)) (fa_penalty a)"

definition check_invariant_no_negative_refund :: "fee_accounting \<Rightarrow> bool" where
  "check_invariant_no_negative_refund a \<longleftrightarrow> fa_reserved_total a \<ge> fa_total_charged a"

definition check_invariant_conservation :: "fee_accounting \<Rightarrow> bool" where
  "check_invariant_conservation a \<longleftrightarrow>
     fa_reserved_total a = sat_add (fa_total_charged a) (fa_refunded a)"

section \<open>Congestion tracker and estimator\<close>

record congestion_tracker =
  ct_ema_multiplier_bps :: u64
  ct_alpha_bps :: u64
  ct_ema_floor_bps :: u64

definition tracker_new :: congestion_tracker where
  "tracker_new = \<lparr>ct_ema_multiplier_bps = 10000, ct_alpha_bps = 3000, ct_ema_floor_bps = 10000\<rparr>"

definition tracker_update :: "u64 \<Rightarrow> congestion_tracker \<Rightarrow> congestion_tracker" where
  "tracker_update observed t =
     (let new_component = sat_mul (to_u128 (ct_alpha_bps t)) (to_u128 observed) div 10000;
          old_component = sat_mul (to_u128 (10000 - ct_alpha_bps t)) (to_u128 (ct_ema_multiplier_bps t)) div 10000;
          new_ema = to_u64 (new_component + old_component)
      in t\<lparr>ct_ema_multiplier_bps := max new_ema (ct_ema_floor_bps t)\<rparr>)"

definition effective_multiplier ::
  "congestion_tracker \<Rightarrow> poseq_fee_params \<Rightarrow> congestion_state \<Rightarrow> u64" where
  "effective_multiplier t p c = max (compute_congestion_multiplier p c) (ct_ema_multiplier_bps t)"

definition estimate_poseq_fee ::
  "poseq_fee_params \<Rightarrow> u64 \<Rightarrow> congestion_state \<Rightarrow> congestion_tracker option \<Rightarrow> poseq_fee_result" where
  "estimate_poseq_fee p intent_bytes c tracker =
     (let effective_congestion =
            (case tracker of
               Some t \<Rightarrow>
                 \<lparr>cs_pool_intent_count = max (cs_pool_intent_count c)
                    (to_u64 (to_u128 (pf_target_intents_per_batch p) * to_u128 (ct_ema_multiplier_bps t) div 10000)),
                  cs_pool_total_bytes = cs_pool_total_bytes c\<rparr>
             | None \<Rightarrow> c)
      in poseq_calculate p intent_bytes 0 effective_congestion)"

definition suggest_fee_envelope ::
  "poseq_fee_params \<Rightarrow> u64 \<Rightarrow> u64 \<Rightarrow> congestion_state \<Rightarrow> congestion_tracker option \<Rightarrow> bytes32 \<Rightarrow> u64
     \<Rightarrow> fee_envelope" where
  "suggest_fee_envelope p intent_bytes estimated_runtime_gas c tracker payer deadline =
     (let estimated = estimate_poseq_fee p intent_bytes c tracker;
          max_poseq = sat_mul (pr_total_fee estimated) 3 div 2;
          max_runtime = sat_mul estimated_runtime_gas 6 div 5
      in \<lparr>fe_payer = payer, fe_fee_token = ''omniphi'', fe_max_poseq_fee = max_poseq,
          fe_max_runtime_fee = max_runtime, fe_priority_tip = 0, fe_expiry_epoch = deadline,
          fe_refund_address = None\<rparr>)"

section \<open>Lifecycle\<close>

text \<open>
  The steps the states of the enum name: the sequencing charge, the runtime charge or its revert,
  intake failure and expiry of an intent that was not sequenced, and the final refund.
\<close>

inductive fee_step :: "fee_accounting \<Rightarrow> fee_accounting \<Rightarrow> bool" where
  seq: "fee_step a (fst (charge_sequencing r a))"
| runtime: "fee_step a (fst (charge_runtime g a))"
| revert: "fa_state a \<in> {SequencingCharged, FullyCharged} \<Longrightarrow> fee_step a (revert_runtime w a)"
| intake: "fa_state a = FReserved \<Longrightarrow> fee_step a (fail_intake c a)"
| expired: "fa_state a = FReserved \<Longrightarrow> fee_step a (fee_expire p a)"
| settle: "fee_step a (fst (settle_refund a))"

inductive fee_reach :: "fee_accounting \<Rightarrow> bool" where
  reserve: "fee_reach (accounting_reserve e)"
| fstep: "fee_reach a \<Longrightarrow> fee_step a b \<Longrightarrow> fee_reach b"

definition fee_closed :: "fee_accounting \<Rightarrow> bool" where
  "fee_closed a \<longleftrightarrow> fa_state a \<in> {Settled, FailedIntake, FExpired, RuntimeReverted}"

definition fee_inv :: "fee_accounting \<Rightarrow> bool" where
  "fee_inv a \<longleftrightarrow>
     fa_reserved_total a = total_reserved (fa_envelope a) \<and>
     fa_charged_poseq a \<le> fe_max_poseq_fee (fa_envelope a) \<and>
     fa_charged_runtime a \<le> fe_max_runtime_fee (fa_envelope a) \<and>
     (fa_state a = FReserved \<longrightarrow> fa_charged_poseq a = 0 \<and> fa_charged_runtime a = 0 \<and> fa_penalty a = 0) \<and>
     (fa_state a \<in> {SequencingCharged, FullyCharged, RuntimeReverted} \<longrightarrow> fa_penalty a = 0) \<and>
     (fa_penalty a \<noteq> 0 \<longrightarrow> fa_charged_poseq a = 0 \<and> fa_charged_runtime a = 0 \<and>
        fa_penalty a \<le> fa_reserved_total a) \<and>
     (fee_closed a \<longrightarrow> fa_refunded a = fa_reserved_total a - fa_total_charged a)"


inductive_cases fee_stepE: "fee_step a b"

section \<open>Lemmas: the ledger\<close>

lemmas fee_op_defs =
  charge_sequencing_def charge_runtime_def revert_runtime_def fail_intake_def fee_expire_def
  settle_refund_def charge_failed_def

lemma sat_add_mono: "a \<le> a' \<Longrightarrow> b \<le> b' \<Longrightarrow> sat_add a b \<le> sat_add a' b'"
  by (simp add: word_le_nat_alt machine_simps min_le_iff_disj)

lemma sat_add_0_right [simp]: "sat_add a 0 = a"
  by (simp add: sat_add_def)

lemma sat_add_0_left [simp]: "sat_add 0 a = a"
  by (simp add: sat_add_def)

lemma sat_sub_eq: "b \<le> a \<Longrightarrow> sat_sub a b = a - b"
  by (simp add: sat_sub_def)

lemma sat_add_sub_cancel: "b \<le> a \<Longrightarrow> sat_add b (a - b) = a"
  using unat_less_2p [of a] by (simp add: sat_add_def unat_sub_fits word_le_nat_alt)

lemma fee_inv_total_le:
  assumes "fee_inv a"
  shows "fa_total_charged a \<le> fa_reserved_total a"
proof (cases "fa_penalty a = 0")
  case True
  with assms show ?thesis
    by (simp add: fee_inv_def fa_total_charged_def total_reserved_def sat_add_mono)
next
  case False
  with assms show ?thesis by (auto simp: fee_inv_def fa_total_charged_def)
qed

lemma fee_inv_reserve: "fee_inv (accounting_reserve e)"
  by (simp add: fee_inv_def accounting_reserve_def fee_closed_def)

lemma fee_inv_seq: "fee_inv a \<Longrightarrow> fee_inv (fst (charge_sequencing r a))"
  by (auto simp: fee_inv_def charge_sequencing_def charge_failed_def fee_closed_def not_less)

lemma fee_inv_runtime: "fee_inv a \<Longrightarrow> fee_inv (fst (charge_runtime g a))"
  by (auto simp: fee_inv_def charge_runtime_def charge_failed_def fee_closed_def not_less)

lemma fee_inv_settle: "fee_inv a \<Longrightarrow> fee_inv (fst (settle_refund a))"
proof -
  assume inv: "fee_inv a"
  have "sat_sub (fa_reserved_total a) (fa_total_charged a) = fa_reserved_total a - fa_total_charged a"
    using fee_inv_total_le [OF inv] by (simp add: sat_sub_eq)
  with inv show ?thesis
    unfolding fee_inv_def by (elim conjE) (simp add: settle_refund_def fee_closed_def fa_total_charged_def Let_def)
qed

lemma fee_inv_revert:
  assumes "fee_inv a" and "fa_state a \<in> {SequencingCharged, FullyCharged}"
  shows "fee_inv (revert_runtime w a)"
proof -
  have p: "fa_penalty a = 0" using assms by (auto simp: fee_inv_def)
  have "sat_add (fa_charged_poseq a) (min w (fe_max_runtime_fee (fa_envelope a))) \<le> fa_reserved_total a"
    using assms(1) by (simp add: fee_inv_def total_reserved_def sat_add_mono)
  with p assms(1) show ?thesis
    by (auto simp: fee_inv_def revert_runtime_def fa_total_charged_def Let_def sat_sub_eq)
qed

lemma fee_inv_penalty:
  assumes "fee_inv a" and "fa_state a = FReserved" and "st \<in> {FailedIntake, FExpired}"
  shows "fee_inv (a\<lparr>fa_penalty := min c (fa_reserved_total a),
    fa_refunded := sat_sub (fa_reserved_total a) (min c (fa_reserved_total a)), fa_state := st\<rparr>)"
  using assms by (auto simp: fee_inv_def fa_total_charged_def sat_sub_eq)

lemma fee_inv_step: "fee_step a b \<Longrightarrow> fee_inv a \<Longrightarrow> fee_inv b"
  by (induction rule: fee_step.induct)
    (auto simp: fee_inv_seq fee_inv_runtime fee_inv_settle fee_inv_revert fail_intake_def
      fee_expire_def Let_def intro!: fee_inv_penalty)

lemma fee_reach_inv: "fee_reach a \<Longrightarrow> fee_inv a"
  by (induction rule: fee_reach.induct) (auto simp: fee_inv_reserve intro: fee_inv_step)

section \<open>Lemmas: routing and prices\<close>

lemma to_u64_le_word: "unat x \<le> unat (a :: u64) \<Longrightarrow> unat (to_u64 x) = unat x"
  using unat_less_2p [of a] by (simp add: unat_to_u64)

lemma unat_mult_u128: "unat (to_u128 a * to_u128 b) = unat a * unat b"
proof -
  have "unat a * unat b \<le> (2 ^ 64 - 1) * (2 ^ 64 - 1)"
    using unat_bound [of a] unat_bound [of b] by (intro mult_le_mono) simp_all
  then show ?thesis by (simp add: unat_word_ariths)
qed

lemma fee_share_value:
  assumes "bps \<le> 10000"
  shows "unat (fee_share amount bps) = unat amount * unat bps div 10000"
proof -
  have "unat bps \<le> 10000" using assms by (simp add: word_le_nat_alt)
  then have "unat amount * unat bps \<le> unat amount * 10000" by simp
  then have "unat amount * unat bps div 10000 \<le> unat amount" by linarith
  then show ?thesis
    using to_u64_le_word [of "to_u128 amount * to_u128 bps div 10000" amount]
    by (simp add: fee_share_def unat_div unat_mult_u128)
qed

lemma div_parts_le:
  fixes n a b c d k :: nat
  assumes "a + b + c + d = k" and "0 < k"
  shows "n * a div k + n * b div k + n * c div k + n * d div k \<le> n"
    and "n \<le> n * a div k + n * b div k + n * c div k + n * d div k + 3"
proof -
  let ?s = "n * a div k + n * b div k + n * c div k + n * d div k"
  let ?r = "n * a mod k + n * b mod k + n * c mod k + n * d mod k"
  have "k * ?s + ?r =
      (k * (n * a div k) + n * a mod k) + (k * (n * b div k) + n * b mod k) +
      (k * (n * c div k) + n * c mod k) + (k * (n * d div k) + n * d mod k)"
    by (simp add: distrib_left)
  also have "\<dots> = n * k" by (simp only: mult_div_mod_eq assms(1) [symmetric] distrib_left)
  finally have eq: "k * ?s + ?r = n * k" .
  then have "k * ?s \<le> n * k" by linarith
  then show "?s \<le> n" using assms(2) by (simp only: mult.commute [of n] mult_le_cancel1)
  have "n * a mod k < k" "n * b mod k < k" "n * c mod k < k" "n * d mod k < k"
    using assms(2) by simp_all
  then have "?r < 4 * k" by linarith
  then have "n * k < k * ?s + 4 * k" using eq by linarith
  then have "k * n < k * (?s + 4)" by (simp only: distrib_left mult.commute [of n] mult.commute [of 4])
  then show "n \<le> ?s + 3" using assms(2) by simp
qed

lemma route_shares:
  fixes p :: fee_routing_params and amount :: u64
  defines "r \<equiv> fee_route amount p"
  assumes "routing_validate p = Inr ()"
    and "rp_burn_bps p \<le> 10000" "rp_sequencer_reward_bps p \<le> 10000"
    and "rp_shared_security_bps p \<le> 10000" "rp_treasury_bps p \<le> 10000"
  shows "unat (rf_burned r) + unat (rf_sequencer_reward r) + unat (rf_shared_security r)
      + unat (rf_treasury r) = unat amount"
    and "unat (rf_dust r) \<le> 3"
    and "unat (rf_burned r) = unat amount * unat (rp_burn_bps p) div 10000 + unat (rf_dust r)"
proof -
  let ?q = "unat (rp_sequencer_reward_bps p)" and ?s = "unat (rp_shared_security_bps p)"
  let ?t = "unat (rp_treasury_bps p)" and ?b = "unat (rp_burn_bps p)" and ?n = "unat amount"
  note v = assms(3-6)
  have le: "?b \<le> 10000" "?q \<le> 10000" "?s \<le> 10000" "?t \<le> 10000"
    using v by (simp_all add: word_le_nat_alt)
  have "rp_burn_bps p + rp_sequencer_reward_bps p + rp_shared_security_bps p + rp_treasury_bps p = 10000"
    using assms(2) by (simp add: routing_validate_def Let_def split: if_splits)
  then have "unat (rp_burn_bps p + rp_sequencer_reward_bps p + rp_shared_security_bps p + rp_treasury_bps p)
      = 10000" by simp
  then have sum: "?q + ?s + ?t + ?b = 10000"
    using le by (simp add: unat_word_ariths)
  define Q S T B where "Q = ?n * ?q div 10000" and "S = ?n * ?s div 10000"
    and "T = ?n * ?t div 10000" and "B = ?n * ?b div 10000"
  have parts: "Q + S + T + B \<le> ?n" "?n \<le> Q + S + T + B + 3"
    using div_parts_le [OF sum, of ?n] by (simp_all add: Q_def S_def T_def B_def)
  have shares: "unat (fee_share amount (rp_burn_bps p)) = B"
    "unat (fee_share amount (rp_sequencer_reward_bps p)) = Q"
    "unat (fee_share amount (rp_shared_security_bps p)) = S"
    "unat (fee_share amount (rp_treasury_bps p)) = T"
    using v by (simp_all add: fee_share_value Q_def S_def T_def B_def)
  have zero: "amount = 0 \<Longrightarrow> B = 0" by (simp add: B_def)
  note defs = r_def fee_route_def Let_def machine_simps shares min_def
  note bound = unat_bound [of amount]
  show "unat (rf_burned r) + unat (rf_sequencer_reward r) + unat (rf_shared_security r)
      + unat (rf_treasury r) = ?n"
    using parts bound by (auto simp: defs)
  show "unat (rf_dust r) \<le> 3"
    using parts bound by (auto simp: defs)
  show "unat (rf_burned r) = ?n * ?b div 10000 + unat (rf_dust r)"
    unfolding B_def [symmetric] using parts bound zero by (auto simp: defs)
qed

lemma unat_u64_clamp: "unat (u64_clamp v) = min (unat v) (2 ^ 64 - 1)"
  by (auto simp: u64_clamp_def word_less_nat_alt unat_to_u64 unat_max_word)

lemma u64_clamp_mono: "v \<le> w \<Longrightarrow> u64_clamp v \<le> u64_clamp w"
  by (simp add: word_le_nat_alt unat_u64_clamp min_le_iff_disj)

lemma sat_mul_mono: "a \<le> a' \<Longrightarrow> b \<le> b' \<Longrightarrow> sat_mul a b \<le> sat_mul a' b'"
  using mult_le_mono [of "unat a" "unat a'" "unat b" "unat b'"]
  by (simp add: word_le_nat_alt machine_simps min_le_iff_disj)

lemma to_u128_mono: "a \<le> b \<Longrightarrow> to_u128 a \<le> to_u128 b"
  by (simp add: word_le_nat_alt)

lemma word_div_mono: "a \<le> b \<Longrightarrow> a div k \<le> b div k" for a b k :: "'a::len word"
  by (simp add: word_le_nat_alt unat_div div_le_mono)

lemma poseq_calculate_total:
  "pr_total_fee (poseq_calculate p n tip c) =
     min (max (u64_clamp (sat_mul (sat_add (sat_add (to_u128 (pf_base_admission_fee p))
       (to_u128 (u64_clamp (sat_mul (to_u128 n) (to_u128 (pf_fee_per_byte p))))))
       (to_u128 (min tip (pf_priority_tip_cap p)))) (to_u128 (compute_congestion_multiplier p c)) div 10000))
       (pf_poseq_fee_floor p)) (pf_max_poseq_fee_cap p)"
  by (auto simp: poseq_calculate_def Let_def checked_div_def max_def min_def)

lemma multiplier_bounds:
  "pf_min_congestion_multiplier_bps p \<le> pf_max_congestion_multiplier_bps p \<Longrightarrow>
     pf_min_congestion_multiplier_bps p \<le> compute_congestion_multiplier p c \<and>
     compute_congestion_multiplier p c \<le> pf_max_congestion_multiplier_bps p"
  by (simp add: compute_congestion_multiplier_def Let_def)

lemma params_valid_bounds:
  assumes "poseq_params_validate p = []"
  shows "pf_poseq_fee_floor p \<le> pf_max_poseq_fee_cap p"
    and "pf_min_congestion_multiplier_bps p \<le> pf_max_congestion_multiplier_bps p"
    and "10000 \<le> pf_min_congestion_multiplier_bps p"
  using assms by (simp_all add: poseq_params_validate_def Let_def not_less split: if_splits)

lemma poseq_calculate_mono:
  assumes "n \<le> n'" and "tip \<le> tip'" and "compute_congestion_multiplier p c \<le> compute_congestion_multiplier p c'"
  shows "pr_total_fee (poseq_calculate p n tip c) \<le> pr_total_fee (poseq_calculate p n' tip' c')"
  unfolding poseq_calculate_total using assms
  by (intro min.mono max.mono u64_clamp_mono word_div_mono sat_mul_mono sat_add_mono to_u128_mono) auto

section \<open>The congestion tracker as a machine\<close>

text \<open>One batch: the instantaneous multiplier of the pool is folded into the average.\<close>

definition tracker_observe ::
  "poseq_fee_params \<Rightarrow> congestion_tracker \<Rightarrow> congestion_state \<Rightarrow> congestion_tracker \<times> u64" where
  "tracker_observe p t c =
     (let t' = tracker_update (compute_congestion_multiplier p c) t in (t', effective_multiplier t' p c))"

definition tracker_inv :: "poseq_fee_params \<Rightarrow> congestion_tracker \<Rightarrow> bool" where
  "tracker_inv p t \<longleftrightarrow>
     ct_alpha_bps t \<le> 10000 \<and> ct_ema_floor_bps t \<le> ct_ema_multiplier_bps t \<and>
     ct_ema_floor_bps t \<le> pf_max_congestion_multiplier_bps p \<and>
     ct_ema_multiplier_bps t \<le> pf_max_congestion_multiplier_bps p"

lemma weighted_average_le:
  fixes a x y m :: nat
  assumes "a \<le> 10000" and "x \<le> m" and "y \<le> m"
  shows "a * x div 10000 + (10000 - a) * y div 10000 \<le> m"
proof -
  have "a * x div 10000 + (10000 - a) * y div 10000 \<le> (a * x + (10000 - a) * y) div 10000"
    by linarith
  also have "a * x + (10000 - a) * y \<le> a * m + (10000 - a) * m"
    using assms(2,3) by (intro add_mono mult_le_mono) simp_all
  then have "(a * x + (10000 - a) * y) div 10000 \<le> (a * m + (10000 - a) * m) div 10000"
    by (rule div_le_mono)
  also have "a * m + (10000 - a) * m = 10000 * m"
    using assms(1) by (simp add: add_mult_distrib [symmetric])
  finally show ?thesis by simp
qed

lemma tracker_update_ema:
  assumes "ct_alpha_bps t \<le> 10000"
  shows "unat (ct_ema_multiplier_bps (tracker_update x t)) =
    max (unat (ct_alpha_bps t) * unat x div 10000 +
         (10000 - unat (ct_alpha_bps t)) * unat (ct_ema_multiplier_bps t) div 10000)
      (unat (ct_ema_floor_bps t))"
proof -
  let ?a = "unat (ct_alpha_bps t)" and ?e = "unat (ct_ema_multiplier_bps t)"
  have a: "?a \<le> 10000" using assms by (simp add: word_le_nat_alt)
  have sub: "unat (10000 - ct_alpha_bps t) = 10000 - ?a"
    using unat_sub_fits [OF assms] by simp
  have mul: "unat (sat_mul (to_u128 u) (to_u128 v)) = unat u * unat v" for u v
    using unat_mult_u128 [of u v] unat_less_2p [of "to_u128 u * to_u128 v"]
    by (simp add: machine_simps)
  have avg: "?a * unat x div 10000 + (10000 - ?a) * ?e div 10000 \<le> 2 ^ 64 - 1"
    using a unat_bound [of x] unat_bound [of "ct_ema_multiplier_bps t"]
    by (intro weighted_average_le) simp_all
  have "unat (sat_mul (to_u128 (ct_alpha_bps t)) (to_u128 x) div 10000 +
      sat_mul (to_u128 (10000 - ct_alpha_bps t)) (to_u128 (ct_ema_multiplier_bps t)) div 10000) =
      ?a * unat x div 10000 + (10000 - ?a) * ?e div 10000"
    using avg by (subst unat_add_fits) (simp_all add: unat_div mul sub)
  then show ?thesis
    using avg by (simp add: tracker_update_def Let_def max_def word_le_nat_alt unat_to_u64)
qed

lemma tracker_update_inv:
  assumes "tracker_inv p t" and "x \<le> pf_max_congestion_multiplier_bps p"
  shows "tracker_inv p (tracker_update x t)"
proof -
  let ?a = "unat (ct_alpha_bps t)"
  have "?a * unat x div 10000 + (10000 - ?a) * unat (ct_ema_multiplier_bps t) div 10000
      \<le> unat (pf_max_congestion_multiplier_bps p)"
    using assms by (intro weighted_average_le) (simp_all add: tracker_inv_def word_le_nat_alt)
  then have "unat (ct_ema_multiplier_bps (tracker_update x t)) \<le> unat (pf_max_congestion_multiplier_bps p)"
    using assms(1) by (simp add: tracker_inv_def tracker_update_ema word_le_nat_alt)
  with assms(1) show ?thesis
    by (simp add: tracker_inv_def word_le_nat_alt [symmetric] tracker_update_def Let_def)
qed

lemma tracker_observe_inv:
  "tracker_inv p t \<Longrightarrow> tracker_inv p (fst (tracker_observe p t c))"
  unfolding tracker_observe_def Let_def fst_conv
  by (rule tracker_update_inv, assumption) (simp only: compute_congestion_multiplier_def Let_def min.cobounded2)

interpretation tracker: preserving_machine "tracker_observe p" "\<lambda>_. tracker_inv p" for p
  by unfold_locales (rule tracker_observe_inv)

section \<open>Properties\<close>

text \<open>
  Fee conservation over the whole lifecycle. In every state the documented lifecycle reaches
  (reserve, then sequencing charge, runtime charge or revert, intake failure or expiry before
  sequencing, and the final refund, in any order and with any amounts), no charge exceeds its
  reserve and the total charged never exceeds the reservation; once the ledger is closed the
  reservation is exactly what was charged plus what was refunded.
\<close>

theorem fee_lifecycle_conserves:
  assumes "fee_reach a"
  shows "check_invariant_no_negative_refund a \<and>
    fa_charged_poseq a \<le> fe_max_poseq_fee (fa_envelope a) \<and>
    fa_charged_runtime a \<le> fe_max_runtime_fee (fa_envelope a) \<and>
    (fee_closed a \<longrightarrow> check_invariant_conservation a)"
proof -
  have inv: "fee_inv a" using assms by (rule fee_reach_inv)
  with fee_inv_total_le [OF inv] show ?thesis
    by (auto simp: fee_inv_def check_invariant_no_negative_refund_def
        check_invariant_conservation_def sat_add_sub_cancel)
qed

theorem fee_lifecycle_conserves_witness:
  defines "a \<equiv> fst (settle_refund (fst (charge_runtime 50 (fst (charge_sequencing
     (poseq_calculate poseq_default_params 10 0 \<lparr>cs_pool_intent_count = 0, cs_pool_total_bytes = 0\<rparr>)
     (accounting_reserve (from_legacy_max_fee 1 10000 9)))))))"
  shows "fee_closed a \<and> check_invariant_conservation a \<and> check_invariant_no_negative_refund a"
proof -
  have "fee_reach a"
    unfolding a_def by (intro fee_reach.fstep [OF _ fee_step.settle]
        fee_reach.fstep [OF _ fee_step.runtime] fee_reach.fstep [OF _ fee_step.seq] fee_reach.reserve)
  moreover have "fee_closed a" by (simp add: a_def fee_closed_def settle_refund_def Let_def)
  ultimately show ?thesis using fee_lifecycle_conserves [of a] by simp
qed

text \<open>
  Expiring an intent that was already charged for sequencing breaks conservation:
  \<^verbatim>\<open>expire\<close> computes the refund from the penalty alone, so with a positive sequencing charge the
  ledger returns more than it holds and \<^verbatim>\<open>check_invariant_conservation\<close> fails.
\<close>

theorem expire_after_sequencing_breaks_conservation:
  assumes "fa_charged_poseq a > 0" and "unat (fa_reserved_total a) < 2 ^ 64 - 1"
  shows "\<not> check_invariant_conservation (fee_expire penalty a)"
proof -
  let ?p = "min penalty (fa_reserved_total a)"
  have "0 < unat (fa_charged_poseq a)" using assms(1) by (simp add: word_less_nat_alt)
  moreover have "unat ?p + unat (fa_reserved_total a - ?p) = unat (fa_reserved_total a)"
    using unat_sub_fits [of ?p "fa_reserved_total a"] by (simp add: word_le_nat_alt min_def)
  ultimately have "unat (fa_reserved_total a) < unat (sat_add (sat_add (sat_add (fa_charged_poseq a)
      (fa_charged_runtime a)) ?p) (fa_reserved_total a - ?p))"
    using assms(2) by (simp add: machine_simps)
  then show ?thesis
    by (auto simp: check_invariant_conservation_def fee_expire_def Let_def fa_total_charged_def sat_sub_eq)
qed

theorem expire_after_sequencing_breaks_conservation_witness:
  defines "a \<equiv> (accounting_reserve (from_legacy_max_fee 1 10000 9))\<lparr>fa_charged_poseq := 1000,
    fa_state := SequencingCharged\<rparr>"
  shows "\<not> check_invariant_conservation (fee_expire 100 a)"
  by (rule expire_after_sequencing_breaks_conservation)
    (simp_all add: a_def accounting_reserve_def from_legacy_max_fee_def total_reserved_def Let_def
      sat_add_def word_less_nat_alt)

text \<open>
  Routing conserves the fee: with validated shares, none above 100%, the burned, sequencer,
  security and treasury parts add up to exactly the amount, the source's own conservation check
  passes, every recipient gets its share rounded down, and at most three units of rounding dust are
  added to the burn.
\<close>

theorem route_conserves:
  assumes "routing_validate p = Inr ()" and "rp_burn_bps p \<le> 10000"
    and "rp_sequencer_reward_bps p \<le> 10000" and "rp_shared_security_bps p \<le> 10000"
    and "rp_treasury_bps p \<le> 10000"
  shows "unat (rf_burned (fee_route amount p)) + unat (rf_sequencer_reward (fee_route amount p))
      + unat (rf_shared_security (fee_route amount p)) + unat (rf_treasury (fee_route amount p)) = unat amount
    \<and> check_conservation (fee_route amount p) \<and> unat (rf_dust (fee_route amount p)) \<le> 3
    \<and> unat (rf_sequencer_reward (fee_route amount p)) = unat amount * unat (rp_sequencer_reward_bps p) div 10000
    \<and> unat (rf_burned (fee_route amount p))
        = unat amount * unat (rp_burn_bps p) div 10000 + unat (rf_dust (fee_route amount p))"
proof -
  note r = route_shares [OF assms]
  have total: "rf_total (fee_route amount p) = amount" by (simp add: fee_route_def Let_def)
  have "unat (sat_add (sat_add (sat_add (rf_burned (fee_route amount p))
      (rf_sequencer_reward (fee_route amount p))) (rf_shared_security (fee_route amount p)))
      (rf_treasury (fee_route amount p))) = unat amount"
    using r(1) [of amount] unat_bound [of amount] by (simp add: machine_simps)
  then have "check_conservation (fee_route amount p)"
    unfolding check_conservation_def total by (simp add: word_unat_eq_iff)
  moreover have "unat (rf_sequencer_reward (fee_route amount p))
      = unat amount * unat (rp_sequencer_reward_bps p) div 10000"
    using assms(3) by (simp add: fee_route_def Let_def fee_share_value)
  ultimately show ?thesis using r by blast
qed

theorem route_conserves_witness:
  "check_conservation (fee_route 12345 (routing_from_poseq_params poseq_default_params)) \<and>
   unat (rf_sequencer_reward (fee_route 12345 (routing_from_poseq_params poseq_default_params))) = 6172"
  using route_conserves [of "routing_from_poseq_params poseq_default_params" 12345]
  by (simp add: routing_from_poseq_params_def poseq_default_params_def routing_validate_def)

text \<open>
  The validation of the shares adds them with wrap-around: shares whose sum overflows to 10000
  pass it, and routing with them does not conserve the fee.
\<close>

theorem routing_validate_accepts_wrapped_sum:
  "\<exists>p. routing_validate p = Inr () \<and> \<not> check_conservation (fee_route 10000 p)"
proof -
  let ?p = "\<lparr>rp_burn_bps = 2 ^ 63, rp_sequencer_reward_bps = 2 ^ 63, rp_shared_security_bps = 0,
    rp_treasury_bps = 10000\<rparr> :: fee_routing_params"
  have "routing_validate ?p = Inr ()" by (simp add: routing_validate_def)
  moreover have "\<not> check_conservation (fee_route 10000 ?p)"
    by (simp add: check_conservation_def fee_route_def Let_def fee_share_def sat_add_def sat_sub_def)
  ultimately show ?thesis by blast
qed

text \<open>
  The sequencing price. With validated parameters the multiplier lies between its two bounds,
  the fee lies between floor and cap, and the fee never falls when the intent grows, the tip rises
  or the multiplier rises.
\<close>

theorem poseq_fee_bounded_and_monotone:
  assumes "poseq_params_validate p = []"
  shows "pf_min_congestion_multiplier_bps p \<le> compute_congestion_multiplier p c \<and>
    compute_congestion_multiplier p c \<le> pf_max_congestion_multiplier_bps p \<and>
    pf_poseq_fee_floor p \<le> pr_total_fee (poseq_calculate p n tip c) \<and>
    pr_total_fee (poseq_calculate p n tip c) \<le> pf_max_poseq_fee_cap p \<and>
    (n \<le> n' \<and> tip \<le> tip' \<and> compute_congestion_multiplier p c \<le> compute_congestion_multiplier p c' \<longrightarrow>
       pr_total_fee (poseq_calculate p n tip c) \<le> pr_total_fee (poseq_calculate p n' tip' c'))"
  using multiplier_bounds [OF params_valid_bounds(2) [OF assms], of c] params_valid_bounds(1) [OF assms]
    poseq_calculate_mono [of n n' tip tip' p c c']
  by (simp add: poseq_calculate_total)

theorem poseq_fee_bounded_and_monotone_witness:
  defines "c \<equiv> \<lparr>cs_pool_intent_count = 300, cs_pool_total_bytes = 1500000\<rparr> :: congestion_state"
  shows "pr_total_fee (poseq_calculate poseq_default_params 100 5 c)
      \<le> pr_total_fee (poseq_calculate poseq_default_params 200 5 c) \<and>
    500 \<le> pr_total_fee (poseq_calculate poseq_default_params 100 5 c)"
  using poseq_fee_bounded_and_monotone [of poseq_default_params c 100 5 200 5 c]
  by (simp add: poseq_params_validate_def poseq_default_params_def)

text \<open>
  The congestion average stays within its bounds for ever: starting from a fresh tracker and
  whatever batches are observed, with validated parameters the average never falls below 1.0x and
  never exceeds the configured maximum multiplier.
\<close>

theorem congestion_average_bounded:
  assumes "poseq_params_validate p = []"
  shows "10000 \<le> ct_ema_multiplier_bps (fst (run (tracker_observe p) tracker_new cs)) \<and>
    ct_ema_multiplier_bps (fst (run (tracker_observe p) tracker_new cs)) \<le> pf_max_congestion_multiplier_bps p"
proof -
  have "10000 \<le> pf_max_congestion_multiplier_bps p"
    using params_valid_bounds(2,3) [OF assms] by order
  then have "tracker_inv p tracker_new" by (simp add: tracker_inv_def tracker_new_def)
  then have inv: "tracker_inv p (fst (run (tracker_observe p) tracker_new cs))"
    by (rule tracker.run_inv)
  have "ct_ema_floor_bps (fst (run (tracker_observe p) t cs)) = ct_ema_floor_bps t" for t
    by (induction cs arbitrary: t)
      (simp_all add: run_Cons tracker_observe_def Let_def tracker_update_def)
  then have "ct_ema_floor_bps (fst (run (tracker_observe p) tracker_new cs)) = 10000"
    by (simp add: tracker_new_def)
  with inv show ?thesis by (simp add: tracker_inv_def)
qed

theorem congestion_average_bounded_witness:
  defines "c \<equiv> \<lparr>cs_pool_intent_count = 300, cs_pool_total_bytes = 1500000\<rparr> :: congestion_state"
  shows "ct_ema_multiplier_bps (fst (run (tracker_observe poseq_default_params) tracker_new [c, c, c])) \<le> 50000"
  using congestion_average_bounded [of poseq_default_params "[c, c, c]"]
  by (simp add: poseq_params_validate_def poseq_default_params_def)

end
