(* ===== verification/Intents.thy ===== *)
theory Intents
  imports Store Fee_Model
begin

text \<open>
  Intent transactions and their admission: \<^verbatim>\<open>runtime/src/intents/types.rs\<close> (the five built-in
  intents), \<^verbatim>\<open>base.rs\<close> (the signed transaction, its canonical bytes and signing payloads, the
  nonce tracker and the admission pipeline) and \<^verbatim>\<open>sponsorship.rs\<close> (the sponsor replay tracker and
  the sponsorship validator). Ed25519 is a parameter; \<open>ed25519_ok\<close> is what the code relies on.
  An error shown inside another message keeps the inner error as a value.
\<close>

section \<open>Intents\<close>

record transfer_intent =
  ti_asset_id :: bytes32
  ti_amount :: u128
  ti_recipient :: bytes32
  ti_memo :: "string option"

record swap_intent =
  si_input_asset :: bytes32
  si_output_asset :: bytes32
  si_input_amount :: u128
  si_min_output_amount :: u128
  si_max_slippage_bps :: u32
  si_allowed_pool_ids :: "object_id list option"

record yield_allocate_intent =
  yi_asset_id :: bytes32
  yi_amount :: u128
  yi_target_vault_id :: object_id
  yi_min_apy_bps :: u32

record treasury_rebalance_intent =
  tr_from_asset :: bytes32
  tr_to_asset :: bytes32
  tr_amount :: u128
  tr_authorized_by :: "bytes32 list"

record route_liquidity_intent =
  rl_source_pool :: object_id
  rl_target_pool :: object_id
  rl_asset_id :: bytes32
  rl_amount :: u128
  rl_min_received :: u128
  rl_max_hops :: u8
  rl_max_price_impact_bps :: u16

record contract_constraints =
  cc_max_state_delta_bytes :: u64
  cc_required_object_versions :: "(object_id \<times> u64) list"
  cc_custom_constraints :: bytes

record contract_call_intent =
  ci_schema_id :: bytes32
  ci_method_selector :: string
  ci_params :: "(string \<times> bytes) list"
  ci_constraints :: contract_constraints

datatype intent_type =
    Transfer transfer_intent
  | Swap swap_intent
  | YieldAllocate yield_allocate_intent
  | TreasuryRebalance treasury_rebalance_intent
  | RouteLiquidity route_liquidity_intent
  | ContractCall contract_call_intent

datatype execution_mode = BestEffort | ExactMode | FillOrKill | PartialMode

record intent_constraints =
  ic_max_spend :: "u128 option"
  ic_min_received :: "u128 option"
  ic_max_slippage_bps :: "u32 option"
  ic_allowed_objects :: "object_id list"
  ic_required_versions :: "(object_id \<times> u64) list"
  ic_path_hints :: "string list"

datatype fee_policy = SenderPays | SponsorPays | SponsorThenSender

record sponsorship_limits =
  sl_max_gas :: "u64 option"
  sl_max_fee_amount :: "u64 option"
  sl_allowed_intent_types :: "string list"
  sl_allowed_objects :: "object_id list"
  sl_expiration_epoch :: "u64 option"

record intent_transaction =
  tx_id :: bytes32
  tx_sender :: bytes32
  tx_intent :: intent_type
  tx_max_fee :: u64
  tx_deadline_epoch :: u64
  tx_nonce :: u64
  tx_signature :: bytes64
  tx_metadata :: "(string \<times> string) list"
  tx_target_objects :: "object_id list"
  tx_constraints :: intent_constraints
  tx_execution_mode :: execution_mode
  tx_sponsor :: "bytes32 option"
  tx_sponsor_signature :: "bytes64 option"
  tx_sponsorship_limits :: sponsorship_limits
  tx_fee_policy :: fee_policy
  tx_fee_envelope :: "fee_envelope option"

section \<open>Signatures\<close>

text \<open>
  \<^verbatim>\<open>ed25519_dalek\<close>: which keys and signatures decode, verification, the public key of a seed and
  signing with a seed.
\<close>

record ed25519 =
  ed_key_ok :: "bytes32 \<Rightarrow> bool"
  ed_sig_ok :: "bytes64 \<Rightarrow> bool"
  ed_verify :: "bytes32 \<Rightarrow> bytes32 \<Rightarrow> bytes64 \<Rightarrow> bool"
  ed_public :: "bytes32 \<Rightarrow> bytes32"
  ed_sign :: "bytes32 \<Rightarrow> bytes32 \<Rightarrow> bytes64"

definition ed25519_ok :: "ed25519 \<Rightarrow> bool" where
  "ed25519_ok E \<longleftrightarrow>
     (\<forall>k m. ed_key_ok E (ed_public E k) \<and> ed_sig_ok E (ed_sign E k m) \<and>
        ed_verify E (ed_public E k) m (ed_sign E k m))"

section \<open>The transaction\<close>

definition fee_payer :: "intent_transaction \<Rightarrow> bytes32" where
  "fee_payer tx =
     (case tx_fee_policy tx of
        SenderPays \<Rightarrow> tx_sender tx
      | SponsorPays \<Rightarrow> (case tx_sponsor tx of None \<Rightarrow> tx_sender tx | Some s \<Rightarrow> s)
      | SponsorThenSender \<Rightarrow> (case tx_sponsor tx of None \<Rightarrow> tx_sender tx | Some s \<Rightarrow> s))"

definition effective_fee_envelope :: "intent_transaction \<Rightarrow> fee_envelope" where
  "effective_fee_envelope tx =
     (case tx_fee_envelope tx of
        Some env \<Rightarrow> env
      | None \<Rightarrow> from_legacy_max_fee (fee_payer tx) (tx_max_fee tx) (tx_deadline_epoch tx))"

definition runtime_gas_limit :: "intent_transaction \<Rightarrow> u64" where
  "runtime_gas_limit tx = fe_max_runtime_fee (effective_fee_envelope tx)"

definition is_sponsored :: "intent_transaction \<Rightarrow> bool" where
  "is_sponsored tx \<longleftrightarrow> tx_sponsor tx \<noteq> None \<and> tx_sponsor_signature tx \<noteq> None"

definition invalid_intent :: "string \<Rightarrow> runtime_error + unit" where
  "invalid_intent msg = Inl (InvalidIntent (Text msg))"

fun validate_intent :: "intent_type \<Rightarrow> runtime_error + unit" where
  "validate_intent (Transfer t) =
     (if ti_amount t = 0 then invalid_intent ''transfer amount must be greater than zero''
      else if ti_recipient t = 0 then invalid_intent ''recipient address must be non-zero''
      else if ti_asset_id t = 0 then invalid_intent ''asset_id must be non-zero''
      else Inr ())"
| "validate_intent (Swap s) =
     (if si_input_amount s = 0 then invalid_intent ''swap input_amount must be greater than zero''
      else if si_input_asset s = si_output_asset s then
        invalid_intent ''swap input_asset and output_asset must differ''
      else if si_max_slippage_bps s > 10000 then
        invalid_intent ''max_slippage_bps must not exceed 10000 (100%)''
      else Inr ())"
| "validate_intent (YieldAllocate y) =
     (if yi_amount y = 0 then invalid_intent ''yield allocate amount must be greater than zero''
      else Inr ())"
| "validate_intent (TreasuryRebalance r) =
     (if tr_amount r = 0 then invalid_intent ''treasury rebalance amount must be greater than zero''
      else if tr_authorized_by r = [] then
        invalid_intent ''treasury rebalance requires at least one authority''
      else if tr_from_asset r = tr_to_asset r then
        invalid_intent ''treasury rebalance from_asset and to_asset must differ''
      else Inr ())"
| "validate_intent (RouteLiquidity r) =
     (if rl_amount r = 0 then invalid_intent ''route liquidity amount must be greater than zero''
      else if rl_min_received r = 0 then
        invalid_intent ''route liquidity min_received must be greater than zero''
      else if rl_source_pool r = rl_target_pool r then
        invalid_intent ''route liquidity source and target pools must differ''
      else if rl_max_hops r = 0 \<or> rl_max_hops r > 5 then
        invalid_intent ''route liquidity max_hops must be 1-5''
      else if rl_max_price_impact_bps r > 500 then
        invalid_intent ''route liquidity max_price_impact_bps must not exceed 500''
      else Inr ())"
| "validate_intent (ContractCall c) =
     (if ci_schema_id c = 0 then invalid_intent ''contract call schema_id must be non-zero''
      else if ci_method_selector c = [] then
        invalid_intent ''contract call method_selector must not be empty''
      else Inr ())"

definition tx_validate :: "intent_transaction \<Rightarrow> runtime_error + unit" where
  "tx_validate tx =
     (if tx_sender tx = 0 then invalid_intent ''sender address must be non-zero''
      else if tx_id tx = 0 then invalid_intent ''tx_id must be non-zero''
      else if tx_max_fee tx = 0 then invalid_intent ''max_fee must be greater than zero''
      else validate_intent (tx_intent tx))"

fun intent_canonical_bytes :: "intent_type \<Rightarrow> bytes" where
  "intent_canonical_bytes (Transfer t) =
     [1] @ be_bytes 32 (ti_asset_id t) @ be_bytes 16 (ti_amount t) @ be_bytes 32 (ti_recipient t)"
| "intent_canonical_bytes (Swap s) =
     [2] @ be_bytes 32 (si_input_asset s) @ be_bytes 32 (si_output_asset s)
       @ be_bytes 16 (si_input_amount s) @ be_bytes 16 (si_min_output_amount s)
       @ be_bytes 4 (si_max_slippage_bps s)"
| "intent_canonical_bytes (YieldAllocate y) =
     [3] @ be_bytes 32 (yi_asset_id y) @ be_bytes 16 (yi_amount y)
       @ be_bytes 32 (yi_target_vault_id y) @ be_bytes 4 (yi_min_apy_bps y)"
| "intent_canonical_bytes (TreasuryRebalance r) =
     [4] @ be_bytes 32 (tr_from_asset r) @ be_bytes 32 (tr_to_asset r) @ be_bytes 16 (tr_amount r)
       @ be_bytes 4 (of_nat (length (tr_authorized_by r)) :: u32)
       @ concat (map (be_bytes 32) (tr_authorized_by r))"
| "intent_canonical_bytes (RouteLiquidity r) =
     [5] @ be_bytes 32 (rl_source_pool r) @ be_bytes 32 (rl_target_pool r)
       @ be_bytes 32 (rl_asset_id r) @ be_bytes 16 (rl_amount r) @ be_bytes 16 (rl_min_received r)
       @ [rl_max_hops r] @ be_bytes 2 (rl_max_price_impact_bps r)"
| "intent_canonical_bytes (ContractCall c) =
     [6] @ be_bytes 32 (ci_schema_id c) @ string_bytes (ci_method_selector c)
       @ be_bytes 8 (cc_max_state_delta_bytes (ci_constraints c))
       @ cc_custom_constraints (ci_constraints c)"

definition signing_payload :: "extern \<Rightarrow> intent_transaction \<Rightarrow> bytes32" where
  "signing_payload X tx =
     x_sha256 X (string_bytes ''OMNIPHI_INTENT_V1'' @ be_bytes 32 (tx_id tx) @ be_bytes 32 (tx_sender tx)
       @ be_bytes 8 (tx_nonce tx) @ intent_canonical_bytes (tx_intent tx)
       @ be_bytes 8 (tx_max_fee tx) @ be_bytes 8 (tx_deadline_epoch tx))"

definition verify_signature :: "extern \<Rightarrow> ed25519 \<Rightarrow> intent_transaction \<Rightarrow> bool" where
  "verify_signature X E tx \<longleftrightarrow>
     ed_key_ok E (tx_sender tx) \<and> ed_sig_ok E (tx_signature tx) \<and>
     ed_verify E (tx_sender tx) (signing_payload X tx) (tx_signature tx)"

definition tx_sign :: "extern \<Rightarrow> ed25519 \<Rightarrow> intent_transaction \<Rightarrow> bytes32 \<Rightarrow> bytes64" where
  "tx_sign X E tx signing_key = ed_sign E signing_key (signing_payload X tx)"

definition sponsorship_limits_hash :: "extern \<Rightarrow> intent_transaction \<Rightarrow> bytes32" where
  "sponsorship_limits_hash X tx =
     (let l = tx_sponsorship_limits tx;
          opt = (\<lambda>x. case x of None \<Rightarrow> [] | Some (g :: u64) \<Rightarrow> be_bytes 8 g)
      in x_sha256 X (string_bytes ''OMNIPHI_SPONSOR_LIMITS_V1'' @ opt (sl_max_gas l)
           @ opt (sl_max_fee_amount l) @ concat (map string_bytes (sl_allowed_intent_types l))
           @ concat (map (be_bytes 32) (sl_allowed_objects l)) @ opt (sl_expiration_epoch l)))"

definition sponsorship_payload :: "extern \<Rightarrow> intent_transaction \<Rightarrow> bytes32" where
  "sponsorship_payload X tx =
     x_sha256 X (string_bytes ''OMNIPHI_SPONSOR_V1'' @ be_bytes 32 (tx_id tx) @ be_bytes 32 (tx_sender tx)
       @ be_bytes 8 (tx_max_fee tx) @ (case tx_sponsor tx of None \<Rightarrow> [] | Some s \<Rightarrow> be_bytes 32 s)
       @ be_bytes 32 (sponsorship_limits_hash X tx))"

definition verify_sponsor_signature :: "extern \<Rightarrow> ed25519 \<Rightarrow> intent_transaction \<Rightarrow> bool" where
  "verify_sponsor_signature X E tx =
     (case tx_sponsor tx of None \<Rightarrow> False
      | Some sponsor \<Rightarrow>
          (case tx_sponsor_signature tx of None \<Rightarrow> False
           | Some sig \<Rightarrow> ed_key_ok E sponsor \<and> ed_sig_ok E sig \<and>
               ed_verify E sponsor (sponsorship_payload X tx) sig))"

definition sign_sponsorship :: "extern \<Rightarrow> ed25519 \<Rightarrow> intent_transaction \<Rightarrow> bytes32 \<Rightarrow> bytes64" where
  "sign_sponsorship X E tx sponsor_key = ed_sign E sponsor_key (sponsorship_payload X tx)"

section \<open>Nonces\<close>

type_synonym nonce_tracker = "(bytes32, u64) btree"

definition expected_nonce :: "nonce_tracker \<Rightarrow> bytes32 \<Rightarrow> u64" where
  "expected_nonce t sender = (case bt_get t sender of None \<Rightarrow> 0 | Some n \<Rightarrow> n)"

definition nonce_is_valid :: "nonce_tracker \<Rightarrow> bytes32 \<Rightarrow> u64 \<Rightarrow> bool" where
  "nonce_is_valid t sender nonce \<longleftrightarrow> nonce = expected_nonce t sender"

definition nonce_advance :: "bytes32 \<Rightarrow> u64 \<Rightarrow> nonce_tracker \<Rightarrow> nonce_tracker \<times> (err_text + unit)" where
  "nonce_advance sender nonce t =
     (let expected = expected_nonce t sender in
      if nonce \<noteq> expected then
        (t, Inl (Fmt ''nonce mismatch: expected {}, got {}'' [unat expected, unat nonce]))
      else (bt_put sender (nonce + 1) t, Inr ()))"

section \<open>Admission\<close>

datatype admission_result = Accepted | Rejected err_text | RejectedStructural runtime_error

record admission_pipeline =
  ap_nonce_tracker :: nonce_tracker
  ap_current_epoch :: u64
  ap_verify_signatures :: bool

definition pipeline_new :: "u64 \<Rightarrow> admission_pipeline" where
  "pipeline_new epoch = \<lparr>ap_nonce_tracker = [], ap_current_epoch = epoch, ap_verify_signatures = True\<rparr>"

fun check_required_versions :: "object_store \<Rightarrow> (object_id \<times> u64) list \<Rightarrow> err_text option" where
  "check_required_versions s [] = None"
| "check_required_versions s ((i, ver) # rest) =
     (case store_get s i of
        Some x \<Rightarrow>
          (if om_version (obj_meta x) \<noteq> ver
           then Some (Fmt ''constraint: object {} version {} != required {}''
                  [unat i, unat (om_version (obj_meta x)), unat ver])
           else check_required_versions s rest)
      | None \<Rightarrow> Some (Fmt ''constraint: required_version object {} not found'' [unat i]))"

definition admit ::
  "extern \<Rightarrow> ed25519 \<Rightarrow> intent_transaction \<Rightarrow> object_store \<Rightarrow> admission_pipeline
     \<Rightarrow> admission_pipeline \<times> admission_result" where
  "admit X E tx s p =
     (case tx_validate tx of
        Inl e \<Rightarrow> (p, RejectedStructural e)
      | Inr _ \<Rightarrow>
      if ap_verify_signatures p \<and> \<not> verify_signature X E tx then
        (p, Rejected (Text ''invalid Ed25519 signature''))
      else if tx_deadline_epoch tx < ap_current_epoch p then
        (p, Rejected (Fmt ''expired: deadline {} < current {}''
               [unat (tx_deadline_epoch tx), unat (ap_current_epoch p)]))
      else if \<not> nonce_is_valid (ap_nonce_tracker p) (tx_sender tx) (tx_nonce tx) then
        (p, Rejected (Fmt ''nonce: expected {}, got {}''
               [unat (expected_nonce (ap_nonce_tracker p) (tx_sender tx)), unat (tx_nonce tx)]))
      else case find (\<lambda>i. store_get s i = None) (tx_target_objects tx) of
        Some i \<Rightarrow> (p, Rejected (Fmt ''target object {} not found'' [unat i]))
      | None \<Rightarrow>
      if (case ic_max_slippage_bps (tx_constraints tx) of None \<Rightarrow> False | Some m \<Rightarrow> m > 10000) then
        (p, Rejected (Text ''constraint: max_slippage_bps > 10000''))
      else case check_required_versions s (ic_required_versions (tx_constraints tx)) of
        Some e \<Rightarrow> (p, Rejected e)
      | None \<Rightarrow>
      case (if ic_allowed_objects (tx_constraints tx) = [] then None
            else find (\<lambda>i. i \<notin> set (ic_allowed_objects (tx_constraints tx))) (tx_target_objects tx)) of
        Some i \<Rightarrow> (p, Rejected (Fmt ''constraint: target {} not in allowed_objects'' [unat i]))
      | None \<Rightarrow>
        (p\<lparr>ap_nonce_tracker := fst (nonce_advance (tx_sender tx) (tx_nonce tx) (ap_nonce_tracker p))\<rparr>,
         Accepted))"

section \<open>Sponsorship\<close>

record sponsorship_validation =
  sv_valid :: bool
  sv_fee_payer :: bytes32
  sv_sponsor_pays_amount :: u64
  sv_sender_pays_amount :: u64
  sv_reason :: err_text

type_synonym sponsor_key = "bytes32 \<times> bytes32"

text \<open>\<open>rt_seen\<close> is only looked up by key, \<open>rt_by_epoch\<close> is read in epoch order.\<close>

record sponsor_replay_tracker =
  rt_seen :: "sponsor_key \<rightharpoonup> u64"
  rt_by_epoch :: "(u64, sponsor_key list) btree"

definition replay_new :: sponsor_replay_tracker where
  "replay_new = \<lparr>rt_seen = Map.empty, rt_by_epoch = []\<rparr>"

definition check_and_mark ::
  "bytes32 \<Rightarrow> bytes32 \<Rightarrow> u64 \<Rightarrow> sponsor_replay_tracker \<Rightarrow> sponsor_replay_tracker \<times> bool" where
  "check_and_mark sponsor tid epoch t =
     (let key = (sponsor, tid) in
      if rt_seen t key \<noteq> None then (t, False)
      else (t\<lparr>rt_seen := (rt_seen t)(key \<mapsto> epoch),
              rt_by_epoch := bt_put epoch
                ((case bt_get (rt_by_epoch t) epoch of None \<Rightarrow> [] | Some ks \<Rightarrow> ks) @ [key]) (rt_by_epoch t)\<rparr>,
            True))"

definition is_replay :: "sponsor_replay_tracker \<Rightarrow> bytes32 \<Rightarrow> bytes32 \<Rightarrow> bool" where
  "is_replay t sponsor tid \<longleftrightarrow> rt_seen t (sponsor, tid) \<noteq> None"

text \<open>One old epoch removed; the counter counts every key of it.\<close>

definition prune_epoch :: "u64 \<Rightarrow> sponsor_replay_tracker \<times> nat \<Rightarrow> sponsor_replay_tracker \<times> nat" where
  "prune_epoch epoch st =
     (let (t, removed) = st in
      case bt_get (rt_by_epoch t) epoch of
        None \<Rightarrow> st
      | Some keys \<Rightarrow>
          (t\<lparr>rt_by_epoch := bt_del epoch (rt_by_epoch t),
             rt_seen := fold (\<lambda>k m. m(k := None)) keys (rt_seen t)\<rparr>, removed + length keys))"

definition replay_prune :: "u64 \<Rightarrow> sponsor_replay_tracker \<Rightarrow> sponsor_replay_tracker \<times> nat" where
  "replay_prune before t =
     fold prune_epoch (filter (\<lambda>e. e < before) (bt_keys (rt_by_epoch t))) (t, 0)"

definition replay_clear :: "sponsor_replay_tracker \<Rightarrow> sponsor_replay_tracker" where
  "replay_clear t = t\<lparr>rt_seen := Map.empty, rt_by_epoch := []\<rparr>"

definition sponsorship_reject :: "err_text \<Rightarrow> sponsorship_validation" where
  "sponsorship_reject reason =
     \<lparr>sv_valid = False, sv_fee_payer = 0, sv_sponsor_pays_amount = 0, sv_sender_pays_amount = 0,
      sv_reason = reason\<rparr>"

fun intent_type_name :: "intent_type \<Rightarrow> string" where
  "intent_type_name (Transfer _) = ''transfer''"
| "intent_type_name (Swap _) = ''swap''"
| "intent_type_name (YieldAllocate _) = ''yield_allocate''"
| "intent_type_name (TreasuryRebalance _) = ''treasury_rebalance''"
| "intent_type_name (RouteLiquidity _) = ''route_liquidity''"
| "intent_type_name (ContractCall _) = ''contract_call''"

text \<open>Steps 5 to 9: the first limit that is violated.\<close>

definition sponsor_limit_error :: "intent_transaction \<Rightarrow> u64 \<Rightarrow> err_text option" where
  "sponsor_limit_error tx current_epoch =
     (let l = tx_sponsorship_limits tx in
      case (case sl_max_gas l of None \<Rightarrow> None
            | Some g \<Rightarrow> if tx_max_fee tx > g
                then Some (Fmt ''intent max_fee {} exceeds sponsor max_gas limit {}''
                       [unat (tx_max_fee tx), unat g]) else None) of
        Some e \<Rightarrow> Some e
      | None \<Rightarrow>
      case (case sl_max_fee_amount l of None \<Rightarrow> None
            | Some f \<Rightarrow> if tx_fee_policy tx = SponsorPays \<and> tx_max_fee tx > f
                then Some (Fmt ''intent max_fee {} exceeds sponsor max_fee_amount limit {}''
                       [unat (tx_max_fee tx), unat f]) else None) of
        Some e \<Rightarrow> Some e
      | None \<Rightarrow>
      if sl_allowed_intent_types l \<noteq> [] \<and> intent_type_name (tx_intent tx) \<notin> set (sl_allowed_intent_types l)
      then Some (Text ''intent type not in sponsor's allowed types'')
      else case (if sl_allowed_objects l = [] then None
                 else find (\<lambda>i. i \<notin> set (sl_allowed_objects l)) (tx_target_objects tx)) of
        Some i \<Rightarrow> Some (Fmt ''intent targets object {:?} not in sponsor's allowed objects'' [unat i])
      | None \<Rightarrow>
      case sl_expiration_epoch l of
        None \<Rightarrow> None
      | Some exp \<Rightarrow> if current_epoch \<ge> exp
          then Some (Fmt ''sponsorship expired at epoch {} (current: {})'' [unat exp, unat current_epoch])
          else None)"

definition fee_assignment :: "intent_transaction \<Rightarrow> u64 \<times> u64" where
  "fee_assignment tx =
     (case tx_fee_policy tx of
        SponsorPays \<Rightarrow> (tx_max_fee tx, 0)
      | SponsorThenSender \<Rightarrow>
          (let cap = (case sl_max_fee_amount (tx_sponsorship_limits tx) of
                        None \<Rightarrow> tx_max_fee tx | Some f \<Rightarrow> f)
           in if tx_max_fee tx \<le> cap then (tx_max_fee tx, 0) else (cap, tx_max_fee tx - cap))
      | SenderPays \<Rightarrow> (0, tx_max_fee tx))"

definition sponsorship_validate ::
  "extern \<Rightarrow> ed25519 \<Rightarrow> intent_transaction \<Rightarrow> u64 \<Rightarrow> sponsor_replay_tracker
     \<Rightarrow> sponsor_replay_tracker \<times> sponsorship_validation" where
  "sponsorship_validate X E tx current_epoch t =
     (if tx_fee_policy tx = SenderPays \<or> tx_sponsor tx = None then
        (t, \<lparr>sv_valid = True, sv_fee_payer = tx_sender tx, sv_sponsor_pays_amount = 0,
             sv_sender_pays_amount = tx_max_fee tx, sv_reason = Text []\<rparr>)
      else
        let sponsor = the (tx_sponsor tx) in
        if sponsor = 0 then (t, sponsorship_reject (Text ''sponsor address must be non-zero''))
        else if sponsor = tx_sender tx then
          (t, sponsorship_reject (Text ''sponsor and sender must be different addresses''))
        else if tx_sponsor_signature tx = None then
          (t, sponsorship_reject (Text ''sponsored intent requires sponsor_signature''))
        else if \<not> verify_sponsor_signature X E tx then
          (t, sponsorship_reject (Text ''invalid sponsor signature''))
        else
          let (t', fresh) = check_and_mark sponsor (tx_id tx) current_epoch t in
          if \<not> fresh then
            (t', sponsorship_reject (Text ''sponsor replay: this (sponsor, tx_id) pair was already used''))
          else case sponsor_limit_error tx current_epoch of
            Some e \<Rightarrow> (t', sponsorship_reject e)
          | None \<Rightarrow>
              (let (sponsor_pays, sender_pays) = fee_assignment tx in
               (t', \<lparr>sv_valid = True, sv_fee_payer = sponsor, sv_sponsor_pays_amount = sponsor_pays,
                     sv_sender_pays_amount = sender_pays, sv_reason = Text []\<rparr>)))"

section \<open>Machines\<close>

text \<open>A stream of admissions, each against the store of its moment, with the key it uses.\<close>

definition admission_step ::
  "extern \<Rightarrow> ed25519 \<Rightarrow> admission_pipeline \<Rightarrow> intent_transaction \<times> object_store
     \<Rightarrow> admission_pipeline \<times> (admission_result \<times> bytes32 \<times> u64)" where
  "admission_step X E p i =
     (let (p', r) = admit X E (fst i) (snd i) p in (p', r, tx_sender (fst i), tx_nonce (fst i)))"

definition accepted_key :: "admission_result \<times> bytes32 \<times> u64 \<Rightarrow> (bytes32 \<times> u64) list" where
  "accepted_key out = (if fst out = Accepted then [snd out] else [])"

definition nonces_left :: "(intent_transaction \<times> object_store) list \<Rightarrow> admission_pipeline \<Rightarrow> bool" where
  "nonces_left is p \<longleftrightarrow>
     (\<forall>sender. unat (expected_nonce (ap_nonce_tracker p) sender) + length is < 2 ^ 64)"

definition nonce_used :: "admission_pipeline \<Rightarrow> bytes32 \<times> u64 \<Rightarrow> bool" where
  "nonce_used p k \<longleftrightarrow> snd k < expected_nonce (ap_nonce_tracker p) (fst k)"

definition sponsor_step ::
  "extern \<Rightarrow> ed25519 \<Rightarrow> sponsor_replay_tracker \<Rightarrow> intent_transaction \<times> u64
     \<Rightarrow> sponsor_replay_tracker \<times> (intent_transaction \<times> sponsorship_validation)" where
  "sponsor_step X E t i =
     (let (t', r) = sponsorship_validate X E (fst i) (snd i) t in (t', fst i, r))"

definition sponsored_key :: "intent_transaction \<times> sponsorship_validation \<Rightarrow> sponsor_key list" where
  "sponsored_key out =
     (if sv_valid (snd out) \<and> tx_fee_policy (fst out) \<noteq> SenderPays \<and> tx_sponsor (fst out) \<noteq> None
      then [(the (tx_sponsor (fst out)), tx_id (fst out))] else [])"

section \<open>What admission checks\<close>

definition admissible ::
  "extern \<Rightarrow> ed25519 \<Rightarrow> intent_transaction \<Rightarrow> object_store \<Rightarrow> admission_pipeline \<Rightarrow> bool" where
  "admissible X E tx s p \<longleftrightarrow>
     tx_validate tx = Inr () \<and> (ap_verify_signatures p \<longrightarrow> verify_signature X E tx) \<and>
     ap_current_epoch p \<le> tx_deadline_epoch tx \<and>
     tx_nonce tx = expected_nonce (ap_nonce_tracker p) (tx_sender tx) \<and>
     (\<forall>i \<in> set (tx_target_objects tx). store_get s i \<noteq> None) \<and>
     (\<forall>m. ic_max_slippage_bps (tx_constraints tx) = Some m \<longrightarrow> m \<le> 10000) \<and>
     (\<forall>(i, ver) \<in> set (ic_required_versions (tx_constraints tx)).
        \<exists>x. store_get s i = Some x \<and> om_version (obj_meta x) = ver) \<and>
     (ic_allowed_objects (tx_constraints tx) \<noteq> [] \<longrightarrow>
        set (tx_target_objects tx) \<subseteq> set (ic_allowed_objects (tx_constraints tx)))"

text \<open>What the canonical bytes of a built-in intent cover.\<close>

fun signed_fields :: "intent_type \<Rightarrow> intent_type" where
  "signed_fields (Transfer t) = Transfer (t\<lparr>ti_memo := None\<rparr>)"
| "signed_fields (Swap s) = Swap (s\<lparr>si_allowed_pool_ids := None\<rparr>)"
| "signed_fields i = i"

fun builtin_intent :: "intent_type \<Rightarrow> bool" where
  "builtin_intent (ContractCall c) = False"
| "builtin_intent (TreasuryRebalance r) = (length (tr_authorized_by r) < 2 ^ 32)"
| "builtin_intent i = True"

text \<open>The two indexes of the replay tracker agree.\<close>

definition replay_ok :: "sponsor_replay_tracker \<Rightarrow> bool" where
  "replay_ok t \<longleftrightarrow>
     bt_ok (rt_by_epoch t) \<and>
     (\<forall>k e. rt_seen t k = Some e \<longleftrightarrow> (\<exists>ks. bt_get (rt_by_epoch t) e = Some ks \<and> k \<in> set ks))"

text \<open>A key and signature scheme for the witnesses: the signature of a message is the message.\<close>

definition ed25519_std :: ed25519 where
  "ed25519_std =
     \<lparr>ed_key_ok = (\<lambda>_. True), ed_sig_ok = (\<lambda>_. True), ed_verify = (\<lambda>k m s. s = ucast m),
      ed_public = (\<lambda>k. k), ed_sign = (\<lambda>k m. ucast m)\<rparr>"

definition constraints_none :: intent_constraints where
  "constraints_none =
     \<lparr>ic_max_spend = None, ic_min_received = None, ic_max_slippage_bps = None,
      ic_allowed_objects = [], ic_required_versions = [], ic_path_hints = []\<rparr>"

definition limits_none :: sponsorship_limits where
  "limits_none =
     \<lparr>sl_max_gas = None, sl_max_fee_amount = None, sl_allowed_intent_types = [],
      sl_allowed_objects = [], sl_expiration_epoch = None\<rparr>"

definition sample_tx :: "intent_type \<Rightarrow> intent_transaction" where
  "sample_tx i =
     \<lparr>tx_id = 77, tx_sender = 1, tx_intent = i, tx_max_fee = 1000, tx_deadline_epoch = 50,
      tx_nonce = 0, tx_signature = 0, tx_metadata = [], tx_target_objects = [],
      tx_constraints = constraints_none, tx_execution_mode = BestEffort, tx_sponsor = None,
      tx_sponsor_signature = None, tx_sponsorship_limits = limits_none, tx_fee_policy = SenderPays,
      tx_fee_envelope = None\<rparr>"

definition sample_transfer :: intent_type where
  "sample_transfer = Transfer \<lparr>ti_asset_id = 9, ti_amount = 10, ti_recipient = 2, ti_memo = None\<rparr>"

section \<open>Lemmas: admission\<close>

lemma ed25519_std_ok [simp]: "ed25519_ok ed25519_std"
  by (simp add: ed25519_ok_def ed25519_std_def)

lemma check_required_versions_None:
  "check_required_versions s vs = None \<longleftrightarrow>
     (\<forall>(i, ver) \<in> set vs. \<exists>x. store_get s i = Some x \<and> om_version (obj_meta x) = ver)"
  by (induction s vs rule: check_required_versions.induct) (auto split: option.splits)

lemma admissible_guards:
  "admissible X E tx s p \<longleftrightarrow>
     tx_validate tx = Inr () \<and> \<not> (ap_verify_signatures p \<and> \<not> verify_signature X E tx) \<and>
     \<not> tx_deadline_epoch tx < ap_current_epoch p \<and>
     nonce_is_valid (ap_nonce_tracker p) (tx_sender tx) (tx_nonce tx) \<and>
     find (\<lambda>i. store_get s i = None) (tx_target_objects tx) = None \<and>
     \<not> (case ic_max_slippage_bps (tx_constraints tx) of None \<Rightarrow> False | Some m \<Rightarrow> m > 10000) \<and>
     check_required_versions s (ic_required_versions (tx_constraints tx)) = None \<and>
     (if ic_allowed_objects (tx_constraints tx) = [] then None
      else find (\<lambda>i. i \<notin> set (ic_allowed_objects (tx_constraints tx))) (tx_target_objects tx)) = None"
proof -
  have slip: "(\<forall>m. ic_max_slippage_bps (tx_constraints tx) = Some m \<longrightarrow> m \<le> 10000) \<longleftrightarrow>
      \<not> (case ic_max_slippage_bps (tx_constraints tx) of None \<Rightarrow> False | Some m \<Rightarrow> m > 10000)"
    by (simp add: not_less split: option.split)
  have targets: "(\<forall>i \<in> set (tx_target_objects tx). store_get s i \<noteq> None) \<longleftrightarrow>
      find (\<lambda>i. store_get s i = None) (tx_target_objects tx) = None"
    by (auto simp: find_None_iff)
  have allowed: "(ic_allowed_objects (tx_constraints tx) \<noteq> [] \<longrightarrow>
        set (tx_target_objects tx) \<subseteq> set (ic_allowed_objects (tx_constraints tx))) \<longleftrightarrow>
      (if ic_allowed_objects (tx_constraints tx) = [] then None
       else find (\<lambda>i. i \<notin> set (ic_allowed_objects (tx_constraints tx))) (tx_target_objects tx)) = None"
    by (simp add: find_None_iff subset_eq) blast
  show ?thesis
    unfolding admissible_def slip targets allowed nonce_is_valid_def check_required_versions_None not_less
    by (simp only: imp_conv_disj de_Morgan_conj not_not)
qed

lemma admit_accepts:
  assumes "admissible X E tx s p"
  shows "admit X E tx s p =
    (p\<lparr>ap_nonce_tracker := bt_put (tx_sender tx) (tx_nonce tx + 1) (ap_nonce_tracker p)\<rparr>, Accepted)"
proof -
  note g = assms [unfolded admissible_guards]
  have "fst (nonce_advance (tx_sender tx) (tx_nonce tx) (ap_nonce_tracker p)) =
      bt_put (tx_sender tx) (tx_nonce tx + 1) (ap_nonce_tracker p)"
    using g by (simp add: nonce_advance_def nonce_is_valid_def)
  with g show ?thesis unfolding admit_def by (simp only: sum.case option.case if_False if_True not_True_eq_False)
qed

lemma admit_rejects:
  assumes "\<not> admissible X E tx s p"
  shows "fst (admit X E tx s p) = p \<and> snd (admit X E tx s p) \<noteq> Accepted"
proof -
  define h where "h = (if ic_allowed_objects (tx_constraints tx) = [] then None
      else find (\<lambda>i. i \<notin> set (ic_allowed_objects (tx_constraints tx))) (tx_target_objects tx))"
  define d where "d = (case ic_max_slippage_bps (tx_constraints tx) of None \<Rightarrow> False | Some m \<Rightarrow> m > 10000)"
  define b where "b = (ap_verify_signatures p \<and> \<not> verify_signature X E tx)"
  show ?thesis
    using assms unfolding admissible_guards admit_def h_def [symmetric] d_def [symmetric] b_def [symmetric]
    by (simp split: sum.split if_split option.split) auto
qed

lemma expected_nonce_put:
  "expected_nonce (bt_put a n t) b = (if b = a then n else expected_nonce t b)"
  by (simp add: expected_nonce_def map_simps)

lemma admission_step_cases:
  obtains "admissible X E tx s p"
      "admission_step X E p (tx, s) =
        (p\<lparr>ap_nonce_tracker := bt_put (tx_sender tx) (tx_nonce tx + 1) (ap_nonce_tracker p)\<rparr>,
         Accepted, tx_sender tx, tx_nonce tx)"
    | r where "\<not> admissible X E tx s p" "r \<noteq> Accepted"
      "admission_step X E p (tx, s) = (p, r, tx_sender tx, tx_nonce tx)"
proof (cases "admissible X E tx s p")
  case True
  then show ?thesis using that(1) by (simp add: admission_step_def admit_accepts)
next
  case False
  then show ?thesis
    using that(2) [of "snd (admit X E tx s p)"] admit_rejects [OF False]
    by (simp add: admission_step_def case_prod_beta)
qed

lemma nonce_succ: "unat (n :: u64) + 1 < 2 ^ 64 \<Longrightarrow> unat (n + 1) = unat n + 1"
  using unat_add_fits [of n 1] by simp

lemma nonces_left_bound:
  "nonces_left (i # is) p \<Longrightarrow> unat (expected_nonce (ap_nonce_tracker p) a) + length is + 1 < 2 ^ 64"
  by (simp add: nonces_left_def)

lemma nonces_left_step:
  assumes "nonces_left (i # is) p"
  shows "nonces_left is (fst (admission_step X E p i))"
proof (cases i)
  case (Pair tx s)
  note b = nonces_left_bound [OF assms]
  then have b': "unat (expected_nonce (ap_nonce_tracker p) a) + length is < 2 ^ 64" for a
    using add_lessD1 by blast
  show ?thesis
  proof (rule admission_step_cases [of X E tx s p])
    assume adm: "admissible X E tx s p" and step: "admission_step X E p (tx, s) =
        (p\<lparr>ap_nonce_tracker := bt_put (tx_sender tx) (tx_nonce tx + 1) (ap_nonce_tracker p)\<rparr>,
         Accepted, tx_sender tx, tx_nonce tx)"
    have n: "tx_nonce tx = expected_nonce (ap_nonce_tracker p) (tx_sender tx)"
      using adm by (simp add: admissible_def)
    have "unat (tx_nonce tx + 1) = unat (tx_nonce tx) + 1"
      using b [of "tx_sender tx"] n by (intro nonce_succ) simp
    with b [of "tx_sender tx"] n have "unat (tx_nonce tx + 1) + length is < 2 ^ 64" by simp
    with b' show ?thesis by (simp add: Pair step nonces_left_def expected_nonce_put)
  next
    fix r assume "admission_step X E p (tx, s) = (p, r, tx_sender tx, tx_nonce tx)"
    with b' show ?thesis by (simp add: Pair nonces_left_def)
  qed
qed

interpretation admission: once_machine "admission_step X E" nonces_left accepted_key nonce_used for X E
proof
  fix i :: "intent_transaction \<times> object_store" and "is" p
  assume inv: "nonces_left (i # is) p"
  then show "nonces_left is (fst (admission_step X E p i))" by (rule nonces_left_step)
  show "distinct (accepted_key (snd (admission_step X E p i)))" by (simp add: accepted_key_def)
  obtain tx s where i: "i = (tx, s)" by fastforce
  have succ: "unat (n + 1) = unat n + 1" if "n = expected_nonce (ap_nonce_tracker p) a" for n a
    using nonces_left_bound [OF inv, of a] that by (intro nonce_succ) simp
  fix k
  assume "k \<in> set (accepted_key (snd (admission_step X E p i)))"
  then have k: "k = (tx_sender tx, tx_nonce tx)" and adm: "admissible X E tx s p"
    and step: "admission_step X E p i =
      (p\<lparr>ap_nonce_tracker := bt_put (tx_sender tx) (tx_nonce tx + 1) (ap_nonce_tracker p)\<rparr>,
       Accepted, tx_sender tx, tx_nonce tx)"
    unfolding i by (cases rule: admission_step_cases [of X E tx s p]; simp add: accepted_key_def)+
  have n: "tx_nonce tx = expected_nonce (ap_nonce_tracker p) (tx_sender tx)"
    using adm by (simp add: admissible_def)
  show "\<not> nonce_used p k" by (simp add: nonce_used_def k n)
  show "nonce_used (fst (admission_step X E p i)) k"
    using succ [OF n] by (simp add: nonce_used_def k step expected_nonce_put word_less_nat_alt)
next
  fix i :: "intent_transaction \<times> object_store" and "is" p k
  assume inv: "nonces_left (i # is) p" and used: "nonce_used p k"
  obtain tx s where i: "i = (tx, s)" by fastforce
  show "nonce_used (fst (admission_step X E p i)) k"
  proof (rule admission_step_cases [of X E tx s p])
    assume adm: "admissible X E tx s p" and step: "admission_step X E p (tx, s) =
        (p\<lparr>ap_nonce_tracker := bt_put (tx_sender tx) (tx_nonce tx + 1) (ap_nonce_tracker p)\<rparr>,
         Accepted, tx_sender tx, tx_nonce tx)"
    have n: "tx_nonce tx = expected_nonce (ap_nonce_tracker p) (tx_sender tx)"
      using adm by (simp add: admissible_def)
    have "unat (tx_nonce tx + 1) = unat (tx_nonce tx) + 1"
      using nonces_left_bound [OF inv, of "tx_sender tx"] n by (intro nonce_succ) simp
    then show ?thesis
      using used n by (auto simp: i step nonce_used_def expected_nonce_put word_less_nat_alt)
  next
    fix r assume "admission_step X E p (tx, s) = (p, r, tx_sender tx, tx_nonce tx)"
    with used show ?thesis by (simp add: i)
  qed
qed

section \<open>Lemmas: canonical bytes\<close>

lemma of_nat_u32_inject:
  assumes "m < 2 ^ 32" and "n < 2 ^ 32"
  shows "(of_nat m :: u32) = of_nat n \<longleftrightarrow> m = n"
proof -
  have "unat (of_nat m :: u32) = m" "unat (of_nat n :: u32) = n"
    using assms by (simp_all add: unsigned_of_nat take_bit_nat_eq_self)
  then show ?thesis by metis
qed

lemma canonical_bytes_signed_fields:
  "intent_canonical_bytes (signed_fields i) = intent_canonical_bytes i"
  by (cases i) simp_all

lemma rebalance_bytes_inject:
  assumes "length (tr_authorized_by r) < 2 ^ 32" and "length (tr_authorized_by r') < 2 ^ 32"
    and "intent_canonical_bytes (TreasuryRebalance r) = intent_canonical_bytes (TreasuryRebalance r')"
  shows "r = r'"
proof -
  have "length (tr_authorized_by r) = length (tr_authorized_by r')"
    using assms by (simp add: of_nat_u32_inject)
  then show ?thesis
    using assms(3) by (simp add: concat_be_bytes_inject)
qed

lemma canonical_bytes_inject:
  assumes "builtin_intent i" and "builtin_intent j"
    and "intent_canonical_bytes i = intent_canonical_bytes j"
  shows "signed_fields i = signed_fields j"
proof (cases "\<exists>r r'. i = TreasuryRebalance r \<and> j = TreasuryRebalance r'")
  case True
  then obtain r r' where ij: "i = TreasuryRebalance r" "j = TreasuryRebalance r'" by blast
  have "r = r'" using assms unfolding ij by (intro rebalance_bytes_inject) simp_all
  then show ?thesis by (simp add: ij)
next
  case False
  with assms show ?thesis by (cases i; cases j) auto
qed

section \<open>Lemmas: sponsorship\<close>

lemma sponsorship_frame:
  "rt_seen t k = Some e \<Longrightarrow> rt_seen (fst (sponsorship_validate X E tx now t)) k = Some e"
  by (auto simp: sponsorship_validate_def check_and_mark_def Let_def case_prod_beta split: option.splits)

lemma sponsorship_valid_sponsored:
  assumes "sv_valid (snd (sponsorship_validate X E tx now t))"
    and "tx_fee_policy tx \<noteq> SenderPays" and "tx_sponsor tx = Some sp"
  shows "sp \<noteq> 0 \<and> sp \<noteq> tx_sender tx \<and> verify_sponsor_signature X E tx \<and> rt_seen t (sp, tx_id tx) = None \<and>
    sponsor_limit_error tx now = None \<and>
    rt_seen (fst (sponsorship_validate X E tx now t)) (sp, tx_id tx) = Some now \<and>
    snd (sponsorship_validate X E tx now t) =
      \<lparr>sv_valid = True, sv_fee_payer = sp, sv_sponsor_pays_amount = fst (fee_assignment tx),
       sv_sender_pays_amount = snd (fee_assignment tx), sv_reason = Text []\<rparr>"
  using assms
  by (auto simp: sponsorship_validate_def check_and_mark_def sponsorship_reject_def Let_def case_prod_beta
      split: option.splits if_splits)

lemma sponsored_key_iff:
  "k \<in> set (sponsored_key (snd (sponsor_step X E t i))) \<longleftrightarrow>
     sv_valid (snd (sponsorship_validate X E (fst i) (snd i) t)) \<and> tx_fee_policy (fst i) \<noteq> SenderPays \<and>
     (\<exists>sp. tx_sponsor (fst i) = Some sp \<and> k = (sp, tx_id (fst i)))"
  by (auto simp: sponsored_key_def sponsor_step_def case_prod_beta)

interpretation sponsor: once_machine "sponsor_step X E" "\<lambda>_ _. True" sponsored_key
  "\<lambda>t k. rt_seen t k \<noteq> None" for X E
proof
  fix i :: "intent_transaction \<times> u64" and t k
  show "distinct (sponsored_key (snd (sponsor_step X E t i)))" by (simp add: sponsored_key_def)
  show "rt_seen (fst (sponsor_step X E t i)) k \<noteq> None" if "rt_seen t k \<noteq> None"
    using that sponsorship_frame by (fastforce simp: sponsor_step_def case_prod_beta)
  assume "k \<in> set (sponsored_key (snd (sponsor_step X E t i)))"
  then obtain sp where "sv_valid (snd (sponsorship_validate X E (fst i) (snd i) t))"
    "tx_fee_policy (fst i) \<noteq> SenderPays" "tx_sponsor (fst i) = Some sp" "k = (sp, tx_id (fst i))"
    unfolding sponsored_key_iff by blast
  with sponsorship_valid_sponsored [of X E "fst i" "snd i" t sp]
  show "\<not> rt_seen t k \<noteq> None" "rt_seen (fst (sponsor_step X E t i)) k \<noteq> None"
    by (simp_all add: sponsor_step_def case_prod_beta)
qed simp

lemma fee_assignment_sum:
  "unat (fst (fee_assignment tx)) + unat (snd (fee_assignment tx)) = unat (tx_max_fee tx)"
  by (auto simp: fee_assignment_def Let_def unat_sub_fits word_le_nat_alt split: fee_policy.splits option.splits)

lemma fold_remove: "fold (\<lambda>k m. m(k := None)) ks m = (\<lambda>x. if x \<in> set ks then None else m x)"
  by (induction ks arbitrary: m) (auto simp: fun_eq_iff)

lemma replay_ok_seen:
  "replay_ok t \<Longrightarrow> rt_seen t k = Some e \<longleftrightarrow> (\<exists>ks. bt_get (rt_by_epoch t) e = Some ks \<and> k \<in> set ks)"
  unfolding replay_ok_def by blast

lemma replay_ok_mark:
  assumes "replay_ok t"
  shows "replay_ok (fst (check_and_mark sp tid e t))"
proof (cases "rt_seen t (sp, tid)")
  case None
  let ?ks = "case bt_get (rt_by_epoch t) e of None \<Rightarrow> [] | Some ks \<Rightarrow> ks"
  have step: "fst (check_and_mark sp tid e t) =
      t\<lparr>rt_seen := (rt_seen t)((sp, tid) \<mapsto> e),
        rt_by_epoch := bt_put e (?ks @ [(sp, tid)]) (rt_by_epoch t)\<rparr>"
    using None by (simp add: check_and_mark_def Let_def)
  note seen = replay_ok_seen [OF assms]
  have fresh: "bt_get (rt_by_epoch t) x = Some ks \<Longrightarrow> (sp, tid) \<notin> set ks" for x ks
    using seen [of "(sp, tid)" x] None by simp
  have "(((rt_seen t)((sp, tid) \<mapsto> e)) k = Some x) \<longleftrightarrow>
      (\<exists>ks. bt_get (bt_put e (?ks @ [(sp, tid)]) (rt_by_epoch t)) x = Some ks \<and> k \<in> set ks)" for k x
    using seen [of k x] fresh [of x] by (auto simp: map_simps split: option.splits)
  moreover have "bt_ok (rt_by_epoch t)" using assms by (simp add: replay_ok_def)
  ultimately show ?thesis
    unfolding step replay_ok_def by (simp add: bt_put_ok)
next
  case (Some a)
  then show ?thesis using assms by (simp add: check_and_mark_def)
qed

lemma prune_epoch_effect:
  assumes "replay_ok t"
  shows "replay_ok (fst (prune_epoch e (t, n))) \<and>
    rt_seen (fst (prune_epoch e (t, n))) k = (if rt_seen t k = Some e then None else rt_seen t k)"
proof (cases "bt_get (rt_by_epoch t) e")
  case None
  then have "rt_seen t k \<noteq> Some e" by (simp add: replay_ok_seen [OF assms])
  with None assms show ?thesis by (simp add: prune_epoch_def)
next
  case (Some ks)
  note seen = replay_ok_seen [OF assms]
  have in_ks: "k \<in> set ks \<longleftrightarrow> rt_seen t k = Some e" for k
    using seen [of k e] Some by simp
  have t': "fst (prune_epoch e (t, n)) = t\<lparr>rt_by_epoch := bt_del e (rt_by_epoch t),
      rt_seen := \<lambda>k. if rt_seen t k = Some e then None else rt_seen t k\<rparr>"
    by (simp add: prune_epoch_def Some fold_remove in_ks)
  have "(if rt_seen t k = Some e then None else rt_seen t k) = Some x \<longleftrightarrow>
      (\<exists>l. bt_get (bt_del e (rt_by_epoch t)) x = Some l \<and> k \<in> set l)" for k x
    by (cases "x = e") (simp_all add: map_simps seen [of k x, symmetric])
  moreover have "bt_ok (bt_del e (rt_by_epoch t))"
    using assms by (simp add: replay_ok_def bt_del_ok)
  ultimately have "replay_ok (fst (prune_epoch e (t, n)))"
    unfolding t' replay_ok_def by simp
  then show ?thesis by (simp add: t')
qed

lemma prune_fold_effect:
  "replay_ok t \<Longrightarrow> replay_ok (fst (fold prune_epoch es (t, n))) \<and>
    rt_seen (fst (fold prune_epoch es (t, n))) k =
      (if \<exists>e \<in> set es. rt_seen t k = Some e then None else rt_seen t k)"
proof (induction es arbitrary: t n)
  case (Cons e es)
  obtain t' n' where t': "prune_epoch e (t, n) = (t', n')" by fastforce
  have "replay_ok t'" "rt_seen t' k = (if rt_seen t k = Some e then None else rt_seen t k)"
    using prune_epoch_effect [OF Cons.prems, of e n k] by (simp_all add: t')
  with Cons.IH [of t' n'] show ?case by (auto simp: t' split: if_splits)
qed simp

section \<open>Properties\<close>

text \<open>
  C37. Admission is exactly its checks. A transaction is accepted precisely when it is structurally
  valid, correctly signed (where signatures are checked), not past its deadline, carries the
  sender's next nonce, names only existing target objects inside the allowed set, asks for at most
  100% slippage, and every required object version matches. Acceptance advances the sender's nonce by
  one and no other; a rejection changes nothing.
\<close>

theorem admit_exactly_when_admissible:
  "(snd (admit X E tx s p) = Accepted \<longleftrightarrow> admissible X E tx s p) \<and>
   (\<forall>a. expected_nonce (ap_nonce_tracker (fst (admit X E tx s p))) a =
      (if snd (admit X E tx s p) = Accepted \<and> a = tx_sender tx
       then expected_nonce (ap_nonce_tracker p) a + 1 else expected_nonce (ap_nonce_tracker p) a)) \<and>
   (snd (admit X E tx s p) = Accepted \<or> fst (admit X E tx s p) = p)"
proof (cases "admissible X E tx s p")
  case True
  then have "tx_nonce tx = expected_nonce (ap_nonce_tracker p) (tx_sender tx)"
    by (simp add: admissible_def)
  with True show ?thesis by (simp add: admit_accepts expected_nonce_put)
next
  case False
  with admit_rejects [OF False] show ?thesis by simp
qed

text \<open>
  C36. No replay. Along any sequence of fewer than \<open>2^64\<close> admissions on a fresh pipeline,
  whatever the transactions and the stores they are checked against, no pair of sender and nonce is
  accepted twice.
\<close>

theorem admission_accepts_each_nonce_once:
  assumes "length is < 2 ^ 64"
  shows "distinct (concat (map accepted_key (snd (run (admission_step X E) (pipeline_new epoch) is))))"
proof -
  have "nonces_left is (pipeline_new epoch)"
    using assms by (simp add: nonces_left_def pipeline_new_def expected_nonce_def)
  then show ?thesis using admission.run_once by blast
qed

theorem admission_accepts_each_nonce_once_witness:
  defines "tx \<equiv> (sample_tx sample_transfer)\<lparr>tx_signature :=
    tx_sign extern_std ed25519_std (sample_tx sample_transfer) 1\<rparr>"
  shows "snd (admit extern_std ed25519_std tx store_new (pipeline_new 5)) = Accepted \<and>
    distinct (concat (map accepted_key (snd (run (admission_step extern_std ed25519_std)
      (pipeline_new 5) [(tx, store_new), (tx, store_new)]))))"
proof -
  have "admissible extern_std ed25519_std tx store_new (pipeline_new 5)"
    by (simp add: admissible_def tx_def sample_tx_def sample_transfer_def tx_validate_def
        verify_signature_def tx_sign_def signing_payload_def ed25519_std_def constraints_none_def
        pipeline_new_def expected_nonce_def)
  then have "snd (admit extern_std ed25519_std tx store_new (pipeline_new 5)) = Accepted"
    by (simp add: admit_accepts)
  then show ?thesis
    using admission_accepts_each_nonce_once [of "[(tx, store_new), (tx, store_new)]"] by simp
qed

text \<open>
  What a signature covers. Two built-in intents have the same canonical bytes exactly when they
  agree on every field except the memo of a transfer and the pool list of a swap (a rebalance with
  fewer than \<open>2^32\<close> authorities): no two different amounts, assets, recipients, pools or limits
  share their signed bytes.
\<close>

theorem canonical_bytes_bind_builtin_intents:
  assumes "builtin_intent i" and "builtin_intent j"
  shows "intent_canonical_bytes i = intent_canonical_bytes j \<longleftrightarrow> signed_fields i = signed_fields j"
  using canonical_bytes_inject [OF assms] canonical_bytes_signed_fields by metis

theorem canonical_bytes_bind_builtin_intents_witness:
  "intent_canonical_bytes sample_transfer \<noteq>
     intent_canonical_bytes (Transfer \<lparr>ti_asset_id = 9, ti_amount = 11, ti_recipient = 2, ti_memo = None\<rparr>)"
  using canonical_bytes_bind_builtin_intents [of sample_transfer
      "Transfer \<lparr>ti_asset_id = 9, ti_amount = 11, ti_recipient = 2, ti_memo = None\<rparr>"]
  by (simp add: sample_transfer_def)

text \<open>
  What a signature leaves out. The parameters of a contract call, its required object versions,
  the pool list of a swap, the target objects, the universal constraints and the fee envelope of a
  transaction are not part of the signed payload: changing any of them keeps a valid signature valid.
\<close>

theorem signature_ignores_params_and_envelope:
  assumes "tx_intent tx = ContractCall c"
  shows "verify_signature X E (tx\<lparr>tx_intent := ContractCall (c\<lparr>ci_params := ps,
           ci_constraints := (ci_constraints c)\<lparr>cc_required_object_versions := vs\<rparr>\<rparr>),
         tx_fee_envelope := env, tx_target_objects := objs, tx_constraints := cs\<rparr>)
       \<longleftrightarrow> verify_signature X E tx"
  using assms by (simp add: verify_signature_def signing_payload_def)

theorem signature_ignores_params_and_envelope_witness:
  defines "c \<equiv> \<lparr>ci_schema_id = 3, ci_method_selector = ''pay'', ci_params = [(''to'', [1])],
    ci_constraints = \<lparr>cc_max_state_delta_bytes = 8, cc_required_object_versions = [],
      cc_custom_constraints = []\<rparr>\<rparr>"
  defines "tx \<equiv> (sample_tx (ContractCall c))\<lparr>tx_signature :=
    tx_sign extern_std ed25519_std (sample_tx (ContractCall c)) 1\<rparr>"
  shows "verify_signature extern_std ed25519_std (tx\<lparr>tx_intent := ContractCall (c\<lparr>ci_params := [(''to'', [2])],
    ci_constraints := (ci_constraints c)\<lparr>cc_required_object_versions := []\<rparr>\<rparr>),
    tx_fee_envelope := Some (from_legacy_max_fee 4 1000000 99), tx_target_objects := [],
    tx_constraints := constraints_none\<rparr>)"
proof -
  have "verify_signature extern_std ed25519_std tx"
    by (simp add: tx_def verify_signature_def tx_sign_def signing_payload_def ed25519_std_def)
  moreover have "tx_intent tx = ContractCall c" by (simp add: tx_def sample_tx_def)
  ultimately show ?thesis by (simp only: signature_ignores_params_and_envelope)
qed

text \<open>
  A sponsored transaction that validates carries the sponsor's own signature, was never used
  before and is marked as used, respects every limit the sponsor set, and its fee is split without
  loss: the sponsor's and the sender's parts add up to the maximum fee, with the sponsor's part
  within the fee limit.
\<close>

theorem sponsorship_validation_sound:
  assumes "sv_valid (snd (sponsorship_validate X E tx now t))"
    and "tx_fee_policy tx \<noteq> SenderPays" and "tx_sponsor tx = Some sp"
  shows "verify_sponsor_signature X E tx \<and> sp \<noteq> tx_sender tx \<and> \<not> is_replay t sp (tx_id tx) \<and>
    is_replay (fst (sponsorship_validate X E tx now t)) sp (tx_id tx) \<and>
    unat (sv_sponsor_pays_amount (snd (sponsorship_validate X E tx now t)))
      + unat (sv_sender_pays_amount (snd (sponsorship_validate X E tx now t))) = unat (tx_max_fee tx) \<and>
    (\<forall>f. sl_max_fee_amount (tx_sponsorship_limits tx) = Some f \<longrightarrow>
       sv_sponsor_pays_amount (snd (sponsorship_validate X E tx now t)) \<le> f) \<and>
    (\<forall>g. sl_max_gas (tx_sponsorship_limits tx) = Some g \<longrightarrow> tx_max_fee tx \<le> g) \<and>
    (\<forall>e. sl_expiration_epoch (tx_sponsorship_limits tx) = Some e \<longrightarrow> now < e)"
proof -
  note v = sponsorship_valid_sponsored [OF assms]
  then have none: "sponsor_limit_error tx now = None" by blast
  have "\<forall>g. sl_max_gas (tx_sponsorship_limits tx) = Some g \<longrightarrow> tx_max_fee tx \<le> g"
    using none by (auto simp: sponsor_limit_error_def Let_def not_less split: option.splits if_splits)
  moreover have "\<forall>e. sl_expiration_epoch (tx_sponsorship_limits tx) = Some e \<longrightarrow> now < e"
    using none by (auto simp: sponsor_limit_error_def Let_def not_le split: option.splits if_splits)
  moreover have "fst (fee_assignment tx) \<le> f" if "sl_max_fee_amount (tx_sponsorship_limits tx) = Some f" for f
    using none assms(2) that
    by (cases "tx_fee_policy tx")
      (auto simp: sponsor_limit_error_def fee_assignment_def Let_def not_less split: option.splits if_splits)
  ultimately show ?thesis
    using v fee_assignment_sum [of tx] by (auto simp: is_replay_def)
qed

theorem sponsorship_validation_sound_witness:
  defines "tx0 \<equiv> (sample_tx sample_transfer)\<lparr>tx_fee_policy := SponsorThenSender, tx_sponsor := Some 8,
    tx_sponsorship_limits := limits_none\<lparr>sl_max_fee_amount := Some 600\<rparr>\<rparr>"
  defines "tx \<equiv> tx0\<lparr>tx_sponsor_signature := Some (sign_sponsorship extern_std ed25519_std tx0 8)\<rparr>"
  shows "sv_sponsor_pays_amount (snd (sponsorship_validate extern_std ed25519_std tx 3 replay_new)) \<le> 600 \<and>
    is_replay (fst (sponsorship_validate extern_std ed25519_std tx 3 replay_new)) 8 77"
proof -
  have sig: "verify_sponsor_signature extern_std ed25519_std tx"
    by (simp add: tx_def tx0_def verify_sponsor_signature_def sign_sponsorship_def
        sponsorship_payload_def sponsorship_limits_hash_def ed25519_std_def)
  have "sv_valid (snd (sponsorship_validate extern_std ed25519_std tx 3 replay_new))"
    using sig by (simp add: sponsorship_validate_def tx_def tx0_def sample_tx_def check_and_mark_def
        replay_new_def sponsor_limit_error_def limits_none_def Let_def case_prod_beta)
  moreover have "tx_fee_policy tx \<noteq> SenderPays" "tx_sponsor tx = Some 8" "tx_id tx = 77"
    "sl_max_fee_amount (tx_sponsorship_limits tx) = Some 600"
    by (simp_all add: tx_def tx0_def sample_tx_def)
  ultimately show ?thesis
    using sponsorship_validation_sound [of extern_std ed25519_std tx 3 replay_new 8] by simp
qed

text \<open>
  Along any sequence of sponsorship validations no pair of sponsor and transaction id is paid
  for twice. Pruning forgets exactly the pairs recorded before the given epoch and keeps the two
  indexes of the tracker consistent.
\<close>

theorem sponsor_pays_each_tx_once:
  assumes "replay_ok t"
  shows "distinct (concat (map sponsored_key (snd (run (sponsor_step X E) t is)))) \<and>
    replay_ok (fst (check_and_mark sp tid e t)) \<and> replay_ok (fst (replay_prune before t)) \<and>
    (\<forall>k. rt_seen (fst (replay_prune before t)) k =
       (case rt_seen t k of Some x \<Rightarrow> if x < before then None else Some x | None \<Rightarrow> None))"
proof -
  have "x \<in> set (bt_keys (rt_by_epoch t))" if "rt_seen t k = Some x" for k x
    using that replay_ok_seen [OF assms] by (auto simp: bt_keys_iff)
  then have "rt_seen (fst (replay_prune before t)) k =
      (case rt_seen t k of Some x \<Rightarrow> if x < before then None else Some x | None \<Rightarrow> None)" for k
    using prune_fold_effect [OF assms, of _ 0 k] by (auto simp: replay_prune_def split: option.splits)
  moreover have "replay_ok (fst (replay_prune before t))"
    using prune_fold_effect [OF assms] by (simp add: replay_prune_def)
  ultimately show ?thesis
    using sponsor.run_once replay_ok_mark [OF assms] by blast
qed

theorem sponsor_pays_each_tx_once_witness:
  "replay_ok (fst (replay_prune 5 replay_new)) \<and>
    distinct (concat (map sponsored_key (snd (run (sponsor_step extern_std ed25519_std) replay_new
      [(sample_tx sample_transfer, 3), (sample_tx sample_transfer, 3)]))))"
proof -
  have "replay_ok replay_new" by (simp add: replay_ok_def replay_new_def)
  from sponsor_pays_each_tx_once [OF this] show ?thesis by blast
qed

end
