(* ===== verification/Gas.thy ===== *)
theory Gas
  imports Capabilities
begin

text \<open>
  Gas costs and the gas meter of \<^verbatim>\<open>runtime/src/gas/meter.rs\<close> and the calibration profiles of
  \<^verbatim>\<open>runtime/src/gas/calibration.rs\<close>. A charge returns the meter together with the result, since a
  charge that runs out of gas still leaves the counter raised.
\<close>

section \<open>Cost tables\<close>

record gas_costs =
  gc_base_tx :: u64
  gc_object_read :: u64
  gc_object_write :: u64
  gc_debit_balance :: u64
  gc_credit_balance :: u64
  gc_swap_pool :: u64
  gc_lock_balance :: u64
  gc_unlock_balance :: u64
  gc_update_version :: u64
  gc_capability_check :: u64
  gc_storage_growth_per_byte :: u64
  gc_contract_state_read :: u64
  gc_contract_state_write :: u64
  gc_constraint_validation_base :: u64
  gc_constraint_validation_per_byte :: u64
  gc_bind_contract_balance :: u64
  gc_create_token :: u64
  gc_emit_event :: u64
  gc_ibc_transfer :: u64
  gc_schedule_execution :: u64

definition default_costs :: gas_costs where
  "default_costs =
     \<lparr>gc_base_tx = 1000, gc_object_read = 100, gc_object_write = 500, gc_debit_balance = 200,
      gc_credit_balance = 200, gc_swap_pool = 800, gc_lock_balance = 300, gc_unlock_balance = 300,
      gc_update_version = 50, gc_capability_check = 50, gc_storage_growth_per_byte = 20,
      gc_contract_state_read = 200, gc_contract_state_write = 1000,
      gc_constraint_validation_base = 5000, gc_constraint_validation_per_byte = 5,
      gc_bind_contract_balance = 2000, gc_create_token = 10000, gc_emit_event = 500,
      gc_ibc_transfer = 5000, gc_schedule_execution = 3000\<rparr>"

definition calibrated_costs :: gas_costs where
  "calibrated_costs =
     \<lparr>gc_base_tx = 1000, gc_object_read = 100, gc_object_write = 500, gc_debit_balance = 200,
      gc_credit_balance = 200, gc_swap_pool = 1500, gc_lock_balance = 300, gc_unlock_balance = 300,
      gc_update_version = 50, gc_capability_check = 50, gc_storage_growth_per_byte = 25,
      gc_contract_state_read = 200, gc_contract_state_write = 2000,
      gc_constraint_validation_base = 5000, gc_constraint_validation_per_byte = 5,
      gc_bind_contract_balance = 2000, gc_create_token = 10000, gc_emit_event = 500,
      gc_ibc_transfer = 5000, gc_schedule_execution = 3000\<rparr>"

definition target_hardware_costs :: gas_costs where
  "target_hardware_costs = calibrated_costs"

datatype calibration_profile = ProfileDefault | DevMachine | TargetHardware

fun costs_for_profile :: "calibration_profile \<Rightarrow> gas_costs" where
  "costs_for_profile ProfileDefault = default_costs"
| "costs_for_profile DevMachine = calibrated_costs"
| "costs_for_profile TargetHardware = target_hardware_costs"

section \<open>The meter\<close>

record gas_meter =
  gm_limit :: u64
  gm_consumed :: u64
  gm_costs :: gas_costs
  gm_storage_bytes_added :: u64
  gm_multiplier_bps :: u64

definition meter_new :: "u64 \<Rightarrow> gas_meter" where
  "meter_new limit =
     \<lparr>gm_limit = limit, gm_consumed = 0, gm_costs = default_costs, gm_storage_bytes_added = 0,
      gm_multiplier_bps = 10000\<rparr>"

definition with_complexity_multiplier :: "u64 \<Rightarrow> u64 \<Rightarrow> gas_meter" where
  "with_complexity_multiplier limit multiplier =
     \<lparr>gm_limit = limit, gm_consumed = 0, gm_costs = default_costs, gm_storage_bytes_added = 0,
      gm_multiplier_bps = max multiplier 10000\<rparr>"

definition effective_gas :: "gas_meter \<Rightarrow> u64 \<Rightarrow> u64" where
  "effective_gas m amount =
     (if gm_multiplier_bps m = 10000 then amount
      else to_u64 (case checked_div (sat_mul (to_u128 amount) (to_u128 (gm_multiplier_bps m))) 10000 of
                     None \<Rightarrow> - 1 | Some q \<Rightarrow> q))"

definition consume :: "u64 \<Rightarrow> gas_meter \<Rightarrow> gas_meter \<times> (runtime_error + unit)" where
  "consume amount m =
     (case checked_add (gm_consumed m) (effective_gas m amount) of
        None \<Rightarrow> (m, Inl (ConstraintViolation (Text ''gas counter overflow'')))
      | Some c \<Rightarrow>
          (let m' = m\<lparr>gm_consumed := c\<rparr> in
           if c > gm_limit m' then
             (m', Inl (ConstraintViolation
                (Fmt ''out of gas: consumed {} limit {}'' [unat c, unat (gm_limit m')])))
           else (m', Inr ())))"

definition consume_storage_growth :: "u64 \<Rightarrow> gas_meter \<Rightarrow> gas_meter \<times> (runtime_error + unit)" where
  "consume_storage_growth n m =
     (let m' = m\<lparr>gm_storage_bytes_added := sat_add (gm_storage_bytes_added m) n\<rparr>;
          gas = sat_mul n (gc_storage_growth_per_byte (gm_costs m'))
      in consume gas m')"

definition gas_remaining :: "gas_meter \<Rightarrow> u64" where
  "gas_remaining m = sat_sub (gm_limit m) (gm_consumed m)"

text \<open>A list of charges, stopping at the first error, as the \<^verbatim>\<open>?\<close> in a loop does.\<close>

fun consume_all :: "u64 list \<Rightarrow> gas_meter \<Rightarrow> gas_meter \<times> (runtime_error + unit)" where
  "consume_all [] m = (m, Inr ())"
| "consume_all (a # as) m =
     (case consume a m of (m', Inl e) \<Rightarrow> (m', Inl e) | (m', Inr _) \<Rightarrow> consume_all as m')"

section \<open>Lemmas\<close>

lemma effective_gas_new [simp]: "gm_multiplier_bps m = 10000 \<Longrightarrow> effective_gas m a = a"
  by (simp add: effective_gas_def)

lemma consume_frame:
  "gm_limit (fst (consume a m)) = gm_limit m" "gm_costs (fst (consume a m)) = gm_costs m"
  "gm_multiplier_bps (fst (consume a m)) = gm_multiplier_bps m"
  "gm_storage_bytes_added (fst (consume a m)) = gm_storage_bytes_added m"
  by (auto simp: consume_def Let_def split: option.splits)

lemma consume_ok_iff:
  "snd (consume a m) = Inr u \<longleftrightarrow>
     unat (gm_consumed m) + unat (effective_gas m a) \<le> unat (gm_limit m)"
proof (cases "unat (gm_consumed m) + unat (effective_gas m a) < 2 ^ 64")
  case True
  then have "unat (gm_consumed m + effective_gas m a) = unat (gm_consumed m) + unat (effective_gas m a)"
    by (intro unat_add_fits) simp
  with True show ?thesis
    by (auto simp: consume_def checked_add_def word_le_nat_alt word_less_nat_alt Let_def split: if_splits)
next
  case False
  then show ?thesis
    using unat_less_2p [of "gm_limit m"] by (simp add: consume_def checked_add_def)
qed

lemma consume_ok_consumed:
  assumes "snd (consume a m) = Inr u"
  shows "unat (gm_consumed (fst (consume a m))) = unat (gm_consumed m) + unat (effective_gas m a)"
proof -
  have "unat (gm_consumed m) + unat (effective_gas m a) \<le> unat (gm_limit m)"
    using assms by (simp add: consume_ok_iff)
  then have lt: "unat (gm_consumed m) + unat (effective_gas m a) < 2 ^ 64"
    using unat_less_2p [of "gm_limit m"] by simp
  then show ?thesis
    using unat_add_fits [of "gm_consumed m" "effective_gas m a"]
    by (simp add: consume_def checked_add_def Let_def)
qed

lemma consume_err_bound:
  "unat (gm_consumed (fst (consume a m))) \<le> unat (gm_consumed m) + unat (effective_gas m a)"
  using unat_add_fits [of "gm_consumed m" "effective_gas m a"]
  by (auto simp: consume_def checked_add_def Let_def)

lemma consume_monotone: "unat (gm_consumed m) \<le> unat (gm_consumed (fst (consume a m)))"
  using unat_add_fits [of "gm_consumed m" "effective_gas m a"]
  by (auto simp: consume_def checked_add_def Let_def)

lemma effective_gas_value:
  "unat (effective_gas m a) = (unat a * unat (gm_multiplier_bps m) div 10000) mod 2 ^ 64"
proof (cases "gm_multiplier_bps m = 10000")
  case True
  then show ?thesis using unat_less_2p [of a] by simp
next
  case False
  have "unat a * unat (gm_multiplier_bps m) \<le> (2 ^ 64 - 1) * (2 ^ 64 - 1)"
    using unat_bound [of a] unat_bound [of "gm_multiplier_bps m"] by (intro mult_le_mono) simp_all
  then have "unat (sat_mul (to_u128 a) (to_u128 (gm_multiplier_bps m))) = unat a * unat (gm_multiplier_bps m)"
    by (simp add: machine_simps)
  with False show ?thesis
    by (simp add: effective_gas_def checked_div_def unat_to_u64 unat_div)
qed

section \<open>Properties\<close>

text \<open>
  A charge succeeds exactly when it fits in the limit; then the counter rises by exactly the
  effective cost and stays within the limit. A refused charge is an error, never a wrap-around: the
  counter does not fall and rises by at most the effective cost, and nothing else of the meter changes.
\<close>

theorem consume_spec:
  "(snd (consume a m) = Inr () \<longleftrightarrow>
      unat (gm_consumed m) + unat (effective_gas m a) \<le> unat (gm_limit m)) \<and>
   (snd (consume a m) = Inr () \<longrightarrow>
      unat (gm_consumed (fst (consume a m))) = unat (gm_consumed m) + unat (effective_gas m a) \<and>
      gm_consumed (fst (consume a m)) \<le> gm_limit m) \<and>
   unat (gm_consumed m) \<le> unat (gm_consumed (fst (consume a m))) \<and>
   unat (gm_consumed (fst (consume a m))) \<le> unat (gm_consumed m) + unat (effective_gas m a) \<and>
   gm_limit (fst (consume a m)) = gm_limit m \<and> gm_costs (fst (consume a m)) = gm_costs m \<and>
   gm_multiplier_bps (fst (consume a m)) = gm_multiplier_bps m"
  using consume_ok_iff [of a m "()"] consume_ok_consumed [of a m "()"] consume_frame [of a m]
    consume_err_bound [of a m] consume_monotone [of m a]
  by (simp add: word_le_nat_alt)

theorem consume_spec_witness:
  "snd (consume 1000 (with_complexity_multiplier 10000 15000)) = Inr () \<and>
   unat (gm_consumed (fst (consume 1000 (with_complexity_multiplier 10000 15000)))) = 1500"
proof -
  have "effective_gas (with_complexity_multiplier 10000 15000) 1000 = 1500"
    by (simp add: effective_gas_def with_complexity_multiplier_def checked_div_def sat_mul_def)
  then show ?thesis
    using consume_spec [of 1000 "with_complexity_multiplier 10000 15000"]
    by (simp add: with_complexity_multiplier_def)
qed

text \<open>
  The effective cost is the amount scaled by the complexity multiplier and rounded down, reduced
  modulo \<open>2^64\<close>: it is exact while the scaled cost fits in a \<open>u64\<close>, and never below the
  amount then, but a large enough charge is truncated, and at a multiplier of 2.0x a charge of
  \<open>2^63\<close> units costs nothing.
\<close>

theorem effective_gas_exact_until_truncated:
  "(unat a * unat (gm_multiplier_bps m) div 10000 < 2 ^ 64 \<longrightarrow>
      unat (effective_gas m a) = unat a * unat (gm_multiplier_bps m) div 10000 \<and>
      (10000 \<le> gm_multiplier_bps m \<longrightarrow> a \<le> effective_gas m a)) \<and>
   effective_gas (with_complexity_multiplier limit 20000) (2 ^ 63) = 0"
proof (intro conjI impI)
  assume fits: "unat a * unat (gm_multiplier_bps m) div 10000 < 2 ^ 64"
  then show eq: "unat (effective_gas m a) = unat a * unat (gm_multiplier_bps m) div 10000"
    by (simp add: effective_gas_value)
  assume "10000 \<le> gm_multiplier_bps m"
  then have "10000 \<le> unat (gm_multiplier_bps m)" by (simp add: word_le_nat_alt)
  then have "unat a * 10000 \<le> unat a * unat (gm_multiplier_bps m)" by simp
  then have "unat a \<le> unat a * unat (gm_multiplier_bps m) div 10000" by linarith
  then show "a \<le> effective_gas m a" by (simp add: word_le_nat_alt eq)
next
  have "unat (effective_gas (with_complexity_multiplier limit 20000) (2 ^ 63)) = 0"
    by (simp add: effective_gas_value with_complexity_multiplier_def)
  then show "effective_gas (with_complexity_multiplier limit 20000) (2 ^ 63) = 0"
    by (simp add: unat_eq_0)
qed

theorem effective_gas_exact_until_truncated_witness:
  "unat (effective_gas (with_complexity_multiplier 10000 15000) 1000) = 1500 \<and>
   1000 \<le> effective_gas (with_complexity_multiplier 10000 15000) 1000"
  using effective_gas_exact_until_truncated [of 1000 "with_complexity_multiplier 10000 15000" 0]
  by (simp add: with_complexity_multiplier_def)

end
