(* ===== verification/Planner.thy ===== *)
theory Planner
  imports Intents Gas
begin

text \<open>
  Resolution of intents into execution plans: \<^verbatim>\<open>runtime/src/resolution/planner.rs\<close>. A resolver
  reads the store and either fails with a \<^verbatim>\<open>RuntimeError\<close> or returns the operations, the declared
  object accesses and the gas bounds of the plan. Prices are computed with the 256-bit arithmetic of
  \<^verbatim>\<open>primitive_types\<close>, whose panics are the \<open>Panic\<close> outcome.
\<close>

section \<open>Plans\<close>

datatype object_operation =
    DebitBalance object_id u128
  | CreditBalance object_id u128
  | SwapPoolAmounts object_id i128 i128
  | LockBalance object_id u128
  | UnlockBalance object_id u128
  | UpdateVersion object_id
  | TransferOwnership object_id bytes32
  | ContractStateTransition object_id bytes32 bytes
  | BindContractBalance object_id object_id bytes32 bytes32 string
  | CreateToken object_id bytes32 string u8 u128 "u128 option"
  | EmitContractEvent object_id bytes32 string "(string \<times> string) list" bytes
  | IBCTransfer object_id string string string u128 string u64
  | ScheduleExecution object_id bytes32 string bytes u64 bool u64 u64

record execution_plan =
  ep_tx_id :: bytes32
  ep_operations :: "object_operation list"
  ep_required_capabilities :: "capability list"
  ep_object_access :: "object_access list"
  ep_gas_estimate :: u64
  ep_gas_limit :: u64

section \<open>Prices\<close>

text \<open>The chain of 256-bit operations; \<open>None\<close> is a panic.\<close>

definition amm_terms :: "u256_ops \<Rightarrow> nat \<Rightarrow> nat \<Rightarrow> nat \<Rightarrow> nat \<Rightarrow> (nat \<times> nat) option" where
  "amm_terms U input r_in r_out fee =
     do {
       fee_factor \<leftarrow> u_sub U 10000 fee;
       input_with_fee \<leftarrow> u_mul U input fee_factor;
       numerator \<leftarrow> u_mul U input_with_fee r_out;
       base \<leftarrow> u_mul U r_in 10000;
       denominator \<leftarrow> u_add U base input_with_fee;
       Some (numerator, denominator)
     }"

definition amm_output :: "u256_ops \<Rightarrow> u128 \<Rightarrow> u128 \<Rightarrow> u128 \<Rightarrow> u32 \<Rightarrow> (runtime_error, u128) outcome" where
  "amm_output U input_amount reserve_in reserve_out fee_bps =
     (case amm_terms U (unat input_amount) (unat reserve_in) (unat reserve_out) (unat fee_bps) of
        None \<Rightarrow> Panic
      | Some (numerator, denominator) \<Rightarrow>
          if denominator = 0 then Err (ConstraintViolation (Text ''zero denominator in AMM''))
          else (case u_div U numerator denominator of
                  None \<Rightarrow> Panic
                | Some out \<Rightarrow>
                    if out > unat (- 1 :: u128) then Err (ConstraintViolation (Text ''AMM output overflow''))
                    else Ok (of_nat out)))"

text \<open>
  The slippage of an output against the fee-free price, in basis points; \<open>None\<close> is a panic,
  \<open>Some 0\<close> also stands for no loss and for an empty denominator.
\<close>

definition slippage_of :: "u256_ops \<Rightarrow> nat \<Rightarrow> nat \<Rightarrow> nat \<Rightarrow> nat \<Rightarrow> nat option" where
  "slippage_of U input r_in r_out actual =
     do {
       denominator \<leftarrow> u_add U r_in input;
       if denominator = 0 then Some 0
       else do {
         product \<leftarrow> u_mul U input r_out;
         ideal \<leftarrow> u_div U product denominator;
         if ideal > actual then do {
           gap \<leftarrow> u_sub U ideal actual;
           scaled \<leftarrow> u_mul U gap 10000;
           u_div U scaled ideal
         } else Some 0
       }
     }"

section \<open>Gas estimate\<close>

fun estimate_op_cost :: "gas_costs \<Rightarrow> object_operation \<Rightarrow> u64" where
  "estimate_op_cost c (DebitBalance _ _) = gc_debit_balance c"
| "estimate_op_cost c (CreditBalance _ _) = gc_credit_balance c"
| "estimate_op_cost c (SwapPoolAmounts _ _ _) = gc_swap_pool c"
| "estimate_op_cost c (LockBalance _ _) = gc_lock_balance c"
| "estimate_op_cost c (UnlockBalance _ _) = gc_unlock_balance c"
| "estimate_op_cost c (UpdateVersion _) = gc_update_version c"
| "estimate_op_cost c (TransferOwnership _ _) = gc_update_version c"
| "estimate_op_cost c (ContractStateTransition _ _ proposed) =
     gc_contract_state_write c + gc_constraint_validation_base c
       + gc_constraint_validation_per_byte c * of_nat (length proposed)"
| "estimate_op_cost c (BindContractBalance _ _ _ _ _) = gc_bind_contract_balance c"
| "estimate_op_cost c (CreateToken _ _ _ _ _ _) = gc_create_token c"
| "estimate_op_cost c (EmitContractEvent _ _ _ _ dat) =
     gc_emit_event c + gc_constraint_validation_per_byte c * of_nat (length dat)"
| "estimate_op_cost c (IBCTransfer _ _ _ _ _ _ _) = gc_ibc_transfer c"
| "estimate_op_cost c (ScheduleExecution _ _ _ _ _ _ _ _) = gc_schedule_execution c"

definition estimate_gas :: "object_operation list \<Rightarrow> gas_costs \<Rightarrow> u64" where
  "estimate_gas ops costs =
     fold (\<lambda>op total. sat_add total (estimate_op_cost costs op)) ops (gc_base_tx costs)"

section \<open>Resolvers\<close>

definition mk_plan ::
  "bytes32 \<Rightarrow> u64 \<Rightarrow> object_operation list \<Rightarrow> capability list \<Rightarrow> object_access list \<Rightarrow> execution_plan" where
  "mk_plan tid max_fee ops caps access =
     \<lparr>ep_tx_id = tid, ep_operations = ops, ep_required_capabilities = caps, ep_object_access = access,
      ep_gas_estimate = estimate_gas ops default_costs, ep_gas_limit = sat_mul max_fee 1000\<rparr>"

definition resolve_transfer ::
  "bytes32 \<Rightarrow> u64 \<Rightarrow> bytes32 \<Rightarrow> transfer_intent \<Rightarrow> object_store \<Rightarrow> capability_set
     \<Rightarrow> runtime_error + execution_plan" where
  "resolve_transfer tid max_fee sender t s caps =
     (case caps_check caps [TransferAsset] of
        Inl e \<Rightarrow> Inl e
      | Inr _ \<Rightarrow>
      case find_balance s sender (ti_asset_id t) of
        None \<Rightarrow> Inl (ObjectNotFound 0)
      | Some sb \<Rightarrow>
      if bo_available sb < ti_amount t then Inl (InsufficientBalance (ti_amount t) (bo_available sb))
      else case find_balance s (ti_recipient t) (ti_asset_id t) of
        None \<Rightarrow> Inl (ObjectNotFound 0)
      | Some rb \<Rightarrow>
        let from_id = om_id (bo_meta sb); to_id = om_id (bo_meta rb) in
        Inr (mk_plan tid max_fee
               [DebitBalance from_id (ti_amount t), CreditBalance to_id (ti_amount t)]
               [TransferAsset] [access_write from_id, access_write to_id]))"

text \<open>\<^verbatim>\<open>ids.iter().find_map(...)\<close>: a listed pool of the pair selects \<^verbatim>\<open>find_pool\<close>.\<close>

fun find_listed_pool ::
  "object_store \<Rightarrow> bytes32 \<Rightarrow> bytes32 \<Rightarrow> object_id list \<Rightarrow> liquidity_pool_object option" where
  "find_listed_pool s a b [] = None"
| "find_listed_pool s a b (i # is) =
     (case (case get_pool_by_id s i of
              None \<Rightarrow> None
            | Some p \<Rightarrow> if pool_trades a b p then find_pool s a b else None) of
        Some p \<Rightarrow> Some p
      | None \<Rightarrow> find_listed_pool s a b is)"

definition swap_pool :: "object_store \<Rightarrow> swap_intent \<Rightarrow> liquidity_pool_object option" where
  "swap_pool s sw =
     (case si_allowed_pool_ids sw of
        None \<Rightarrow> find_pool s (si_input_asset sw) (si_output_asset sw)
      | Some ids \<Rightarrow> find_listed_pool s (si_input_asset sw) (si_output_asset sw) ids)"

definition swap_reserves :: "swap_intent \<Rightarrow> liquidity_pool_object \<Rightarrow> u128 \<times> u128" where
  "swap_reserves sw pool =
     (if lp_asset_a pool = si_input_asset sw then (lp_reserve_a pool, lp_reserve_b pool)
      else (lp_reserve_b pool, lp_reserve_a pool))"

text \<open>The part of the swap after the price: balances, deltas and the plan.\<close>

definition swap_plan ::
  "bytes32 \<Rightarrow> u64 \<Rightarrow> bytes32 \<Rightarrow> swap_intent \<Rightarrow> object_store \<Rightarrow> liquidity_pool_object \<Rightarrow> u128
     \<Rightarrow> runtime_error + execution_plan" where
  "swap_plan tid max_fee sender sw s pool out =
     (let pool_id = om_id (lp_meta pool);
          deltas = (if lp_asset_a pool = si_input_asset sw then (si_input_amount sw, - out)
                    else (- out, si_input_amount sw))
      in case find_balance s sender (si_input_asset sw) of
        None \<Rightarrow> Inl (ObjectNotFound 0)
      | Some ib \<Rightarrow>
      if bo_available ib < si_input_amount sw then
        Inl (InsufficientBalance (si_input_amount sw) (bo_available ib))
      else case find_balance s sender (si_output_asset sw) of
        None \<Rightarrow> Inl (ObjectNotFound 0)
      | Some ob \<Rightarrow>
        let in_id = om_id (bo_meta ib); out_id = om_id (bo_meta ob) in
        Inr (mk_plan tid max_fee
               [DebitBalance in_id (si_input_amount sw), CreditBalance out_id out,
                SwapPoolAmounts pool_id (fst deltas) (snd deltas)]
               [SwapAsset] [access_write in_id, access_write out_id, access_write pool_id]))"

definition resolve_swap ::
  "u256_ops \<Rightarrow> bytes32 \<Rightarrow> u64 \<Rightarrow> bytes32 \<Rightarrow> swap_intent \<Rightarrow> object_store \<Rightarrow> capability_set
     \<Rightarrow> (runtime_error, execution_plan) outcome" where
  "resolve_swap U tid max_fee sender sw s caps =
     (case caps_check caps [SwapAsset] of
        Inl e \<Rightarrow> Err e
      | Inr _ \<Rightarrow>
      case swap_pool s sw of
        None \<Rightarrow> Err (ResolutionFailure (Text ''no eligible liquidity pool found for swap''))
      | Some pool \<Rightarrow>
        let (reserve_in, reserve_out) = swap_reserves sw pool in
        obind (amm_output U (si_input_amount sw) reserve_in reserve_out (lp_fee_bps pool)) (\<lambda>out.
          if out < si_min_output_amount sw then
            Err (ConstraintViolation (Fmt ''swap output {} < min_output_amount {}''
                   [unat out, unat (si_min_output_amount sw)]))
          else
            obind (or_panic (slippage_of U (unat (si_input_amount sw)) (unat reserve_in) (unat reserve_out)
                     (unat out))) (\<lambda>slippage_bps.
              if slippage_bps > unat (si_max_slippage_bps sw) then
                Err (ConstraintViolation (Fmt ''swap slippage {} bps exceeds max {} bps''
                       [slippage_bps, unat (si_max_slippage_bps sw)]))
              else of_result (swap_plan tid max_fee sender sw s pool out))))"

definition resolve_yield_allocate ::
  "bytes32 \<Rightarrow> u64 \<Rightarrow> bytes32 \<Rightarrow> yield_allocate_intent \<Rightarrow> object_store \<Rightarrow> capability_set
     \<Rightarrow> runtime_error + execution_plan" where
  "resolve_yield_allocate tid max_fee sender y s caps =
     (case caps_check caps [WriteObject] of
        Inl e \<Rightarrow> Inl e
      | Inr _ \<Rightarrow>
      case find_balance s sender (yi_asset_id y) of
        None \<Rightarrow> Inl (ObjectNotFound 0)
      | Some sb \<Rightarrow>
      if bo_available sb < yi_amount y then Inl (InsufficientBalance (yi_amount y) (bo_available sb))
      else case store_get s (yi_target_vault_id y) of
        None \<Rightarrow> Inl (ObjectNotFound (yi_target_vault_id y))
      | Some _ \<Rightarrow>
        let balance_id = om_id (bo_meta sb) in
        Inr (mk_plan tid max_fee
               [LockBalance balance_id (yi_amount y), UpdateVersion (yi_target_vault_id y)]
               [WriteObject] [access_write balance_id, access_write (yi_target_vault_id y)]))"

definition resolve_treasury_rebalance ::
  "bytes32 \<Rightarrow> u64 \<Rightarrow> bytes32 \<Rightarrow> treasury_rebalance_intent \<Rightarrow> object_store \<Rightarrow> capability_set
     \<Rightarrow> runtime_error + execution_plan" where
  "resolve_treasury_rebalance tid max_fee sender r s caps =
     (case caps_check caps [ModifyGovernance] of
        Inl e \<Rightarrow> Inl e
      | Inr _ \<Rightarrow>
      if sender \<notin> set (tr_authorized_by r) then Inl (UnauthorizedCapability ModifyGovernance caps)
      else case find_balance s sender (tr_from_asset r) of
        None \<Rightarrow> Inl (ObjectNotFound 0)
      | Some fb \<Rightarrow>
      if bo_available fb < tr_amount r then Inl (InsufficientBalance (tr_amount r) (bo_available fb))
      else case find_balance s sender (tr_to_asset r) of
        None \<Rightarrow> Inl (ObjectNotFound 0)
      | Some tb \<Rightarrow>
        let from_id = om_id (bo_meta fb); to_id = om_id (bo_meta tb) in
        Inr (mk_plan tid max_fee
               [DebitBalance from_id (tr_amount r), CreditBalance to_id (tr_amount r)]
               [ModifyGovernance] [access_write from_id, access_write to_id]))"

definition resolve_route_liquidity ::
  "bytes32 \<Rightarrow> u64 \<Rightarrow> bytes32 \<Rightarrow> route_liquidity_intent \<Rightarrow> object_store \<Rightarrow> capability_set
     \<Rightarrow> runtime_error + execution_plan" where
  "resolve_route_liquidity tid max_fee sender r s caps =
     (case caps_check caps [ProvideLiquidity, WithdrawLiquidity] of
        Inl e \<Rightarrow> Inl e
      | Inr _ \<Rightarrow>
      if store_get s (rl_source_pool r) = None then Inl (ObjectNotFound (rl_source_pool r))
      else if store_get s (rl_target_pool r) = None then Inl (ObjectNotFound (rl_target_pool r))
      else case find_balance s sender (rl_asset_id r) of
        None \<Rightarrow> Inl (ObjectNotFound 0)
      | Some sb \<Rightarrow>
      if bo_available sb < rl_amount r then Inl (InsufficientBalance (rl_amount r) (bo_available sb))
      else
        let balance_id = om_id (bo_meta sb) in
        Inr (mk_plan tid max_fee
               [DebitBalance balance_id (rl_amount r), UpdateVersion (rl_source_pool r),
                UpdateVersion (rl_target_pool r), CreditBalance balance_id (rl_min_received r)]
               [ProvideLiquidity, WithdrawLiquidity]
               [access_write balance_id, access_write (rl_source_pool r), access_write (rl_target_pool r)]))"

definition resolve ::
  "u256_ops \<Rightarrow> intent_transaction \<Rightarrow> object_store \<Rightarrow> capability_set
     \<Rightarrow> (runtime_error, execution_plan) outcome" where
  "resolve U tx s caps =
     (case tx_intent tx of
        Transfer t \<Rightarrow> of_result (resolve_transfer (tx_id tx) (tx_max_fee tx) (tx_sender tx) t s caps)
      | Swap sw \<Rightarrow> resolve_swap U (tx_id tx) (tx_max_fee tx) (tx_sender tx) sw s caps
      | YieldAllocate y \<Rightarrow>
          of_result (resolve_yield_allocate (tx_id tx) (tx_max_fee tx) (tx_sender tx) y s caps)
      | TreasuryRebalance r \<Rightarrow>
          of_result (resolve_treasury_rebalance (tx_id tx) (tx_max_fee tx) (tx_sender tx) r s caps)
      | RouteLiquidity r \<Rightarrow>
          of_result (resolve_route_liquidity (tx_id tx) (tx_max_fee tx) (tx_sender tx) r s caps)
      | ContractCall _ \<Rightarrow>
          Err (ResolutionFailure (Text ''contract calls require solver market resolution'')))"

text \<open>The object an operation writes, for the operations resolvers emit.\<close>

fun op_target :: "object_operation \<Rightarrow> object_id" where
  "op_target (DebitBalance i _) = i"
| "op_target (CreditBalance i _) = i"
| "op_target (SwapPoolAmounts i _ _) = i"
| "op_target (LockBalance i _) = i"
| "op_target (UnlockBalance i _) = i"
| "op_target (UpdateVersion i) = i"
| "op_target (TransferOwnership i _) = i"
| "op_target (ContractStateTransition i _ _) = i"
| "op_target (BindContractBalance _ i _ _ _) = i"
| "op_target (CreateToken i _ _ _ _ _) = i"
| "op_target (EmitContractEvent i _ _ _ _) = i"
| "op_target (IBCTransfer i _ _ _ _ _ _) = i"
| "op_target (ScheduleExecution i _ _ _ _ _ _ _) = i"

definition plan_writes :: "execution_plan \<Rightarrow> object_id set" where
  "plan_writes p = oa_object_id ` {a \<in> set (ep_object_access p). oa_mode a = ReadWrite}"

definition plan_reads :: "execution_plan \<Rightarrow> object_id set" where
  "plan_reads p = oa_object_id ` {a \<in> set (ep_object_access p). oa_mode a = ReadOnly}"

definition plan_declares_writes :: "execution_plan \<Rightarrow> bool" where
  "plan_declares_writes p \<longleftrightarrow> op_target ` set (ep_operations p) \<subseteq> plan_writes p"

section \<open>Lemmas: prices\<close>

lemma u256_okD:
  assumes "u256_ok U"
  shows "u_add U a b = (if a + b < 2 ^ 256 then Some (a + b) else None)"
    and "u_sub U a b = (if b \<le> a then Some (a - b) else None)"
    and "u_mul U a b = (if a * b < 2 ^ 256 then Some (a * b) else None)"
    and "u_div U a b = (if b = 0 then None else Some (a div b))"
  using assms unfolding u256_ok_def by blast+

lemma mul_lt_2p: "a < 2 ^ m \<Longrightarrow> b < 2 ^ n \<Longrightarrow> a * b < 2 ^ (m + n)" for a b :: nat
  by (simp add: mult_strict_mono power_add)

lemma amm_terms_value:
  fixes x s r :: u128 and f :: u32
  assumes "u256_ok U"
  shows "amm_terms U (unat x) (unat s) (unat r) (unat f) =
    (if unat f \<le> 10000 \<and> unat x * (10000 - unat f) * unat r < 2 ^ 256
     then Some (unat x * (10000 - unat f) * unat r, unat s * 10000 + unat x * (10000 - unat f)) else None)"
proof -
  have k: "(10000 - unat f :: nat) < 2 ^ 14" "(10000 :: nat) < 2 ^ 14" by simp_all
  have w: "unat x * (10000 - unat f) < 2 ^ (128 + 14)"
    using unat_less_2p [of x] k(1) by (intro mul_lt_2p) simp_all
  have b: "unat s * 10000 < 2 ^ (128 + 14)"
    using unat_less_2p [of s] k(2) by (intro mul_lt_2p) simp_all
  have "(2 :: nat) ^ (128 + 14) + 2 ^ (128 + 14) \<le> 2 ^ 256" by simp
  then have sum: "unat s * 10000 + unat x * (10000 - unat f) < 2 ^ 256" using w b by linarith
  have "(2 :: nat) ^ (128 + 14) \<le> 2 ^ 256" by simp
  then have "unat x * (10000 - unat f) < 2 ^ 256" "unat s * 10000 < 2 ^ 256"
    using w b by linarith+
  with sum show ?thesis by (simp add: amm_terms_def u256_okD [OF assms])
qed

lemma amm_share_le: "w * r div (b + w) \<le> r" for w r b :: nat
proof (cases "b + w = 0")
  case False
  have "w * r \<le> (b + w) * r" by simp
  then have "w * r div (b + w) \<le> (b + w) * r div (b + w)" by (rule div_le_mono)
  also have "\<dots> = r" using False by simp
  finally show ?thesis .
qed simp

lemma constant_product:
  fixes s r x f out :: nat
  assumes "f \<le> 10000" and "out * (s * 10000 + x * f) \<le> x * f * r" and "0 < s * 10000 + x * f"
  shows "(s + x) * out \<le> x * r"
proof (cases "x * f = 0")
  case True
  with assms(2,3) have "out = 0" by simp
  then show ?thesis by simp
next
  case False
  let ?w = "x * f"
  have w: "?w \<le> 10000 * x" using assms(1) by (simp add: mult.commute)
  have "out * (s * 10000) * ?w \<le> out * (s * 10000) * (10000 * x)"
    using w by (rule mult_le_mono2)
  then have "out * (s * 10000 + 10000 * x) * ?w \<le> out * (s * 10000 + ?w) * (10000 * x)"
    by (simp add: algebra_simps)
  also have "\<dots> \<le> ?w * r * (10000 * x)"
    using assms(2) by (rule mult_le_mono1)
  finally have "(out * (s * 10000 + 10000 * x)) * ?w \<le> (r * (10000 * x)) * ?w"
    by (simp only: ac_simps)
  then have "out * (s * 10000 + 10000 * x) \<le> r * (10000 * x)"
    using False by (simp only: mult_le_cancel2)
  then have "10000 * ((s + x) * out) \<le> 10000 * (x * r)" by (simp add: algebra_simps)
  then show ?thesis by simp
qed

lemma amm_output_cases:
  fixes x s r :: u128 and f :: u32
  assumes "u256_ok U"
  defines "w \<equiv> unat x * (10000 - unat f)"
  shows "amm_output U x s r f =
    (if \<not> (unat f \<le> 10000 \<and> w * unat r < 2 ^ 256) then Panic
     else if unat s * 10000 + w = 0 then Err (ConstraintViolation (Text ''zero denominator in AMM''))
     else Ok (of_nat (w * unat r div (unat s * 10000 + w))))"
proof -
  have "w * unat r div (unat s * 10000 + w) \<le> unat r" by (rule amm_share_le)
  then have "\<not> w * unat r div (unat s * 10000 + w) > unat (- 1 :: u128)"
    using unat_bound [of r] by (simp add: unat_max_word)
  then show ?thesis
    unfolding amm_output_def amm_terms_value [OF assms(1)] w_def
    by (simp add: u256_okD [OF assms(1)] del: mult_eq_0_iff add_is_0)
qed

lemma amm_output_value:
  fixes x s r :: u128 and f :: u32
  assumes "u256_ok U" and "amm_output U x s r f = Ok out"
  defines "w \<equiv> unat x * (10000 - unat f)"
  shows "unat out = w * unat r div (unat s * 10000 + w)" and "0 < unat s * 10000 + w"
    and "unat f \<le> 10000"
proof -
  let ?q = "w * unat r div (unat s * 10000 + w)"
  have out: "out = of_nat ?q" and pos: "unat s * 10000 + w \<noteq> 0" and f: "unat f \<le> 10000"
    using assms(2) unfolding amm_output_cases [OF assms(1)] w_def
    by (simp_all split: if_splits del: mult_eq_0_iff add_is_0)
  have "?q < 2 ^ 128"
    using amm_share_le [of w "unat r" "unat s * 10000"] unat_less_2p [of r] by simp
  then show "unat out = ?q" unfolding out by (simp add: unsigned_of_nat take_bit_nat_eq_self)
  show "0 < unat s * 10000 + w" "unat f \<le> 10000" using pos f by simp_all
qed

lemma slippage_of_value:
  fixes x s r :: u128
  assumes "u256_ok U"
  defines "ideal \<equiv> unat x * unat r div (unat s + unat x)"
  shows "slippage_of U (unat x) (unat s) (unat r) out =
    Some (if ideal > out then (ideal - out) * 10000 div ideal else 0)"
proof -
  have pow: "(2 :: nat) ^ 128 + 2 ^ 128 \<le> 2 ^ 256" "(2 :: nat) ^ (128 + 14) \<le> 2 ^ 256" by simp_all
  have "unat s < 2 ^ 128" "unat x < 2 ^ 128" "unat r < 2 ^ 128"
    using unat_less_2p [of s] unat_less_2p [of x] unat_less_2p [of r] by simp_all
  then have sum: "unat s + unat x < 2 ^ 256" and prod: "unat x * unat r < 2 ^ (128 + 128)"
    using pow(1) by (linarith, intro mul_lt_2p)
  have "ideal \<le> unat r" unfolding ideal_def by (rule amm_share_le)
  then have "ideal - out < 2 ^ 128" using \<open>unat r < 2 ^ 128\<close> by linarith
  then have "(ideal - out) * 10000 < 2 ^ (128 + 14)" by (intro mul_lt_2p) simp_all
  then have gap: "(ideal - out) * 10000 < 2 ^ 256" using pow(2) by linarith
  show ?thesis
  proof (cases "unat s + unat x = 0")
    case True
    then have "ideal = 0" by (simp add: ideal_def)
    with True sum show ?thesis by (simp add: slippage_of_def u256_okD [OF assms(1)])
  next
    case False
    have steps: "u_mul U (unat x) (unat r) = Some (unat x * unat r)"
      "u_div U (unat x * unat r) (unat s + unat x) = Some ideal"
      "u_add U (unat s) (unat x) = Some (unat s + unat x)"
      "u_mul U (ideal - out) 10000 = Some ((ideal - out) * 10000)"
      "out < ideal \<Longrightarrow> u_div U ((ideal - out) * 10000) ideal = Some ((ideal - out) * 10000 div ideal)"
      "out < ideal \<Longrightarrow> u_sub U ideal out = Some (ideal - out)"
      using False prod sum gap by (simp_all add: u256_okD [OF assms(1)] ideal_def)
    show ?thesis
      unfolding slippage_of_def steps(3) bind.bind_lunit
      using False by (auto simp: steps)
  qed
qed

section \<open>Lemmas: resolvers\<close>

lemma find_listed_pool_Some: "find_listed_pool s a b is = Some p \<Longrightarrow> find_pool s a b = Some p"
  by (induction s a b "is" rule: find_listed_pool.induct) (auto split: option.splits if_splits)

lemma swap_pool_Some:
  "swap_pool s sw = Some p \<Longrightarrow> find_pool s (si_input_asset sw) (si_output_asset sw) = Some p"
  by (auto simp: swap_pool_def split: option.splits dest: find_listed_pool_Some)

lemma swap_plan_Inr:
  assumes "swap_plan tid fee sender sw s pool out = Inr plan"
  obtains ib ob where "find_balance s sender (si_input_asset sw) = Some ib"
    "find_balance s sender (si_output_asset sw) = Some ob" "si_input_amount sw \<le> bo_available ib"
    "plan = mk_plan tid fee
      [DebitBalance (om_id (bo_meta ib)) (si_input_amount sw), CreditBalance (om_id (bo_meta ob)) out,
       SwapPoolAmounts (om_id (lp_meta pool))
         (if lp_asset_a pool = si_input_asset sw then si_input_amount sw else - out)
         (if lp_asset_a pool = si_input_asset sw then - out else si_input_amount sw)]
      [SwapAsset] [access_write (om_id (bo_meta ib)), access_write (om_id (bo_meta ob)),
         access_write (om_id (lp_meta pool))]"
  using assms by (auto simp: swap_plan_def Let_def not_less split: option.splits if_splits)

lemma resolve_swap_Ok:
  assumes "resolve_swap U tid fee sender sw s caps = Ok plan"
  obtains pool out slip where "swap_pool s sw = Some pool" "SwapAsset \<in> caps"
    "amm_output U (si_input_amount sw) (fst (swap_reserves sw pool)) (snd (swap_reserves sw pool))
       (lp_fee_bps pool) = Ok out"
    "si_min_output_amount sw \<le> out"
    "slippage_of U (unat (si_input_amount sw)) (unat (fst (swap_reserves sw pool)))
       (unat (snd (swap_reserves sw pool))) (unat out) = Some slip"
    "slip \<le> unat (si_max_slippage_bps sw)" "swap_plan tid fee sender sw s pool out = Inr plan"
proof -
  have caps: "SwapAsset \<in> caps"
    using assms by (simp add: resolve_swap_def split: if_splits)
  then have c: "caps_check caps [SwapAsset] = Inr ()" by simp
  obtain pool where pool: "swap_pool s sw = Some pool"
    using assms by (simp add: resolve_swap_def split: option.splits if_splits)
  show ?thesis
    using assms c pool that caps
    by (auto simp: resolve_swap_def case_prod_beta obind_Ok_iff not_less split: if_splits)
qed

text \<open>A plan that only spends what its sender has free and declares what it writes.\<close>

definition plan_spends_own :: "object_store \<Rightarrow> bytes32 \<Rightarrow> execution_plan \<Rightarrow> bool" where
  "plan_spends_own s sender p \<longleftrightarrow>
     (\<forall>i a. DebitBalance i a \<in> set (ep_operations p) \<or> LockBalance i a \<in> set (ep_operations p) \<longrightarrow>
        (\<exists>b. get_balance_by_id s i = Some b \<and> bo_owner b = sender \<and> a \<le> bo_available b))"

definition plan_sound :: "object_store \<Rightarrow> capability_set \<Rightarrow> intent_transaction \<Rightarrow> execution_plan \<Rightarrow> bool" where
  "plan_sound s caps tx p \<longleftrightarrow>
     ep_tx_id p = tx_id tx \<and> set (ep_required_capabilities p) \<subseteq> caps \<and> plan_declares_writes p \<and>
     plan_spends_own s (tx_sender tx) p \<and>
     ep_gas_estimate p = estimate_gas (ep_operations p) default_costs \<and>
     ep_gas_limit p = sat_mul (tx_max_fee tx) 1000"

lemma mk_plan_simps [simp]:
  "ep_tx_id (mk_plan t f ops cs acc) = t" "ep_operations (mk_plan t f ops cs acc) = ops"
  "ep_required_capabilities (mk_plan t f ops cs acc) = cs" "ep_object_access (mk_plan t f ops cs acc) = acc"
  "ep_gas_estimate (mk_plan t f ops cs acc) = estimate_gas ops default_costs"
  "ep_gas_limit (mk_plan t f ops cs acc) = sat_mul f 1000"
  by (simp_all add: mk_plan_def)

lemma plan_writes_mk [simp]:
  "plan_writes (mk_plan t f ops cs []) = {}"
  "plan_writes (mk_plan t f ops cs (access_write i # acc)) = insert i (plan_writes (mk_plan t f ops cs acc))"
  by (force simp: plan_writes_def access_write_def)+

lemma plan_sound_mk:
  assumes "set cs \<subseteq> caps"
    and "op_target ` set ops \<subseteq> plan_writes (mk_plan (tx_id tx) (tx_max_fee tx) ops cs acc)"
    and "\<And>i a. DebitBalance i a \<in> set ops \<or> LockBalance i a \<in> set ops \<Longrightarrow>
      \<exists>b. get_balance_by_id s i = Some b \<and> bo_owner b = tx_sender tx \<and> a \<le> bo_available b"
  shows "plan_sound s caps tx (mk_plan (tx_id tx) (tx_max_fee tx) ops cs acc)"
  using assms by (simp add: plan_sound_def plan_declares_writes_def plan_spends_own_def)

lemma transfer_sound:
  assumes "store_ok s"
    and "resolve_transfer (tx_id tx) (tx_max_fee tx) (tx_sender tx) t s caps = Inr p"
  shows "plan_sound s caps tx p"
  using assms(2)
  by (auto simp: resolve_transfer_def Let_def not_less split: option.splits if_splits
      intro!: plan_sound_mk dest!: find_balance_SomeD [OF _ assms(1)])

lemma yield_sound:
  assumes "store_ok s"
    and "resolve_yield_allocate (tx_id tx) (tx_max_fee tx) (tx_sender tx) y s caps = Inr p"
  shows "plan_sound s caps tx p"
  using assms(2)
  by (auto simp: resolve_yield_allocate_def Let_def not_less split: option.splits if_splits
      intro!: plan_sound_mk dest!: find_balance_SomeD [OF _ assms(1)])

lemma rebalance_sound:
  assumes "store_ok s"
    and "resolve_treasury_rebalance (tx_id tx) (tx_max_fee tx) (tx_sender tx) r s caps = Inr p"
  shows "plan_sound s caps tx p"
  using assms(2)
  by (auto simp: resolve_treasury_rebalance_def Let_def not_less split: option.splits if_splits
      intro!: plan_sound_mk dest!: find_balance_SomeD [OF _ assms(1)])

lemma route_sound:
  assumes "store_ok s"
    and "resolve_route_liquidity (tx_id tx) (tx_max_fee tx) (tx_sender tx) r s caps = Inr p"
  shows "plan_sound s caps tx p"
  using assms(2)
  by (auto simp: resolve_route_liquidity_def Let_def not_less split: option.splits if_splits
      intro!: plan_sound_mk dest!: find_balance_SomeD [OF _ assms(1)])

lemma swap_sound:
  assumes "store_ok s"
    and "resolve_swap U (tx_id tx) (tx_max_fee tx) (tx_sender tx) sw s caps = Ok p"
  shows "plan_sound s caps tx p"
proof -
  obtain pool out where "SwapAsset \<in> caps"
    and "swap_plan (tx_id tx) (tx_max_fee tx) (tx_sender tx) sw s pool out = Inr p"
    using assms(2) by (rule resolve_swap_Ok)
  then show ?thesis
    by (auto elim!: swap_plan_Inr intro!: plan_sound_mk dest!: find_balance_SomeD [OF _ assms(1)])
qed

section \<open>Properties\<close>

text \<open>
  C40. Every plan the resolver returns, for every built-in intent, keeps the intent's id, needs only
  capabilities the caller holds, declares every object it writes, debits and locks only free
  balances of the sender, and carries the exact gas estimate of its operations.
\<close>

theorem resolve_yields_sound_plan:
  assumes "store_ok s" and "resolve U tx s caps = Ok p"
  shows "plan_sound s caps tx p"
  using assms(2) transfer_sound [OF assms(1)] yield_sound [OF assms(1)] rebalance_sound [OF assms(1)]
    route_sound [OF assms(1)] swap_sound [OF assms(1)]
  by (auto simp: resolve_def split: intent_type.splits)

definition sample_store :: object_store where
  "sample_store = store_of
     [OBalance (balance_new 10 1 9 5000 0), OBalance (balance_new 11 2 9 700 0),
      OBalance (balance_new 12 1 8 100 0), OPool (liquidity_pool_new 20 7 9 8 100000 200000 30 99 0),
      OPool (liquidity_pool_new 21 7 8 9 5000 5000 30 98 0)]"

lemma sample_store_ok: "store_ok sample_store"
  unfolding sample_store_def
  by (rule store_of_ok) (simp add: balance_new_def liquidity_pool_new_def object_meta_new_def)

lemma sample_transfer_resolves:
  "\<exists>p. resolve u256_std (sample_tx sample_transfer) sample_store caps_user_default = Ok p"
  by (simp add: resolve_def sample_tx_def sample_transfer_def resolve_transfer_def sample_store_def
      store_of_eval caps_user_default_def bo_available_def sat_sub_def of_result_def)

theorem resolve_yields_sound_plan_witness:
  "\<exists>p. resolve u256_std (sample_tx sample_transfer) sample_store caps_user_default = Ok p \<and>
    plan_sound sample_store caps_user_default (sample_tx sample_transfer) p"
  using sample_transfer_resolves resolve_yields_sound_plan [OF sample_store_ok] by blast


lemma sample_swap_resolves:
  "\<exists>p. resolve_swap u256_std 77 1000 1 \<lparr>si_input_asset = 9, si_output_asset = 8, si_input_amount = 1000,
    si_min_output_amount = 1900, si_max_slippage_bps = 100, si_allowed_pool_ids = None\<rparr>
    sample_store caps_user_default = Ok p"
  by (simp add: resolve_swap_def swap_pool_def swap_reserves_def amm_output_def amm_terms_def u256_std_def
      slippage_of_def swap_plan_def sample_store_def store_of_eval caps_user_default_def
      bo_available_def sat_sub_def of_result_def or_panic_def Let_def unat_max_word)


text \<open>
  The 256-bit price computation is not overflow-free: with a fee above 100% it always panics,
  and otherwise it panics exactly when input, fee factor and output reserve multiply to \<open>2^256\<close> or
  more, which reserves of a \<open>u128\<close> allow. In every other case it returns a price or the
  zero-denominator error, and the overflow error is unreachable.
\<close>

theorem amm_output_panics_exactly:
  fixes x r_in r_out :: u128 and fee :: u32
  assumes "u256_ok U"
  shows "(amm_output U x r_in r_out fee = Panic \<longleftrightarrow>
      10000 < unat fee \<or> 2 ^ 256 \<le> unat x * (10000 - unat fee) * unat r_out) \<and>
    amm_output U (2 ^ 127) r_in (2 ^ 127) 30 = Panic \<and>
    amm_output U x r_in r_out fee \<noteq> Err (ConstraintViolation (Text ''AMM output overflow''))"
  by (auto simp: amm_output_cases [OF assms] not_le not_less)

theorem amm_output_panics_exactly_witness: "amm_output u256_std (2 ^ 127) 5 (2 ^ 127) 30 = Panic"
  using amm_output_panics_exactly [OF u256_std_ok] by blast

text \<open>
  The pool restriction of a swap is not enforced: when a listed pool trades the pair, the
  resolver takes the first pool of the pair in the store, which need not be on the list.
\<close>

theorem swap_may_use_unlisted_pool:
  "\<exists>s sw ids p. store_ok s \<and> si_allowed_pool_ids sw = Some ids \<and> swap_pool s sw = Some p \<and>
    om_id (lp_meta p) \<notin> set ids"
proof -
  let ?sw = "\<lparr>si_input_asset = 9, si_output_asset = 8, si_input_amount = 1000,
    si_min_output_amount = 0, si_max_slippage_bps = 100, si_allowed_pool_ids = Some [21]\<rparr> :: swap_intent"
  have "\<exists>p. swap_pool sample_store ?sw = Some p \<and> om_id (lp_meta p) = 20"
    by (simp add: swap_pool_def sample_store_def store_of_eval)
  then obtain p where "swap_pool sample_store ?sw = Some p" "om_id (lp_meta p) = 20" by blast
  moreover have "si_allowed_pool_ids ?sw = Some [21]" by simp
  moreover have "(20 :: object_id) \<notin> set [21]" by simp
  ultimately show ?thesis using sample_store_ok by metis
qed

end
