(* ===== verification/Scheduler.thy ===== *)
theory Scheduler
  imports Planner
begin

text \<open>
  The parallel scheduler, \<^verbatim>\<open>runtime/src/scheduler/parallel.rs\<close>: the conflict graph built from an
  index of object accesses, greedy placement of each plan in the first group it does not conflict
  with, and assembly of the groups. \<open>conflicts\<close> is the source's own pairwise definition; the
  graph is proved equal to it.
\<close>

section \<open>Conflict graph\<close>

type_synonym conflict_graph = "(bytes32, bytes32 set) btree"

definition graph_link :: "bytes32 \<Rightarrow> bytes32 \<Rightarrow> conflict_graph \<Rightarrow> conflict_graph" where
  "graph_link a b g = bt_put a (insert b (case bt_get g a of None \<Rightarrow> {} | Some xs \<Rightarrow> xs)) g"

definition add_conflict :: "bytes32 \<Rightarrow> bytes32 \<Rightarrow> conflict_graph \<Rightarrow> conflict_graph" where
  "add_conflict a b g = graph_link b a (graph_link a b g)"

definition conflicts_with :: "conflict_graph \<Rightarrow> bytes32 \<Rightarrow> bytes32 \<Rightarrow> bool" where
  "conflicts_with g a b = (case bt_get g a of None \<Rightarrow> False | Some xs \<Rightarrow> b \<in> xs)"

record execution_group =
  eg_plans :: "execution_plan list"
  eg_group_index :: usize

definition conflicts :: "execution_plan \<Rightarrow> execution_plan \<Rightarrow> bool" where
  "conflicts a b \<longleftrightarrow>
     plan_writes a \<inter> plan_writes b \<noteq> {} \<or> plan_writes a \<inter> plan_reads b \<noteq> {} \<or>
     plan_writes b \<inter> plan_reads a \<noteq> {}"

section \<open>Access index\<close>

type_synonym access_index = "(object_id, (nat \<times> access_mode) list) btree"

definition index_access :: "nat \<Rightarrow> object_access \<Rightarrow> access_index \<Rightarrow> access_index" where
  "index_access idx acc m =
     bt_put (oa_object_id acc)
       ((case bt_get m (oa_object_id acc) of None \<Rightarrow> [] | Some rs \<Rightarrow> rs) @ [(idx, oa_mode acc)]) m"

definition index_plan :: "nat \<times> execution_plan \<Rightarrow> access_index \<Rightarrow> access_index" where
  "index_plan ip m = fold (index_access (fst ip)) (ep_object_access (snd ip)) m"

definition object_plans :: "execution_plan list \<Rightarrow> access_index" where
  "object_plans plans = fold index_plan (enumerate 0 plans) []"

text \<open>The pairs \<open>i < j\<close> of one object's references, in the order of the two loops.\<close>

fun add_pairs ::
  "execution_plan list \<Rightarrow> (nat \<times> access_mode) list \<Rightarrow> conflict_graph \<Rightarrow> conflict_graph" where
  "add_pairs plans [] g = g"
| "add_pairs plans (r # rest) g =
     add_pairs plans rest
       (fold (\<lambda>r' g. if snd r = ReadWrite \<or> snd r' = ReadWrite
                     then add_conflict (ep_tx_id (plans ! fst r)) (ep_tx_id (plans ! fst r')) g else g)
          rest g)"

definition build_graph :: "execution_plan list \<Rightarrow> conflict_graph" where
  "build_graph plans =
     fold (\<lambda>e g. if length (snd e) < 2 then g else add_pairs plans (snd e) g) (object_plans plans) []"

section \<open>Greedy placement\<close>

fun place :: "conflict_graph \<Rightarrow> bytes32 \<Rightarrow> bytes32 list list \<Rightarrow> bytes32 list list \<times> nat" where
  "place g t [] = ([[t]], 0)"
| "place g t (ms # gs) =
     (if \<exists>m \<in> set ms. conflicts_with g t m
      then (let (gs', i) = place g t gs in (ms # gs', Suc i))
      else ((ms @ [t]) # gs, 0))"

type_synonym assignment = "bytes32 list list \<times> (bytes32, nat) btree"

definition assign_plan :: "conflict_graph \<Rightarrow> execution_plan \<Rightarrow> assignment \<Rightarrow> assignment" where
  "assign_plan g p a =
     (let (groups, ptg) = a; (groups', i) = place g (ep_tx_id p) groups
      in (groups', bt_put (ep_tx_id p) i ptg))"

definition assign_plans :: "conflict_graph \<Rightarrow> execution_plan list \<Rightarrow> assignment" where
  "assign_plans g plans = fold (assign_plan g) plans ([], [])"

text \<open>\<^verbatim>\<open>groups[plan_to_group[&plan.tx_id]].push(plan)\<close>; an index that is absent would panic.\<close>

definition push_plan ::
  "(bytes32, nat) btree \<Rightarrow> execution_plan \<Rightarrow> execution_plan list list option \<Rightarrow> execution_plan list list option" where
  "push_plan ptg p groups =
     do {
       gs \<leftarrow> groups;
       i \<leftarrow> bt_get ptg (ep_tx_id p);
       if i < length gs then Some (gs[i := gs ! i @ [p]]) else None
     }"

text \<open>\<open>None\<close> is a panic on a missing index.\<close>

definition schedule :: "execution_plan list \<Rightarrow> execution_group list option" where
  "schedule plans =
     (if plans = [] then Some []
      else
        let (group_assignments, ptg) = assign_plans (build_graph plans) plans;
            groups = fold (push_plan ptg) plans (Some (replicate (length group_assignments) []))
        in map_option (\<lambda>gs. map (\<lambda>ig. \<lparr>eg_plans = snd ig, eg_group_index = fst ig\<rparr>) (enumerate 0 gs)) groups)"

section \<open>Lemmas: the graph\<close>

lemma conflicts_with_link:
  "conflicts_with (graph_link x y g) a b \<longleftrightarrow> conflicts_with g a b \<or> (a = x \<and> b = y)"
  by (auto simp: conflicts_with_def graph_link_def map_simps split: option.splits)

lemma conflicts_with_add:
  "conflicts_with (add_conflict x y g) a b \<longleftrightarrow>
     conflicts_with g a b \<or> (a = x \<and> b = y) \<or> (a = y \<and> b = x)"
  by (auto simp: add_conflict_def conflicts_with_link)

lemma conflicts_with_fold:
  "conflicts_with (fold (\<lambda>r g. if Q r then add_conflict x (t r) g else g) rs g) a b \<longleftrightarrow>
     conflicts_with g a b \<or> (\<exists>r \<in> set rs. Q r \<and> ((a = x \<and> b = t r) \<or> (a = t r \<and> b = x)))"
  by (induction rs arbitrary: g) (auto simp: conflicts_with_add)

text \<open>Two references to an object clash when one of them writes.\<close>

definition refs_clash ::
  "execution_plan list \<Rightarrow> (nat \<times> access_mode) list \<Rightarrow> bytes32 \<Rightarrow> bytes32 \<Rightarrow> bool" where
  "refs_clash plans refs a b \<longleftrightarrow>
     (\<exists>r \<in> set refs. \<exists>r' \<in> set refs. (snd r = ReadWrite \<or> snd r' = ReadWrite) \<and>
        ep_tx_id (plans ! fst r) = a \<and> ep_tx_id (plans ! fst r') = b)"

lemma conflicts_with_add_pairs:
  assumes "a \<noteq> b"
  shows "conflicts_with (add_pairs plans refs g) a b \<longleftrightarrow> conflicts_with g a b \<or> refs_clash plans refs a b"
proof (induction plans refs g rule: add_pairs.induct)
  case (1 plans g)
  then show ?case by (simp add: refs_clash_def)
next
  case (2 plans r rest g)
  show ?case
    unfolding add_pairs.simps 2 conflicts_with_fold using assms
    by (auto simp: refs_clash_def)
qed

lemma conflicts_with_fold_pairs:
  assumes "a \<noteq> b"
  shows "conflicts_with (fold (\<lambda>e g. if length (snd e) < 2 then g else add_pairs plans (snd e) g) es g) a b
    \<longleftrightarrow> conflicts_with g a b \<or> (\<exists>e \<in> set es. refs_clash plans (snd e) a b)"
proof (induction es arbitrary: g)
  case (Cons e es)
  have short: "\<not> refs_clash plans (snd e) a b" if "length (snd e) < 2"
  proof (cases "snd e")
    case (Cons r rs)
    with that have "snd e = [r]" by simp
    with assms show ?thesis by (auto simp: refs_clash_def)
  qed (simp add: refs_clash_def)
  show ?case
    unfolding fold_Cons comp_def Cons.IH
    using short by (simp add: conflicts_with_add_pairs [OF assms] disj_ac)
qed simp

section \<open>Lemmas: the access index\<close>

definition refs_of :: "object_id \<Rightarrow> nat \<times> execution_plan \<Rightarrow> (nat \<times> access_mode) list" where
  "refs_of i ip =
     map (\<lambda>acc. (fst ip, oa_mode acc)) (filter (\<lambda>acc. oa_object_id acc = i) (ep_object_access (snd ip)))"

definition refs_at :: "access_index \<Rightarrow> object_id \<Rightarrow> (nat \<times> access_mode) list" where
  "refs_at m i = (case bt_get m i of None \<Rightarrow> [] | Some rs \<Rightarrow> rs)"

lemma refs_at_access:
  "refs_at (index_access idx acc m) i =
     refs_at m i @ (if oa_object_id acc = i then [(idx, oa_mode acc)] else [])"
  by (simp add: refs_at_def index_access_def map_simps)

lemma refs_at_fold_access:
  "refs_at (fold (index_access idx) accs m) i =
     refs_at m i @ map (\<lambda>acc. (idx, oa_mode acc)) (filter (\<lambda>acc. oa_object_id acc = i) accs)"
  by (induction accs arbitrary: m) (auto simp: refs_at_access)

lemma refs_at_plan: "refs_at (index_plan ip m) i = refs_at m i @ refs_of i ip"
  by (simp add: index_plan_def refs_at_fold_access refs_of_def)

lemma refs_at_fold_plans: "refs_at (fold index_plan ips m) i = refs_at m i @ concat (map (refs_of i) ips)"
  by (induction ips arbitrary: m) (simp_all add: refs_at_plan)

lemma index_access_ok: "bt_ok m \<Longrightarrow> bt_ok (index_access idx acc m)"
  by (simp add: index_access_def bt_put_ok)

lemma object_plans_ok: "bt_ok (object_plans plans)"
proof -
  have acc: "bt_ok m \<Longrightarrow> bt_ok (fold (index_access idx) accs m)" for idx accs m
    by (induction accs arbitrary: m) (simp_all add: index_access_ok)
  have "bt_ok m \<Longrightarrow> bt_ok (fold index_plan ips m)" for ips m
    by (induction ips arbitrary: m) (simp_all add: index_plan_def acc)
  then show ?thesis by (simp add: object_plans_def)
qed

lemma object_plans_refs: "refs_at (object_plans plans) i = concat (map (refs_of i) (enumerate 0 plans))"
  by (simp add: object_plans_def refs_at_fold_plans) (simp add: refs_at_def)

lemma bex_enumerate: "(\<exists>x \<in> set (enumerate 0 xs). Q x) \<longleftrightarrow> (\<exists>k < length xs. Q (k, xs ! k))"
  by (force simp: in_set_enumerate_eq)

lemma in_refs_at_iff:
  "(k, md) \<in> set (refs_at (object_plans plans) i) \<longleftrightarrow>
     k < length plans \<and> (\<exists>acc \<in> set (ep_object_access (plans ! k)). oa_object_id acc = i \<and> oa_mode acc = md)"
  unfolding object_plans_refs set_concat set_map UN_iff bex_simps bex_enumerate
  by (auto simp: refs_of_def)

lemma some_refs_clash_iff:
  "(\<exists>e \<in> set (object_plans plans). refs_clash plans (snd e) a b) \<longleftrightarrow>
     (\<exists>i. refs_clash plans (refs_at (object_plans plans) i) a b)"
proof
  assume "\<exists>e \<in> set (object_plans plans). refs_clash plans (snd e) a b"
  then obtain i rs where "(i, rs) \<in> set (object_plans plans)" "refs_clash plans rs a b" by force
  then show "\<exists>i. refs_clash plans (refs_at (object_plans plans) i) a b"
    using bt_in_get [OF object_plans_ok] by (intro exI [of _ i]) (simp add: refs_at_def)
next
  assume "\<exists>i. refs_clash plans (refs_at (object_plans plans) i) a b"
  then obtain i where clash: "refs_clash plans (refs_at (object_plans plans) i) a b" by blast
  then obtain rs where "bt_get (object_plans plans) i = Some rs"
    by (cases "bt_get (object_plans plans) i") (auto simp: refs_at_def refs_clash_def)
  with clash show "\<exists>e \<in> set (object_plans plans). refs_clash plans (snd e) a b"
    using bt_get_in [of "object_plans plans" i rs] by (force simp: refs_at_def)
qed

lemma access_mode_not_write: "m \<noteq> ReadWrite \<longleftrightarrow> m = ReadOnly"
  by (cases m) simp_all

lemma conflicts_iff_accesses:
  "conflicts p q \<longleftrightarrow>
     (\<exists>a \<in> set (ep_object_access p). \<exists>b \<in> set (ep_object_access q).
        oa_object_id a = oa_object_id b \<and> (oa_mode a = ReadWrite \<or> oa_mode b = ReadWrite))"
proof -
  have w: "i \<in> plan_writes p \<longleftrightarrow> (\<exists>a \<in> set (ep_object_access p). oa_object_id a = i \<and> oa_mode a = ReadWrite)"
    and r: "i \<in> plan_reads p \<longleftrightarrow> (\<exists>a \<in> set (ep_object_access p). oa_object_id a = i \<and> oa_mode a \<noteq> ReadWrite)"
    for i p by (auto simp: plan_writes_def plan_reads_def access_mode_not_write)
  show ?thesis
  proof
    assume "conflicts p q"
    then obtain i where "i \<in> plan_writes p \<and> i \<in> plan_writes q \<or> i \<in> plan_writes p \<and> i \<in> plan_reads q \<or>
        i \<in> plan_writes q \<and> i \<in> plan_reads p"
      unfolding conflicts_def by blast
    then show "\<exists>a \<in> set (ep_object_access p). \<exists>b \<in> set (ep_object_access q).
        oa_object_id a = oa_object_id b \<and> (oa_mode a = ReadWrite \<or> oa_mode b = ReadWrite)"
      unfolding w r by (elim disjE conjE bexE) force+
  next
    assume "\<exists>a \<in> set (ep_object_access p). \<exists>b \<in> set (ep_object_access q).
        oa_object_id a = oa_object_id b \<and> (oa_mode a = ReadWrite \<or> oa_mode b = ReadWrite)"
    then obtain a b where ab: "a \<in> set (ep_object_access p)" "b \<in> set (ep_object_access q)"
      "oa_object_id a = oa_object_id b" "oa_mode a = ReadWrite \<or> oa_mode b = ReadWrite" by blast
    let ?i = "oa_object_id a"
    have "oa_mode a = ReadWrite \<Longrightarrow> ?i \<in> plan_writes p" "oa_mode a \<noteq> ReadWrite \<Longrightarrow> ?i \<in> plan_reads p"
      "oa_mode b = ReadWrite \<Longrightarrow> ?i \<in> plan_writes q" "oa_mode b \<noteq> ReadWrite \<Longrightarrow> ?i \<in> plan_reads q"
      using ab(1-3) unfolding w r by force+
    with ab(4) show "conflicts p q" unfolding conflicts_def by blast
  qed
qed

lemma graph_is_conflicts:
  assumes "distinct (map ep_tx_id plans)" and "i < length plans" and "j < length plans" and "i \<noteq> j"
  shows "conflicts_with (build_graph plans) (ep_tx_id (plans ! i)) (ep_tx_id (plans ! j)) \<longleftrightarrow>
    conflicts (plans ! i) (plans ! j)"
proof -
  have inj: "k < length plans \<Longrightarrow> l < length plans \<Longrightarrow> ep_tx_id (plans ! k) = ep_tx_id (plans ! l) \<longleftrightarrow> k = l" for k l
    using nth_eq_iff_index_eq [OF assms(1)] by simp
  then have ne: "ep_tx_id (plans ! i) \<noteq> ep_tx_id (plans ! j)" using assms by blast
  have clash: "refs_clash plans (refs_at (object_plans plans) o1) (ep_tx_id (plans ! i)) (ep_tx_id (plans ! j)) \<longleftrightarrow>
      (\<exists>a \<in> set (ep_object_access (plans ! i)). \<exists>b \<in> set (ep_object_access (plans ! j)).
         oa_object_id a = o1 \<and> oa_object_id b = o1 \<and> (oa_mode a = ReadWrite \<or> oa_mode b = ReadWrite))" for o1
    using assms(2,3) inj unfolding refs_clash_def Bex_def split_paired_Ex in_refs_at_iff fst_conv snd_conv by blast
  have "\<not> conflicts_with [] a b" for a b by (simp add: conflicts_with_def)
  then show ?thesis
    unfolding build_graph_def conflicts_with_fold_pairs [OF ne] some_refs_clash_iff conflicts_iff_accesses clash
    by (simp only: simp_thms) metis
qed

section \<open>Lemmas: placement\<close>

lemma place_spec:
  assumes "place g t gs = (gs', i)"
  shows "i \<le> length gs \<and> length gs' = max (length gs) (Suc i) \<and>
    (\<forall>j < length gs'. gs' ! j = (if j < length gs then gs ! j else []) @ (if j = i then [t] else [])) \<and>
    (\<forall>m \<in> set (if i < length gs then gs ! i else []). \<not> conflicts_with g t m) \<and>
    (\<forall>j < i. j < length gs \<and> (\<exists>m \<in> set (gs ! j). conflicts_with g t m))"
  using assms
proof (induction g t gs arbitrary: gs' i rule: place.induct)
  case (1 g t)
  then show ?case by auto
next
  case (2 g t ms gs)
  show ?case
  proof (cases "\<exists>m \<in> set ms. conflicts_with g t m")
    case False
    with 2(2) have r: "gs' = (ms @ [t]) # gs" "i = 0" by simp_all
    have "gs' ! j = (if j < length (ms # gs) then (ms # gs) ! j else []) @ (if j = i then [t] else [])"
      if "j < length gs'" for j using that by (cases j) (auto simp: r)
    with False show ?thesis by (auto simp: r)
  next
    case True
    obtain gs1 i1 where p: "place g t gs = (gs1, i1)" by fastforce
    with True 2(2) have r: "gs' = ms # gs1" "i = Suc i1" by auto
    note IH = 2(1) [OF True p]
    have "gs' ! j = (if j < length (ms # gs) then (ms # gs) ! j else []) @ (if j = i then [t] else [])"
      if "j < length gs'" for j using that IH by (cases j) (auto simp: r)
    moreover have "j < length (ms # gs) \<and> (\<exists>m \<in> set ((ms # gs) ! j). conflicts_with g t m)" if "j < i" for j
      using that IH True by (cases j) (auto simp: r)
    ultimately show ?thesis using IH by (auto simp: r)
  qed
qed

text \<open>What holds of the assignment after a prefix \<open>ps\<close> of the plans.\<close>

definition index_total :: "execution_plan list \<Rightarrow> assignment \<Rightarrow> bool" where
  "index_total ps a \<longleftrightarrow>
     (\<forall>p \<in> set ps. bt_get (snd a) (ep_tx_id p) \<noteq> None) \<and>
     (\<forall>t i. bt_get (snd a) t = Some i \<longrightarrow> t \<in> ep_tx_id ` set ps \<and> i < length (fst a))"

definition groups_free :: "conflict_graph \<Rightarrow> assignment \<Rightarrow> bool" where
  "groups_free g a \<longleftrightarrow>
     (\<forall>i < length (fst a). fst a ! i \<noteq> [] \<and> (\<forall>t \<in> set (fst a ! i). bt_get (snd a) t = Some i)) \<and>
     (\<forall>t i. bt_get (snd a) t = Some i \<longrightarrow> t \<in> set (fst a ! i)) \<and>
     (\<forall>t u i. bt_get (snd a) t = Some i \<and> bt_get (snd a) u = Some i \<and> t \<noteq> u \<longrightarrow> \<not> conflicts_with g t u)"

lemma index_total_step:
  assumes "index_total ps a"
  shows "index_total (ps @ [p]) (assign_plan g p a)"
proof -
  obtain gs ptg where a: "a = (gs, ptg)" by fastforce
  obtain gs' i where pl: "place g (ep_tx_id p) gs = (gs', i)" by fastforce
  have len: "length gs' = max (length gs) (Suc i)" using place_spec [OF pl] by blast
  have old: "bt_get ptg t = Some j \<Longrightarrow> t \<in> ep_tx_id ` set ps \<and> j < length gs'" for t j
    using assms unfolding index_total_def a len by fastforce
  have tot: "q \<in> set ps \<Longrightarrow> bt_get ptg (ep_tx_id q) \<noteq> None" for q
    using assms by (simp add: index_total_def a)
  have step: "assign_plan g p a = (gs', bt_put (ep_tx_id p) i ptg)" by (simp add: assign_plan_def a pl)
  show ?thesis
    unfolding index_total_def step fst_conv snd_conv map_simps
    using old tot len by (auto split: if_splits)
qed

lemma groups_free_step:
  assumes "groups_free g a" and "index_total ps a" and "ep_tx_id p \<notin> ep_tx_id ` set ps"
    and sym: "\<And>t u. conflicts_with g t u = conflicts_with g u t"
  shows "groups_free g (assign_plan g p a)"
proof -
  obtain gs ptg where a: "a = (gs, ptg)" by fastforce
  obtain gs' i where pl: "place g (ep_tx_id p) gs = (gs', i)" by fastforce
  let ?t = "ep_tx_id p"
  have step: "assign_plan g p a = (gs', bt_put ?t i ptg)" by (simp add: assign_plan_def a pl)
  note sp = place_spec [OF pl]
  have old: "bt_get ptg u = Some j \<Longrightarrow> j < length gs \<and> u \<in> set (gs ! j) \<and> u \<noteq> ?t" for u j
    using assms(1-3) unfolding index_total_def groups_free_def a fst_conv snd_conv by blast
  have mem: "j < length gs \<Longrightarrow> gs ! j \<noteq> [] \<and> (u \<in> set (gs ! j) \<longrightarrow> bt_get ptg u = Some j)" for u j
    using assms(1) unfolding groups_free_def a fst_conv snd_conv by blast
  have free: "bt_get ptg t = Some j \<Longrightarrow> bt_get ptg u = Some j \<Longrightarrow> t \<noteq> u \<Longrightarrow> \<not> conflicts_with g t u" for t u j
    using assms(1) unfolding groups_free_def a fst_conv snd_conv by blast
  have nth: "j < length gs' \<Longrightarrow> gs' ! j = (if j < length gs then gs ! j else []) @ (if j = i then [?t] else [])" for j
    using sp by blast
  have last: "j < length gs' \<longleftrightarrow> j < length gs \<or> j = i" for j
    using sp by (auto simp: max_def split: if_splits)
  have "gs' ! j \<noteq> [] \<and> (\<forall>u \<in> set (gs' ! j). bt_get (bt_put ?t i ptg) u = Some j)" if j: "j < length gs'" for j
  proof (intro conjI ballI)
    show "gs' ! j \<noteq> []"
      using j last [of j] mem [of j] by (auto simp: nth [OF j])
    fix u assume "u \<in> set (gs' ! j)"
    then consider "j < length gs" "u \<in> set (gs ! j)" | "u = ?t" "j = i"
      unfolding nth [OF j] by (auto split: if_splits)
    then show "bt_get (bt_put ?t i ptg) u = Some j"
      using mem [of j u] old [of u j] by cases (simp_all add: map_simps)
  qed
  moreover have "u \<in> set (gs' ! j)" if "bt_get (bt_put ?t i ptg) u = Some j" for u j
    using that old [of u j] nth [of j] last [of j] by (auto simp: map_simps split: if_splits)
  moreover have "\<not> conflicts_with g ?t u" if "bt_get ptg u = Some i" for u
    using sp old [OF that] by auto
  then have "\<not> conflicts_with g t u"
    if "bt_get (bt_put ?t i ptg) t = Some j" "bt_get (bt_put ?t i ptg) u = Some j" "t \<noteq> u" for t u j
    using that free sym by (auto simp: map_simps split: if_splits)
  ultimately show ?thesis
    unfolding groups_free_def step fst_conv snd_conv by blast
qed

lemma assign_index_total: "index_total ps (assign_plans g ps)"
proof (induction ps rule: rev_induct)
  case Nil
  then show ?case by (simp add: assign_plans_def index_total_def)
next
  case (snoc p ps)
  then show ?case using index_total_step by (simp add: assign_plans_def)
qed

lemma assign_groups_free:
  assumes sym: "\<And>t u. conflicts_with g t u = conflicts_with g u t"
  shows "distinct (map ep_tx_id ps) \<Longrightarrow> groups_free g (assign_plans g ps)"
proof (induction ps rule: rev_induct)
  case Nil
  then show ?case by (simp add: assign_plans_def groups_free_def)
next
  case (snoc p ps)
  then have "groups_free g (assign_plan g p (assign_plans g ps))"
    by (intro groups_free_step [OF _ assign_index_total _ sym]) auto
  then show ?case by (simp add: assign_plans_def)
qed

lemma build_graph_sym: "conflicts_with (build_graph plans) t u = conflicts_with (build_graph plans) u t"
proof (cases "t = u")
  case False
  have "refs_clash plans r t u = refs_clash plans r u t" for r
    unfolding refs_clash_def by blast
  with False show ?thesis
    unfolding build_graph_def by (simp add: conflicts_with_fold_pairs) (simp add: conflicts_with_def)
qed simp

section \<open>Lemmas: assembly\<close>

definition group_of :: "execution_plan list \<Rightarrow> execution_plan \<Rightarrow> nat option" where
  "group_of plans p = bt_get (snd (assign_plans (build_graph plans) plans)) (ep_tx_id p)"

definition num_groups :: "execution_plan list \<Rightarrow> nat" where
  "num_groups plans = length (fst (assign_plans (build_graph plans) plans))"

lemma group_of_range: "p \<in> set plans \<Longrightarrow> \<exists>i < num_groups plans. group_of plans p = Some i"
  using assign_index_total [of plans "build_graph plans"]
  by (auto simp: index_total_def group_of_def num_groups_def)

lemma fold_push_plan:
  assumes "\<And>p. p \<in> set ps \<Longrightarrow> \<exists>i < length gs. bt_get ptg (ep_tx_id p) = Some i"
  shows "fold (push_plan ptg) ps (Some gs) =
    Some (map (\<lambda>i. gs ! i @ filter (\<lambda>p. bt_get ptg (ep_tx_id p) = Some i) ps) [0..<length gs])"
  using assms
proof (induction ps arbitrary: gs)
  case Nil
  then show ?case by (simp add: map_nth)
next
  case (Cons p ps)
  obtain i where i: "i < length gs" "bt_get ptg (ep_tx_id p) = Some i" using Cons.prems by force
  let ?gs = "gs[i := gs ! i @ [p]]"
  have "fold (push_plan ptg) ps (Some ?gs) =
      Some (map (\<lambda>j. ?gs ! j @ filter (\<lambda>p. bt_get ptg (ep_tx_id p) = Some j) ps) [0..<length ?gs])"
    using Cons.prems by (intro Cons.IH) simp
  moreover have "push_plan ptg p (Some gs) = Some ?gs" using i by (simp add: push_plan_def)
  moreover have "map (\<lambda>j. ?gs ! j @ filter (\<lambda>p. bt_get ptg (ep_tx_id p) = Some j) ps) [0..<length ?gs] =
      map (\<lambda>j. gs ! j @ filter (\<lambda>p. bt_get ptg (ep_tx_id p) = Some j) (p # ps)) [0..<length gs]"
    using i by (auto simp: nth_list_update)
  ultimately show ?case by simp
qed

lemma schedule_eq:
  "schedule plans = Some (map (\<lambda>i. \<lparr>eg_plans = filter (\<lambda>p. group_of plans p = Some i) plans,
     eg_group_index = i\<rparr>) [0..<num_groups plans])"
proof (cases "plans = []")
  case True
  then show ?thesis by (simp add: schedule_def num_groups_def assign_plans_def)
next
  case False
  let ?a = "assign_plans (build_graph plans) plans"
  have "fold (push_plan (snd ?a)) plans (Some (replicate (length (fst ?a)) [])) =
      Some (map (\<lambda>i. filter (\<lambda>p. bt_get (snd ?a) (ep_tx_id p) = Some i) plans) [0..<length (fst ?a)])"
    using group_of_range [of _ plans]
    by (subst fold_push_plan) (auto simp: group_of_def num_groups_def)
  with False show ?thesis
    by (simp add: schedule_def case_prod_beta group_of_def num_groups_def enumerate_map_upt comp_def)
qed

lemma mset_partition:
  "(\<And>p. p \<in> set ps \<Longrightarrow> \<exists>i < n. f p = Some i) \<Longrightarrow>
     mset (concat (map (\<lambda>i. filter (\<lambda>p. f p = Some i) ps) [0..<n])) = mset ps"
proof (induction ps)
  case Nil
  have "concat (map (\<lambda>i. []) xs) = []" for xs by (induction xs) simp_all
  then show ?case by simp
next
  case (Cons p ps)
  obtain k where k: "k < n" "f p = Some k" using Cons.prems by force
  have split: "mset (filter (\<lambda>p. f p = Some i) (p # ps)) =
      (if i = k then {#p#} else {#}) + mset (filter (\<lambda>p. f p = Some i) ps)" for i
    using k(2) by auto
  have one: "(\<Sum>i\<leftarrow>[0..<n]. if i = k then {#p#} else {#}) = {#p#}"
    using k(1) by (simp add: sum_list_distinct_conv_sum_set sum.delta')
  have "mset (concat (map (\<lambda>i. filter (\<lambda>p. f p = Some i) (p # ps)) [0..<n])) =
      (\<Sum>i\<leftarrow>[0..<n]. (if i = k then {#p#} else {#}) + mset (filter (\<lambda>p. f p = Some i) ps))"
    by (simp only: mset_concat map_map comp_def split)
  also have "\<dots> = {#p#} + mset (concat (map (\<lambda>i. filter (\<lambda>p. f p = Some i) ps) [0..<n]))"
    by (simp only: sum_list_addf one mset_concat map_map comp_def)
  finally show ?case using Cons by simp
qed

lemma same_group_free:
  assumes "distinct (map ep_tx_id plans)" and "p \<in> set plans" and "q \<in> set plans" and "p \<noteq> q"
    and "group_of plans p = Some i" and "group_of plans q = Some i"
  shows "\<not> conflicts p q"
proof -
  obtain k l where kl: "k < length plans" "l < length plans" "p = plans ! k" "q = plans ! l"
    using assms(2,3) by (metis in_set_conv_nth)
  have "k \<noteq> l" using assms(4) kl by auto
  then have "ep_tx_id p \<noteq> ep_tx_id q"
    using nth_eq_iff_index_eq [OF assms(1), of k l] kl by simp
  then have "\<not> conflicts_with (build_graph plans) (ep_tx_id p) (ep_tx_id q)"
    using assign_groups_free [OF build_graph_sym assms(1)] assms(5,6)
    unfolding groups_free_def group_of_def by blast
  then show ?thesis
    using graph_is_conflicts [OF assms(1) kl(1,2) \<open>k \<noteq> l\<close>] kl by simp
qed

lemma group_nonempty:
  assumes "distinct (map ep_tx_id plans)" and "i < num_groups plans"
  shows "\<exists>p \<in> set plans. group_of plans p = Some i"
proof -
  let ?a = "assign_plans (build_graph plans) plans"
  have "fst ?a ! i \<noteq> []" "\<forall>t \<in> set (fst ?a ! i). bt_get (snd ?a) t = Some i"
    using assign_groups_free [OF build_graph_sym assms(1)] assms(2)
    unfolding groups_free_def num_groups_def by blast+
  then obtain t where t: "bt_get (snd ?a) t = Some i" by (meson last_in_set)
  then have "t \<in> ep_tx_id ` set plans"
    using assign_index_total [of plans "build_graph plans"] unfolding index_total_def by blast
  with t show ?thesis by (auto simp: group_of_def)
qed

section \<open>Properties\<close>

text \<open>
  The conflict graph built from the access index is the pairwise definition: for plans with
  distinct transaction ids, two plans are linked exactly when one writes an object the other reads
  or writes.
\<close>

theorem conflict_graph_equals_pairwise_conflicts:
  assumes "distinct (map ep_tx_id plans)" and "i < length plans" and "j < length plans" and "i \<noteq> j"
  shows "conflicts_with (build_graph plans) (ep_tx_id (plans ! i)) (ep_tx_id (plans ! j)) \<longleftrightarrow>
    conflicts (plans ! i) (plans ! j)"
  using assms by (rule graph_is_conflicts)

definition write_plan :: "bytes32 \<Rightarrow> object_id list \<Rightarrow> execution_plan" where
  "write_plan t is = mk_plan t 100 [] [] (map access_write is)"

theorem conflict_graph_equals_pairwise_conflicts_witness:
  "conflicts_with (build_graph [write_plan 1 [5], write_plan 2 [5, 6], write_plan 3 [6]]) 2 3"
proof -
  let ?ps = "[write_plan 1 [5], write_plan 2 [5, 6], write_plan 3 [6]]"
  have "conflicts (?ps ! 1) (?ps ! 2)"
    by (simp add: conflicts_def write_plan_def)
  then show ?thesis
    using conflict_graph_equals_pairwise_conflicts [of ?ps 1 2] by (simp add: write_plan_def)
qed

text \<open>
  C38. Scheduling never panics and is correct for plans with distinct transaction ids: every plan is
  in exactly one group, groups are numbered in order and none is empty, each group keeps the
  canonical order of its plans, and no two plans of a group conflict.
\<close>

theorem schedule_partitions_into_conflict_free_groups:
  assumes "distinct (map ep_tx_id plans)"
  shows "\<exists>gs. schedule plans = Some gs \<and> mset (concat (map eg_plans gs)) = mset plans \<and>
    map eg_group_index gs = [0..<length gs] \<and>
    (\<forall>g \<in> set gs. eg_plans g \<noteq> [] \<and> (\<exists>Q. eg_plans g = filter Q plans) \<and>
       (\<forall>p \<in> set (eg_plans g). \<forall>q \<in> set (eg_plans g). p \<noteq> q \<longrightarrow> \<not> conflicts p q))"
proof -
  let ?grp = "\<lambda>i. \<lparr>eg_plans = filter (\<lambda>p. group_of plans p = Some i) plans, eg_group_index = i\<rparr>"
  let ?gs = "map ?grp [0..<num_groups plans]"
  have "mset (concat (map eg_plans ?gs)) = mset plans"
    using mset_partition [of plans "num_groups plans" "group_of plans"] group_of_range
    by (simp add: comp_def)
  moreover have "map eg_group_index ?gs = [0..<length ?gs]" by (simp add: comp_def map_idI)
  moreover have "eg_plans (?grp i) \<noteq> []" if "i < num_groups plans" for i
    using group_nonempty [OF assms that] by (auto simp: filter_empty_conv)
  moreover have "\<not> conflicts p q" if "p \<in> set (eg_plans (?grp i))" "q \<in> set (eg_plans (?grp i))" "p \<noteq> q" for i p q
    using that same_group_free [OF assms, of p q i] by simp
  ultimately show ?thesis
    unfolding schedule_eq by (intro exI [of _ ?gs]) auto
qed

theorem schedule_partitions_into_conflict_free_groups_witness:
  "\<exists>gs. schedule [write_plan 1 [5], write_plan 2 [5, 6], write_plan 3 [6]] = Some gs \<and>
    mset (concat (map eg_plans gs)) = mset [write_plan 1 [5], write_plan 2 [5, 6], write_plan 3 [6]] \<and>
    map eg_group_index gs = [0..<length gs]"
  using schedule_partitions_into_conflict_free_groups [of "[write_plan 1 [5], write_plan 2 [5, 6], write_plan 3 [6]]"]
  by (auto simp: write_plan_def)

text \<open>
  The canonical order of conflicting plans is not kept across groups: a plan that conflicts with
  an earlier one can be placed in an earlier group, so it is executed first. Here the third plan
  writes what the second writes, and runs before it.
\<close>

theorem schedule_can_reorder_conflicting_plans:
  "\<exists>a b c. conflicts b c \<and>
    map eg_plans (the (schedule [a, b, c])) = [[a, c], [b]]"
proof -
  have "map eg_plans (the (schedule [write_plan 1 [5], write_plan 2 [5, 6], write_plan 3 [6]])) =
      [[write_plan 1 [5], write_plan 3 [6]], [write_plan 2 [5, 6]]]"
    by (simp add: schedule_def assign_plans_def assign_plan_def build_graph_def object_plans_def
        index_plan_def index_access_def write_plan_def access_write_def bt_get_def add_conflict_def
        graph_link_def conflicts_with_def push_plan_def Let_def)
  moreover have "conflicts (write_plan 2 [5, 6]) (write_plan 3 [6])"
    by (simp add: conflicts_def write_plan_def)
  ultimately show ?thesis by (intro exI conjI)
qed

end
