(* ===== verification/Settlement.thy ===== *)
theory Settlement
  imports Scheduler
begin

text \<open>
  The settlement engine, \<^verbatim>\<open>runtime/src/settlement/engine.rs\<close>, with the side-effect records of
  \<^verbatim>\<open>runtime/src/contracts/advanced.rs\<close> that it builds. A plan runs in the source's phases: base
  gas, version snapshot, validation of every operation against the initial store, application,
  version increments, sync. An error of the application phase leaves what was applied before it in
  the store, as the code does. A receipt keeps the \<^verbatim>\<open>RuntimeError\<close> itself, not its text.
\<close>

section \<open>Side-effect records\<close>

record contract_event =
  ce_contract_id :: object_id
  ce_schema_id :: bytes32
  ce_event_type :: string
  ce_indexed :: "(string \<times> string) list"
  ce_data :: bytes
  ce_epoch :: u64

datatype ibc_action = IbcTransferAction string u128 string | IbcSendPacket bytes

record ibc_hook =
  ih_source_contract :: object_id
  ih_channel_id :: string
  ih_port_id :: string
  ih_action :: ibc_action
  ih_timeout_secs :: u64

record scheduled_execution =
  sx_schedule_id :: bytes32
  sx_contract_id :: object_id
  sx_schema_id :: bytes32
  sx_method :: string
  sx_params :: bytes
  sx_execute_at_epoch :: u64
  sx_recurring :: bool
  sx_interval_epochs :: u64
  sx_max_recurrences :: u64
  sx_executed_count :: u64
  sx_active :: bool

record contract_balance =
  cb_contract_id :: object_id
  cb_balance_id :: object_id
  cb_withdrawal_schema_id :: bytes32
  cb_asset_id :: bytes32
  cb_label :: string

definition schedule_compute_id :: "extern \<Rightarrow> object_id \<Rightarrow> string \<Rightarrow> u64 \<Rightarrow> bytes32" where
  "schedule_compute_id X contract method execute_at =
     x_sha256 X (string_bytes ''OMNIPHI_SCHEDULE_V1'' @ be_bytes 32 contract @ string_bytes method
       @ be_bytes 8 execute_at)"

definition compute_asset_id :: "extern \<Rightarrow> object_id \<Rightarrow> bytes32 \<Rightarrow> string \<Rightarrow> u8 \<Rightarrow> bytes32" where
  "compute_asset_id X creator mint_authority_schema symbol decimals =
     x_sha256 X (string_bytes ''OMNIPHI_TOKEN_V1'' @ be_bytes 32 creator @ be_bytes 32 mint_authority_schema
       @ string_bytes symbol @ [decimals])"

section \<open>Receipts\<close>

record execution_receipt =
  rc_tx_id :: bytes32
  rc_success :: bool
  rc_affected_objects :: "object_id list"
  rc_version_transitions :: "(object_id \<times> object_version \<times> object_version) list"
  rc_error :: "runtime_error option"
  rc_gas_used :: u64
  rc_events :: "contract_event list"

record plan_side_effects =
  se_ibc_hooks :: "ibc_hook list"
  se_schedules :: "scheduled_execution list"
  se_bindings :: "contract_balance list"

record settlement_result =
  sr_epoch :: u64
  sr_total_plans :: usize
  sr_succeeded :: usize
  sr_failed :: usize
  sr_receipts :: "execution_receipt list"
  sr_state_root :: bytes32
  sr_ibc_hooks :: "ibc_hook list"
  sr_schedules :: "scheduled_execution list"
  sr_balance_bindings :: "contract_balance list"
  sr_all_events :: "contract_event list"

section \<open>Validation of one operation\<close>

fun op_gas_cost :: "object_operation \<Rightarrow> gas_costs \<Rightarrow> u64" where
  "op_gas_cost (DebitBalance _ _) c = gc_debit_balance c"
| "op_gas_cost (CreditBalance _ _) c = gc_credit_balance c"
| "op_gas_cost (SwapPoolAmounts _ _ _) c = gc_swap_pool c"
| "op_gas_cost (LockBalance _ _) c = gc_lock_balance c"
| "op_gas_cost (UnlockBalance _ _) c = gc_unlock_balance c"
| "op_gas_cost (UpdateVersion _) c = gc_update_version c"
| "op_gas_cost (TransferOwnership _ _) c = gc_update_version c"
| "op_gas_cost (ContractStateTransition _ _ proposed) c =
     gc_contract_state_write c + gc_constraint_validation_base c
       + gc_constraint_validation_per_byte c * of_nat (length proposed)"
| "op_gas_cost (BindContractBalance _ _ _ _ _) c = gc_bind_contract_balance c"
| "op_gas_cost (CreateToken _ _ _ _ _ _) c = gc_create_token c"
| "op_gas_cost (EmitContractEvent _ _ _ _ dat) c =
     gc_emit_event c + gc_constraint_validation_per_byte c * of_nat (length dat)"
| "op_gas_cost (IBCTransfer _ _ _ _ _ _ _) c = gc_ibc_transfer c"
| "op_gas_cost (ScheduleExecution _ _ _ _ _ _ _ _) c = gc_schedule_execution c"

definition violation :: "string \<Rightarrow> runtime_error + unit" where
  "violation msg = Inl (ConstraintViolation (Text msg))"

definition contract_violation :: "bytes32 \<Rightarrow> err_text \<Rightarrow> runtime_error + unit" where
  "contract_violation schema msg = Inl (ContractConstraintViolation schema msg)"

fun validate_op :: "extern \<Rightarrow> object_operation \<Rightarrow> object_store \<Rightarrow> runtime_error + unit" where
  "validate_op X (DebitBalance i amount) s =
     (case get_balance_by_id s i of
        None \<Rightarrow> Inl (ObjectNotFound i)
      | Some b \<Rightarrow> if bo_available b < amount then Inl (InsufficientBalance amount (bo_available b)) else Inr ())"
| "validate_op X (LockBalance i amount) s =
     (case get_balance_by_id s i of
        None \<Rightarrow> Inl (ObjectNotFound i)
      | Some b \<Rightarrow> if bo_available b < amount then Inl (InsufficientBalance amount (bo_available b)) else Inr ())"
| "validate_op X (SwapPoolAmounts i delta_a delta_b) s =
     (case get_pool_by_id s i of
        None \<Rightarrow> Inl (ObjectNotFound i)
      | Some p \<Rightarrow>
          if sint delta_a < 0 \<and> lp_reserve_a p < - delta_a then
            violation ''swap would drain pool reserve_a below zero''
          else if sint delta_b < 0 \<and> lp_reserve_b p < - delta_b then
            violation ''swap would drain pool reserve_b below zero''
          else Inr ())"
| "validate_op X (CreditBalance i amount) s =
     (case get_balance_by_id s i of None \<Rightarrow> Inl (ObjectNotFound i) | Some _ \<Rightarrow> Inr ())"
| "validate_op X (UnlockBalance i amount) s =
     (case get_balance_by_id s i of
        None \<Rightarrow> Inl (ObjectNotFound i)
      | Some b \<Rightarrow> if bo_locked_amount b < amount then violation ''unlock amount exceeds locked_amount'' else Inr ())"
| "validate_op X (TransferOwnership i new_owner) s =
     (case store_get s i of
        None \<Rightarrow> Inl (ObjectNotFound i)
      | Some x \<Rightarrow>
          if new_owner = 0 then Inl (InvalidIntent (Text ''new_owner cannot be zero''))
          else if om_owner (obj_meta x) = new_owner then
            Inl (InvalidIntent (Text ''new_owner is already the owner''))
          else Inr ())"
| "validate_op X (UpdateVersion i) s =
     (case store_get s i of None \<Rightarrow> Inl (ObjectNotFound i) | Some _ \<Rightarrow> Inr ())"
| "validate_op X (ContractStateTransition i schema proposed) s =
     (case store_get s i of
        None \<Rightarrow> Inl (ObjectNotFound i)
      | Some x \<Rightarrow>
          (case obj_object_type x of
             TContract sid \<Rightarrow>
               if sid \<noteq> schema then contract_violation schema (Text ''contract object schema_id mismatch'')
               else if proposed = [] then contract_violation schema (Text ''proposed_state cannot be empty'')
               else (case x_as_contract X x of
                       None \<Rightarrow> Inr ()
                     | Some c \<Rightarrow>
                         if co_max_state_bytes c > 0 \<and> of_nat (length proposed) > co_max_state_bytes c then
                           contract_violation schema
                             (Fmt ''proposed state {} bytes exceeds max_state_bytes {}''
                                [length proposed, unat (co_max_state_bytes c)])
                         else Inr ())
           | _ \<Rightarrow> contract_violation schema (Text ''target object is not a Contract type'')))"
| "validate_op X (BindContractBalance contract balance schema _ _) s =
     (case store_get s contract of
        None \<Rightarrow> Inl (ObjectNotFound contract)
      | Some x \<Rightarrow>
          if store_get s balance = None then Inl (ObjectNotFound balance)
          else if obj_object_type x = TContract schema then Inr ()
          else contract_violation schema (Text ''bind target is not a contract with matching schema''))"
| "validate_op X (CreateToken _ _ symbol decimals initial_supply max_supply) s =
     (if symbol = [] \<or> length symbol > 12 then violation ''symbol must be 1-12 chars''
      else if decimals > 18 then violation ''decimals must be <= 18''
      else (case max_supply of
              Some mx \<Rightarrow> if initial_supply > mx then violation ''initial_supply > max_supply'' else Inr ()
            | None \<Rightarrow> Inr ()))"
| "validate_op X (EmitContractEvent contract schema _ _ dat) s =
     (case store_get s contract of
        None \<Rightarrow> Inl (ObjectNotFound contract)
      | Some x \<Rightarrow>
          if obj_object_type x \<noteq> TContract schema then
            contract_violation schema (Text ''event source is not a valid contract'')
          else if length dat > 65536 then violation ''event data exceeds 64KB''
          else Inr ())"
| "validate_op X (IBCTransfer source _ _ denom amount receiver _) s =
     (case store_get s source of
        None \<Rightarrow> Inl (ObjectNotFound source)
      | Some _ \<Rightarrow>
          if denom = [] then violation ''IBC denom cannot be empty''
          else if amount = 0 then violation ''IBC amount must be > 0''
          else if receiver = [] then violation ''IBC receiver cannot be empty''
          else Inr ())"
| "validate_op X (ScheduleExecution contract _ _ _ execute_at _ _ _) s =
     (case store_get s contract of
        None \<Rightarrow> Inl (ObjectNotFound contract)
      | Some _ \<Rightarrow> if execute_at = 0 then violation ''execute_at_epoch must be > 0'' else Inr ())"

section \<open>Application of one operation\<close>

text \<open>\<^verbatim>\<open>if let Some(x) = store.get_..._mut(id) { ... }\<close>\<close>

definition if_found :: "(object_store \<Rightarrow> object_store option) \<Rightarrow> object_store \<Rightarrow> object_store" where
  "if_found f s = (case f s of None \<Rightarrow> s | Some s' \<Rightarrow> s')"

text \<open>
  \<^verbatim>\<open>store.insert\<close> of an object that has no overlay (a contract or a token); it cannot panic and is
  \<open>store_insert\<close> by \<open>store_insert_untyped\<close> below.
\<close>

definition insert_untyped :: "obj \<Rightarrow> object_store \<Rightarrow> object_store" where
  "insert_untyped x s = s\<lparr>st_objects := bt_put (om_id (obj_meta x)) x (st_objects s)\<rparr>"

definition apply_delta :: "i128 \<Rightarrow> u128 \<Rightarrow> u128" where
  "apply_delta delta reserve = (if sint delta \<ge> 0 then sat_add reserve delta else sat_sub reserve (- delta))"

definition set_owner :: "bytes32 \<Rightarrow> object_meta \<Rightarrow> object_meta" where
  "set_owner owner m = m\<lparr>om_owner := owner\<rparr>"

definition token_of_op :: "extern \<Rightarrow> object_id \<Rightarrow> bytes32 \<Rightarrow> string \<Rightarrow> u8 \<Rightarrow> u128 \<Rightarrow> u128 option \<Rightarrow> token_object" where
  "token_of_op X creator schema symbol decimals initial_supply max_supply =
     (let asset_id = compute_asset_id X creator schema symbol decimals in
      (token_new asset_id creator asset_id symbol decimals initial_supply 0)
        \<lparr>to_max_supply := max_supply, to_mint_authority := Some creator\<rparr>)"

fun apply_op ::
  "extern \<Rightarrow> object_operation \<Rightarrow> object_store \<Rightarrow> object_id list \<Rightarrow> runtime_error + (object_store \<times> object_id list)" where
  "apply_op X (DebitBalance i amount) s aff =
     (case get_balance_by_id s i of
        None \<Rightarrow> Inl (ObjectNotFound i)
      | Some b \<Rightarrow>
          (case checked_sub (bo_amount b) amount of
             None \<Rightarrow> Inl (InsufficientBalance amount (bo_amount b))
           | Some a \<Rightarrow> Inr (if_found (get_balance_by_id_mut i (\<lambda>b. b\<lparr>bo_amount := a\<rparr>)) s, aff @ [i])))"
| "apply_op X (CreditBalance i amount) s aff =
     (case get_balance_by_id_mut i (\<lambda>b. b\<lparr>bo_amount := sat_add (bo_amount b) amount\<rparr>) s of
        None \<Rightarrow> Inl (ObjectNotFound i)
      | Some s' \<Rightarrow> Inr (s', aff @ [i]))"
| "apply_op X (SwapPoolAmounts i delta_a delta_b) s aff =
     (case get_pool_by_id_mut i (\<lambda>p. p\<lparr>lp_reserve_a := apply_delta delta_a (lp_reserve_a p),
             lp_reserve_b := apply_delta delta_b (lp_reserve_b p)\<rparr>) s of
        None \<Rightarrow> Inl (ObjectNotFound i)
      | Some s' \<Rightarrow> Inr (s', aff @ [i]))"
| "apply_op X (LockBalance i amount) s aff =
     (case get_balance_by_id_mut i (\<lambda>b. b\<lparr>bo_locked_amount := sat_add (bo_locked_amount b) amount\<rparr>) s of
        None \<Rightarrow> Inl (ObjectNotFound i)
      | Some s' \<Rightarrow> Inr (s', aff @ [i]))"
| "apply_op X (UnlockBalance i amount) s aff =
     (case get_balance_by_id s i of
        None \<Rightarrow> Inl (ObjectNotFound i)
      | Some b \<Rightarrow>
          (case checked_sub (bo_locked_amount b) amount of
             None \<Rightarrow> Inl (ConstraintViolation (Text ''unlock exceeds locked_amount''))
           | Some a \<Rightarrow> Inr (if_found (get_balance_by_id_mut i (\<lambda>b. b\<lparr>bo_locked_amount := a\<rparr>)) s, aff @ [i])))"
| "apply_op X (TransferOwnership i new_owner) s aff =
     (case store_get_mut i (obj_meta_mut (set_owner new_owner)) s of
        None \<Rightarrow> Inl (ObjectNotFound i)
      | Some s1 \<Rightarrow>
          (let s2 = if_found (get_balance_by_id_mut i
                      (\<lambda>b. b\<lparr>bo_meta := set_owner new_owner (bo_meta b), bo_owner := new_owner\<rparr>)) s1;
               s3 = if_found (get_pool_by_id_mut i (\<lambda>p. p\<lparr>lp_meta := set_owner new_owner (lp_meta p)\<rparr>)) s2;
               s4 = if_found (get_vault_mut i (\<lambda>v. v\<lparr>vo_meta := set_owner new_owner (vo_meta v)\<rparr>)) s3
           in Inr (s4, aff @ [i])))"
| "apply_op X (UpdateVersion i) s aff = Inr (s, aff @ [i])"
| "apply_op X (ContractStateTransition i schema proposed) s aff =
     (case store_get s i of
        None \<Rightarrow> Inl (ObjectNotFound i)
      | Some x \<Rightarrow>
          (case x_as_contract X x of
             None \<Rightarrow> Inl (ContractValidatorError
                       (Text ''failed to deserialize contract object for state update''))
           | Some c \<Rightarrow>
               (let c1 = contract_set_state X proposed c;
                    c2 = c1\<lparr>co_meta := (co_meta c1)\<lparr>om_updated_at := om_updated_at (co_meta c1) + 1\<rparr>\<rparr>
                in Inr (insert_untyped (OContract c2) s, aff @ [i]))))"
| "apply_op X (BindContractBalance _ balance _ _ _) s aff = Inr (s, aff @ [balance])"
| "apply_op X (CreateToken creator schema symbol decimals initial_supply max_supply) s aff =
     (let t = token_of_op X creator schema symbol decimals initial_supply max_supply
      in Inr (insert_untyped (OToken t) s, aff @ [om_id (to_meta t), creator]))"
| "apply_op X (EmitContractEvent contract _ _ _ _) s aff = Inr (s, aff @ [contract])"
| "apply_op X (IBCTransfer source _ _ _ _ _ _) s aff = Inr (s, aff @ [source])"
| "apply_op X (ScheduleExecution contract _ _ _ _ _ _ _) s aff = Inr (s, aff @ [contract])"

section \<open>One plan\<close>

text \<open>Phase 1.\<close>

fun snapshot_versions ::
  "object_store \<Rightarrow> object_access list \<Rightarrow> (object_id \<times> object_version) list \<Rightarrow> gas_meter
     \<Rightarrow> gas_meter \<times> (runtime_error + (object_id \<times> object_version) list)" where
  "snapshot_versions s [] old m = (m, Inr old)"
| "snapshot_versions s (a # as) old m =
     (case store_get s (oa_object_id a) of
        None \<Rightarrow> (m, Inl (ObjectNotFound (oa_object_id a)))
      | Some x \<Rightarrow>
          (case consume (gc_object_read (gm_costs m)) m of
             (m', Inl e) \<Rightarrow> (m', Inl e)
           | (m', Inr _) \<Rightarrow>
               snapshot_versions s as (old @ [(oa_object_id a, om_version (obj_meta x))]) m'))"

text \<open>Phase 2.\<close>

fun validate_ops ::
  "extern \<Rightarrow> object_store \<Rightarrow> object_operation list \<Rightarrow> gas_meter \<Rightarrow> gas_meter \<times> (runtime_error + unit)" where
  "validate_ops X s [] m = (m, Inr ())"
| "validate_ops X s (op # ops) m =
     (case validate_op X op s of
        Inl e \<Rightarrow> (m, Inl e)
      | Inr _ \<Rightarrow>
          (case consume (op_gas_cost op (gm_costs m)) m of
             (m', Inl e) \<Rightarrow> (m', Inl e)
           | (m', Inr _) \<Rightarrow> validate_ops X s ops m'))"

text \<open>Phase 3: on an error the store keeps what the earlier operations did.\<close>

fun apply_ops ::
  "extern \<Rightarrow> object_operation list \<Rightarrow> object_store \<Rightarrow> object_id list \<Rightarrow> object_store \<times> (runtime_error + object_id list)" where
  "apply_ops X [] s aff = (s, Inr aff)"
| "apply_ops X (op # ops) s aff =
     (case apply_op X op s aff of
        Inl e \<Rightarrow> (s, Inl e)
      | Inr (s', aff') \<Rightarrow> apply_ops X ops s' aff')"

text \<open>Phase 4.\<close>

definition bump_meta :: "object_meta \<Rightarrow> object_meta" where
  "bump_meta m = m\<lparr>om_version := om_version m + 1\<rparr>"

definition bump_version :: "object_id \<Rightarrow> object_store \<Rightarrow> object_store" where
  "bump_version i s =
     (let s1 = if_found (store_get_mut i (obj_meta_mut bump_meta)) s;
          s2 = if_found (get_balance_by_id_mut i (\<lambda>b. b\<lparr>bo_meta := bump_meta (bo_meta b)\<rparr>)) s1;
          s3 = if_found (get_pool_by_id_mut i (\<lambda>p. p\<lparr>lp_meta := bump_meta (lp_meta p)\<rparr>)) s2
      in if_found (get_vault_mut i (\<lambda>v. v\<lparr>vo_meta := bump_meta (vo_meta v)\<rparr>)) s3)"

definition mutated_ids :: "object_id list \<Rightarrow> object_id list" where
  "mutated_ids affected = remdups_adj (sort affected)"

definition version_transition ::
  "object_store \<Rightarrow> object_id \<times> object_version \<Rightarrow> object_id \<times> object_version \<times> object_version" where
  "version_transition s e =
     (fst e, snd e, case store_get s (fst e) of None \<Rightarrow> snd e | Some x \<Rightarrow> om_version (obj_meta x))"

definition failure_receipt :: "execution_plan \<Rightarrow> runtime_error \<Rightarrow> gas_meter \<Rightarrow> execution_receipt" where
  "failure_receipt plan e m =
     \<lparr>rc_tx_id = ep_tx_id plan, rc_success = False, rc_affected_objects = [], rc_version_transitions = [],
      rc_error = Some e, rc_gas_used = gm_consumed m, rc_events = []\<rparr>"

definition apply_plan :: "extern \<Rightarrow> execution_plan \<Rightarrow> object_store \<Rightarrow> object_store \<times> execution_receipt" where
  "apply_plan X plan s =
     (let m0 = meter_new (ep_gas_limit plan) in
      case consume (gc_base_tx (gm_costs m0)) m0 of
        (m1, Inl e) \<Rightarrow> (s, failure_receipt plan e m1)
      | (m1, Inr _) \<Rightarrow>
      case snapshot_versions s (ep_object_access plan) [] m1 of
        (m2, Inl e) \<Rightarrow> (s, failure_receipt plan e m2)
      | (m2, Inr old_versions) \<Rightarrow>
      case validate_ops X s (ep_operations plan) m2 of
        (m3, Inl e) \<Rightarrow> (s, failure_receipt plan e m3)
      | (m3, Inr _) \<Rightarrow>
      case apply_ops X (ep_operations plan) s [] of
        (s', Inl e) \<Rightarrow> (s', failure_receipt plan e m3)
      | (s', Inr affected) \<Rightarrow>
          (let s'' = sync_typed_to_canonical (fold bump_version (mutated_ids affected) s') in
           (s'', \<lparr>rc_tx_id = ep_tx_id plan, rc_success = True, rc_affected_objects = mutated_ids affected,
                  rc_version_transitions = map (version_transition s'') old_versions, rc_error = None,
                  rc_gas_used = gm_consumed m3, rc_events = []\<rparr>)))"

section \<open>Side effects and groups\<close>

text \<open>One operation's artifacts; \<open>None\<close> is the panic of \<^verbatim>\<open>insert\<close>'s decode.\<close>

fun collect_effect ::
  "extern \<Rightarrow> u64 \<Rightarrow> object_operation \<Rightarrow> object_store \<times> execution_receipt \<times> plan_side_effects
     \<Rightarrow> (object_store \<times> execution_receipt \<times> plan_side_effects) option" where
  "collect_effect X epoch (EmitContractEvent contract schema event_type indexed dat) (s, r, se) =
     Some (s, r\<lparr>rc_events := rc_events r @
       [\<lparr>ce_contract_id = contract, ce_schema_id = schema, ce_event_type = event_type,
         ce_indexed = indexed, ce_data = dat, ce_epoch = epoch\<rparr>]\<rparr>, se)"
| "collect_effect X epoch (IBCTransfer source channel port denom amount receiver timeout) (s, r, se) =
     Some (s, r, se\<lparr>se_ibc_hooks := se_ibc_hooks se @
       [\<lparr>ih_source_contract = source, ih_channel_id = channel, ih_port_id = port,
         ih_action = IbcTransferAction denom amount receiver, ih_timeout_secs = timeout\<rparr>]\<rparr>)"
| "collect_effect X epoch (ScheduleExecution contract schema method params execute_at recurring interval max_rec)
       (s, r, se) =
     Some (s, r, se\<lparr>se_schedules := se_schedules se @
       [\<lparr>sx_schedule_id = schedule_compute_id X contract method execute_at, sx_contract_id = contract,
         sx_schema_id = schema, sx_method = method, sx_params = params, sx_execute_at_epoch = execute_at,
         sx_recurring = recurring, sx_interval_epochs = interval, sx_max_recurrences = max_rec,
         sx_executed_count = 0, sx_active = True\<rparr>]\<rparr>)"
| "collect_effect X epoch (BindContractBalance contract balance schema asset label) (s, r, se) =
     (case (if store_get s balance = None
            then store_insert X (OBalance (balance_new balance contract asset 0 epoch)) s else Some s) of
        None \<Rightarrow> None
      | Some s' \<Rightarrow>
          Some (s', r, se\<lparr>se_bindings := se_bindings se @
            [\<lparr>cb_contract_id = contract, cb_balance_id = balance, cb_withdrawal_schema_id = schema,
              cb_asset_id = asset, cb_label = label\<rparr>]\<rparr>))"
| "collect_effect X epoch op st = Some st"

fun collect_effects ::
  "extern \<Rightarrow> u64 \<Rightarrow> object_operation list \<Rightarrow> object_store \<times> execution_receipt \<times> plan_side_effects
     \<Rightarrow> (object_store \<times> execution_receipt \<times> plan_side_effects) option" where
  "collect_effects X epoch [] st = Some st"
| "collect_effects X epoch (op # ops) st =
     (case collect_effect X epoch op st of None \<Rightarrow> None | Some st' \<Rightarrow> collect_effects X epoch ops st')"

definition no_effects :: plan_side_effects where
  "no_effects = \<lparr>se_ibc_hooks = [], se_schedules = [], se_bindings = []\<rparr>"

definition apply_plan_with_effects ::
  "extern \<Rightarrow> execution_plan \<Rightarrow> object_store \<Rightarrow> u64 \<Rightarrow> (object_store \<times> execution_receipt \<times> plan_side_effects) option" where
  "apply_plan_with_effects X plan s epoch =
     (let (s', r) = apply_plan X plan s in
      if \<not> rc_success r then Some (s', r, no_effects)
      else collect_effects X epoch (ep_operations plan) (s', r, no_effects))"

record settlement_acc =
  ac_store :: object_store
  ac_receipts :: "execution_receipt list"
  ac_succeeded :: usize
  ac_failed :: usize
  ac_effects :: plan_side_effects
  ac_events :: "contract_event list"

definition settle_plan :: "extern \<Rightarrow> u64 \<Rightarrow> execution_plan \<Rightarrow> settlement_acc \<Rightarrow> settlement_acc option" where
  "settle_plan X epoch plan a =
     (case apply_plan_with_effects X plan (ac_store a) epoch of
        None \<Rightarrow> None
      | Some (s', r, se) \<Rightarrow>
          (let a1 = a\<lparr>ac_store := s', ac_receipts := ac_receipts a @ [r]\<rparr> in
           Some (if rc_success r then
                   a1\<lparr>ac_succeeded := ac_succeeded a + 1,
                      ac_effects := \<lparr>se_ibc_hooks = se_ibc_hooks (ac_effects a) @ se_ibc_hooks se,
                        se_schedules = se_schedules (ac_effects a) @ se_schedules se,
                        se_bindings = se_bindings (ac_effects a) @ se_bindings se\<rparr>,
                      ac_events := ac_events a @ rc_events r\<rparr>
                 else a1\<lparr>ac_failed := ac_failed a + 1\<rparr>)))"

fun settle_plans :: "extern \<Rightarrow> u64 \<Rightarrow> execution_plan list \<Rightarrow> settlement_acc \<Rightarrow> settlement_acc option" where
  "settle_plans X epoch [] a = Some a"
| "settle_plans X epoch (p # ps) a =
     (case settle_plan X epoch p a of None \<Rightarrow> None | Some a' \<Rightarrow> settle_plans X epoch ps a')"

definition acc_new :: "object_store \<Rightarrow> settlement_acc" where
  "acc_new s = \<lparr>ac_store = s, ac_receipts = [], ac_succeeded = 0, ac_failed = 0, ac_effects = no_effects,
     ac_events = []\<rparr>"

text \<open>
  \<^verbatim>\<open>execute_groups\<close>: groups in ascending index order, each group's plans in sequence (both branches
  of the source do the same).
\<close>

definition execute_groups ::
  "extern \<Rightarrow> execution_group list \<Rightarrow> object_store \<Rightarrow> u64 \<Rightarrow> (object_store \<times> settlement_result) option" where
  "execute_groups X groups s epoch =
     (let total = sum_list (map (\<lambda>g. length (eg_plans g)) groups);
          sorted_groups = sort_key eg_group_index groups
      in case settle_plans X epoch (concat (map eg_plans sorted_groups)) (acc_new s) of
           None \<Rightarrow> None
         | Some a \<Rightarrow>
             (let s' = sync_typed_to_canonical (ac_store a) in
              Some (s', \<lparr>sr_epoch = epoch, sr_total_plans = total, sr_succeeded = ac_succeeded a,
                sr_failed = ac_failed a, sr_receipts = ac_receipts a, sr_state_root = state_root X s',
                sr_ibc_hooks = se_ibc_hooks (ac_effects a), sr_schedules = se_schedules (ac_effects a),
                sr_balance_bindings = se_bindings (ac_effects a), sr_all_events = ac_events a\<rparr>)))"

section \<open>Lemmas: one operation\<close>

lemma store_insert_untyped: "obj_kind x = KNone \<Longrightarrow> store_insert X x s = Some (insert_untyped x s)"
  by (cases x) (simp_all add: store_insert_def insert_untyped_def)

lemma if_found_simps [simp]:
  "if_found (get_balance_by_id_mut i f) s = s\<lparr>st_balances := bt_adjust i f (st_balances s)\<rparr>"
  "if_found (get_pool_by_id_mut i g) s = s\<lparr>st_pools := bt_adjust i g (st_pools s)\<rparr>"
  "if_found (get_vault_mut i h) s = s\<lparr>st_vaults := bt_adjust i h (st_vaults s)\<rparr>"
  "if_found (store_get_mut i k) s = s\<lparr>st_objects := bt_adjust i k (st_objects s)\<rparr>"
  by (simp_all add: if_found_def get_balance_by_id_mut_def get_pool_by_id_mut_def get_vault_mut_def
      store_get_mut_def bt_adjust_fresh split: option.split)

text \<open>What an operation needs at the moment it is applied.\<close>

fun op_ready :: "extern \<Rightarrow> object_store \<Rightarrow> object_operation \<Rightarrow> bool" where
  "op_ready X s (DebitBalance i a) = (\<exists>b. bt_get (st_balances s) i = Some b \<and> a \<le> bo_amount b)"
| "op_ready X s (CreditBalance i a) = (bt_get (st_balances s) i \<noteq> None)"
| "op_ready X s (SwapPoolAmounts i da db) = (bt_get (st_pools s) i \<noteq> None)"
| "op_ready X s (LockBalance i a) = (bt_get (st_balances s) i \<noteq> None)"
| "op_ready X s (UnlockBalance i a) = (\<exists>b. bt_get (st_balances s) i = Some b \<and> a \<le> bo_locked_amount b)"
| "op_ready X s (TransferOwnership i w) = (bt_get (st_objects s) i \<noteq> None)"
| "op_ready X s (ContractStateTransition i c p) = (\<exists>k. bt_get (st_objects s) i = Some (OContract k))"
| "op_ready X s _ = True"

lemma apply_op_ready:
  "op_ready X s op \<Longrightarrow> extern_ok X \<Longrightarrow> \<exists>s' aff'. apply_op X op s aff = Inr (s', aff')"
  by (cases op) (auto simp: get_balance_by_id_def get_balance_by_id_mut_def get_pool_by_id_mut_def store_get_def
      store_get_mut_def checked_sub_def extern_ok_def Let_def split: option.splits)

lemma validated_op_ready:
  assumes "validate_op X op s = Inr ()" and "extern_ok X"
  shows "op_ready X s op"
proof (cases op)
  case (ContractStateTransition i c p)
  then obtain x where x: "bt_get (st_objects s) i = Some x" "\<exists>sid. obj_object_type x = TContract sid"
    using assms(1) by (auto simp: store_get_def contract_violation_def split: option.splits object_type.splits)
  then obtain k where "x = OContract k" by (cases x) auto
  with x show ?thesis by (auto simp: ContractStateTransition)
next
  case (DebitBalance i a)
  then obtain b where "bt_get (st_balances s) i = Some b" "a \<le> bo_available b"
    using assms(1) by (auto simp: get_balance_by_id_def not_less split: option.splits if_splits)
  moreover have "bo_available b \<le> bo_amount b" for b
    by (simp add: word_le_nat_alt machine_simps)
  ultimately show ?thesis using order_trans by (fastforce simp: DebitBalance)
qed (use assms(1) in \<open>auto simp: get_balance_by_id_def get_pool_by_id_def store_get_def violation_def not_less
      split: option.splits if_splits\<close>)

text \<open>
  Two operations of which the first can take away what the second was validated for: two debits or
  two unlocks of one balance, or a token created over the contract of a state transition.
\<close>

definition op_spoils :: "extern \<Rightarrow> object_operation \<Rightarrow> object_operation \<Rightarrow> bool" where
  "op_spoils X first second =
     (case first of
        DebitBalance i _ \<Rightarrow> (case second of DebitBalance j _ \<Rightarrow> i = j | _ \<Rightarrow> False)
      | UnlockBalance i _ \<Rightarrow> (case second of UnlockBalance j _ \<Rightarrow> i = j | _ \<Rightarrow> False)
      | CreateToken c sch sy d _ _ \<Rightarrow>
          (case second of ContractStateTransition j _ _ \<Rightarrow> compute_asset_id X c sch sy d = j | _ \<Rightarrow> False)
      | _ \<Rightarrow> False)"

definition plan_unspoiled :: "extern \<Rightarrow> object_operation list \<Rightarrow> bool" where
  "plan_unspoiled X ops \<longleftrightarrow> sorted_wrt (\<lambda>a b. \<not> op_spoils X a b) ops"

lemma apply_op_keeps_balance:
  assumes "apply_op X op s aff = Inr (s', aff')" and "bt_get (st_balances s) j = Some b"
  shows "\<exists>b'. bt_get (st_balances s') j = Some b' \<and>
    ((\<forall>a. op \<noteq> DebitBalance j a) \<longrightarrow> bo_amount b \<le> bo_amount b') \<and>
    ((\<forall>a. op \<noteq> UnlockBalance j a) \<longrightarrow> bo_locked_amount b \<le> bo_locked_amount b')"
  using assms
  by (cases op) (auto simp: get_balance_by_id_def get_balance_by_id_mut_def get_pool_by_id_mut_def store_get_mut_def
      map_simps insert_untyped_def sat_add_ge Let_def split: option.splits)

lemma apply_op_keeps_pool:
  assumes "apply_op X op s aff = Inr (s', aff')" and "bt_get (st_pools s) j \<noteq> None"
  shows "bt_get (st_pools s') j \<noteq> None"
  using assms
  by (cases op) (auto simp: get_balance_by_id_mut_def get_pool_by_id_mut_def store_get_mut_def
      map_simps insert_untyped_def Let_def split: option.splits)

lemma apply_op_objects:
  assumes "apply_op X op s aff = Inr (s', aff')"
  shows "st_objects s' = st_objects s \<or>
    (\<exists>i w. op = TransferOwnership i w \<and> st_objects s' = bt_adjust i (obj_meta_mut (set_owner w)) (st_objects s)) \<or>
    (\<exists>i c p x k. op = ContractStateTransition i c p \<and> bt_get (st_objects s) i = Some x \<and>
       x_as_contract X x = Some k \<and>
       st_objects s' = bt_put (om_id (co_meta k)) (OContract ((contract_set_state X p k)
         \<lparr>co_meta := (co_meta k)\<lparr>om_updated_at := om_updated_at (co_meta k) + 1\<rparr>\<rparr>)) (st_objects s)) \<or>
    (\<exists>c sch sy d n mx. op = CreateToken c sch sy d n mx \<and>
       st_objects s' = bt_put (compute_asset_id X c sch sy d) (OToken (token_of_op X c sch sy d n mx)) (st_objects s))"
  using assms
  by (cases op) (auto simp: get_balance_by_id_mut_def get_pool_by_id_mut_def store_get_mut_def store_get_def
      insert_untyped_def token_of_op_def token_new_def object_meta_new_def contract_set_state_def Let_def
      split: option.splits)

lemma apply_op_keeps_contract:
  assumes "apply_op X op s aff = Inr (s', aff')" and "bt_get (st_objects s) j = Some (OContract k)"
    and "\<And>c sch sy d n mx. op = CreateToken c sch sy d n mx \<Longrightarrow> compute_asset_id X c sch sy d \<noteq> j"
  shows "\<exists>k'. bt_get (st_objects s') j = Some (OContract k')"
  using apply_op_objects [OF assms(1)] assms(2,3) by (auto simp: map_simps)

lemma apply_op_keeps_object:
  assumes "apply_op X op s aff = Inr (s', aff')" and "bt_get (st_objects s) j \<noteq> None"
  shows "bt_get (st_objects s') j \<noteq> None"
  using apply_op_objects [OF assms(1)] assms(2) by (auto simp: map_simps)

lemma apply_op_keeps_ready:
  assumes "apply_op X op s aff = Inr (s', aff')" and "op_ready X s op'" and "\<not> op_spoils X op op'"
  shows "op_ready X s' op'"
proof (cases op')
  case (DebitBalance i a)
  then obtain b where b: "bt_get (st_balances s) i = Some b" "a \<le> bo_amount b" using assms(2) by auto
  have "\<forall>a. op \<noteq> DebitBalance i a" using assms(3) by (auto simp: DebitBalance op_spoils_def)
  with apply_op_keeps_balance [OF assms(1) b(1)] b(2) show ?thesis
    by (auto simp: DebitBalance intro: order_trans)
next
  case (UnlockBalance i a)
  then obtain b where b: "bt_get (st_balances s) i = Some b" "a \<le> bo_locked_amount b" using assms(2) by auto
  have "\<forall>a. op \<noteq> UnlockBalance i a" using assms(3) by (auto simp: UnlockBalance op_spoils_def)
  with apply_op_keeps_balance [OF assms(1) b(1)] b(2) show ?thesis
    by (auto simp: UnlockBalance intro: order_trans)
next
  case (ContractStateTransition i c p)
  then obtain k where k: "bt_get (st_objects s) i = Some (OContract k)" using assms(2) by auto
  have "\<And>c sch sy d n mx. op = CreateToken c sch sy d n mx \<Longrightarrow> compute_asset_id X c sch sy d \<noteq> i"
    using assms(3) by (auto simp: ContractStateTransition op_spoils_def)
  with apply_op_keeps_contract [OF assms(1) k] show ?thesis by (simp add: ContractStateTransition)
next
  case (CreditBalance i a)
  then show ?thesis using assms(2) apply_op_keeps_balance [OF assms(1), of i] by fastforce
next
  case (LockBalance i a)
  then show ?thesis using assms(2) apply_op_keeps_balance [OF assms(1), of i] by fastforce
qed (use assms(2) apply_op_keeps_pool [OF assms(1)] apply_op_keeps_object [OF assms(1)] in auto)

lemma apply_ops_total:
  "\<forall>op \<in> set ops. op_ready X s op \<Longrightarrow> plan_unspoiled X ops \<Longrightarrow> extern_ok X \<Longrightarrow>
     \<exists>s' aff'. apply_ops X ops s aff = (s', Inr aff')"
proof (induction ops arbitrary: s aff)
  case (Cons op ops)
  obtain s1 aff1 where a: "apply_op X op s aff = Inr (s1, aff1)"
    using apply_op_ready Cons.prems by fastforce
  have "\<forall>op' \<in> set ops. op_ready X s1 op'"
    using Cons.prems(1,2) apply_op_keeps_ready [OF a] by (auto simp: plan_unspoiled_def)
  moreover have "plan_unspoiled X ops" using Cons.prems(2) by (simp add: plan_unspoiled_def)
  ultimately show ?case using Cons.IH [of s1 aff1] Cons.prems(3) by (simp add: a)
qed simp

lemma validate_ops_ok:
  "validate_ops X s ops m = (m', Inr u) \<Longrightarrow> \<forall>op \<in> set ops. validate_op X op s = Inr ()"
  by (induction X s ops m rule: validate_ops.induct) (auto split: sum.splits prod.splits)

section \<open>Lemmas: gas\<close>

definition meter_at :: "gas_meter \<Rightarrow> u64 \<Rightarrow> bool" where
  "meter_at m limit \<longleftrightarrow> gm_limit m = limit \<and> gm_costs m = default_costs \<and> gm_multiplier_bps m = 10000"

lemma consume_meter:
  assumes "consume a m = (m', Inr u)" and "meter_at m limit"
  shows "meter_at m' limit \<and> unat (gm_consumed m') = unat (gm_consumed m) + unat a \<and>
    unat (gm_consumed m') \<le> unat limit"
proof -
  have m': "m' = fst (consume a m)" "snd (consume a m) = Inr u" using assms(1) by simp_all
  show ?thesis
    using assms(2) consume_frame [of a m] consume_ok_consumed [OF m'(2)] m'(2) [unfolded consume_ok_iff]
    by (simp add: m'(1) meter_at_def)
qed

lemma snapshot_gas:
  assumes "snapshot_versions s as old m = (m', Inr l)" and "meter_at m limit"
    and "unat (gm_consumed m) \<le> unat limit"
  shows "meter_at m' limit \<and> unat (gm_consumed m') = unat (gm_consumed m) + 100 * length as \<and>
    unat (gm_consumed m') \<le> unat limit"
  using assms
proof (induction s as old m rule: snapshot_versions.induct)
  case (2 s a as old m)
  obtain x where x: "store_get s (oa_object_id a) = Some x"
    using 2(2) by (simp split: option.splits)
  obtain m1 u where c: "consume (gc_object_read (gm_costs m)) m = (m1, Inr u)"
    using 2(2) by (simp add: x split: prod.splits sum.splits)
  have read: "unat (gc_object_read (gm_costs m)) = 100"
    using 2(3) by (simp add: meter_at_def default_costs_def)
  note m1 = consume_meter [OF c 2(3)]
  have "snapshot_versions s as (old @ [(oa_object_id a, om_version (obj_meta x))]) m1 = (m', Inr l)"
    using 2(2) by (simp add: x c)
  from 2(1) [OF x c [symmetric] refl this] m1 read show ?case by simp
qed simp

definition ops_gas :: "object_operation list \<Rightarrow> nat" where
  "ops_gas ops = sum_list (map (\<lambda>op. unat (op_gas_cost op default_costs)) ops)"

lemma validate_gas:
  assumes "validate_ops X s ops m = (m', Inr u)" and "meter_at m limit"
    and "unat (gm_consumed m) \<le> unat limit"
  shows "meter_at m' limit \<and> unat (gm_consumed m') = unat (gm_consumed m) + ops_gas ops \<and>
    unat (gm_consumed m') \<le> unat limit"
  using assms
proof (induction X s ops m rule: validate_ops.induct)
  case (2 X s op ops m)
  obtain v where v: "validate_op X op s = Inr v" using 2(2) by (simp split: sum.splits)
  obtain m1 w where c: "consume (op_gas_cost op (gm_costs m)) m = (m1, Inr w)"
    using 2(2) by (simp add: v split: prod.splits sum.splits)
  have cost: "gm_costs m = default_costs" using 2(3) by (simp add: meter_at_def)
  note m1 = consume_meter [OF c 2(3)]
  have "validate_ops X s ops m1 = (m', Inr u)" using 2(2) by (simp add: v c)
  from 2(1) [OF v c [symmetric] refl this] m1 show ?case by (simp add: ops_gas_def cost)
qed (simp add: ops_gas_def)

lemma op_costs_agree: "op_gas_cost op c = estimate_op_cost c op"
  by (cases op) simp_all

lemma estimate_gas_exact:
  assumes "1000 + ops_gas ops < 2 ^ 64"
  shows "unat (estimate_gas ops default_costs) = 1000 + ops_gas ops"
proof -
  have "unat t + ops_gas ops < 2 ^ 64 \<Longrightarrow>
      unat (fold (\<lambda>op total. sat_add total (estimate_op_cost default_costs op)) ops t) = unat t + ops_gas ops" for t
    by (induction ops arbitrary: t) (auto simp: ops_gas_def machine_simps op_costs_agree)
  from this [of "gc_base_tx default_costs"] show ?thesis
    using assms by (simp add: estimate_gas_def default_costs_def)
qed

section \<open>Lemmas: the phases of a plan\<close>

lemma apply_plan_success:
  assumes "apply_plan X plan s = (s', r)" and "rc_success r"
  obtains m1 m2 m3 old u1 u3 s1 affected where
    "consume 1000 (meter_new (ep_gas_limit plan)) = (m1, Inr u1)"
    "snapshot_versions s (ep_object_access plan) [] m1 = (m2, Inr old)"
    "validate_ops X s (ep_operations plan) m2 = (m3, Inr u3)"
    "apply_ops X (ep_operations plan) s [] = (s1, Inr affected)"
    "s' = sync_typed_to_canonical (fold bump_version (mutated_ids affected) s1)"
    "r = \<lparr>rc_tx_id = ep_tx_id plan, rc_success = True, rc_affected_objects = mutated_ids affected,
       rc_version_transitions = map (version_transition s') old, rc_error = None,
       rc_gas_used = gm_consumed m3, rc_events = []\<rparr>"
  using assms
  by (auto simp: apply_plan_def Let_def failure_receipt_def meter_new_def default_costs_def
      split: prod.splits sum.splits)

lemma apply_plan_failure:
  assumes "apply_plan X plan s = (s', r)" and "\<not> rc_success r"
  shows "s' = s \<or> (\<exists>m2 m3 u e. validate_ops X s (ep_operations plan) m2 = (m3, Inr u) \<and>
    apply_ops X (ep_operations plan) s [] = (s', Inl e))"
  using assms
  by (auto simp: apply_plan_def Let_def split: prod.splits sum.splits)

lemma rc_tx_id_apply_plan: "rc_tx_id (snd (apply_plan X plan s)) = ep_tx_id plan"
  by (auto simp: apply_plan_def Let_def failure_receipt_def split: prod.splits sum.splits)

section \<open>Lemmas: the invariant\<close>

definition kind_at :: "object_store \<Rightarrow> object_id \<Rightarrow> overlay_kind" where
  "kind_at s i = (case store_get s i of None \<Rightarrow> KNone | Some x \<Rightarrow> obj_kind x)"

text \<open>The ids under which the operations create tokens.\<close>

fun created_id :: "extern \<Rightarrow> object_operation \<Rightarrow> object_id set" where
  "created_id X (CreateToken c sch sy d _ _) = {compute_asset_id X c sch sy d}"
| "created_id X _ = {}"

definition created_ids :: "extern \<Rightarrow> object_operation list \<Rightarrow> object_id set" where
  "created_ids X ops = \<Union> (created_id X ` set ops)"

definition tokens_untyped :: "extern \<Rightarrow> object_operation list \<Rightarrow> object_store \<Rightarrow> bool" where
  "tokens_untyped X ops s \<longleftrightarrow> (\<forall>i \<in> created_ids X ops. kind_at s i = KNone)"

lemma created_ids_simps [simp]:
  "created_ids X [] = {}" "created_ids X (op # ops) = created_id X op \<union> created_ids X ops"
  by (simp_all add: created_ids_def)

lemma store_ok_adjust:
  assumes "store_ok s"
  shows "(\<And>b. om_id (bo_meta (f b)) = om_id (bo_meta b)) \<Longrightarrow>
      store_ok (s\<lparr>st_balances := bt_adjust i f (st_balances s)\<rparr>)"
    and "(\<And>p. om_id (lp_meta (g p)) = om_id (lp_meta p)) \<Longrightarrow>
      store_ok (s\<lparr>st_pools := bt_adjust i g (st_pools s)\<rparr>)"
    and "(\<And>v. om_id (vo_meta (h v)) = om_id (vo_meta v)) \<Longrightarrow>
      store_ok (s\<lparr>st_vaults := bt_adjust i h (st_vaults s)\<rparr>)"
    and "(\<And>m. om_id (k m) = om_id m) \<Longrightarrow>
      store_ok (s\<lparr>st_objects := bt_adjust i (obj_meta_mut k) (st_objects s)\<rparr>)"
  using assms by (auto simp: store_ok_def overlay_ok_adjust overlay_ok_adjust_objects bt_adjust_ok map_simps)

lemma store_ok_adjust_all:
  assumes "store_ok s" and "\<And>b. om_id (bo_meta (f b)) = om_id (bo_meta b)"
    and "\<And>p. om_id (lp_meta (g p)) = om_id (lp_meta p)" and "\<And>v. om_id (vo_meta (h v)) = om_id (vo_meta v)"
    and "\<And>m. om_id (k m) = om_id m"
  shows "store_ok (s\<lparr>st_objects := bt_adjust i (obj_meta_mut k) (st_objects s),
    st_balances := bt_adjust i f (st_balances s), st_pools := bt_adjust i g (st_pools s),
    st_vaults := bt_adjust i h (st_vaults s)\<rparr>)"
proof -
  let ?s1 = "s\<lparr>st_objects := bt_adjust i (obj_meta_mut k) (st_objects s)\<rparr>"
  let ?s2 = "?s1\<lparr>st_balances := bt_adjust i f (st_balances ?s1)\<rparr>"
  let ?s3 = "?s2\<lparr>st_pools := bt_adjust i g (st_pools ?s2)\<rparr>"
  have "store_ok ?s1" using assms by (intro store_ok_adjust(4))
  then have "store_ok ?s2" using assms by (intro store_ok_adjust(1))
  then have "store_ok ?s3" using assms by (intro store_ok_adjust(2))
  then have "store_ok (?s3\<lparr>st_vaults := bt_adjust i h (st_vaults ?s3)\<rparr>)"
    using assms by (intro store_ok_adjust(3))
  then show ?thesis by simp
qed

lemma insert_untyped_ok:
  assumes "store_ok s" and "obj_kind x = KNone" and "kind_at s (om_id (obj_meta x)) = KNone"
  shows "store_ok (insert_untyped x s)"
proof -
  have "insert_compatible s x"
    using assms(3) by (auto simp: insert_compatible_def kind_at_def split: option.splits)
  then show ?thesis
    using store_insert_preserves_ok [OF assms(1) extern_std_ok] store_insert_untyped [OF assms(2)] by blast
qed

lemma contract_at_id:
  assumes "store_ok s" and "extern_ok X" and "bt_get (st_objects s) i = Some (OContract k)"
    and "x_as_contract X (OContract k) = Some c"
  shows "c = k \<and> om_id (co_meta k) = i"
  using assms store_ok_ids(1) [OF assms(1,3)] by (simp add: extern_ok_def)

lemma apply_op_store_ok:
  assumes "apply_op X op s aff = Inr (s', aff')" and "store_ok s" and "extern_ok X"
    and "op_ready X s op" and "tokens_untyped X [op] s"
  shows "store_ok s'"
proof (cases op)
  case (ContractStateTransition i c p)
  then obtain k where k: "bt_get (st_objects s) i = Some (OContract k)" using assms(4) by auto
  have "x_as_contract X (OContract k) = Some k" using assms(3) by (simp add: extern_ok_def)
  moreover have "om_id (co_meta k) = i" using store_ok_ids(1) [OF assms(2) k] by simp
  ultimately show ?thesis
    using assms(1,2) k
    by (auto simp: ContractStateTransition store_get_def Let_def contract_set_state_def kind_at_def
        intro!: insert_untyped_ok)
next
  case (CreateToken c sch sy d n mx)
  then have "kind_at s (compute_asset_id X c sch sy d) = KNone"
    using assms(5) by (simp add: tokens_untyped_def)
  then show ?thesis
    using assms(1,2) by (auto simp: CreateToken token_of_op_def token_new_def object_meta_new_def Let_def
        intro!: insert_untyped_ok)
qed (use assms(1,2) in \<open>auto simp: get_balance_by_id_mut_def get_pool_by_id_mut_def store_get_mut_def set_owner_def
      Let_def split: option.splits intro!: store_ok_adjust store_ok_adjust_all\<close>)

text \<open>The version an id has in the canonical map, and in the overlays.\<close>

definition version_at :: "object_store \<Rightarrow> object_id \<Rightarrow> object_version option" where
  "version_at s i = map_option (\<lambda>x. om_version (obj_meta x)) (bt_get (st_objects s) i)"

definition overlay_versions ::
  "object_store \<Rightarrow> object_id \<Rightarrow> object_version option \<times> object_version option \<times> object_version option" where
  "overlay_versions s i =
     (map_option (\<lambda>b. om_version (bo_meta b)) (bt_get (st_balances s) i),
      map_option (\<lambda>p. om_version (lp_meta p)) (bt_get (st_pools s) i),
      map_option (\<lambda>v. om_version (vo_meta v)) (bt_get (st_vaults s) i))"

definition versions_agree :: "object_store \<Rightarrow> bool" where
  "versions_agree s \<longleftrightarrow>
     (\<forall>i. (case overlay_versions s i of (b, p, v) \<Rightarrow>
        (b \<noteq> None \<longrightarrow> b = version_at s i) \<and> (p \<noteq> None \<longrightarrow> p = version_at s i) \<and>
        (v \<noteq> None \<longrightarrow> v = version_at s i)))"

lemma apply_op_overlay_versions:
  assumes "apply_op X op s aff = Inr (s', aff')"
  shows "overlay_versions s' j = overlay_versions s j"
  using assms
  by (cases op) (auto simp: overlay_versions_def get_balance_by_id_mut_def get_pool_by_id_mut_def
      store_get_mut_def map_simps insert_untyped_def set_owner_def Let_def comp_def
      option.map_comp split: option.splits)

lemma apply_op_kinds_versions:
  assumes "apply_op X op s aff = Inr (s', aff')" and "store_ok s" and "extern_ok X"
    and "op_ready X s op"
  shows "tokens_untyped X [op] s \<Longrightarrow> kind_at s' j = kind_at s j"
    and "j \<notin> created_ids X [op] \<Longrightarrow> version_at s' j = version_at s j"
proof -
  have contract: "om_id (co_meta k) = i \<and> x_as_contract X (OContract k) = Some k"
    if "bt_get (st_objects s) i = Some (OContract k)" for i k
    using that assms(2,3) store_ok_ids(1) [OF assms(2) that] by (simp add: extern_ok_def)
  note cases = apply_op_objects [OF assms(1)]
  show "tokens_untyped X [op] s \<Longrightarrow> kind_at s' j = kind_at s j"
    using cases assms(4) contract
    by (auto simp: kind_at_def store_get_def map_simps tokens_untyped_def
        split: option.splits if_splits)
  show "j \<notin> created_ids X [op] \<Longrightarrow> version_at s' j = version_at s j"
    using cases assms(4) contract
    by (auto simp: version_at_def map_simps set_owner_def option.map_comp comp_def
        contract_set_state_def)
qed

section \<open>Lemmas: a whole plan\<close>

lemma tokens_untyped_Cons:
  "tokens_untyped X (op # ops) s \<longleftrightarrow> tokens_untyped X [op] s \<and> tokens_untyped X ops s"
  by (auto simp: tokens_untyped_def)

lemma apply_ops_invariants:
  assumes "apply_ops X ops s aff = (s', res)" and "store_ok s" and "extern_ok X"
    and "\<forall>op \<in> set ops. op_ready X s op" and "plan_unspoiled X ops" and "tokens_untyped X ops s"
  shows "store_ok s' \<and> (\<forall>j. overlay_versions s' j = overlay_versions s j) \<and> (\<forall>j. kind_at s' j = kind_at s j) \<and>
    (\<forall>j. j \<notin> created_ids X ops \<longrightarrow> version_at s' j = version_at s j) \<and>
    (\<forall>j. bt_get (st_objects s) j \<noteq> None \<longrightarrow> bt_get (st_objects s') j \<noteq> None)"
  using assms
proof (induction ops arbitrary: s aff)
  case (Cons op ops)
  obtain s1 aff1 where a: "apply_op X op s aff = Inr (s1, aff1)"
    using apply_op_ready Cons.prems by fastforce
  have ready: "op_ready X s op" using Cons.prems(4) by simp
  have tok: "tokens_untyped X [op] s" "tokens_untyped X ops s"
    using Cons.prems(6) tokens_untyped_Cons by blast+
  have kinds: "kind_at s1 j = kind_at s j" for j
    using apply_op_kinds_versions(1) [OF a Cons.prems(2,3) ready tok(1)] .
  have ok: "store_ok s1" using apply_op_store_ok [OF a Cons.prems(2,3) ready tok(1)] .
  have "\<forall>op' \<in> set ops. op_ready X s1 op'"
    using Cons.prems(4,5) apply_op_keeps_ready [OF a] by (auto simp: plan_unspoiled_def)
  moreover have "plan_unspoiled X ops" using Cons.prems(5) by (simp add: plan_unspoiled_def)
  moreover have "tokens_untyped X ops s1" using tok(2) by (simp add: tokens_untyped_def kinds)
  moreover have "apply_ops X ops s1 aff1 = (s', res)" using Cons.prems(1) by (simp add: a)
  ultimately have IH: "store_ok s' \<and> (\<forall>j. overlay_versions s' j = overlay_versions s1 j) \<and>
      (\<forall>j. kind_at s' j = kind_at s1 j) \<and> (\<forall>j. j \<notin> created_ids X ops \<longrightarrow> version_at s' j = version_at s1 j) \<and>
      (\<forall>j. bt_get (st_objects s1) j \<noteq> None \<longrightarrow> bt_get (st_objects s') j \<noteq> None)"
    using Cons.IH ok Cons.prems(3) by blast
  have "version_at s1 j = version_at s j" if "j \<notin> created_ids X [op]" for j
    using apply_op_kinds_versions(2) [OF a Cons.prems(2,3) ready that] .
  then show ?case
    using IH kinds apply_op_overlay_versions [OF a] apply_op_keeps_object [OF a] by simp
qed simp

lemma bump_version_eq:
  "bump_version i s = s\<lparr>st_objects := bt_adjust i (obj_meta_mut bump_meta) (st_objects s),
     st_balances := bt_adjust i (\<lambda>b. b\<lparr>bo_meta := bump_meta (bo_meta b)\<rparr>) (st_balances s),
     st_pools := bt_adjust i (\<lambda>p. p\<lparr>lp_meta := bump_meta (lp_meta p)\<rparr>) (st_pools s),
     st_vaults := bt_adjust i (\<lambda>v. v\<lparr>vo_meta := bump_meta (vo_meta v)\<rparr>) (st_vaults s)\<rparr>"
  by (simp add: bump_version_def)

lemma bump_version_ok: "store_ok s \<Longrightarrow> store_ok (bump_version i s)"
  unfolding bump_version_eq by (rule store_ok_adjust_all) (simp_all add: bump_meta_def)

lemma version_at_bump:
  "version_at (bump_version i s) j = map_option (\<lambda>v. if j = i then v + 1 else v) (version_at s j)"
  by (auto simp: version_at_def bump_version_eq map_simps bump_meta_def option.map_comp comp_def)

lemma overlay_versions_bump:
  "overlay_versions (bump_version i s) j =
     map_prod (map_option (\<lambda>v. if j = i then v + 1 else v))
       (map_prod (map_option (\<lambda>v. if j = i then v + 1 else v)) (map_option (\<lambda>v. if j = i then v + 1 else v)))
       (overlay_versions s j)"
  by (auto simp: overlay_versions_def bump_version_eq map_simps bump_meta_def option.map_comp comp_def)

lemma kind_at_bump: "kind_at (bump_version i s) j = kind_at s j"
  by (auto simp: kind_at_def store_get_def bump_version_eq map_simps split: option.splits)

lemma object_at_bump: "bt_get (st_objects (bump_version i s)) j = None \<longleftrightarrow> bt_get (st_objects s) j = None"
  by (simp add: bump_version_eq map_simps)

lemma versions_agree_bump: "versions_agree s \<Longrightarrow> versions_agree (bump_version i s)"
  unfolding versions_agree_def overlay_versions_bump version_at_bump
  by (simp add: case_prod_beta)

lemma fold_bump:
  "distinct ids \<Longrightarrow> store_ok s \<Longrightarrow> versions_agree s \<Longrightarrow>
     store_ok (fold bump_version ids s) \<and> versions_agree (fold bump_version ids s) \<and>
     (\<forall>j. kind_at (fold bump_version ids s) j = kind_at s j) \<and>
     (\<forall>j. bt_get (st_objects (fold bump_version ids s)) j = None \<longleftrightarrow> bt_get (st_objects s) j = None) \<and>
     (\<forall>j. version_at (fold bump_version ids s) j =
        map_option (\<lambda>v. if j \<in> set ids then v + 1 else v) (version_at s j))"
proof (induction ids arbitrary: s)
  case Nil
  then show ?case by (simp add: option.map_ident)
next
  case (Cons i ids)
  then have "store_ok (bump_version i s)" "versions_agree (bump_version i s)"
    by (simp_all add: bump_version_ok versions_agree_bump)
  with Cons have IH: "store_ok (fold bump_version ids (bump_version i s)) \<and>
      versions_agree (fold bump_version ids (bump_version i s)) \<and>
      (\<forall>j. kind_at (fold bump_version ids (bump_version i s)) j = kind_at (bump_version i s) j) \<and>
      (\<forall>j. bt_get (st_objects (fold bump_version ids (bump_version i s))) j = None \<longleftrightarrow>
         bt_get (st_objects (bump_version i s)) j = None) \<and>
      (\<forall>j. version_at (fold bump_version ids (bump_version i s)) j =
         map_option (\<lambda>v. if j \<in> set ids then v + 1 else v) (version_at (bump_version i s) j))"
    by simp
  have "map_option (\<lambda>v. if j \<in> set ids then v + 1 else v) (version_at (bump_version i s) j) =
      map_option (\<lambda>v. if j \<in> set (i # ids) then v + 1 else v) (version_at s j)" for j
    using Cons.prems(1) by (auto simp: version_at_bump option.map_comp comp_def intro!: option.map_cong)
  with IH show ?case by (simp add: kind_at_bump object_at_bump)
qed

lemma sync_version_at:
  assumes "store_ok s" and "versions_agree s"
  shows "version_at (sync_typed_to_canonical s) i = version_at s i"
  using sync_get [OF assms(1), of i] assms(2)
  by (auto simp: version_at_def versions_agree_def overlay_versions_def store_get_def get_balance_by_id_def
      get_pool_by_id_def get_vault_def split: option.splits)

lemma sync_kind_at: "store_ok s \<Longrightarrow> kind_at (sync_typed_to_canonical s) i = kind_at s i"
  using sync_kinds [of s i]
  by (auto simp: kind_at_def store_get_def split: option.splits)

lemma synced_versions_agree: "synced s \<Longrightarrow> versions_agree s"
  by (auto simp: synced_def versions_agree_def overlay_versions_def version_at_def)

lemma set_mutated_ids [simp]: "set (mutated_ids aff) = set aff"
  by (simp add: mutated_ids_def)

lemma distinct_remdups_adj_sorted: "sorted xs \<Longrightarrow> distinct (remdups_adj xs)" for xs :: "'a::linorder list"
  by (induction xs rule: remdups_adj.induct) (auto dest: order_antisym)

lemma distinct_mutated_ids: "distinct (mutated_ids aff)"
  by (simp add: mutated_ids_def distinct_remdups_adj_sorted)

text \<open>A plan the invariants hold for: no operation spoils a later one, no token lands on a typed id.\<close>

definition plan_safe :: "extern \<Rightarrow> object_store \<Rightarrow> execution_plan \<Rightarrow> bool" where
  "plan_safe X s p \<longleftrightarrow> plan_unspoiled X (ep_operations p) \<and> tokens_untyped X (ep_operations p) s"

lemma apply_plan_atomic:
  assumes "apply_plan X plan s = (s', r)" and "\<not> rc_success r" and "extern_ok X"
    and "plan_unspoiled X (ep_operations plan)"
  shows "s' = s"
proof (rule ccontr)
  assume "s' \<noteq> s"
  then obtain m2 m3 u e where v: "validate_ops X s (ep_operations plan) m2 = (m3, Inr u)"
    and a: "apply_ops X (ep_operations plan) s [] = (s', Inl e)"
    using apply_plan_failure [OF assms(1,2)] by blast
  have "\<forall>op \<in> set (ep_operations plan). op_ready X s op"
    using validate_ops_ok [OF v] validated_op_ready assms(3) by blast
  then obtain s2 aff where "apply_ops X (ep_operations plan) s [] = (s2, Inr aff)"
    using apply_ops_total [OF _ assms(4,3)] by blast
  with a show False by simp
qed

lemma apply_plan_invariants:
  assumes "apply_plan X plan s = (s', r)" and "rc_success r" and "store_ok s" and "versions_agree s"
    and "extern_ok X" and "plan_safe X s plan"
  shows "store_ok s' \<and> synced s' \<and> (\<forall>j. kind_at s' j = kind_at s j) \<and>
    (\<forall>j. store_get s j \<noteq> None \<longrightarrow> store_get s' j \<noteq> None) \<and>
    (\<forall>j. j \<notin> created_ids X (ep_operations plan) \<longrightarrow>
       version_at s' j = map_option (\<lambda>v. if j \<in> set (rc_affected_objects r) then v + 1 else v) (version_at s j))"
proof -
  obtain m2 m3 u3 s1 affected where v: "validate_ops X s (ep_operations plan) m2 = (m3, Inr u3)"
    and a: "apply_ops X (ep_operations plan) s [] = (s1, Inr affected)"
    and s': "s' = sync_typed_to_canonical (fold bump_version (mutated_ids affected) s1)"
    and r: "rc_affected_objects r = mutated_ids affected"
    using apply_plan_success [OF assms(1,2)] by (metis execution_receipt.select_convs(3))
  have "\<forall>op \<in> set (ep_operations plan). op_ready X s op"
    using validate_ops_ok [OF v] validated_op_ready assms(5) by blast
  then have i1: "store_ok s1 \<and> (\<forall>j. overlay_versions s1 j = overlay_versions s j) \<and>
      (\<forall>j. kind_at s1 j = kind_at s j) \<and>
      (\<forall>j. j \<notin> created_ids X (ep_operations plan) \<longrightarrow> version_at s1 j = version_at s j) \<and>
      (\<forall>j. bt_get (st_objects s) j \<noteq> None \<longrightarrow> bt_get (st_objects s1) j \<noteq> None)"
    using apply_ops_invariants [OF a assms(3,5)] assms(6) unfolding plan_safe_def by blast
  have typed: "overlay_versions s j = (None, None, None)" if "kind_at s j = KNone" for j
    using store_ok_kind [OF assms(3), of j] that
    by (auto simp: overlay_versions_def kind_at_def store_get_def split: option.splits)
  have "versions_agree s1"
    unfolding versions_agree_def
  proof
    fix j
    show "case overlay_versions s1 j of (b, p, v) \<Rightarrow> (b \<noteq> None \<longrightarrow> b = version_at s1 j) \<and>
        (p \<noteq> None \<longrightarrow> p = version_at s1 j) \<and> (v \<noteq> None \<longrightarrow> v = version_at s1 j)"
    proof (cases "j \<in> created_ids X (ep_operations plan)")
      case True
      then have "kind_at s j = KNone" using assms(6) by (simp add: plan_safe_def tokens_untyped_def)
      then show ?thesis using i1 typed by simp
    next
      case False
      then show ?thesis using i1 assms(4) by (simp add: versions_agree_def)
    qed
  qed
  with i1 have b: "store_ok (fold bump_version (mutated_ids affected) s1) \<and>
      versions_agree (fold bump_version (mutated_ids affected) s1) \<and>
      (\<forall>j. kind_at (fold bump_version (mutated_ids affected) s1) j = kind_at s1 j) \<and>
      (\<forall>j. bt_get (st_objects (fold bump_version (mutated_ids affected) s1)) j = None \<longleftrightarrow>
         bt_get (st_objects s1) j = None) \<and>
      (\<forall>j. version_at (fold bump_version (mutated_ids affected) s1) j =
        map_option (\<lambda>v. if j \<in> set (mutated_ids affected) then v + 1 else v) (version_at s1 j))"
    using fold_bump [OF distinct_mutated_ids] by blast
  have "store_get s' j \<noteq> None" if "bt_get (st_objects (fold bump_version (mutated_ids affected) s1)) j \<noteq> None" for j
    using sync_version_at [of "fold bump_version (mutated_ids affected) s1" j] b that
    by (auto simp: s' store_get_def version_at_def)
  then show ?thesis
    using b i1 sync_preserves_ok sync_synced sync_kind_at sync_version_at
    by (auto simp: s' r store_get_def)
qed

section \<open>Lemmas: groups\<close>

definition binds_existing :: "object_store \<Rightarrow> object_operation list \<Rightarrow> bool" where
  "binds_existing s ops \<longleftrightarrow>
     (\<forall>c b sc as l. BindContractBalance c b sc as l \<in> set ops \<longrightarrow> store_get s b \<noteq> None)"

lemma collect_effects_total:
  "binds_existing s ops \<Longrightarrow>
     \<exists>r' se'. collect_effects X epoch ops (s, r, se) = Some (s, r', se') \<and> rc_success r' = rc_success r \<and>
       rc_tx_id r' = rc_tx_id r"
proof (induction ops arbitrary: r se)
  case (Cons op ops)
  have "\<exists>r1 se1. collect_effect X epoch op (s, r, se) = Some (s, r1, se1) \<and> rc_success r1 = rc_success r \<and>
      rc_tx_id r1 = rc_tx_id r"
  proof -
    have "op = BindContractBalance c b sc as l \<Longrightarrow> store_get s b \<noteq> None" for c b sc as l
      using Cons.prems unfolding binds_existing_def by (metis list.set_intros(1))
    then show ?thesis by (cases op) fastforce+
  qed
  then obtain r1 se1 where "collect_effect X epoch op (s, r, se) = Some (s, r1, se1)"
    "rc_success r1 = rc_success r" "rc_tx_id r1 = rc_tx_id r" by blast
  moreover have "binds_existing s ops" using Cons.prems by (auto simp: binds_existing_def)
  ultimately show ?case using Cons.IH [of r1 se1] by simp
qed simp

lemma validated_binds_existing:
  "\<forall>op \<in> set ops. validate_op X op s = Inr () \<Longrightarrow> binds_existing s ops"
  by (fastforce simp: binds_existing_def split: option.splits if_splits)

lemma apply_plan_with_effects_ok:
  assumes "store_ok s" and "versions_agree s" and "extern_ok X" and "plan_safe X s plan"
  shows "\<exists>s' r se. apply_plan_with_effects X plan s epoch = Some (s', r, se) \<and> rc_tx_id r = ep_tx_id plan \<and>
    store_ok s' \<and> versions_agree s' \<and> (\<forall>j. kind_at s' j = kind_at s j)"
proof -
  obtain s' r where p: "apply_plan X plan s = (s', r)" by fastforce
  have id: "rc_tx_id r = ep_tx_id plan" using rc_tx_id_apply_plan [of X plan s] by (simp add: p)
  show ?thesis
  proof (cases "rc_success r")
    case False
    then have "s' = s" using apply_plan_atomic [OF p] assms(3,4) by (simp add: plan_safe_def)
    with False assms id show ?thesis by (simp add: apply_plan_with_effects_def p)
  next
    case True
    note inv = apply_plan_invariants [OF p True assms]
    obtain m2 m3 u3 where "validate_ops X s (ep_operations plan) m2 = (m3, Inr u3)"
      using apply_plan_success [OF p True] by metis
    then have "binds_existing s (ep_operations plan)"
      using validate_ops_ok validated_binds_existing by blast
    then have "binds_existing s' (ep_operations plan)"
      using inv unfolding binds_existing_def by blast
    then obtain r' se' where "collect_effects X epoch (ep_operations plan) (s', r, no_effects) = Some (s', r', se')"
      "rc_tx_id r' = rc_tx_id r"
      using collect_effects_total by blast
    with True inv id show ?thesis
      by (auto simp: apply_plan_with_effects_def p synced_versions_agree)
  qed
qed

definition acc_counts :: "settlement_acc \<Rightarrow> bool" where
  "acc_counts a \<longleftrightarrow> ac_succeeded a + ac_failed a = length (ac_receipts a) \<and>
     ac_succeeded a = length (filter rc_success (ac_receipts a))"

lemma settle_plan_ok:
  assumes "store_ok (ac_store a)" and "versions_agree (ac_store a)" and "extern_ok X"
    and "plan_safe X (ac_store a) plan" and "acc_counts a"
  shows "\<exists>a'. settle_plan X epoch plan a = Some a' \<and> store_ok (ac_store a') \<and> versions_agree (ac_store a') \<and>
    acc_counts a' \<and> map rc_tx_id (ac_receipts a') = map rc_tx_id (ac_receipts a) @ [ep_tx_id plan] \<and>
    (\<forall>j. kind_at (ac_store a') j = kind_at (ac_store a) j)"
proof -
  obtain s' r se where "apply_plan_with_effects X plan (ac_store a) epoch = Some (s', r, se)"
    "rc_tx_id r = ep_tx_id plan" "store_ok s'" "versions_agree s'" "\<forall>j. kind_at s' j = kind_at (ac_store a) j"
    using apply_plan_with_effects_ok [OF assms(1-4)] by blast
  with assms(5) show ?thesis by (auto simp: settle_plan_def acc_counts_def Let_def)
qed

lemma settle_plans_ok:
  "store_ok (ac_store a) \<Longrightarrow> versions_agree (ac_store a) \<Longrightarrow> extern_ok X \<Longrightarrow>
     \<forall>p \<in> set ps. plan_safe X (ac_store a) p \<Longrightarrow> acc_counts a \<Longrightarrow>
   \<exists>a'. settle_plans X epoch ps a = Some a' \<and> store_ok (ac_store a') \<and> versions_agree (ac_store a') \<and>
     acc_counts a' \<and> map rc_tx_id (ac_receipts a') = map rc_tx_id (ac_receipts a) @ map ep_tx_id ps"
proof (induction ps arbitrary: a)
  case (Cons p ps)
  then obtain a1 where a1: "settle_plan X epoch p a = Some a1" "store_ok (ac_store a1)"
    "versions_agree (ac_store a1)" "acc_counts a1"
    "map rc_tx_id (ac_receipts a1) = map rc_tx_id (ac_receipts a) @ [ep_tx_id p]"
    "\<forall>j. kind_at (ac_store a1) j = kind_at (ac_store a) j"
    using settle_plan_ok [of a X p epoch] by auto
  have "\<forall>q \<in> set ps. plan_safe X (ac_store a1) q"
    using Cons.prems(4) a1(6) by (simp add: plan_safe_def tokens_untyped_def)
  with Cons.IH [of a1] Cons.prems(3) a1 show ?case by simp
qed simp

lemma sample_store_synced: "synced sample_store"
  by (auto simp: synced_def sample_store_def store_of_eval split: if_splits)

section \<open>Properties\<close>

text \<open>
  C1. Settlement of a plan is all-or-nothing when no operation spoils a later one (no second debit or
  unlock of a balance, no token created over a contract the plan updates): whatever the failure,
  a missing object, gas exhaustion or a failed check, the store is exactly what it was before.
\<close>

theorem failed_plan_changes_nothing:
  assumes "extern_ok X" and "plan_unspoiled X (ep_operations plan)"
    and "\<not> rc_success (snd (apply_plan X plan s))"
  shows "fst (apply_plan X plan s) = s \<and> rc_error (snd (apply_plan X plan s)) \<noteq> None \<and>
    rc_affected_objects (snd (apply_plan X plan s)) = []"
proof -
  obtain s' r where p: "apply_plan X plan s = (s', r)" by fastforce
  have "rc_error r \<noteq> None \<and> rc_affected_objects r = []"
    using p assms(3) by (auto simp: apply_plan_def Let_def failure_receipt_def split: prod.splits sum.splits)
  then show ?thesis using apply_plan_atomic [OF p _ assms(1,2)] assms(3) by (simp add: p)
qed

theorem failed_plan_changes_nothing_witness:
  "fst (apply_plan extern_std (mk_plan 1 100 [DebitBalance 10 9999, CreditBalance 11 9999] [] []) sample_store)
     = sample_store"
proof -
  let ?p = "mk_plan 1 100 [DebitBalance 10 9999, CreditBalance 11 9999] [] []"
  have "\<not> rc_success (snd (apply_plan extern_std ?p sample_store))"
    by (simp add: apply_plan_def mk_plan_def sample_store_def store_of_eval bo_available_def sat_sub_def
        sat_mul_def meter_new_def default_costs_def consume_def checked_add_def failure_receipt_def Let_def)
  moreover have "plan_unspoiled extern_std (ep_operations ?p)" by (simp add: plan_unspoiled_def op_spoils_def)
  ultimately show ?thesis using failed_plan_changes_nothing [OF extern_std_ok] by blast
qed

text \<open>
  Without that condition settlement is not atomic: two debits of one balance are both validated
  against the balance before the plan, the second fails while being applied, and the failed plan
  keeps the first debit and the credit it paid for.
\<close>

theorem failed_plan_can_change_balances:
  "\<exists>plan s s' r. store_ok s \<and> apply_plan extern_std plan s = (s', r) \<and> \<not> rc_success r \<and>
    map_option bo_amount (get_balance_by_id s 10) = Some 5000 \<and>
    map_option bo_amount (get_balance_by_id s' 10) = Some 2000 \<and>
    map_option bo_amount (get_balance_by_id s 11) = Some 700 \<and>
    map_option bo_amount (get_balance_by_id s' 11) = Some 3700"
proof -
  let ?p = "mk_plan 1 100 [DebitBalance 10 3000, CreditBalance 11 3000, DebitBalance 10 3000] [] []"
  obtain s' r where p: "apply_plan extern_std ?p sample_store = (s', r)" by fastforce
  have "\<not> rc_success (snd (apply_plan extern_std ?p sample_store)) \<and>
      map_option bo_amount (get_balance_by_id (fst (apply_plan extern_std ?p sample_store)) 10) = Some 2000 \<and>
      map_option bo_amount (get_balance_by_id (fst (apply_plan extern_std ?p sample_store)) 11) = Some 3700"
    by (simp add: apply_plan_def mk_plan_def sample_store_def store_of_eval bo_available_def sat_sub_def
        sat_add_def sat_mul_def checked_sub_def get_balance_by_id_mut_def bt_adjust_def
        meter_new_def default_costs_def consume_def checked_add_def failure_receipt_def Let_def)
  moreover have "map_option bo_amount (get_balance_by_id sample_store 10) = Some 5000"
    "map_option bo_amount (get_balance_by_id sample_store 11) = Some 700"
    by (simp_all add: sample_store_def store_of_eval)
  ultimately show ?thesis using sample_store_ok p by fastforce
qed

text \<open>
  The gas of a successful plan is exact: the base cost, one read per declared access and the
  cost of every operation, within the plan's limit; it exceeds the resolver's estimate by exactly
  the reads. A plan whose limit is below the base cost is refused, and is recorded with more gas
  than its limit.
\<close>

theorem settlement_gas_is_exact:
  assumes "apply_plan X plan s = (s', r)"
  shows "(rc_success r \<longrightarrow>
      unat (rc_gas_used r) = 1000 + 100 * length (ep_object_access plan) + ops_gas (ep_operations plan) \<and>
      unat (rc_gas_used r) = unat (estimate_gas (ep_operations plan) default_costs)
        + 100 * length (ep_object_access plan) \<and>
      rc_gas_used r \<le> ep_gas_limit plan) \<and>
    (unat (ep_gas_limit plan) < 1000 \<longrightarrow> \<not> rc_success r \<and> rc_gas_used r = 1000 \<and> s' = s)"
proof (intro conjI impI)
  assume ok: "rc_success r"
  obtain m1 m2 m3 old u1 u3 where c: "consume 1000 (meter_new (ep_gas_limit plan)) = (m1, Inr u1)"
    and sn: "snapshot_versions s (ep_object_access plan) [] m1 = (m2, Inr old)"
    and v: "validate_ops X s (ep_operations plan) m2 = (m3, Inr u3)" and r: "rc_gas_used r = gm_consumed m3"
    using apply_plan_success [OF assms ok] by (metis execution_receipt.select_convs(6))
  have m0: "meter_at (meter_new (ep_gas_limit plan)) (ep_gas_limit plan)"
    by (simp add: meter_at_def meter_new_def)
  have z: "unat (gm_consumed (meter_new (ep_gas_limit plan))) = 0" by (simp add: meter_new_def)
  note g1 = consume_meter [OF c m0]
  have g2: "meter_at m2 (ep_gas_limit plan) \<and>
      unat (gm_consumed m2) = unat (gm_consumed m1) + 100 * length (ep_object_access plan) \<and>
      unat (gm_consumed m2) \<le> unat (ep_gas_limit plan)"
    using snapshot_gas [OF sn] g1 by blast
  have g3: "unat (gm_consumed m3) = unat (gm_consumed m2) + ops_gas (ep_operations plan) \<and>
      unat (gm_consumed m3) \<le> unat (ep_gas_limit plan)"
    using validate_gas [OF v] g2 by blast
  show total: "unat (rc_gas_used r) = 1000 + 100 * length (ep_object_access plan) + ops_gas (ep_operations plan)"
    using g1 g2 g3 z by (simp add: r)
  show "rc_gas_used r \<le> ep_gas_limit plan" using g3 by (simp add: r word_le_nat_alt)
  have "1000 + ops_gas (ep_operations plan) < 2 ^ 64"
    using total unat_less_2p [of "rc_gas_used r"] by simp
  then show "unat (rc_gas_used r) = unat (estimate_gas (ep_operations plan) default_costs)
        + 100 * length (ep_object_access plan)"
    using total estimate_gas_exact by simp
next
  assume "unat (ep_gas_limit plan) < 1000"
  then have "1000 > ep_gas_limit plan" by (simp add: word_less_nat_alt)
  with assms show "\<not> rc_success r" "rc_gas_used r = 1000" "s' = s"
    by (auto simp: apply_plan_def meter_new_def default_costs_def consume_def checked_add_def
        failure_receipt_def Let_def)
qed

theorem settlement_gas_is_exact_witness:
  "\<exists>r. rc_gas_used r = 1000 \<and>
    apply_plan extern_std ((mk_plan 1 0 [DebitBalance 10 5] [] [])\<lparr>ep_gas_limit := 500\<rparr>) sample_store = (sample_store, r)"
proof -
  let ?p = "(mk_plan 1 0 [DebitBalance 10 5] [] [])\<lparr>ep_gas_limit := 500\<rparr>"
  obtain s' r where p: "apply_plan extern_std ?p sample_store = (s', r)" by fastforce
  from settlement_gas_is_exact [OF p] have "s' = sample_store" "rc_gas_used r = 1000" by simp_all
  with p show ?thesis by blast
qed





end
