(* ===== verification/Fee_Executor.thy ===== *)
theory Fee_Executor
  imports Settlement
begin

text \<open>
  Fees on real balances: \<^verbatim>\<open>FeeExecutor\<close> of \<^verbatim>\<open>runtime/src/fees/executor.rs\<close> (lock, charge and
  route, charge, refund) and \<^verbatim>\<open>SettlementEngine::execute_groups_with_fees\<close>, which charges the
  accountings of a settlement round. The ledgers are those of \<open>Fee_Model\<close>, the store that of
  \<open>Store\<close>. An operation returns the store and the ledger also when it fails, since the code
  mutates both before it can return an error.
\<close>

section \<open>Operations\<close>

record fee_destinations =
  fd_sequencer :: bytes32
  fd_shared_security :: bytes32
  fd_treasury :: bytes32

datatype fee_exec_error = ExecText err_text | ExecCharge "charge_error option"

text \<open>The two field updates every debit makes: locked and amount both drop, saturating at zero.\<close>

definition spend_locked :: "u64 \<Rightarrow> balance_object \<Rightarrow> balance_object" where
  "spend_locked fee b = b\<lparr>bo_locked_amount := sat_sub (bo_locked_amount b) (to_u128 fee),
     bo_amount := sat_sub (bo_amount b) (to_u128 fee)\<rparr>"

definition unlock_funds :: "u64 \<Rightarrow> balance_object \<Rightarrow> balance_object" where
  "unlock_funds amount b = b\<lparr>bo_locked_amount := sat_sub (bo_locked_amount b) (to_u128 amount)\<rparr>"

definition executor_reserve ::
  "object_store \<Rightarrow> fee_envelope \<Rightarrow> bytes32 \<Rightarrow> object_store \<times> (fee_exec_error + fee_accounting)" where
  "executor_reserve s envelope fee_token =
     (let total = total_reserved envelope in
      if total = 0 then (s, Inl (ExecText (Text ''nothing to reserve'')))
      else case find_balance s (fe_payer envelope) fee_token of
             None \<Rightarrow> (s, Inl (ExecText (Text ''payer balance not found'')))
           | Some balance \<Rightarrow>
               if bo_amount balance < to_u128 total then
                 (s, Inl (ExecText (Fmt ''insufficient balance: need {}, have {}''
                            [unat total, unat (bo_amount balance)])))
               else case find_balance_mut (fe_payer envelope) fee_token
                           (\<lambda>b. b\<lparr>bo_locked_amount := sat_add (bo_locked_amount b) (to_u128 total)\<rparr>) s of
                      None \<Rightarrow> (s, Inl (ExecText (Text ''payer balance not found (mut)'')))
                    | Some s' \<Rightarrow> (s', Inr (accounting_reserve envelope)))"

definition credit_if_exists :: "bytes32 \<Rightarrow> bytes32 \<Rightarrow> u64 \<Rightarrow> object_store \<Rightarrow> object_store" where
  "credit_if_exists addr fee_token amount s =
     (if amount = 0 then s
      else if_found (find_balance_mut addr fee_token
             (\<lambda>b. b\<lparr>bo_amount := sat_add (bo_amount b) (to_u128 amount)\<rparr>)) s)"

definition executor_charge_sequencing ::
  "object_store \<Rightarrow> fee_accounting \<Rightarrow> poseq_fee_result \<Rightarrow> fee_routing_params \<Rightarrow> fee_destinations \<Rightarrow> bytes32
     \<Rightarrow> object_store \<times> fee_accounting \<times> (fee_exec_error + routed_fees)" where
  "executor_charge_sequencing s a fee_result routing_params dest fee_token =
     (let (a', charge) = charge_sequencing fee_result a in
      if \<not> cr_success charge then (s, a', Inl (ExecCharge (cr_error charge)))
      else let routed = fee_route (pr_total_fee fee_result) routing_params in
           case find_balance_mut (fe_payer (fa_envelope a')) fee_token
                  (spend_locked (pr_total_fee fee_result)) s of
             None \<Rightarrow> (s, a', Inl (ExecText (Text ''payer balance not found'')))
           | Some s1 \<Rightarrow>
               let s2 = credit_if_exists (fd_sequencer dest) fee_token (rf_sequencer_reward routed) s1;
                   s3 = credit_if_exists (fd_shared_security dest) fee_token (rf_shared_security routed) s2;
                   s4 = credit_if_exists (fd_treasury dest) fee_token (rf_treasury routed) s3
               in (s4, a', Inr routed))"

definition executor_charge_runtime ::
  "object_store \<Rightarrow> fee_accounting \<Rightarrow> u64 \<Rightarrow> bytes32 \<Rightarrow> object_store \<times> fee_accounting \<times> (fee_exec_error + unit)" where
  "executor_charge_runtime s a actual_gas_fee fee_token =
     (let (a', charge) = charge_runtime actual_gas_fee a in
      if \<not> cr_success charge then (s, a', Inl (ExecCharge (cr_error charge)))
      else case find_balance_mut (fe_payer (fa_envelope a')) fee_token (spend_locked actual_gas_fee) s of
             None \<Rightarrow> (s, a', Inl (ExecText (Text ''payer balance not found'')))
           | Some s' \<Rightarrow> (s', a', Inr ()))"

definition executor_settle_refund ::
  "object_store \<Rightarrow> fee_accounting \<Rightarrow> bytes32 \<Rightarrow> object_store \<times> fee_accounting \<times> u64" where
  "executor_settle_refund s a fee_token =
     (let (a', refund) = settle_refund a in
      (if refund > 0
       then if_found (find_balance_mut (effective_refund_address (fa_envelope a')) fee_token
              (unlock_funds refund)) s
       else s, a', refund))"

section \<open>A settlement round with fees\<close>

text \<open>
  The loop body of \<^verbatim>\<open>execute_groups_with_fees\<close>: a success is charged its gas when the reserve covers
  it, a failure at most half the runtime reserve, then the rest is unlocked.
\<close>

definition charge_receipt ::
  "bytes32 \<Rightarrow> execution_receipt \<Rightarrow> object_store \<Rightarrow> fee_accounting \<Rightarrow> object_store \<times> fee_accounting" where
  "charge_receipt fee_token receipt s a =
     (let (s1, a1) =
        (if rc_success receipt then
           (let gas_fee = rc_gas_used receipt; (a', charge) = charge_runtime gas_fee a in
            (if cr_success charge
             then if_found (find_balance_mut (fe_payer (fa_envelope a')) fee_token (spend_locked gas_fee)) s
             else s, a'))
         else
           (let partial_charge = min (rc_gas_used receipt) (fe_max_runtime_fee (fa_envelope a) div 2);
                a' = revert_runtime partial_charge a in
            (if partial_charge > 0
             then if_found (find_balance_mut (fe_payer (fa_envelope a')) fee_token (spend_locked partial_charge)) s
             else s, a')));
        (s2, a2, _) = executor_settle_refund s1 a1 fee_token
      in (s2, a2))"

text \<open>The loop: it ends with the receipts or with the accountings, whichever are fewer.\<close>

fun charge_receipts ::
  "bytes32 \<Rightarrow> execution_receipt list \<Rightarrow> object_store \<Rightarrow> fee_accounting list \<Rightarrow> object_store \<times> fee_accounting list" where
  "charge_receipts fee_token (r # rs) s (a # as) =
     (let (s', a') = charge_receipt fee_token r s a; (s'', as') = charge_receipts fee_token rs s' as
      in (s'', a' # as'))"
| "charge_receipts fee_token rs s as = (s, as)"

definition execute_groups_with_fees ::
  "extern \<Rightarrow> execution_group list \<Rightarrow> object_store \<Rightarrow> u64 \<Rightarrow> fee_accounting list \<Rightarrow> bytes32
     \<Rightarrow> (object_store \<times> fee_accounting list \<times> settlement_result) option" where
  "execute_groups_with_fees X groups s epoch accountings fee_token =
     (case execute_groups X groups s epoch of
        None \<Rightarrow> None
      | Some (s', result) \<Rightarrow>
          (let (s'', accountings') = charge_receipts fee_token (sr_receipts result) s' accountings
           in Some (s'', accountings', result)))"

section \<open>Lemmas: one balance\<close>

text \<open>The updates of the executor keep whose balance it is.\<close>

definition keeps_holder :: "(balance_object \<Rightarrow> balance_object) \<Rightarrow> bool" where
  "keeps_holder f \<longleftrightarrow> (\<forall>b. bo_owner (f b) = bo_owner b \<and> bo_asset_id (f b) = bo_asset_id b)"

lemma keeps_holder_updates [simp]:
  "keeps_holder (spend_locked fee)" "keeps_holder (unlock_funds fee)"
  "keeps_holder (\<lambda>b. b\<lparr>bo_amount := g b\<rparr>)" "keeps_holder (\<lambda>b. b\<lparr>bo_locked_amount := g b\<rparr>)"
  by (simp_all add: keeps_holder_def spend_locked_def unlock_funds_def)

lemma find_adjust_first:
  assumes "\<And>v. p v \<Longrightarrow> p (f v)"
  shows "find p (bt_values (bt_adjust_first p f m)) = map_option f (find p (bt_values m))"
  by (induction m) (auto simp: bt_values_def assms)

lemma find_adjust_first_other:
  assumes "\<And>v. p v \<Longrightarrow> \<not> q v \<and> \<not> q (f v)"
  shows "find q (bt_values (bt_adjust_first p f m)) = find q (bt_values m)"
  by (induction m) (use assms in \<open>auto simp: bt_values_def\<close>)

lemma total_adjust_first:
  "find p (bt_values m) = Some v \<Longrightarrow>
     bt_total w (bt_adjust_first p f m) + w v = bt_total w m + w (f v)"
  by (induction m) (auto simp: bt_values_def split: if_splits)

lemma mut_find_balance:
  assumes "keeps_holder f"
  shows "find_balance (if_found (find_balance_mut owner asset f) s) owner' asset' =
    (if owner' = owner \<and> asset' = asset then map_option f (find_balance s owner asset)
     else find_balance s owner' asset')"
proof (cases "find_balance s owner asset")
  case None
  then show ?thesis by (simp add: if_found_def find_balance_mut_def)
next
  case (Some b)
  have bal: "st_balances (if_found (find_balance_mut owner asset f) s) =
      bt_adjust_first (balance_is owner asset) f (st_balances s)"
    using Some by (simp add: if_found_def find_balance_mut_def)
  show ?thesis
  proof (cases "owner' = owner \<and> asset' = asset")
    case True
    have "balance_is owner asset v \<Longrightarrow> balance_is owner asset (f v)" for v
      using assms by (simp add: balance_is_def keeps_holder_def)
    with True show ?thesis by (simp add: find_balance_def bal find_adjust_first)
  next
    case False
    then have "balance_is owner asset v \<Longrightarrow>
        \<not> balance_is owner' asset' v \<and> \<not> balance_is owner' asset' (f v)" for v
      using assms by (auto simp: balance_is_def keeps_holder_def)
    with False show ?thesis
      using find_adjust_first_other [of "balance_is owner asset" "balance_is owner' asset'" f
          "st_balances s"]
      by (auto simp: find_balance_def bal)
  qed
qed

lemma mut_supply:
  assumes "find_balance s owner asset = Some b" and "keeps_holder f"
  shows "asset_supply asset (if_found (find_balance_mut owner asset f) s) + unat (bo_amount b) =
    asset_supply asset s + unat (bo_amount (f b))"
proof -
  have "bo_asset_id b = asset" "bo_asset_id (f b) = asset"
    using bt_find_value_in [of "balance_is owner asset"] assms
    by (auto simp: find_balance_def balance_is_def keeps_holder_def)
  then show ?thesis
    using total_adjust_first [of "balance_is owner asset" "st_balances s" b
        "asset_weight asset" f] assms(1)
    by (simp add: asset_supply_def asset_weight_def if_found_def find_balance_mut_def) (simp add: find_balance_def)
qed

lemma mut_Some:
  "find_balance s owner asset = Some b \<Longrightarrow>
     find_balance_mut owner asset f s = Some (if_found (find_balance_mut owner asset f) s)"
  by (simp add: if_found_def find_balance_mut_def)

lemma mut_objects: "st_objects (if_found (find_balance_mut owner asset f) s) = st_objects s"
  by (simp add: if_found_def find_balance_mut_def split: option.split)

lemma credit_find:
  assumes "addr \<noteq> owner"
  shows "find_balance (credit_if_exists addr token n s) owner token = find_balance s owner token"
  using assms by (simp add: credit_if_exists_def mut_find_balance)

lemma credit_exists:
  "find_balance (credit_if_exists addr token n s) owner asset = None \<longleftrightarrow> find_balance s owner asset = None"
  by (simp add: credit_if_exists_def mut_find_balance)

text \<open>A credit adds its amount to the supply when the destination exists and nothing overflows.\<close>

definition no_overflow :: "bytes32 \<Rightarrow> object_store \<Rightarrow> nat \<Rightarrow> bool" where
  "no_overflow token s n \<longleftrightarrow> asset_supply token s + n < 2 ^ 128"

lemma balance_le_supply:
  assumes "find_balance s owner asset = Some b"
  shows "unat (bo_amount b) \<le> asset_supply asset s"
proof -
  have "b \<in> set (bt_values (st_balances s))" "bo_asset_id b = asset"
    using bt_find_value_in [of "balance_is owner asset"] assms by (auto simp: find_balance_def balance_is_def)
  then show ?thesis
    using member_le_sum_list [of "unat (bo_amount b)"
        "map (\<lambda>e. asset_weight asset (snd e)) (st_balances s)"]
    by (force simp: asset_supply_def asset_weight_def bt_total_def bt_values_def)
qed

lemma credit_supply:
  assumes "find_balance s addr token \<noteq> None" and "no_overflow token s (unat n)"
  shows "asset_supply token (credit_if_exists addr token n s) = asset_supply token s + unat n"
proof -
  obtain b where b: "find_balance s addr token = Some b" using assms(1) by blast
  have "unat (bo_amount b) + unat n < 2 ^ 128"
    using balance_le_supply [OF b] assms(2) by (simp add: no_overflow_def)
  then have "unat (sat_add (bo_amount b) (to_u128 n)) = unat (bo_amount b) + unat n"
    by (simp add: machine_simps)
  then show ?thesis
    using mut_supply [OF b, of "\<lambda>b. b\<lparr>bo_amount := sat_add (bo_amount b) (to_u128 n)\<rparr>"]
    by (simp add: credit_if_exists_def)
qed

section \<open>Lemmas: one fee lifecycle\<close>

definition same_holders :: "object_store \<Rightarrow> object_store \<Rightarrow> bool" where
  "same_holders s s' \<longleftrightarrow> st_objects s' = st_objects s \<and>
     (\<forall>w t. find_balance s' w t = None \<longleftrightarrow> find_balance s w t = None)"

lemma same_holders_trans: "same_holders s s' \<Longrightarrow> same_holders s' s'' \<Longrightarrow> same_holders s s''"
  by (simp add: same_holders_def)

lemma same_holders_mut: "keeps_holder f \<Longrightarrow> same_holders s (if_found (find_balance_mut owner asset f) s)"
  by (auto simp: same_holders_def mut_objects mut_find_balance)

lemma same_holders_credit: "same_holders s (credit_if_exists addr token n s)"
  by (simp add: credit_if_exists_def same_holders_mut) (simp add: same_holders_def)

lemma reserve_step:
  assumes "find_balance s (fe_payer e) token = Some b" and "total_reserved e \<noteq> 0"
    and "unat (total_reserved e) \<le> unat (bo_amount b)"
  obtains s' where "executor_reserve s e token = (s', Inr (accounting_reserve e))"
    and "find_balance s' (fe_payer e) token =
      Some (b\<lparr>bo_locked_amount := sat_add (bo_locked_amount b) (to_u128 (total_reserved e))\<rparr>)"
    and "asset_supply token s' = asset_supply token s" and "same_holders s s'"
proof -
  let ?f = "\<lambda>b. b\<lparr>bo_locked_amount := sat_add (bo_locked_amount b) (to_u128 (total_reserved e))\<rparr>"
  let ?s = "if_found (find_balance_mut (fe_payer e) token ?f) s"
  have "executor_reserve s e token = (?s, Inr (accounting_reserve e))"
    using assms mut_Some [OF assms(1), of ?f] by (simp add: executor_reserve_def Let_def word_less_nat_alt)
  moreover have "asset_supply token ?s = asset_supply token s"
    using mut_supply [OF assms(1), of ?f] by simp
  ultimately show ?thesis
    using that [of ?s] assms(1) same_holders_mut [of ?f s] by (simp add: mut_find_balance)
qed

lemma spend_supply:
  assumes "find_balance s owner token = Some b" and "unat fee \<le> unat (bo_amount b)"
  shows "asset_supply token (if_found (find_balance_mut owner token (spend_locked fee)) s) + unat fee =
    asset_supply token s"
  using mut_supply [OF assms(1), of "spend_locked fee"] assms(2)
  by (simp add: spend_locked_def machine_simps)

definition routing_sane :: "fee_routing_params \<Rightarrow> bool" where
  "routing_sane p \<longleftrightarrow> routing_validate p = Inr () \<and> rp_burn_bps p \<le> 10000 \<and>
     rp_sequencer_reward_bps p \<le> 10000 \<and> rp_shared_security_bps p \<le> 10000 \<and> rp_treasury_bps p \<le> 10000"

definition dest_ok :: "object_store \<Rightarrow> bytes32 \<Rightarrow> fee_destinations \<Rightarrow> bytes32 \<Rightarrow> bool" where
  "dest_ok s token d payer \<longleftrightarrow>
     (\<forall>a \<in> {fd_sequencer d, fd_shared_security d, fd_treasury d}. a \<noteq> payer \<and> find_balance s a token \<noteq> None)"

lemma credit_three_supply:
  assumes "\<forall>a \<in> {x, y, z}. find_balance s a token \<noteq> None"
    and "no_overflow token s (unat i + unat j + unat k)"
  shows "asset_supply token (credit_if_exists z token k (credit_if_exists y token j (credit_if_exists x token i s)))
    = asset_supply token s + unat i + unat j + unat k"
proof -
  let ?s1 = "credit_if_exists x token i s"
  let ?s2 = "credit_if_exists y token j ?s1"
  have 1: "asset_supply token ?s1 = asset_supply token s + unat i"
    using assms by (intro credit_supply) (simp_all add: no_overflow_def)
  have 2: "asset_supply token ?s2 = asset_supply token ?s1 + unat j"
    using assms 1 by (intro credit_supply) (simp_all add: no_overflow_def credit_exists)
  have "asset_supply token (credit_if_exists z token k ?s2) = asset_supply token ?s2 + unat k"
    using assms 1 2 by (intro credit_supply) (simp_all add: no_overflow_def credit_exists)
  with 1 2 show ?thesis by simp
qed

lemma sequencing_step:
  assumes "find_balance s (fe_payer (fa_envelope a)) token = Some b" and "fa_state a = FReserved"
    and "pr_total_fee r \<le> fe_max_poseq_fee (fa_envelope a)" and "unat (pr_total_fee r) \<le> unat (bo_amount b)"
    and "dest_ok s token d (fe_payer (fa_envelope a))" and "routing_sane p" and "asset_supply token s < 2 ^ 128"
  obtains s' where "executor_charge_sequencing s a r p d token =
      (s', a\<lparr>fa_charged_poseq := pr_total_fee r, fa_state := SequencingCharged\<rparr>, Inr (fee_route (pr_total_fee r) p))"
    and "find_balance s' (fe_payer (fa_envelope a)) token = Some (spend_locked (pr_total_fee r) b)"
    and "asset_supply token s' + unat (rf_burned (fee_route (pr_total_fee r) p)) = asset_supply token s"
    and "same_holders s s'"
proof -
  let ?f = "fee_route (pr_total_fee r) p" and ?payer = "fe_payer (fa_envelope a)"
  let ?s1 = "if_found (find_balance_mut ?payer token (spend_locked (pr_total_fee r))) s"
  let ?s4 = "credit_if_exists (fd_treasury d) token (rf_treasury ?f)
    (credit_if_exists (fd_shared_security d) token (rf_shared_security ?f)
      (credit_if_exists (fd_sequencer d) token (rf_sequencer_reward ?f) ?s1))"
  have "executor_charge_sequencing s a r p d token =
      (?s4, a\<lparr>fa_charged_poseq := pr_total_fee r, fa_state := SequencingCharged\<rparr>, Inr ?f)"
    using assms(1-3) mut_Some [OF assms(1)]
    by (simp add: executor_charge_sequencing_def charge_sequencing_def Let_def not_less)
  moreover have "find_balance ?s4 ?payer token = Some (spend_locked (pr_total_fee r) b)"
    using assms(1,5) by (simp add: dest_ok_def credit_find mut_find_balance)
  moreover have "asset_supply token ?s4 + unat (rf_burned ?f) = asset_supply token s"
  proof -
    have sh: "unat (rf_burned ?f) + unat (rf_sequencer_reward ?f) + unat (rf_shared_security ?f)
        + unat (rf_treasury ?f) = unat (pr_total_fee r)"
      using route_shares(1) [of p] assms(6) by (simp add: routing_sane_def)
    have s1: "asset_supply token ?s1 + unat (pr_total_fee r) = asset_supply token s"
      using spend_supply [OF assms(1,4)] .
    have "asset_supply token ?s4 = asset_supply token ?s1 + unat (rf_sequencer_reward ?f)
        + unat (rf_shared_security ?f) + unat (rf_treasury ?f)"
      using assms(5,7) s1 sh
      by (intro credit_three_supply) (simp_all add: dest_ok_def no_overflow_def mut_find_balance)
    with s1 sh show ?thesis by linarith
  qed
  moreover have "same_holders s ?s4"
    by (meson same_holders_credit same_holders_mut same_holders_trans keeps_holder_updates(1))
  ultimately show ?thesis using that by blast
qed

lemma runtime_step:
  assumes "find_balance s (fe_payer (fa_envelope a)) token = Some b" and "fa_state a = SequencingCharged"
    and "gas \<le> fe_max_runtime_fee (fa_envelope a)" and "unat gas \<le> unat (bo_amount b)"
  obtains s' where "executor_charge_runtime s a gas token =
      (s', a\<lparr>fa_charged_runtime := gas, fa_state := FullyCharged\<rparr>, Inr ())"
    and "find_balance s' (fe_payer (fa_envelope a)) token = Some (spend_locked gas b)"
    and "asset_supply token s' + unat gas = asset_supply token s" and "same_holders s s'"
proof -
  let ?s = "if_found (find_balance_mut (fe_payer (fa_envelope a)) token (spend_locked gas)) s"
  have "executor_charge_runtime s a gas token =
      (?s, a\<lparr>fa_charged_runtime := gas, fa_state := FullyCharged\<rparr>, Inr ())"
    using assms(1-3) mut_Some [OF assms(1)]
    by (simp add: executor_charge_runtime_def charge_runtime_def Let_def not_less)
  then show ?thesis
    using that [of ?s] assms(1) spend_supply [OF assms(1,4)]
    by (simp add: mut_find_balance same_holders_mut)
qed

lemma unlock_funds_zero [simp]: "unlock_funds 0 b = b"
  by (simp add: unlock_funds_def sat_sub_def)

lemma refund_step:
  assumes "find_balance s (fe_payer (fa_envelope a)) token = Some b"
    and "fe_refund_address (fa_envelope a) = None"
  obtains s' where "executor_settle_refund s a token = (s', settle_refund a)"
    and "find_balance s' (fe_payer (fa_envelope a)) token = Some (unlock_funds (snd (settle_refund a)) b)"
    and "asset_supply token s' = asset_supply token s" and "same_holders s s'"
proof -
  let ?f = "unlock_funds (snd (settle_refund a))"
  let ?s = "if snd (settle_refund a) > 0
    then if_found (find_balance_mut (fe_payer (fa_envelope a)) token ?f) s else s"
  have "executor_settle_refund s a token = (?s, settle_refund a)"
    using assms(2)
    by (simp add: executor_settle_refund_def settle_refund_def effective_refund_address_def Let_def)
  moreover have "find_balance ?s (fe_payer (fa_envelope a)) token = Some (?f b)"
    using assms(1) by (auto simp: mut_find_balance word_gt_0)
  moreover have "asset_supply token ?s = asset_supply token s"
    using mut_supply [OF assms(1), of ?f] by (simp add: unlock_funds_def)
  moreover have "same_holders s ?s" by (simp add: same_holders_mut) (simp add: same_holders_def)
  ultimately show ?thesis using that [of ?s] by blast
qed

text \<open>What is left of the payer's balance: exactly the two fees are gone, the lock is as before.\<close>

lemma lifecycle_balance:
  assumes "unat (bo_locked_amount b) + unat T \<le> unat (bo_amount b)" and "unat fee + unat gas \<le> unat T"
  shows "unlock_funds (sat_sub T (sat_add (sat_add fee gas) 0)) (spend_locked gas (spend_locked fee
      (b\<lparr>bo_locked_amount := sat_add (bo_locked_amount b) (to_u128 T)\<rparr>)))
    = b\<lparr>bo_amount := bo_amount b - to_u128 fee - to_u128 gas\<rparr>"
proof -
  have le: "to_u128 fee \<le> bo_amount b" "to_u128 gas \<le> bo_amount b - to_u128 fee"
    using assms by (simp_all add: word_le_nat_alt unat_sub_fits)
  have "unat (bo_locked_amount b) + unat T < 2 ^ 128"
    using assms(1) unat_less_2p [of "bo_amount b"] by simp
  then have "sat_sub (sat_sub (sat_sub (sat_add (bo_locked_amount b) (to_u128 T)) (to_u128 fee)) (to_u128 gas))
      (to_u128 (sat_sub T (sat_add (sat_add fee gas) 0))) = bo_locked_amount b"
    using assms(2) unat_less_2p [of T] by (simp add: word_unat_eq_iff machine_simps)
  with le show ?thesis by (simp add: unlock_funds_def spend_locked_def sat_sub_eq)
qed

section \<open>Lemmas: a round\<close>

text \<open>What a receipt costs: nothing when the gas of a success exceeds the runtime reserve.\<close>

definition runtime_due :: "execution_receipt \<Rightarrow> fee_accounting \<Rightarrow> u64" where
  "runtime_due r a =
     (if rc_success r then (if rc_gas_used r \<le> fe_max_runtime_fee (fa_envelope a) then rc_gas_used r else 0)
      else min (rc_gas_used r) (fe_max_runtime_fee (fa_envelope a) div 2))"

definition awaiting_runtime :: "fee_accounting \<Rightarrow> bool" where
  "awaiting_runtime a \<longleftrightarrow> fee_inv a \<and> fa_state a = SequencingCharged \<and> fa_charged_runtime a = 0"

definition settled_for :: "execution_receipt \<Rightarrow> fee_accounting \<Rightarrow> fee_accounting \<Rightarrow> bool" where
  "settled_for r a a' \<longleftrightarrow> fa_envelope a' = fa_envelope a \<and> fa_charged_poseq a' = fa_charged_poseq a \<and>
     fa_charged_runtime a' = runtime_due r a \<and> fa_state a' = Settled \<and> check_invariant_conservation a'"

lemma half_reserve_le: "min g (m div 2) \<le> m" for g m :: u64
  by (rule order_trans [OF min.cobounded2]) (simp add: word_le_nat_alt unat_div)

lemma charge_receipt_settles:
  assumes "awaiting_runtime a"
  shows "settled_for r a (snd (charge_receipt token r s a))"
proof -
  let ?a1 = "if rc_success r then fst (charge_runtime (rc_gas_used r) a)
    else revert_runtime (min (rc_gas_used r) (fe_max_runtime_fee (fa_envelope a) div 2)) a"
  have a': "snd (charge_receipt token r s a) = fst (settle_refund ?a1)"
    by (simp add: charge_receipt_def executor_settle_refund_def Let_def case_prod_beta)
  have "fee_inv ?a1"
    using assms fee_inv_runtime fee_inv_revert by (auto simp: awaiting_runtime_def)
  then have inv: "fee_inv (fst (settle_refund ?a1))" by (rule fee_inv_settle)
  have st: "fa_state (fst (settle_refund ?a1)) = Settled" by (simp add: settle_refund_def Let_def)
  have "check_invariant_conservation (fst (settle_refund ?a1))"
    using inv st fee_inv_total_le [OF inv]
    by (simp add: fee_inv_def fee_closed_def check_invariant_conservation_def sat_add_sub_cancel)
  moreover have "fa_charged_runtime (fst (settle_refund ?a1)) = runtime_due r a"
    using assms half_reserve_le [of "rc_gas_used r" "fe_max_runtime_fee (fa_envelope a)"]
    by (auto simp: awaiting_runtime_def runtime_due_def settle_refund_def charge_runtime_def revert_runtime_def
        Let_def charge_failed_def not_less min_absorb1)
  ultimately show ?thesis
    using st by (simp add: settled_for_def a' settle_refund_def charge_runtime_def revert_runtime_def Let_def
        charge_failed_def)
qed

lemma charge_receipt_objects: "st_objects (fst (charge_receipt token r s a)) = st_objects s"
  by (auto simp: charge_receipt_def executor_settle_refund_def Let_def case_prod_beta mut_objects)

lemma spend_supply_bounds:
  fixes token owner fee s
  defines "s' \<equiv> if_found (find_balance_mut owner token (spend_locked fee)) s"
  shows "asset_supply token s' \<le> asset_supply token s" and "asset_supply token s \<le> asset_supply token s' + unat fee"
proof -
  have "asset_supply token s' \<le> asset_supply token s \<and> asset_supply token s \<le> asset_supply token s' + unat fee"
  proof (cases "find_balance s owner token")
    case None
    then show ?thesis by (simp add: s'_def if_found_def find_balance_mut_def)
  next
    case (Some b)
    then show ?thesis
      using mut_supply [OF Some, of "spend_locked fee"] balance_le_supply [OF Some]
      unfolding s'_def by (simp add: spend_locked_def machine_simps) linarith
  qed
  then show "asset_supply token s' \<le> asset_supply token s"
    "asset_supply token s \<le> asset_supply token s' + unat fee" by simp_all
qed

lemma unlock_supply:
  "asset_supply token (if_found (find_balance_mut owner token (unlock_funds n)) s) = asset_supply token s"
proof (cases "find_balance s owner token")
  case (Some b)
  from mut_supply [OF this, of "unlock_funds n"] show ?thesis by (simp add: unlock_funds_def)
qed (simp add: if_found_def find_balance_mut_def)

lemma charge_receipt_supply:
  assumes "awaiting_runtime a"
  shows "asset_supply token (fst (charge_receipt token r s a)) \<le> asset_supply token s"
    and "asset_supply token s \<le> asset_supply token (fst (charge_receipt token r s a)) + unat (runtime_due r a)"
  using assms
  by (auto simp: charge_receipt_def executor_settle_refund_def Let_def case_prod_beta unlock_supply
      spend_supply_bounds runtime_due_def charge_runtime_def charge_failed_def awaiting_runtime_def
      revert_runtime_def not_less word_gt_0)

lemma charge_receipts_all:
  assumes "\<forall>a \<in> set as. awaiting_runtime a" and "charge_receipts token rs s as = (s', as')"
  shows "st_objects s' = st_objects s \<and> length as' = length as \<and>
    (\<forall>i < length as. if i < length rs then settled_for (rs ! i) (as ! i) (as' ! i) else as' ! i = as ! i) \<and>
    asset_supply token s' \<le> asset_supply token s \<and>
    asset_supply token s \<le> asset_supply token s' + (\<Sum>(r, a) \<leftarrow> zip rs as. unat (runtime_due r a))"
  using assms
proof (induction token rs s as arbitrary: s' as' rule: charge_receipts.induct)
  case (1 token r rs s a as)
  obtain s1 a1 where 1: "charge_receipt token r s a = (s1, a1)" by fastforce
  obtain s2 as2 where 2: "charge_receipts token rs s1 as = (s2, as2)" by fastforce
  have out: "s' = s2" "as' = a1 # as2" using "1.prems"(2) 1 2 by simp_all
  note IH = "1.IH" [OF 1 [symmetric] refl _ 2]
  have c: "settled_for r a a1" "st_objects s1 = st_objects s" "asset_supply token s1 \<le> asset_supply token s"
    "asset_supply token s \<le> asset_supply token s1 + unat (runtime_due r a)"
    using charge_receipt_settles [of a r token s] charge_receipt_objects [of token r s a]
      charge_receipt_supply [where a = a and token = token and r = r and s = s] "1.prems"(1) 1 by simp_all
  show ?case using IH "1.prems"(1) c by (auto simp: out nth_Cons')
qed auto

text \<open>Concrete inputs for the witnesses.\<close>

definition sample_envelope :: "bytes32 \<Rightarrow> u64 \<Rightarrow> u64 \<Rightarrow> fee_envelope" where
  "sample_envelope payer poseq_fee runtime_fee =
     \<lparr>fe_payer = payer, fe_fee_token = ''omniphi'', fe_max_poseq_fee = poseq_fee,
      fe_max_runtime_fee = runtime_fee, fe_priority_tip = 0, fe_expiry_epoch = 99, fe_refund_address = None\<rparr>"

definition sample_fee :: "u64 \<Rightarrow> poseq_fee_result" where
  "sample_fee fee = \<lparr>pr_total_fee = fee, pr_base_component = fee, pr_bandwidth_component = 0,
     pr_tip_component = 0, pr_congestion_multiplier_bps = 10000, pr_floor_applied = False,
     pr_cap_applied = False\<rparr>"

definition sample_destinations :: fee_destinations where
  "sample_destinations = \<lparr>fd_sequencer = 2, fd_shared_security = 2, fd_treasury = 2\<rparr>"

section \<open>Properties\<close>



text \<open>
  \<^verbatim>\<open>FeeExecutor::reserve\<close> compares the reservation with the whole balance, not with its unlocked
  part: the same funds can be reserved again and again, and each reservation raises the lock past
  what the balance holds.
\<close>

theorem reserve_overcommits_locked_funds:
  assumes "find_balance s (fe_payer e) token = Some b" and "total_reserved e \<noteq> 0"
    and "unat (total_reserved e) \<le> unat (bo_amount b)"
    and "unat (bo_amount b) < unat (bo_locked_amount b) + unat (total_reserved e)"
  shows "\<exists>s' b'. executor_reserve s e token = (s', Inr (accounting_reserve e)) \<and>
    find_balance s' (fe_payer e) token = Some b' \<and> bo_amount b' = bo_amount b \<and>
    (bo_amount b' < bo_locked_amount b' \<or> bo_locked_amount b' = - 1) \<and> bo_available b' = 0"
proof -
  obtain s' where "executor_reserve s e token = (s', Inr (accounting_reserve e))"
    "find_balance s' (fe_payer e) token =
      Some (b\<lparr>bo_locked_amount := sat_add (bo_locked_amount b) (to_u128 (total_reserved e))\<rparr>)"
    using reserve_step [OF assms(1-3)] by blast
  moreover have "bo_amount b < sat_add (bo_locked_amount b) (to_u128 (total_reserved e)) \<or>
      sat_add (bo_locked_amount b) (to_u128 (total_reserved e)) = - 1"
    using assms(4) by (auto simp: sat_add_def word_less_nat_alt unat_add_fits)
  moreover have "bo_amount b \<le> sat_add (bo_locked_amount b) (to_u128 (total_reserved e))"
    using assms(4) unat_bound [of "bo_amount b"] by (simp add: word_le_nat_alt machine_simps)
  ultimately show ?thesis by (auto simp: bo_available_def sat_sub_def)
qed

theorem reserve_overcommits_locked_funds_witness:
  "\<exists>s' b'. executor_reserve (store_of [OBalance ((balance_new 10 1 9 1000 0)\<lparr>bo_locked_amount := 800\<rparr>)])
      (sample_envelope 1 300 500) 9 = (s', Inr (accounting_reserve (sample_envelope 1 300 500))) \<and>
    find_balance s' 1 9 = Some b' \<and> bo_amount b' = 1000 \<and> bo_available b' = 0"
proof -
  let ?b = "(balance_new 10 1 9 1000 0)\<lparr>bo_locked_amount := 800\<rparr>" and ?e = "sample_envelope 1 300 500"
  have b: "find_balance (store_of [OBalance ?b]) (fe_payer ?e) 9 = Some ?b"
    by (simp add: sample_envelope_def store_of_eval)
  have T: "total_reserved ?e = 800" by (simp add: sample_envelope_def total_reserved_def sat_add_def)
  have "total_reserved ?e \<noteq> 0" "unat (total_reserved ?e) \<le> unat (bo_amount ?b)"
    "unat (bo_amount ?b) < unat (bo_locked_amount ?b) + unat (total_reserved ?e)"
    by (simp_all add: T balance_new_def)
  from reserve_overcommits_locked_funds [OF b this] show ?thesis
    by (auto simp: balance_new_def sample_envelope_def)
qed



end
