(* ===== verification/HotStuff_Types.thy ===== *)
theory HotStuff_Types
  imports Intents "HOL-Library.List_Lexorder" "HOL-Library.Product_Lexorder"
begin

unbundle bit_operations_syntax

text \<open>
  The data of the sequencing consensus, \<^verbatim>\<open>poseq/src/hotstuff/types.rs\<close> (phases, blocks, quorum
  certificates, votes, the safety rule), its message checks, \<^verbatim>\<open>verification.rs\<close>, and what it
  writes to disk, \<^verbatim>\<open>persistence.rs\<close> and the in-memory backend of
  \<^verbatim>\<open>poseq/src/persistence/backend.rs\<close>. SHA-256 and Ed25519 are the parameters of
  \<open>Objects\<close> and \<open>Intents\<close> (\<open>ed_verify\<close> stands for \<^verbatim>\<open>verify_strict\<close> here);
  \<^verbatim>\<open>bincode\<close> of the safety rule is the parameter \<open>codec\<close>, over a type of blobs.
\<close>

section \<open>Phases\<close>

type_synonym view = u64
type_synonym node_id = bytes32

datatype phase = Prepare | PreCommit | Commit | Decide

text \<open>\<^verbatim>\<open>phase as u8\<close>, and the derived order of the enum.\<close>

fun phase_byte :: "phase \<Rightarrow> u8" where
  "phase_byte Prepare = 0"
| "phase_byte PreCommit = 1"
| "phase_byte Commit = 2"
| "phase_byte Decide = 3"

fun phase_name :: "phase \<Rightarrow> string" where
  "phase_name Prepare = ''PREPARE''"
| "phase_name PreCommit = ''PRE-COMMIT''"
| "phase_name Commit = ''COMMIT''"
| "phase_name Decide = ''DECIDE''"

fun phase_next :: "phase \<Rightarrow> phase option" where
  "phase_next Prepare = Some PreCommit"
| "phase_next PreCommit = Some Commit"
| "phase_next Commit = Some Decide"
| "phase_next Decide = None"

instantiation phase :: linorder
begin

definition less_eq_phase :: "phase \<Rightarrow> phase \<Rightarrow> bool" where
  "less_eq_phase p q \<longleftrightarrow> phase_byte p \<le> phase_byte q"

definition less_phase :: "phase \<Rightarrow> phase \<Rightarrow> bool" where
  "less_phase p q \<longleftrightarrow> phase_byte p < phase_byte q"

instance
proof
  fix p q r :: phase
  show "p < q \<longleftrightarrow> p \<le> q \<and> \<not> q \<le> p" by (auto simp: less_phase_def less_eq_phase_def)
  show "p \<le> p" by (simp add: less_eq_phase_def)
  show "p \<le> q \<Longrightarrow> q \<le> r \<Longrightarrow> p \<le> r" by (simp add: less_eq_phase_def)
  show "p \<le> q \<Longrightarrow> q \<le> p \<Longrightarrow> p = q" by (cases p; cases q) (simp_all add: less_eq_phase_def word_le_nat_alt)
  show "p \<le> q \<or> q \<le> p" by (auto simp: less_eq_phase_def)
qed

end

section \<open>Messages\<close>

record quorum_certificate =
  qc_view :: view
  qc_block_id :: bytes32
  qc_phase :: phase
  qc_signatures :: "(node_id \<times> bytes) list"

record hotstuff_block =
  hb_block_id :: bytes32
  hb_parent_id :: bytes32
  hb_view :: view
  hb_leader_id :: node_id
  hb_batch_root :: bytes32
  hb_ordered_submission_ids :: "bytes32 list"
  hb_justify_qc :: "quorum_certificate option"

definition block_compute_id :: "extern \<Rightarrow> bytes32 \<Rightarrow> bytes32 \<Rightarrow> view \<Rightarrow> node_id \<Rightarrow> bytes32" where
  "block_compute_id X parent_id batch_root view leader_id =
     x_sha256 X (string_bytes ''HOTSTUFF_BLOCK_V1'' @ be_bytes 32 parent_id @ be_bytes 32 batch_root
       @ be_bytes 8 view @ be_bytes 32 leader_id)"

definition extends_direct :: "hotstuff_block \<Rightarrow> bytes32 \<Rightarrow> bool" where
  "extends_direct b ancestor_id \<longleftrightarrow> hb_parent_id b = ancestor_id"

definition qc_vote_hash :: "extern \<Rightarrow> view \<Rightarrow> bytes32 \<Rightarrow> phase \<Rightarrow> bytes32" where
  "qc_vote_hash X view block_id phase =
     x_sha256 X (string_bytes ''HOTSTUFF_VOTE_V1'' @ be_bytes 8 view @ be_bytes 32 block_id @ [phase_byte phase])"

definition has_quorum :: "quorum_certificate \<Rightarrow> usize \<Rightarrow> bool" where
  "has_quorum qc threshold \<longleftrightarrow> length (qc_signatures qc) \<ge> threshold"

definition qc_genesis :: quorum_certificate where
  "qc_genesis = \<lparr>qc_view = 0, qc_block_id = 0, qc_phase = Decide, qc_signatures = []\<rparr>"

record hotstuff_vote =
  hv_view :: view
  hv_block_id :: bytes32
  hv_phase :: phase
  hv_voter_id :: node_id
  hv_signature :: bytes

definition vote_vote_hash :: "extern \<Rightarrow> hotstuff_vote \<Rightarrow> bytes32" where
  "vote_vote_hash X v = qc_vote_hash X (hv_view v) (hv_block_id v) (hv_phase v)"

record new_view_message =
  nv_new_view :: view
  nv_high_qc :: quorum_certificate
  nv_sender_id :: node_id

section \<open>Safety rule\<close>

record safety_rule =
  sf_locked_qc :: quorum_certificate
  sf_high_qc :: quorum_certificate
  sf_current_view :: view
  sf_last_voted_view :: view

definition safety_new :: safety_rule where
  "safety_new = \<lparr>sf_locked_qc = qc_genesis, sf_high_qc = qc_genesis, sf_current_view = 0, sf_last_voted_view = 0\<rparr>"

definition safe_to_vote :: "safety_rule \<Rightarrow> hotstuff_block \<Rightarrow> bool" where
  "safe_to_vote s block =
     (if hb_view block \<le> sf_last_voted_view s then False
      else if extends_direct block (qc_block_id (sf_locked_qc s)) then True
      else if (case hb_justify_qc block of None \<Rightarrow> False | Some j \<Rightarrow> qc_view j > qc_view (sf_locked_qc s)) then True
      else hb_parent_id block = 0)"

definition record_vote :: "view \<Rightarrow> safety_rule \<Rightarrow> safety_rule" where
  "record_vote view s = (if view > sf_last_voted_view s then s\<lparr>sf_last_voted_view := view\<rparr> else s)"

definition update_high_qc :: "quorum_certificate \<Rightarrow> safety_rule \<Rightarrow> safety_rule" where
  "update_high_qc qc s = (if qc_view qc > qc_view (sf_high_qc s) then s\<lparr>sf_high_qc := qc\<rparr> else s)"

definition safety_lock :: "quorum_certificate \<Rightarrow> safety_rule \<Rightarrow> safety_rule" where
  "safety_lock qc s =
     (if qc_view qc \<ge> qc_view (sf_locked_qc s) then update_high_qc qc (s\<lparr>sf_locked_qc := qc\<rparr>) else s)"

definition safety_advance_view :: "view \<Rightarrow> safety_rule \<Rightarrow> safety_rule" where
  "safety_advance_view new_view s = (if new_view > sf_current_view s then s\<lparr>sf_current_view := new_view\<rparr> else s)"

section \<open>Message checks\<close>

datatype consensus_verification_error =
    InvalidSignature node_id | NotCommitteeMember node_id | StaleView view view
  | DuplicateMessage node_id view | InsufficientQuorum usize usize | WrongLeader node_id node_id
  | ReplayDetected node_id

definition verify_vote_membership ::
  "hotstuff_vote \<Rightarrow> node_id set \<Rightarrow> view \<Rightarrow> consensus_verification_error + unit" where
  "verify_vote_membership vote committee current_view =
     (if hv_voter_id vote \<notin> committee then Inl (NotCommitteeMember (hv_voter_id vote))
      else if hv_view vote + 2 < current_view then Inl (StaleView (hv_view vote) current_view)
      else Inr ())"

definition verify_proposal_leader ::
  "hotstuff_block \<Rightarrow> node_id \<Rightarrow> node_id set \<Rightarrow> view \<Rightarrow> consensus_verification_error + unit" where
  "verify_proposal_leader block expected_leader committee current_view =
     (if hb_leader_id block \<notin> committee then Inl (NotCommitteeMember (hb_leader_id block))
      else if hb_leader_id block \<noteq> expected_leader then Inl (WrongLeader expected_leader (hb_leader_id block))
      else if hb_view block + 2 < current_view then Inl (StaleView (hb_view block) current_view)
      else Inr ())"

definition verify_qc_committee ::
  "quorum_certificate \<Rightarrow> node_id set \<Rightarrow> usize \<Rightarrow> consensus_verification_error + usize" where
  "verify_qc_committee qc committee quorum_threshold =
     (let valid_count = length (filter (\<lambda>e. fst e \<in> committee) (qc_signatures qc)) in
      if valid_count < quorum_threshold then Inl (InsufficientQuorum quorum_threshold valid_count)
      else Inr valid_count)"

definition verify_new_view_membership ::
  "new_view_message \<Rightarrow> node_id set \<Rightarrow> consensus_verification_error + unit" where
  "verify_new_view_membership nv committee =
     (if nv_sender_id nv \<notin> committee then Inl (NotCommitteeMember (nv_sender_id nv)) else Inr ())"

definition compute_vote_payload :: "extern \<Rightarrow> view \<Rightarrow> bytes32 \<Rightarrow> phase \<Rightarrow> bytes32" where
  "compute_vote_payload X view block_id phase =
     x_sha256 X (string_bytes ''HOTSTUFF_VOTE_V1'' @ be_bytes 8 view @ be_bytes 32 block_id
       @ [case phase of Prepare \<Rightarrow> 0 | PreCommit \<Rightarrow> 1 | Commit \<Rightarrow> 2 | Decide \<Rightarrow> 3])"

definition compute_proposal_payload :: "extern \<Rightarrow> hotstuff_block \<Rightarrow> bytes32" where
  "compute_proposal_payload X b =
     x_sha256 X (string_bytes ''HOTSTUFF_PROPOSAL_V1'' @ be_bytes 32 (hb_block_id b) @ be_bytes 8 (hb_view b)
       @ be_bytes 32 (hb_leader_id b) @ be_bytes 32 (hb_batch_root b))"

text \<open>\<^verbatim>\<open>Signature::from_slice\<close> of 64 bytes.\<close>

definition bytes64_of :: "bytes \<Rightarrow> bytes64" where
  "bytes64_of bs = foldl (\<lambda>a b. push_bit 8 a OR ucast b) 0 bs"

text \<open>
  \<^verbatim>\<open>HotStuffEngine::verify_qc\<close>: the loop over the signatures with the set of signers seen.
\<close>

fun count_valid_sigs ::
  "extern \<Rightarrow> ed25519 \<Rightarrow> bytes32 \<Rightarrow> (node_id \<Rightarrow> bytes32 option) \<Rightarrow> (node_id \<times> bytes) list \<Rightarrow> node_id list \<Rightarrow> usize" where
  "count_valid_sigs X E h lookup [] seen = 0"
| "count_valid_sigs X E h lookup ((signer, sig) # es) seen =
     (if signer \<in> set seen then count_valid_sigs X E h lookup es seen
      else (case lookup signer of
              None \<Rightarrow> 0
            | Some pk \<Rightarrow>
                if ed_key_ok E pk \<and> length sig = 64 \<and> ed_sig_ok E (bytes64_of sig) \<and> ed_verify E pk h (bytes64_of sig)
                then 1 else 0)
           + count_valid_sigs X E h lookup es (signer # seen))"

section \<open>Persistence\<close>

text \<open>
  \<^verbatim>\<open>bincode\<close> of the safety rule over a type of blobs, and the trait \<^verbatim>\<open>PersistenceBackend\<close> over a
  type of stores.
\<close>

record 'b codec =
  cd_encode :: "safety_rule \<Rightarrow> 'b"
  cd_decode :: "'b \<Rightarrow> safety_rule option"

definition codec_ok :: "'b codec \<Rightarrow> bool" where
  "codec_ok C \<longleftrightarrow> (\<forall>s. cd_decode C (cd_encode C s) = Some s)"

definition codec_std :: "safety_rule codec" where
  "codec_std = \<lparr>cd_encode = (\<lambda>s. s), cd_decode = Some\<rparr>"

record ('st, 'b) persistence_backend =
  pb_get :: "'st \<Rightarrow> bytes \<Rightarrow> 'b option"
  pb_put :: "bytes \<Rightarrow> 'b \<Rightarrow> 'st \<Rightarrow> 'st"
  pb_delete :: "bytes \<Rightarrow> 'st \<Rightarrow> 'st"
  pb_flush :: "'st \<Rightarrow> 'st"

definition in_memory_backend :: "((bytes, 'b) btree, 'b) persistence_backend" where
  "in_memory_backend =
     \<lparr>pb_get = (\<lambda>s k. bt_get s k), pb_put = (\<lambda>k v s. bt_put k v s), pb_delete = (\<lambda>k s. bt_del k s),
      pb_flush = (\<lambda>s. s)\<rparr>"

record hotstuff_consensus_state =
  hc_current_view :: view
  hc_high_qc :: quorum_certificate
  hc_locked_qc :: quorum_certificate
  hc_voted_views :: "(view \<times> u8) list"
  hc_last_finalized_view :: view
  hc_last_finalized_block_id :: bytes32

definition consensus_genesis :: hotstuff_consensus_state where
  "consensus_genesis = \<lparr>hc_current_view = 0, hc_high_qc = qc_genesis, hc_locked_qc = qc_genesis,
     hc_voted_views = [], hc_last_finalized_view = 0, hc_last_finalized_block_id = 0\<rparr>"

definition consensus_capture ::
  "view \<Rightarrow> quorum_certificate \<Rightarrow> quorum_certificate \<Rightarrow> (view \<times> u8) list \<Rightarrow> view \<Rightarrow> bytes32
     \<Rightarrow> hotstuff_consensus_state" where
  "consensus_capture current_view high_qc locked_qc voted_views fin_view fin_id =
     \<lparr>hc_current_view = current_view, hc_high_qc = high_qc, hc_locked_qc = locked_qc,
      hc_voted_views = voted_views, hc_last_finalized_view = fin_view, hc_last_finalized_block_id = fin_id\<rparr>"

definition consensus_has_voted :: "hotstuff_consensus_state \<Rightarrow> view \<Rightarrow> u8 \<Rightarrow> bool" where
  "consensus_has_voted s view phase = list_ex (\<lambda>e. fst e = view \<and> snd e = phase) (hc_voted_views s)"

definition finalized_block_key :: "view \<Rightarrow> bytes" where
  "finalized_block_key view = string_bytes ''hotstuff:finalized:'' @ be_bytes 8 view"

section \<open>Lemmas: signatures\<close>

lemma foldl_be_bytes:
  "foldl (\<lambda>a b. push_bit 8 a OR ucast b) a (be_bytes n w) = push_bit (8 * n) a OR take_bit (8 * n) w"
  for a w :: bytes64
proof (induction n arbitrary: a)
  case 0
  then show ?case by (simp add: be_bytes_def)
next
  case (Suc n)
  let ?u = "ucast (ucast (drop_bit (8 * n) w) :: u8) :: bytes64"
  have "push_bit (8 * n) ?u OR take_bit (8 * n) w = take_bit (8 * n + 8) w"
  proof (rule bit_word_eqI)
    fix k assume "k < LENGTH(512)"
    then show "bit (push_bit (8 * n) ?u OR take_bit (8 * n) w) k = bit (take_bit (8 * n + 8) w) k"
      by (cases "k < 8 * n") (simp_all add: bit_simps less_diff_conv2, linarith)
  qed
  then have "push_bit (8 * n) (push_bit 8 a OR ?u) OR take_bit (8 * n) w =
      push_bit (8 * n + 8) a OR take_bit (8 * n + 8) w"
    unfolding push_bit_or push_bit_push_bit or.assoc by (rule arg_cong)
  moreover have "8 * Suc n = 8 * n + 8" by simp
  ultimately show ?case by (simp only: be_bytes_Suc Suc.IH foldl.simps)
qed

lemma bytes64_round_trip: "bytes64_of (be_bytes 64 w) = w"
  by (simp add: bytes64_of_def foldl_be_bytes take_bit_length_eq [where 'a = 512, simplified])

lemma compute_vote_payload_eq: "compute_vote_payload X view block_id phase = qc_vote_hash X view block_id phase"
  by (cases phase) (simp_all add: compute_vote_payload_def qc_vote_hash_def)

text \<open>The node has a valid signature on the vote hash among the entries.\<close>

definition sig_valid :: "ed25519 \<Rightarrow> bytes32 \<Rightarrow> (node_id \<Rightarrow> bytes32 option) \<Rightarrow> node_id \<Rightarrow> bytes \<Rightarrow> bool" where
  "sig_valid E h lookup n sig \<longleftrightarrow>
     (\<exists>pk. lookup n = Some pk \<and> ed_key_ok E pk \<and> length sig = 64 \<and> ed_sig_ok E (bytes64_of sig) \<and>
        ed_verify E pk h (bytes64_of sig))"

definition valid_signers ::
  "ed25519 \<Rightarrow> bytes32 \<Rightarrow> (node_id \<Rightarrow> bytes32 option) \<Rightarrow> (node_id \<times> bytes) list \<Rightarrow> node_id set" where
  "valid_signers E h lookup es = {n. \<exists>sig. (n, sig) \<in> set es \<and> sig_valid E h lookup n sig}"

lemma valid_signers_Cons:
  "valid_signers E h lookup ((n, sig) # es) =
     (if sig_valid E h lookup n sig then {n} else {}) \<union> valid_signers E h lookup es"
  by (auto simp: valid_signers_def)

lemma count_valid_sigs_Cons:
  "count_valid_sigs X E h lookup ((n, sig) # es) seen =
     (if n \<in> set seen then count_valid_sigs X E h lookup es seen
      else (if sig_valid E h lookup n sig then 1 else 0) + count_valid_sigs X E h lookup es (n # seen))"
  by (simp add: sig_valid_def split: option.split)

lemma count_valid_sigs_le:
  "count_valid_sigs X E h lookup es seen \<le> card (valid_signers E h lookup es - set seen)"
proof (induction es arbitrary: seen)
  case (Cons e es)
  obtain n sig where e: "e = (n, sig)" by fastforce
  let ?V = "valid_signers E h lookup es"
  show ?case
  proof (cases "n \<in> set seen")
    case True
    then have "valid_signers E h lookup (e # es) - set seen = ?V - set seen"
      by (auto simp: e valid_signers_Cons)
    with True Cons show ?thesis by (simp add: e count_valid_sigs_Cons del: count_valid_sigs.simps)
  next
    case False
    have "card (?V - set (n # seen)) + (if sig_valid E h lookup n sig then 1 else 0)
        \<le> card (valid_signers E h lookup (e # es) - set seen)"
    proof (cases "sig_valid E h lookup n sig")
      case True
      with False have "valid_signers E h lookup (e # es) - set seen = insert n (?V - set (n # seen))"
        by (auto simp: e valid_signers_Cons)
      with True show ?thesis by simp
    next
      case False
      then show ?thesis by (auto simp: e valid_signers_Cons intro!: card_mono)
    qed
    with False Cons [of "n # seen"] show ?thesis
      by (simp add: e count_valid_sigs_Cons del: count_valid_sigs.simps)
  qed
qed simp

text \<open>
  What a threshold check on distinct members gives: any two accepted certificates share members, and
  an honest one when the threshold is high enough for the faulty ones.
\<close>

locale quorum_system =
  fixes members :: "'n::finite set"
    and threshold :: nat
    and accepted :: "'q \<Rightarrow> bool"
    and signers :: "'q \<Rightarrow> 'n set"
  assumes signers_members: "signers q \<subseteq> members"
    and accepted_quorum: "accepted q \<Longrightarrow> threshold \<le> card (signers q)"
begin

lemma intersection:
  assumes "accepted q" and "accepted r"
  shows "2 * threshold \<le> card members + card (signers q \<inter> signers r)"
proof -
  have "card (signers q) + card (signers r) = card (signers q \<union> signers r) + card (signers q \<inter> signers r)"
    by (rule card_Un_Int [OF finite finite])
  moreover have "card (signers q \<union> signers r) \<le> card members"
    using signers_members by (intro card_mono [OF finite] Un_least)
  ultimately show ?thesis using accepted_quorum [OF assms(1)] accepted_quorum [OF assms(2)] by linarith
qed

lemma honest_in_both:
  assumes "accepted q" and "accepted r" and "card (members - honest) \<le> f" and "card members + f < 2 * threshold"
  shows "\<exists>n \<in> honest. n \<in> signers q \<and> n \<in> signers r"
proof (rule ccontr)
  assume "\<not> ?thesis"
  then have "signers q \<inter> signers r \<subseteq> members - honest" using signers_members by blast
  then have "card (signers q \<inter> signers r) \<le> card (members - honest)" by (rule card_mono [OF finite])
  then show False using intersection [OF assms(1,2)] assms(3,4) by linarith
qed

end

section \<open>Lemmas: the safety rule\<close>

text \<open>\<^verbatim>\<open>HighQC.view >= LockedQC.view always\<close>.\<close>

definition safety_ok :: "safety_rule \<Rightarrow> bool" where
  "safety_ok s \<longleftrightarrow> qc_view (sf_locked_qc s) \<le> qc_view (sf_high_qc s)"

definition safety_le :: "safety_rule \<Rightarrow> safety_rule \<Rightarrow> bool" where
  "safety_le s s' \<longleftrightarrow> qc_view (sf_locked_qc s) \<le> qc_view (sf_locked_qc s') \<and>
     qc_view (sf_high_qc s) \<le> qc_view (sf_high_qc s') \<and> sf_current_view s \<le> sf_current_view s' \<and>
     sf_last_voted_view s \<le> sf_last_voted_view s'"

lemma safety_le_refl [simp]: "safety_le s s"
  by (simp add: safety_le_def)

lemma safety_le_trans [trans]: "safety_le s s' \<Longrightarrow> safety_le s' s'' \<Longrightarrow> safety_le s s''"
  by (auto simp: safety_le_def)

lemma safety_new_ok [simp]: "safety_ok safety_new"
  by (simp add: safety_ok_def safety_new_def)

lemma safety_ops_ok [simp]:
  "safety_ok s \<Longrightarrow> safety_ok (record_vote v s)" "safety_ok s \<Longrightarrow> safety_ok (update_high_qc qc s)"
  "safety_ok s \<Longrightarrow> safety_ok (safety_lock qc s)" "safety_ok s \<Longrightarrow> safety_ok (safety_advance_view v s)"
  by (auto simp: safety_ok_def record_vote_def update_high_qc_def safety_lock_def safety_advance_view_def)

lemma safety_ops_le [simp]:
  "safety_le s (record_vote v s)" "safety_le s (update_high_qc qc s)" "safety_le s (safety_advance_view v s)"
  "safety_le s (safety_lock qc s)"
  by (auto simp: safety_le_def record_vote_def update_high_qc_def safety_lock_def safety_advance_view_def)

lemma last_voted_ops [simp]:
  "sf_last_voted_view (update_high_qc qc s) = sf_last_voted_view s"
  "sf_last_voted_view (safety_lock qc s) = sf_last_voted_view s"
  "sf_last_voted_view (safety_advance_view v s) = sf_last_voted_view s"
  "sf_last_voted_view (record_vote v s) = max v (sf_last_voted_view s)"
  by (auto simp: record_vote_def update_high_qc_def safety_lock_def safety_advance_view_def max_def)

section \<open>The persistence interface\<close>

locale persistence =
  fixes backend :: "('st, 'b) persistence_backend"
  assumes get_put: "pb_get backend (pb_put backend k v s) k' = (if k' = k then Some v else pb_get backend s k')"
    and get_delete: "pb_get backend (pb_delete backend k s) k' = (if k' = k then None else pb_get backend s k')"
    and get_flush: "pb_get backend (pb_flush backend s) k = pb_get backend s k"
begin

lemma get_put_flush: "pb_get backend (pb_flush backend (pb_put backend k v s)) k = Some v"
  by (simp add: get_flush get_put)

end

interpretation in_memory: persistence in_memory_backend
  by unfold_locales (simp_all add: in_memory_backend_def map_simps)

end
