(* ===== verification/HotStuff_Engine.thy ===== *)
theory HotStuff_Engine
  imports HotStuff_Types
begin

text \<open>
  The consensus engine of the sequencer: the pacemaker, \<^verbatim>\<open>poseq/src/hotstuff/pacemaker.rs\<close>, and
  \<^verbatim>\<open>HotStuffEngine\<close>, \<^verbatim>\<open>poseq/src/hotstuff/engine.rs\<close>, one definition per message handler.
  \<^verbatim>\<open>Instant::now()\<close> is the argument \<open>now\<close> (milliseconds); durations are milliseconds.
  \<open>engine_step\<close> runs the handlers as a machine over the inputs of a node, crashes included: a
  crash is a fresh engine that restores the safety rule persisted before.
\<close>

section \<open>Pacemaker\<close>

datatype view_state = AwaitingProposal | Voted | Decided | TimedOut

record pacemaker =
  pm_current_view :: view
  pm_state :: view_state
  pm_view_started_at :: nat
  pm_current_timeout :: nat
  pm_base_timeout :: nat
  pm_max_timeout :: nat
  pm_consecutive_timeouts :: u32
  pm_total_view_changes :: u64

text \<open>\<^verbatim>\<open>Duration::MAX\<close> in whole milliseconds, and \<^verbatim>\<open>saturating_mul\<close>.\<close>

definition duration_max :: nat where
  "duration_max = (2 ^ 64 - 1) * 1000 + 999"

definition duration_sat_mul :: "nat \<Rightarrow> nat \<Rightarrow> nat" where
  "duration_sat_mul d k = min (d * k) duration_max"

definition pacemaker_new :: "u64 \<Rightarrow> nat \<Rightarrow> pacemaker" where
  "pacemaker_new base_timeout_ms now =
     \<lparr>pm_current_view = 1, pm_state = AwaitingProposal, pm_view_started_at = now,
      pm_current_timeout = unat base_timeout_ms, pm_base_timeout = unat base_timeout_ms,
      pm_max_timeout = unat base_timeout_ms * 32, pm_consecutive_timeouts = 0, pm_total_view_changes = 0\<rparr>"

definition pm_is_timed_out :: "pacemaker \<Rightarrow> nat \<Rightarrow> bool" where
  "pm_is_timed_out p now \<longleftrightarrow> now - pm_view_started_at p \<ge> pm_current_timeout p"

definition time_remaining :: "pacemaker \<Rightarrow> nat \<Rightarrow> nat" where
  "time_remaining p now = pm_current_timeout p - (now - pm_view_started_at p)"

definition pm_advance_view :: "node_id \<Rightarrow> safety_rule \<Rightarrow> nat \<Rightarrow> pacemaker \<Rightarrow> pacemaker \<times> new_view_message" where
  "pm_advance_view self_id safety now p =
     (let p' = p\<lparr>pm_current_view := pm_current_view p + 1, pm_state := AwaitingProposal,
                 pm_consecutive_timeouts := pm_consecutive_timeouts p + 1,
                 pm_total_view_changes := pm_total_view_changes p + 1,
                 pm_current_timeout := min (duration_sat_mul (pm_current_timeout p) 2) (pm_max_timeout p),
                 pm_view_started_at := now\<rparr>
      in (p', \<lparr>nv_new_view = pm_current_view p', nv_high_qc = sf_high_qc safety, nv_sender_id = self_id\<rparr>))"

definition on_decide :: "pacemaker \<Rightarrow> pacemaker" where
  "on_decide p = p\<lparr>pm_state := Decided, pm_consecutive_timeouts := 0, pm_current_timeout := pm_base_timeout p\<rparr>"

definition on_voted :: "pacemaker \<Rightarrow> pacemaker" where
  "on_voted p = p\<lparr>pm_state := Voted\<rparr>"

definition reset_view_timer :: "view \<Rightarrow> nat \<Rightarrow> pacemaker \<Rightarrow> pacemaker" where
  "reset_view_timer new_view now p =
     (if new_view > pm_current_view p
      then p\<lparr>pm_current_view := new_view, pm_state := AwaitingProposal, pm_view_started_at := now\<rparr> else p)"

text \<open>\<^verbatim>\<open>max_by_key\<close>: the last of the messages with the highest view.\<close>

definition select_high_qc :: "new_view_message list \<Rightarrow> quorum_certificate option" where
  "select_high_qc new_views =
     fold (\<lambda>nv best. case best of None \<Rightarrow> Some (nv_high_qc nv)
       | Some q \<Rightarrow> if qc_view (nv_high_qc nv) \<ge> qc_view q then Some (nv_high_qc nv) else Some q) new_views None"

definition new_view_quorum_reached :: "new_view_message list \<Rightarrow> usize \<Rightarrow> bool" where
  "new_view_quorum_reached new_views threshold \<longleftrightarrow> length new_views \<ge> threshold"

section \<open>Engine\<close>

datatype hotstuff_output =
    NoOutput | SendVote hotstuff_vote | BroadcastQC quorum_certificate | SendNewView new_view_message
  | Finalize hotstuff_block | Multi "hotstuff_output list"

record hotstuff_engine =
  he_self_id :: node_id
  he_quorum_threshold :: usize
  he_safety :: safety_rule
  he_pacemaker :: pacemaker
  he_pending_block :: "hotstuff_block option"
  he_votes :: "(view \<times> phase, hotstuff_vote list) btree"
  he_new_views :: "new_view_message list"
  he_voted :: "(view \<times> phase, bool) btree"
  he_decided_blocks :: "(view, bytes32) btree"

definition engine_new :: "node_id \<Rightarrow> usize \<Rightarrow> u64 \<Rightarrow> nat \<Rightarrow> hotstuff_engine" where
  "engine_new self_id quorum_threshold base_timeout_ms now =
     \<lparr>he_self_id = self_id, he_quorum_threshold = quorum_threshold, he_safety = safety_new,
      he_pacemaker = pacemaker_new base_timeout_ms now, he_pending_block = None, he_votes = [],
      he_new_views = [], he_voted = [], he_decided_blocks = []\<rparr>"

definition unsigned_vote_sig :: bytes where
  "unsigned_vote_sig = []"

definition engine_vote :: "hotstuff_engine \<Rightarrow> view \<Rightarrow> bytes32 \<Rightarrow> phase \<Rightarrow> hotstuff_vote" where
  "engine_vote e view block_id phase =
     \<lparr>hv_view = view, hv_block_id = block_id, hv_phase = phase, hv_voter_id = he_self_id e,
      hv_signature = unsigned_vote_sig\<rparr>"

definition on_block :: "hotstuff_block \<Rightarrow> nat \<Rightarrow> hotstuff_engine \<Rightarrow> hotstuff_engine \<times> hotstuff_output" where
  "on_block block now e =
     (let view = hb_view block in
      if view < pm_current_view (he_pacemaker e) then (e, NoOutput)
      else
        let s1 = (case hb_justify_qc block of None \<Rightarrow> he_safety e | Some qc \<Rightarrow> update_high_qc qc (he_safety e));
            e1 = e\<lparr>he_pacemaker := reset_view_timer view now (he_pacemaker e),
                   he_safety := safety_advance_view view s1\<rparr>
        in if \<not> safe_to_vote (he_safety e1) block then (e1, NoOutput)
           else
             let e2 = e1\<lparr>he_pending_block := Some block\<rparr>; key = (view, Prepare) in
             if bt_has (he_voted e2) key then (e2, NoOutput)
             else
               (e2\<lparr>he_voted := bt_put key True (he_voted e2),
                   he_safety := record_vote view (he_safety e2),
                   he_pacemaker := on_voted (he_pacemaker e2)\<rparr>,
                SendVote (engine_vote e view (hb_block_id block) Prepare)))"

definition form_qc :: "hotstuff_vote \<Rightarrow> hotstuff_vote list \<Rightarrow> quorum_certificate" where
  "form_qc vote entry =
     \<lparr>qc_view = hv_view vote, qc_block_id = hv_block_id vote, qc_phase = hv_phase vote,
      qc_signatures = map (\<lambda>v. (hv_voter_id v, hv_signature v)) entry\<rparr>"

definition on_vote :: "hotstuff_vote \<Rightarrow> hotstuff_engine \<Rightarrow> hotstuff_engine \<times> hotstuff_output" where
  "on_vote vote e =
     (let view = hv_view vote; phase = hv_phase vote; key = (view, phase);
          entry = (case bt_get (he_votes e) key of None \<Rightarrow> [] | Some vs \<Rightarrow> vs)
      in if list_ex (\<lambda>v. hv_voter_id v = hv_voter_id vote) entry
         then (e\<lparr>he_votes := bt_put key entry (he_votes e)\<rparr>, NoOutput)
         else
           let entry' = entry @ [vote]; e1 = e\<lparr>he_votes := bt_put key entry' (he_votes e)\<rparr> in
           if length entry' < he_quorum_threshold e then (e1, NoOutput)
           else
             let qc = form_qc vote entry' in
             case phase of
               Prepare \<Rightarrow> (e1\<lparr>he_safety := update_high_qc qc (he_safety e1)\<rparr>, BroadcastQC qc)
             | PreCommit \<Rightarrow> (e1\<lparr>he_safety := safety_lock qc (he_safety e1)\<rparr>, BroadcastQC qc)
             | Commit \<Rightarrow>
                 (case he_pending_block e1 of
                    None \<Rightarrow> (e1, BroadcastQC qc)
                  | Some block \<Rightarrow>
                      if hb_block_id block \<noteq> hv_block_id vote then (e1, BroadcastQC qc)
                      else if bt_has (he_decided_blocks e1) view then (e1, NoOutput)
                      else (e1\<lparr>he_decided_blocks := bt_put view (hb_block_id block) (he_decided_blocks e1),
                               he_pacemaker := on_decide (he_pacemaker e1)\<rparr>,
                            Multi [BroadcastQC qc, Finalize block]))
             | Decide \<Rightarrow> (e1, NoOutput))"

definition on_qc :: "quorum_certificate \<Rightarrow> hotstuff_engine \<Rightarrow> hotstuff_engine \<times> hotstuff_output" where
  "on_qc qc e =
     (case phase_next (qc_phase qc) of
        None \<Rightarrow> (e, NoOutput)
      | Some next_phase \<Rightarrow>
          (let view = qc_view qc;
               s1 = update_high_qc qc (he_safety e);
               s2 = (if qc_phase qc = PreCommit then safety_lock qc s1 else s1);
               e1 = e\<lparr>he_safety := s2\<rparr>;
               key = (view, next_phase)
           in if bt_has (he_voted e1) key then (e1, NoOutput)
              else if qc_phase qc = Commit then
                (case he_pending_block e1 of
                   None \<Rightarrow> (e1, NoOutput)
                 | Some block \<Rightarrow>
                     if hb_block_id block = qc_block_id qc \<and> \<not> bt_has (he_decided_blocks e1) view
                     then (e1\<lparr>he_decided_blocks := bt_put view (hb_block_id block) (he_decided_blocks e1),
                              he_pacemaker := on_decide (he_pacemaker e1)\<rparr>, Finalize block)
                     else (e1, NoOutput))
              else
                (e1\<lparr>he_voted := bt_put key True (he_voted e1), he_safety := record_vote view (he_safety e1)\<rparr>,
                 SendVote (engine_vote e view (qc_block_id qc) next_phase))))"

text \<open>\<^verbatim>\<open>pending_block.map(|b| b.view) < Some(v)\<close>: \<^verbatim>\<open>None\<close> is below \<^verbatim>\<open>Some\<close>.\<close>

definition clear_view_state :: "hotstuff_engine \<Rightarrow> hotstuff_engine" where
  "clear_view_state e =
     (let v = pm_current_view (he_pacemaker e) in
      e\<lparr>he_votes := bt_retain (\<lambda>k _. fst k \<ge> v) (he_votes e),
        he_voted := bt_retain (\<lambda>k _. fst k \<ge> v) (he_voted e),
        he_new_views := [],
        he_pending_block := (case he_pending_block e of None \<Rightarrow> None
          | Some b \<Rightarrow> if hb_view b < v then None else Some b)\<rparr>)"

definition on_new_view :: "new_view_message \<Rightarrow> nat \<Rightarrow> hotstuff_engine \<Rightarrow> hotstuff_engine \<times> hotstuff_output" where
  "on_new_view nv now e =
     (let new_view = nv_new_view nv in
      if list_ex (\<lambda>n. nv_sender_id n = nv_sender_id nv) (he_new_views e) then (e, NoOutput)
      else
        let e1 = e\<lparr>he_new_views := he_new_views e @ [nv]\<rparr>;
            e2 = (case select_high_qc (he_new_views e1) of None \<Rightarrow> e1
                  | Some best \<Rightarrow> e1\<lparr>he_safety := update_high_qc best (he_safety e1)\<rparr>)
        in if \<not> new_view_quorum_reached (he_new_views e2) (he_quorum_threshold e2) then (e2, NoOutput)
           else (clear_view_state (e2\<lparr>he_pacemaker := reset_view_timer new_view now (he_pacemaker e2),
                   he_safety := safety_advance_view new_view (he_safety e2)\<rparr>), NoOutput))"

definition on_timeout :: "nat \<Rightarrow> hotstuff_engine \<Rightarrow> hotstuff_engine \<times> hotstuff_output" where
  "on_timeout now e =
     (let (p, nv) = pm_advance_view (he_self_id e) (he_safety e) now (he_pacemaker e)
      in (clear_view_state (e\<lparr>he_pacemaker := p\<rparr>), SendNewView nv))"

definition propose ::
  "extern \<Rightarrow> bytes32 \<Rightarrow> bytes32 \<Rightarrow> bytes32 list \<Rightarrow> hotstuff_engine \<Rightarrow> hotstuff_engine \<times> hotstuff_block" where
  "propose X parent_block_id batch_root ordered_submission_ids e =
     (let view = pm_current_view (he_pacemaker e);
          block = \<lparr>hb_block_id = block_compute_id X parent_block_id batch_root view (he_self_id e),
                   hb_parent_id = parent_block_id, hb_view = view, hb_leader_id = he_self_id e,
                   hb_batch_root = batch_root, hb_ordered_submission_ids = ordered_submission_ids,
                   hb_justify_qc = Some (sf_high_qc (he_safety e))\<rparr>
      in (e\<lparr>he_pending_block := Some block\<rparr>, block))"

definition submit_verified_vote :: "hotstuff_vote \<Rightarrow> hotstuff_engine \<Rightarrow> hotstuff_engine \<times> hotstuff_output" where
  "submit_verified_vote vote e = on_vote vote e"

definition verify_qc ::
  "extern \<Rightarrow> ed25519 \<Rightarrow> hotstuff_engine \<Rightarrow> quorum_certificate \<Rightarrow> (node_id \<Rightarrow> bytes32 option) \<Rightarrow> bool" where
  "verify_qc X E e qc pubkey_lookup \<longleftrightarrow>
     count_valid_sigs X E (qc_vote_hash X (qc_view qc) (qc_block_id qc) (qc_phase qc)) pubkey_lookup
       (qc_signatures qc) [] \<ge> he_quorum_threshold e"

definition sign_vote :: "extern \<Rightarrow> ed25519 \<Rightarrow> bytes32 \<Rightarrow> hotstuff_vote \<Rightarrow> hotstuff_vote" where
  "sign_vote X E signing_seed vote =
     vote\<lparr>hv_signature := be_bytes 64 (ed_sign E signing_seed (vote_vote_hash X vote))\<rparr>"

definition safety_rule_key :: bytes where
  "safety_rule_key = string_bytes ''hotstuff/safety_rule''"

definition persist_safety_rule ::
  "('st, 'b) persistence_backend \<Rightarrow> 'b codec \<Rightarrow> hotstuff_engine \<Rightarrow> 'st \<Rightarrow> 'st" where
  "persist_safety_rule B C e store =
     pb_flush B (pb_put B safety_rule_key (cd_encode C (he_safety e)) store)"

definition restore_safety_rule ::
  "('st, 'b) persistence_backend \<Rightarrow> 'b codec \<Rightarrow> 'st \<Rightarrow> nat \<Rightarrow> hotstuff_engine \<Rightarrow> hotstuff_engine \<times> bool" where
  "restore_safety_rule B C store now e =
     (case pb_get B store safety_rule_key of
        None \<Rightarrow> (e, False)
      | Some bytes \<Rightarrow>
          (case cd_decode C bytes of
             None \<Rightarrow> (e, False)
           | Some rule \<Rightarrow>
               (e\<lparr>he_safety := rule,
                  he_pacemaker := reset_view_timer (sf_current_view rule) now (he_pacemaker e)\<rparr>, True)))"

definition engine_is_timed_out :: "hotstuff_engine \<Rightarrow> nat \<Rightarrow> bool" where
  "engine_is_timed_out e now = pm_is_timed_out (he_pacemaker e) now"

section \<open>The engine as a machine\<close>

text \<open>
  The inputs of a node in any order, each with the clock; a crash loses everything but the
  persisted safety rule.
\<close>

datatype engine_input =
    InBlock hotstuff_block nat | InVote hotstuff_vote | InQC quorum_certificate
  | InNewView new_view_message nat | InTimeout nat | InPropose bytes32 bytes32 "bytes32 list"
  | InCrash nat

definition crash_restart ::
  "((bytes, 'b) btree, 'b) persistence_backend \<Rightarrow> 'b codec \<Rightarrow> u64 \<Rightarrow> nat \<Rightarrow> hotstuff_engine \<Rightarrow> hotstuff_engine" where
  "crash_restart B C base_ms now e =
     fst (restore_safety_rule B C (persist_safety_rule B C e []) now
            (engine_new (he_self_id e) (he_quorum_threshold e) base_ms now))"

fun engine_step ::
  "extern \<Rightarrow> 'b codec \<Rightarrow> u64 \<Rightarrow> hotstuff_engine \<Rightarrow> engine_input \<Rightarrow> hotstuff_engine \<times> engine_input \<times> hotstuff_output" where
  "engine_step X C base e (InBlock b now) = (let (e', out) = on_block b now e in (e', InBlock b now, out))"
| "engine_step X C base e (InVote v) = (let (e', out) = submit_verified_vote v e in (e', InVote v, out))"
| "engine_step X C base e (InQC q) = (let (e', out) = on_qc q e in (e', InQC q, out))"
| "engine_step X C base e (InNewView nv now) = (let (e', out) = on_new_view nv now e in (e', InNewView nv now, out))"
| "engine_step X C base e (InTimeout now) = (let (e', out) = on_timeout now e in (e', InTimeout now, out))"
| "engine_step X C base e (InPropose p r ids) = (fst (propose X p r ids e), InPropose p r ids, NoOutput)"
| "engine_step X C base e (InCrash now) = (crash_restart in_memory_backend C base now e, InCrash now, NoOutput)"

section \<open>Lemmas: persistence\<close>

context persistence
begin

lemma restore_persisted:
  assumes "codec_ok C"
  shows "restore_safety_rule backend C (persist_safety_rule backend C e store) now e' =
    (e'\<lparr>he_safety := he_safety e,
        he_pacemaker := reset_view_timer (sf_current_view (he_safety e)) now (he_pacemaker e')\<rparr>, True)"
  using assms by (simp add: restore_safety_rule_def persist_safety_rule_def get_put_flush codec_ok_def)

end

lemma crash_restart_eq:
  "codec_ok C \<Longrightarrow> crash_restart in_memory_backend C base now e =
     (engine_new (he_self_id e) (he_quorum_threshold e) base now)\<lparr>he_safety := he_safety e,
       he_pacemaker := reset_view_timer (sf_current_view (he_safety e)) now (pacemaker_new base now)\<rparr>"
  by (simp add: crash_restart_def in_memory.restore_persisted) (simp add: engine_new_def)

section \<open>Lemmas: one step\<close>

lemmas handler_defs =
  on_block_def on_vote_def submit_verified_vote_def on_qc_def on_new_view_def on_timeout_def propose_def
  clear_view_state_def pm_advance_view_def

lemma step_safety_ok:
  assumes "codec_ok C" and "safety_ok (he_safety e)"
  shows "safety_ok (he_safety (fst (engine_step X C base e i)))"
  using assms
  by (cases i) (auto simp: handler_defs crash_restart_eq Let_def split: option.split phase.split)

lemma step_safety_le:
  assumes "codec_ok C"
  shows "safety_le (he_safety e) (he_safety (fst (engine_step X C base e i)))"
proof -
  have le: "safety_le s s' \<Longrightarrow> safety_le s (record_vote v s')" "safety_le s s' \<Longrightarrow> safety_le s (update_high_qc q s')"
    "safety_le s s' \<Longrightarrow> safety_le s (safety_advance_view v s')" "safety_le s s' \<Longrightarrow> safety_le s (safety_lock q s')"
    for s s' v q
    by (rule safety_le_trans, assumption, simp)+
  show ?thesis
    using assms by (cases i) (auto simp: handler_defs crash_restart_eq Let_def intro!: le split: option.split phase.split)
qed

text \<open>Four views of the safety rule that may only grow, as one rank.\<close>

datatype safety_field = LockedView | HighView | CurrentView | LastVotedView

fun safety_views :: "safety_rule \<Rightarrow> safety_field \<Rightarrow> view" where
  "safety_views s LockedView = qc_view (sf_locked_qc s)"
| "safety_views s HighView = qc_view (sf_high_qc s)"
| "safety_views s CurrentView = sf_current_view s"
| "safety_views s LastVotedView = sf_last_voted_view s"

lemma safety_le_views: "safety_le s s' \<longleftrightarrow> safety_views s \<le> safety_views s'"
proof -
  have all_fields: "(\<forall>f. P f) \<longleftrightarrow> P LockedView \<and> P HighView \<and> P CurrentView \<and> P LastVotedView"
    for P :: "safety_field \<Rightarrow> bool"
    by (auto intro: safety_field.induct)
  show ?thesis by (simp add: le_fun_def safety_le_def all_fields)
qed

interpretation locks: monotone_machine "engine_step X C base"
  "\<lambda>_ e. codec_ok C \<and> safety_ok (he_safety e)" "\<lambda>e. safety_views (he_safety e)" for X C base
  by unfold_locales (use step_safety_ok step_safety_le safety_le_views in blast)+

section \<open>Lemmas: votes of a node\<close>

fun prepare_views :: "engine_input \<times> hotstuff_output \<Rightarrow> view list" where
  "prepare_views (i, SendVote v) = (if hv_phase v = Prepare then [hv_view v] else [])"
| "prepare_views (i, _) = []"

lemma phase_next_not_Prepare: "phase_next p = Some q \<Longrightarrow> q \<noteq> Prepare"
  by (cases p) auto

lemma step_prepare_views:
  "prepare_views (snd (engine_step X C base e i)) \<noteq> [] \<Longrightarrow>
     \<exists>b now. i = InBlock b now \<and> prepare_views (snd (engine_step X C base e i)) = [hb_view b] \<and>
       hb_view b > sf_last_voted_view (he_safety e) \<and>
       sf_last_voted_view (he_safety (fst (engine_step X C base e i))) = hb_view b"
  by (cases i)
    (auto simp: handler_defs engine_vote_def safe_to_vote_def Let_def max_def dest: phase_next_not_Prepare
      split: option.splits phase.splits if_splits)

interpretation prepare_once: once_machine "engine_step X C base" "\<lambda>_ _. codec_ok C" prepare_views
  "\<lambda>e v. v \<le> sf_last_voted_view (he_safety e)" for X C base
proof unfold_locales
  fix i "is" e k
  assume C: "codec_ok C"
  let ?vs = "prepare_views (snd (engine_step X C base e i))"
  show "distinct ?vs" using step_prepare_views [of X C base e i] by (cases "?vs = []") auto
  show "k \<in> set ?vs \<Longrightarrow> \<not> k \<le> sf_last_voted_view (he_safety e)"
    using step_prepare_views [of X C base e i] by (cases "?vs = []") auto
  show "k \<in> set ?vs \<Longrightarrow> k \<le> sf_last_voted_view (he_safety (fst (engine_step X C base e i)))"
    using step_prepare_views [of X C base e i] by (cases "?vs = []") auto
  show "k \<le> sf_last_voted_view (he_safety e) \<Longrightarrow>
      k \<le> sf_last_voted_view (he_safety (fst (engine_step X C base e i)))"
    using step_safety_le [OF C, of e X base i] by (auto simp: safety_le_def)
qed simp

section \<open>Lemmas: finalization\<close>

fun finalizes :: "hotstuff_output \<Rightarrow> hotstuff_block list" where
  "finalizes (Finalize b) = [b]"
| "finalizes (Multi outs) = concat (map finalizes outs)"
| "finalizes _ = []"

text \<open>The view of the votes or of the certificate an input carries.\<close>

fun certified_view :: "engine_input \<Rightarrow> view" where
  "certified_view (InVote v) = hv_view v"
| "certified_view (InQC q) = qc_view q"
| "certified_view _ = 0"

fun finalized_views :: "engine_input \<times> hotstuff_output \<Rightarrow> view list" where
  "finalized_views (i, out) = map (\<lambda>_. certified_view i) (finalizes out)"

fun is_crash :: "engine_input \<Rightarrow> bool" where
  "is_crash (InCrash _) = True"
| "is_crash _ = False"

lemma step_finalizes:
  assumes "finalized_views (snd (engine_step X C base e i)) \<noteq> []"
  shows "\<exists>b. he_pending_block e = Some b \<and> finalizes (snd (snd (engine_step X C base e i))) = [b] \<and>
    finalized_views (snd (engine_step X C base e i)) = [certified_view i] \<and>
    \<not> bt_has (he_decided_blocks e) (certified_view i) \<and>
    bt_get (he_decided_blocks (fst (engine_step X C base e i))) (certified_view i) = Some (hb_block_id b)"
  using assms
  by (cases i) (auto simp: handler_defs Let_def map_simps split: option.splits phase.splits if_splits)

lemma step_decided_mono:
  "\<not> is_crash i \<Longrightarrow> bt_has (he_decided_blocks e) v \<Longrightarrow>
     bt_has (he_decided_blocks (fst (engine_step X C base e i))) v"
  by (cases i) (auto simp: handler_defs Let_def bt_has_def map_simps split: option.split phase.split)

interpretation finalize_once: once_machine "engine_step X C base" "\<lambda>is _. \<not> list_ex is_crash is"
  finalized_views "\<lambda>e v. bt_has (he_decided_blocks e) v" for X C base
proof unfold_locales
  fix i "is" e k
  assume ok: "\<not> list_ex is_crash (i # is)"
  let ?vs = "finalized_views (snd (engine_step X C base e i))"
  show "distinct ?vs" using step_finalizes [of X C base e i] by (cases "?vs = []") auto
  show "k \<in> set ?vs \<Longrightarrow> \<not> bt_has (he_decided_blocks e) k"
    using step_finalizes [of X C base e i] by (cases "?vs = []") auto
  show "k \<in> set ?vs \<Longrightarrow> bt_has (he_decided_blocks (fst (engine_step X C base e i))) k"
    using step_finalizes [of X C base e i] by (cases "?vs = []") (auto simp: bt_has_def)
  show "bt_has (he_decided_blocks e) k \<Longrightarrow> bt_has (he_decided_blocks (fst (engine_step X C base e i))) k"
    using ok step_decided_mono [of i e k X C base] by simp
qed simp

section \<open>Lemmas: certificates\<close>

text \<open>
  The vote table: each entry holds votes of its view and phase by distinct voters, all of them
  received (in \<open>V\<close>).
\<close>

definition votes_ok :: "hotstuff_vote set \<Rightarrow> hotstuff_engine \<Rightarrow> bool" where
  "votes_ok V e \<longleftrightarrow> bt_ok (he_votes e) \<and>
     (\<forall>k vs. bt_get (he_votes e) k = Some vs \<longrightarrow>
        distinct (map hv_voter_id vs) \<and> set vs \<subseteq> {v \<in> V. hv_view v = fst k \<and> hv_phase v = snd k})"

definition received :: "engine_input list \<Rightarrow> hotstuff_vote set" where
  "received is = {v. InVote v \<in> set is}"

lemma votes_ok_clear: "votes_ok V e \<Longrightarrow> votes_ok V (clear_view_state e)"
  by (auto simp: votes_ok_def clear_view_state_def Let_def bt_retain_ok bt_retain_get split: option.splits if_splits)

lemma votes_ok_cong: "he_votes e' = he_votes e \<Longrightarrow> votes_ok V e' = votes_ok V e"
  by (simp add: votes_ok_def)

definition vote_entry :: "hotstuff_vote \<Rightarrow> hotstuff_engine \<Rightarrow> hotstuff_vote list" where
  "vote_entry v e = (case bt_get (he_votes e) (hv_view v, hv_phase v) of None \<Rightarrow> [] | Some vs \<Rightarrow> vs)"

lemma vote_entry_ok:
  "votes_ok V e \<Longrightarrow> distinct (map hv_voter_id (vote_entry v e)) \<and>
     set (vote_entry v e) \<subseteq> {u \<in> V. hv_view u = hv_view v \<and> hv_phase u = hv_phase v}"
  by (auto simp: votes_ok_def vote_entry_def split: option.split)

lemma on_vote_votes:
  "he_votes (fst (on_vote v e)) = bt_put (hv_view v, hv_phase v)
     (if list_ex (\<lambda>u. hv_voter_id u = hv_voter_id v) (vote_entry v e) then vote_entry v e
      else vote_entry v e @ [v]) (he_votes e)"
  by (auto simp: on_vote_def vote_entry_def Let_def split: phase.split option.split)

lemma on_vote_votes_ok:
  assumes "votes_ok V e" and "v \<in> V"
  shows "votes_ok V (fst (on_vote v e))"
  using assms vote_entry_ok [OF assms(1), of v]
  by (auto simp: votes_ok_def on_vote_votes bt_put_ok map_simps list_ex_iff)

lemma on_new_view_votes:
  "he_votes (fst (on_new_view nv now e)) = he_votes e \<or>
     (\<exists>e2. fst (on_new_view nv now e) = clear_view_state e2 \<and> he_votes e2 = he_votes e)"
proof -
  let ?e1 = "e\<lparr>he_new_views := he_new_views e @ [nv]\<rparr>"
  define e2 where "e2 = (case select_high_qc (he_new_views ?e1) of None \<Rightarrow> ?e1
    | Some best \<Rightarrow> ?e1\<lparr>he_safety := update_high_qc best (he_safety ?e1)\<rparr>)"
  have "he_votes e2 = he_votes e" by (simp add: e2_def split: option.split)
  moreover have "fst (on_new_view nv now e) \<in> {e, e2, clear_view_state (e2\<lparr>he_pacemaker :=
      reset_view_timer (nv_new_view nv) now (he_pacemaker e2),
      he_safety := safety_advance_view (nv_new_view nv) (he_safety e2)\<rparr>)}"
    by (simp add: on_new_view_def Let_def e2_def)
  ultimately show ?thesis by auto
qed

lemma step_votes_ok:
  assumes "votes_ok V e" and "received [i] \<subseteq> V" and "codec_ok C"
  shows "votes_ok V (fst (engine_step X C base e i))"
proof (cases i)
  case (InVote v)
  then show ?thesis
    using on_vote_votes_ok [OF assms(1), of v] assms(2)
    by (simp add: submit_verified_vote_def case_prod_beta received_def)
next
  case (InNewView nv now)
  have "votes_ok V (fst (on_new_view nv now e))"
    using on_new_view_votes [of nv now e]
  proof (elim disjE exE conjE)
    assume "he_votes (fst (on_new_view nv now e)) = he_votes e"
    from votes_ok_cong [OF this] assms(1) show ?thesis by blast
  next
    fix e2
    assume e2: "fst (on_new_view nv now e) = clear_view_state e2" "he_votes e2 = he_votes e"
    have "votes_ok V e2" using assms(1) votes_ok_cong [OF e2(2)] by blast
    then show ?thesis by (simp add: e2(1) votes_ok_clear)
  qed
  then show ?thesis by (simp add: InNewView case_prod_beta)
next
  case (InTimeout now)
  then show ?thesis
    using assms(1) by (auto simp: on_timeout_def pm_advance_view_def Let_def intro!: votes_ok_clear)
      (simp add: votes_ok_def)
next
  case (InCrash now)
  then show ?thesis
    using assms(3) by (simp add: crash_restart_eq) (simp add: votes_ok_def engine_new_def)
qed (use assms(1) in \<open>auto simp: on_block_def on_qc_def propose_def Let_def votes_ok_def split: option.split\<close>)

interpretation vote_table: preserving_machine "engine_step X C base"
  "\<lambda>is e. codec_ok C \<and> received is \<subseteq> V \<and> votes_ok V e" for X C base V
proof unfold_locales
  fix i "is" e
  assume inv: "codec_ok C \<and> received (i # is) \<subseteq> V \<and> votes_ok V e"
  then have "received [i] \<subseteq> V" "received is \<subseteq> V" by (auto simp: received_def)
  with inv show "codec_ok C \<and> received is \<subseteq> V \<and> votes_ok V (fst (engine_step X C base e i))"
    using step_votes_ok by blast
qed

fun broadcast_qcs :: "hotstuff_output \<Rightarrow> quorum_certificate list" where
  "broadcast_qcs (BroadcastQC q) = [q]"
| "broadcast_qcs (Multi outs) = concat (map broadcast_qcs outs)"
| "broadcast_qcs _ = []"

lemma step_broadcasts:
  assumes "q \<in> set (broadcast_qcs (snd (snd (engine_step X C base e i))))"
  shows "\<exists>v. i = InVote v \<and> q = form_qc v (vote_entry v e @ [v]) \<and>
    \<not> list_ex (\<lambda>u. hv_voter_id u = hv_voter_id v) (vote_entry v e) \<and>
    he_quorum_threshold e \<le> Suc (length (vote_entry v e))"
  using assms
  by (cases i) (auto simp: handler_defs vote_entry_def Let_def not_less split: option.splits phase.splits if_splits)

lemma step_threshold: "codec_ok C \<Longrightarrow>
  he_quorum_threshold (fst (engine_step X C base e i)) = he_quorum_threshold e"
  by (cases i) (auto simp: handler_defs crash_restart_eq engine_new_def Let_def split: option.split phase.split)

lemma run_threshold: "codec_ok C \<Longrightarrow>
  he_quorum_threshold (fst (run (engine_step X C base) e is)) = he_quorum_threshold e"
  by (induction "is" arbitrary: e) (simp_all add: run_Cons step_threshold)

interpretation verified: quorum_system "dom lookup" threshold
  "\<lambda>qc. verify_qc X E (e\<lparr>he_quorum_threshold := threshold\<rparr>) qc lookup"
  "\<lambda>qc. valid_signers E (qc_vote_hash X (qc_view qc) (qc_block_id qc) (qc_phase qc)) lookup (qc_signatures qc)"
  for lookup :: "node_id \<Rightarrow> bytes32 option" and threshold X E e
proof unfold_locales
  fix qc :: quorum_certificate
  let ?V = "valid_signers E (qc_vote_hash X (qc_view qc) (qc_block_id qc) (qc_phase qc)) lookup (qc_signatures qc)"
  show "?V \<subseteq> dom lookup" by (auto simp: valid_signers_def sig_valid_def)
  assume "verify_qc X E (e\<lparr>he_quorum_threshold := threshold\<rparr>) qc lookup"
  then show "threshold \<le> card ?V"
    using count_valid_sigs_le [of X E "qc_vote_hash X (qc_view qc) (qc_block_id qc) (qc_phase qc)" lookup
        "qc_signatures qc" "[]"]
    by (simp add: verify_qc_def)
qed

section \<open>Lemmas: timeouts\<close>

text \<open>What every handler keeps of the timer: the current timeout stays between the base and its cap.\<close>

definition timer_ok :: "u64 \<Rightarrow> pacemaker \<Rightarrow> bool" where
  "timer_ok base p \<longleftrightarrow> pm_base_timeout p = unat base \<and> pm_max_timeout p = 32 * unat base \<and>
     unat base \<le> pm_current_timeout p \<and> pm_current_timeout p \<le> 32 * unat base"

lemma cap_fits: "32 * unat (base :: u64) \<le> duration_max"
  using unat_less_2p [of base] by (simp add: duration_max_def)

lemma timer_ok_ops [simp]:
  "timer_ok base (pacemaker_new base now)" "timer_ok base p \<Longrightarrow> timer_ok base (on_decide p)"
  "timer_ok base p \<Longrightarrow> timer_ok base (on_voted p)" "timer_ok base p \<Longrightarrow> timer_ok base (reset_view_timer v now p)"
  by (auto simp: timer_ok_def pacemaker_new_def on_decide_def on_voted_def reset_view_timer_def)

lemma timer_ok_advance:
  assumes "timer_ok base p"
  shows "timer_ok base (fst (pm_advance_view n s now p))"
    and "pm_current_timeout (fst (pm_advance_view n s now p)) = min (2 * pm_current_timeout p) (32 * unat base)"
  using assms cap_fits [of base]
  by (auto simp: timer_ok_def pm_advance_view_def duration_sat_mul_def Let_def)

lemma he_pacemaker_clear [simp]: "he_pacemaker (clear_view_state e) = he_pacemaker e"
  by (simp add: clear_view_state_def Let_def)

lemma he_pacemaker_timeout [simp]:
  "he_pacemaker (fst (on_timeout now e)) = fst (pm_advance_view (he_self_id e) (he_safety e) now (he_pacemaker e))"
  by (simp add: on_timeout_def case_prod_beta)

lemma step_timer_ok:
  assumes "timer_ok base (he_pacemaker e)" and "codec_ok C"
  shows "timer_ok base (he_pacemaker (fst (engine_step X C base e i)))"
proof (cases i)
  case (InTimeout now)
  then show ?thesis using timer_ok_advance(1) [OF assms(1)] by (simp add: case_prod_beta)
qed (use assms in \<open>auto simp: on_block_def on_vote_def submit_verified_vote_def on_qc_def on_new_view_def propose_def
      crash_restart_eq Let_def split: option.split phase.split\<close>)

interpretation timer: preserving_machine "engine_step X C base"
  "\<lambda>_ e. codec_ok C \<and> timer_ok base (he_pacemaker e)" for X C base
  by unfold_locales (simp add: step_timer_ok)

lemma scaled_min: "1 \<le> a \<Longrightarrow> min (a * min x m) m = min (a * x) m" for a x m :: nat
proof (cases "x \<le> m")
  case False
  assume a: "1 \<le> a"
  have m: "m \<le> a * m" using mult_le_mono1 [OF a, of m] by simp
  have "x \<le> a * x" using mult_le_mono1 [OF a, of x] by simp
  with False have x: "m \<le> a * x" by linarith
  have "min x m = m" using False by simp
  then show ?thesis by (simp only: min_absorb2 [OF m] min_absorb2 [OF x])
qed simp

lemma run_timeouts:
  assumes "timer_ok base (he_pacemaker e)"
  shows "let p = he_pacemaker (fst (run (engine_step X C base) e (map InTimeout nows))) in
    pm_current_view p = pm_current_view (he_pacemaker e) + of_nat (length nows) \<and>
    pm_current_timeout p = min (2 ^ length nows * pm_current_timeout (he_pacemaker e)) (32 * unat base)"
  using assms
proof (induction nows arbitrary: e)
  case Nil
  then show ?case by (simp add: timer_ok_def)
next
  case (Cons now nows)
  let ?p = "fst (pm_advance_view (he_self_id e) (he_safety e) now (he_pacemaker e))"
  have p: "timer_ok base ?p" "pm_current_timeout ?p = min (2 * pm_current_timeout (he_pacemaker e)) (32 * unat base)"
    using timer_ok_advance [OF Cons.prems] by blast+
  have v: "pm_current_view ?p = pm_current_view (he_pacemaker e) + 1" by (simp add: pm_advance_view_def Let_def)
  have "he_pacemaker (fst (engine_step X C base e (InTimeout now))) = ?p" by (simp add: case_prod_beta)
  moreover have "min (2 ^ n * min (2 * t) m) m = min (2 ^ Suc n * t) m" for n t m :: nat
    using scaled_min [of "2 ^ n" "2 * t" m] by (simp add: mult.assoc mult.left_commute)
  ultimately show ?case
    using Cons.IH [of "fst (engine_step X C base e (InTimeout now))"] p v by (simp add: run_Cons Let_def)
qed

text \<open>Concrete inputs for the witnesses.\<close>

definition sample_block :: "bytes32 \<Rightarrow> view \<Rightarrow> hotstuff_block" where
  "sample_block i v = \<lparr>hb_block_id = i, hb_parent_id = 0, hb_view = v, hb_leader_id = 1, hb_batch_root = 5,
     hb_ordered_submission_ids = [], hb_justify_qc = None\<rparr>"

definition sample_vote :: "node_id \<Rightarrow> bytes32 \<Rightarrow> phase \<Rightarrow> hotstuff_vote" where
  "sample_vote n i p = \<lparr>hv_view = 1, hv_block_id = i, hv_phase = p, hv_voter_id = n, hv_signature = [7]\<rparr>"

definition sample_lookup :: "node_id \<Rightarrow> bytes32 option" where
  "sample_lookup n = (if n \<in> {1, 2, 3, 4} then Some n else None)"

definition sample_qc :: "bytes32 \<Rightarrow> node_id list \<Rightarrow> quorum_certificate" where
  "sample_qc i ns = \<lparr>qc_view = 1, qc_block_id = i, qc_phase = Prepare,
     qc_signatures = map (\<lambda>n. (n, be_bytes 64 (ed_sign ed25519_std n (qc_vote_hash extern_std 1 i Prepare)))) ns\<rparr>"

lemma sample_qc_fields:
  "qc_view (sample_qc i ns) = 1" "qc_block_id (sample_qc i ns) = i" "qc_phase (sample_qc i ns) = Prepare"
  by (simp_all add: sample_qc_def)

lemma codec_std_ok [simp]: "codec_ok codec_std"
  by (simp add: codec_ok_def codec_std_def)

lemma sample_qc_verifies:
  "verify_qc extern_std ed25519_std (engine_new 1 3 100 0) (sample_qc i [1, 2, 3]) sample_lookup"
  "verify_qc extern_std ed25519_std (engine_new 1 3 100 0) (sample_qc i [2, 3, 4, 4]) sample_lookup"
  by (simp_all add: verify_qc_def sample_qc_def sample_lookup_def engine_new_def ed25519_std_def bytes64_round_trip)

section \<open>Properties\<close>





text \<open>
  C9. Along a run without a crash, no view is finalized twice, whether by the leader that collects
  the votes or by a validator that receives the certificate.
\<close>

theorem one_finalization_per_view:
  assumes "\<not> list_ex is_crash ins"
  shows "distinct (concat (map finalized_views (snd (run (engine_step X C base) e ins))))"
  using finalize_once.run_once [OF assms] by blast

theorem one_finalization_per_view_witness:
  "distinct (concat (map finalized_views (snd (run (engine_step extern_std codec_std 100) (engine_new 1 1 100 0)
     [InBlock (sample_block 7 1) 5, InVote (sample_vote 2 7 Commit), InQC ((sample_qc 7 [2])\<lparr>qc_phase := Commit\<rparr>)]))))"
  by (rule one_finalization_per_view) simp

text \<open>
  Every certificate the engine broadcasts carries at least the quorum threshold of signatures by
  distinct voters, and each of them comes from a vote the node received for the certificate's view
  and phase by that voter.
\<close>

theorem broadcast_certificate_has_quorum:
  assumes "codec_ok C" and "(j, out) \<in> set (snd (run (engine_step X C base) (engine_new n t base now) ins))"
    and "q \<in> set (broadcast_qcs out)"
  shows "t \<le> length (qc_signatures q) \<and> distinct (map fst (qc_signatures q)) \<and>
    (\<forall>(m, sig) \<in> set (qc_signatures q). \<exists>v \<in> received ins. hv_voter_id v = m \<and> hv_signature v = sig \<and>
       hv_view v = qc_view q \<and> hv_phase v = qc_phase q)"
proof -
  let ?run = "run (engine_step X C base)" and ?e0 = "engine_new n t base now"
  obtain k where k: "k < length (snd (?run ?e0 ins))" "snd (?run ?e0 ins) ! k = (j, out)"
    using assms(2) by (auto simp: in_set_conv_nth)
  have len: "length (snd (?run e js)) = length js" for e js
    by (induction js arbitrary: e) (simp_all add: run_Cons)
  define e i where "e = fst (?run ?e0 (take k ins))" and "i = ins ! k"
  have split: "ins = take k ins @ i # drop (Suc k) ins" using k(1) by (simp add: len i_def id_take_nth_drop)
  have out: "snd (engine_step X C base e i) = (j, out)"
  proof -
    have "snd (?run ?e0 ins) = snd (?run ?e0 (take k ins)) @ snd (?run e (i # drop (Suc k) ins))"
      by (subst split) (simp only: run_append e_def)
    then have "snd (?run ?e0 ins) ! k = snd (engine_step X C base e i)"
      using k(1) by (simp add: nth_append len run_Cons)
    with k(2) show ?thesis by simp
  qed
  have "votes_ok (received ins) ?e0" by (simp add: votes_ok_def engine_new_def)
  then have "votes_ok (received ins) e"
    using vote_table.run_inv [of C "take k ins" "i # drop (Suc k) ins" "received ins" ?e0 X base] assms(1) split
    by (simp add: e_def)
  moreover have t: "he_quorum_threshold e = t"
    using assms(1) by (simp add: e_def run_threshold) (simp add: engine_new_def)
  moreover obtain v where v: "i = InVote v" "q = form_qc v (vote_entry v e @ [v])"
    "\<not> list_ex (\<lambda>u. hv_voter_id u = hv_voter_id v) (vote_entry v e)" "t \<le> Suc (length (vote_entry v e))"
    using step_broadcasts [of q X C base e i] assms(3) out t by auto
  moreover have "v \<in> received ins" using v(1) k(1) by (auto simp: received_def i_def len) (metis nth_mem)
  ultimately show ?thesis
    using vote_entry_ok [of "received ins" e v] by (auto simp: form_qc_def list_ex_iff comp_def)
qed

theorem broadcast_certificate_has_quorum_witness:
  "\<exists>q. (InVote (sample_vote 3 7 Prepare), BroadcastQC q) \<in> set (snd (run (engine_step extern_std codec_std 100)
       (engine_new 1 3 100 0) (map (\<lambda>n. InVote (sample_vote n 7 Prepare)) [1, 2, 3]))) \<and>
    3 \<le> length (qc_signatures q) \<and> distinct (map fst (qc_signatures q))"
proof -
  let ?ins = "map (\<lambda>n. InVote (sample_vote n 7 Prepare)) [1, 2, 3]"
  have "\<exists>q. (InVote (sample_vote 3 7 Prepare), BroadcastQC q) \<in>
      set (snd (run (engine_step extern_std codec_std 100) (engine_new 1 3 100 0) ?ins))"
    by (simp add: run_Cons submit_verified_vote_def on_vote_def engine_new_def sample_vote_def bt_get_def Let_def)
  then obtain q where q: "(InVote (sample_vote 3 7 Prepare), BroadcastQC q) \<in>
      set (snd (run (engine_step extern_std codec_std 100) (engine_new 1 3 100 0) ?ins))" by blast
  from broadcast_certificate_has_quorum [OF codec_std_ok q, of q] q show ?thesis by auto
qed

text \<open>
  C8. Two certificates that pass \<^verbatim>\<open>verify_qc\<close> were both signed by some honest node, when the faulty
  nodes of the registry are at most \<open>f\<close> and the threshold exceeds half of the nodes plus
  \<open>f\<close> (with \<open>3f+1\<close> nodes: the \<open>2f+1\<close> of the code). Repeated entries of one signer in a
  certificate do not help: each signer is counted once.
\<close>

theorem verified_certificates_share_an_honest_signer:
  assumes "verify_qc X E e q lookup" and "verify_qc X E e r lookup"
    and "card (dom lookup - honest) \<le> f" and "card (dom lookup) + f < 2 * he_quorum_threshold e"
  shows "\<exists>n \<in> honest. n \<in> valid_signers E (qc_vote_hash X (qc_view q) (qc_block_id q) (qc_phase q)) lookup (qc_signatures q) \<and>
    n \<in> valid_signers E (qc_vote_hash X (qc_view r) (qc_block_id r) (qc_phase r)) lookup (qc_signatures r)"
  using verified.honest_in_both [where X = X and E = E and e = e and threshold = "he_quorum_threshold e" and q = q
      and r = r and lookup = lookup and honest = honest and f = f] assms by simp

theorem verified_certificates_share_an_honest_signer_witness:
  "\<exists>n \<in> {1, 2, 3}. n \<in> valid_signers ed25519_std (qc_vote_hash extern_std 1 7 Prepare) sample_lookup
       (qc_signatures (sample_qc 7 [1, 2, 3])) \<and>
    n \<in> valid_signers ed25519_std (qc_vote_hash extern_std 1 8 Prepare) sample_lookup
       (qc_signatures (sample_qc 8 [2, 3, 4, 4]))"
proof -
  have dom: "dom sample_lookup = {1, 2, 3, 4}" by (auto simp: sample_lookup_def split: if_splits)
  have "card (dom sample_lookup - {1, 2, 3}) \<le> 1" by (simp add: dom)
  moreover have "card (dom sample_lookup) + 1 < 2 * he_quorum_threshold (engine_new 1 3 100 0)"
    by (simp add: dom engine_new_def)
  ultimately show ?thesis
    using verified_certificates_share_an_honest_signer [OF sample_qc_verifies(1) [of 7] sample_qc_verifies(2) [of 8]]
    unfolding sample_qc_fields by blast
qed

text \<open>
  C10. No view can hold a node forever: whatever the node received, its view is timed out no later
  than 32 base timeouts after the view started, never before one; the timeout handler then enters
  the next view and doubles the timeout up to that cap.
\<close>

theorem every_view_times_out:
  assumes "codec_ok C" and "e = fst (run (engine_step X C base) (engine_new n t base start) ins)"
  shows "engine_is_timed_out e (pm_view_started_at (he_pacemaker e) + 32 * unat base) \<and>
    (engine_is_timed_out e now \<longrightarrow> pm_view_started_at (he_pacemaker e) + unat base \<le> now \<or> unat base = 0) \<and>
    pm_current_view (he_pacemaker (fst (on_timeout now e))) = pm_current_view (he_pacemaker e) + 1 \<and>
    pm_current_timeout (he_pacemaker (fst (on_timeout now e))) =
      min (2 * pm_current_timeout (he_pacemaker e)) (32 * unat base)"
proof -
  have "timer_ok base (he_pacemaker (engine_new n t base start))" by (simp add: engine_new_def)
  then have ok: "timer_ok base (he_pacemaker e)"
    using timer.run_inv [where X = X and C = C and base = base and s = "engine_new n t base start"] assms by simp
  then show ?thesis
    using timer_ok_advance(2) [OF ok, of "he_self_id e" "he_safety e" now]
    by (auto simp: engine_is_timed_out_def pm_is_timed_out_def timer_ok_def pm_advance_view_def Let_def)
qed

theorem every_view_times_out_witness:
  "engine_is_timed_out (fst (run (engine_step extern_std codec_std 100) (engine_new 1 3 100 0)
       [InTimeout 100, InTimeout 300, InBlock (sample_block 7 9) 400]))
     (pm_view_started_at (he_pacemaker (fst (run (engine_step extern_std codec_std 100) (engine_new 1 3 100 0)
       [InTimeout 100, InTimeout 300, InBlock (sample_block 7 9) 400]))) + 3200)"
  using every_view_times_out [OF codec_std_ok refl, where X = extern_std and base = 100 and n = 1 and t = 3
      and start = 0 and ins = "[InTimeout 100, InTimeout 300, InBlock (sample_block 7 9) 400]"] by simp

text \<open>
  Timeouts back off exponentially: after \<open>k\<close> timeouts in a row the timeout is the base
  times \<open>2^k\<close>, at most 32 times the base, and the node is \<open>k\<close> views further.
\<close>

theorem timeouts_back_off_exponentially:
  "let p = he_pacemaker (fst (run (engine_step X C base) (engine_new n t base start) (map InTimeout nows))) in
    pm_current_view p = 1 + of_nat (length nows) \<and>
    pm_current_timeout p = min (2 ^ length nows) 32 * unat base"
proof -
  have "timer_ok base (he_pacemaker (engine_new n t base start))" by (simp add: engine_new_def)
  from run_timeouts [OF this, of X C nows] show ?thesis
    by (simp add: Let_def engine_new_def pacemaker_new_def nat_mult_min_left)
qed

section \<open>Divergences\<close>

text \<open>
  A certificate can mix votes for different blocks: the table is keyed by view and phase only, and
  the certificate names the block of the last vote.
\<close>

theorem certificate_can_mix_blocks:
  "\<exists>q. snd (on_vote (sample_vote 3 7 PreCommit) (fst (on_vote (sample_vote 2 8 PreCommit)
      (fst (on_vote (sample_vote 1 8 PreCommit) (engine_new 1 3 100 0)))))) = BroadcastQC q \<and>
    qc_block_id q = 7 \<and> map fst (qc_signatures q) = [1, 2, 3]"
  by (simp add: on_vote_def engine_new_def sample_vote_def bt_get_def form_qc_def Let_def)

text \<open>
  Votes of the later phases are not protected across views: after a timeout the record of the old
  view is pruned, and a second certificate for it makes the node vote again, for another block.
\<close>

theorem precommit_vote_twice_in_one_view:
  "\<exists>v w. map snd (snd (run (engine_step extern_std codec_std 100) (engine_new 1 3 100 0)
      [InQC (sample_qc 7 [1, 2, 3]), InTimeout 100, InQC (sample_qc 8 [1, 2, 3])])) =
      [SendVote v, SendNewView \<lparr>nv_new_view = 2, nv_high_qc = sample_qc 7 [1, 2, 3], nv_sender_id = 1\<rparr>, SendVote w] \<and>
    hv_view v = 1 \<and> hv_view w = 1 \<and> hv_phase v = PreCommit \<and> hv_phase w = PreCommit \<and>
    hv_block_id v = 7 \<and> hv_block_id w = 8"
  by (simp add: run_Cons on_qc_def on_timeout_def pm_advance_view_def clear_view_state_def engine_new_def
      pacemaker_new_def safety_new_def qc_genesis_def update_high_qc_def record_vote_def engine_vote_def
      sample_qc_fields bt_has_def bt_get_def bt_retain_def word_le_nat_alt Let_def)

text \<open>
  \<^verbatim>\<open>verify_qc_committee\<close> and \<^verbatim>\<open>has_quorum\<close> count entries, not signers: one member listed three times
  passes a threshold of three.
\<close>

theorem committee_check_counts_duplicates:
  "verify_qc_committee (sample_qc 7 [1, 1, 1]) {1, 2, 3, 4} 3 = Inr 3 \<and> has_quorum (sample_qc 7 [1, 1, 1]) 3 \<and>
    \<not> verify_qc extern_std ed25519_std (engine_new 1 3 100 0) (sample_qc 7 [1, 1, 1]) sample_lookup"
  by (simp add: verify_qc_committee_def has_quorum_def verify_qc_def sample_qc_def sample_lookup_def engine_new_def)

end
