(* ===== verification/Contracts.thy ===== *)
theory Contracts
  imports Settlement "HOL-Library.List_Lexorder" "HOL-Library.Product_Lexorder" "HOL-Library.Char_ord"
begin

text \<open>
  The contract runtime's registries, \<^verbatim>\<open>runtime/src/contracts/advanced.rs\<close>: events, contract-held
  balances, the plan context validators see, oracle feeds, state proofs, scheduled executions,
  token allowances, NFTs, typed storage, meta-transactions, epoch randomness and commit-reveal.
  The records settlement builds are in \<open>Settlement\<close>. Error texts are \<open>err_text\<close>;
  \<^verbatim>\<open>hex::encode\<close> is a parameter of \<open>contract_random\<close>.
\<close>

section \<open>Events and hooks\<close>

definition event_id :: "extern \<Rightarrow> contract_event \<Rightarrow> bytes32" where
  "event_id X e =
     x_sha256 X (string_bytes ''OMNIPHI_EVENT_V1'' @ be_bytes 32 (ce_contract_id e) @ string_bytes (ce_event_type e)
       @ be_bytes 8 (ce_epoch e) @ ce_data e)"

text \<open>\<^verbatim>\<open>EventCollector\<close> and \<^verbatim>\<open>IBCHookCollector\<close>: a vector, \<^verbatim>\<open>push\<close> and \<^verbatim>\<open>mem::take\<close>.\<close>

definition collector_push :: "'a \<Rightarrow> 'a list \<Rightarrow> 'a list" where
  "collector_push x xs = xs @ [x]"

definition collector_drain :: "'a list \<Rightarrow> 'a list \<times> 'a list" where
  "collector_drain xs = ([], xs)"

section \<open>Contract-held balances\<close>

type_synonym balance_registry = "(object_id, contract_balance) btree"

definition balance_bind :: "contract_balance \<Rightarrow> balance_registry \<Rightarrow> balance_registry \<times> (err_text + unit)" where
  "balance_bind cb r =
     (if bt_has r (cb_balance_id cb) then (r, Inl (Text ''balance already bound to a contract''))
      else (bt_put (cb_balance_id cb) cb r, Inr ()))"

definition is_contract_controlled :: "balance_registry \<Rightarrow> object_id \<Rightarrow> bool" where
  "is_contract_controlled r i = bt_has r i"

definition get_controller :: "balance_registry \<Rightarrow> object_id \<Rightarrow> contract_balance option" where
  "get_controller r i = bt_get r i"

definition balance_unbind :: "object_id \<Rightarrow> balance_registry \<Rightarrow> balance_registry \<times> bool" where
  "balance_unbind i r = (bt_del i r, bt_has r i)"

section \<open>Plan context\<close>

record proposed_transition =
  pt_contract_id :: bytes32
  pt_schema_id :: bytes32
  pt_current_state_hash :: bytes32
  pt_proposed_state_hash :: bytes32
  pt_method :: string

datatype balance_op_type = BDebit | BCredit | BLock | BUnlock

record balance_op =
  bp_balance_id :: bytes32
  bp_op_type :: balance_op_type
  bp_amount :: u128

record plan_context =
  pc_transitions :: "(bytes32, proposed_transition) btree"
  pc_balance_ops :: "balance_op list"
  pc_epoch :: u64
  pc_gas_budget :: u64

definition context_new :: "u64 \<Rightarrow> u64 \<Rightarrow> plan_context" where
  "context_new epoch gas_budget =
     \<lparr>pc_transitions = [], pc_balance_ops = [], pc_epoch = epoch, pc_gas_budget = gas_budget\<rparr>"

definition push_balance_op :: "bytes32 \<Rightarrow> balance_op_type \<Rightarrow> u128 \<Rightarrow> plan_context \<Rightarrow> plan_context" where
  "push_balance_op i t a ctx =
     ctx\<lparr>pc_balance_ops := pc_balance_ops ctx @ [\<lparr>bp_balance_id = i, bp_op_type = t, bp_amount = a\<rparr>]\<rparr>"

fun context_add :: "extern \<Rightarrow> object_operation \<Rightarrow> plan_context \<Rightarrow> plan_context" where
  "context_add X (ContractStateTransition i schema proposed) ctx =
     ctx\<lparr>pc_transitions := bt_put i
       \<lparr>pt_contract_id = i, pt_schema_id = schema, pt_current_state_hash = 0,
        pt_proposed_state_hash = x_sha256 X proposed, pt_method = []\<rparr> (pc_transitions ctx)\<rparr>"
| "context_add X (DebitBalance i a) ctx = push_balance_op i BDebit a ctx"
| "context_add X (CreditBalance i a) ctx = push_balance_op i BCredit a ctx"
| "context_add X (LockBalance i a) ctx = push_balance_op i BLock a ctx"
| "context_add X (UnlockBalance i a) ctx = push_balance_op i BUnlock a ctx"
| "context_add X _ ctx = ctx"

definition context_from_operations :: "extern \<Rightarrow> object_operation list \<Rightarrow> u64 \<Rightarrow> u64 \<Rightarrow> plan_context" where
  "context_from_operations X operations epoch gas_budget =
     fold (context_add X) operations (context_new epoch gas_budget)"

definition has_transition :: "plan_context \<Rightarrow> bytes32 \<Rightarrow> bool" where
  "has_transition ctx i = bt_has (pc_transitions ctx) i"

definition get_transition :: "plan_context \<Rightarrow> bytes32 \<Rightarrow> proposed_transition option" where
  "get_transition ctx i = bt_get (pc_transitions ctx) i"

text \<open>\<^verbatim>\<open>as i128\<close> keeps the bits; \<^verbatim>\<open>+=\<close> and \<^verbatim>\<open>-=\<close> wrap.\<close>

definition net_step :: "bytes32 \<Rightarrow> balance_op \<Rightarrow> i128 \<Rightarrow> i128" where
  "net_step i op net =
     (if bp_balance_id op = i then
        (case bp_op_type op of BCredit \<Rightarrow> net + bp_amount op | BDebit \<Rightarrow> net - bp_amount op | _ \<Rightarrow> net)
      else net)"

definition net_balance_change :: "plan_context \<Rightarrow> bytes32 \<Rightarrow> i128" where
  "net_balance_change ctx i = fold (net_step i) (pc_balance_ops ctx) 0"

section \<open>Oracle feeds\<close>

record oracle_price_feed =
  of_pair :: string
  of_price :: u64
  of_timestamp :: u64
  of_source :: string
  of_attestation :: string

record oracle_context =
  oc_feeds :: "(string, oracle_price_feed) btree"
  oc_max_staleness_secs :: u64

definition oracle_new :: "u64 \<Rightarrow> oracle_context" where
  "oracle_new max_staleness = \<lparr>oc_feeds = [], oc_max_staleness_secs = max_staleness\<rparr>"

definition add_feed :: "oracle_price_feed \<Rightarrow> oracle_context \<Rightarrow> oracle_context" where
  "add_feed feed c = c\<lparr>oc_feeds := bt_put (of_pair feed) feed (oc_feeds c)\<rparr>"

definition feed_stale :: "oracle_context \<Rightarrow> u64 \<Rightarrow> oracle_price_feed \<Rightarrow> bool" where
  "feed_stale c now feed \<longleftrightarrow>
     oc_max_staleness_secs c > 0 \<and> sat_sub now (of_timestamp feed) > oc_max_staleness_secs c"

definition get_price :: "oracle_context \<Rightarrow> string \<Rightarrow> u64 \<Rightarrow> u64 option" where
  "get_price c pair now =
     (case bt_get (oc_feeds c) pair of None \<Rightarrow> None
      | Some feed \<Rightarrow> if feed_stale c now feed then None else Some (of_price feed))"

definition validate_freshness :: "oracle_context \<Rightarrow> u64 \<Rightarrow> err_text + unit" where
  "validate_freshness c now =
     (case find (\<lambda>e. feed_stale c now (snd e)) (oc_feeds c) of
        None \<Rightarrow> Inr ()
      | Some (pair, feed) \<Rightarrow>
          Inl (Fmt (''oracle feed is stale: '' @ pair)
            [unat (sat_sub now (of_timestamp feed)), unat (oc_max_staleness_secs c)]))"

section \<open>State proofs\<close>

record state_proof =
  sp_source_contract_id :: object_id
  sp_source_schema_id :: bytes32
  sp_state_snapshot :: bytes
  sp_state_hash :: bytes32
  sp_version :: u64
  sp_observed_epoch :: u64

definition proof_verify :: "extern \<Rightarrow> state_proof \<Rightarrow> bool" where
  "proof_verify X p \<longleftrightarrow> x_sha256 X (sp_state_snapshot p) = sp_state_hash p"

definition proof_add :: "state_proof \<Rightarrow> (bytes32, state_proof) btree \<Rightarrow> (bytes32, state_proof) btree" where
  "proof_add p s = bt_put (sp_source_contract_id p) p s"

definition get_verified :: "extern \<Rightarrow> (bytes32, state_proof) btree \<Rightarrow> bytes32 \<Rightarrow> bytes option" where
  "get_verified X s i =
     (case bt_get s i of None \<Rightarrow> None
      | Some p \<Rightarrow> if proof_verify X p then Some (sp_state_snapshot p) else None)"

section \<open>Scheduled executions\<close>

definition is_due :: "scheduled_execution \<Rightarrow> u64 \<Rightarrow> bool" where
  "is_due s current_epoch =
     (if \<not> sx_active s then False
      else if sx_max_recurrences s > 0 \<and> sx_executed_count s \<ge> sx_max_recurrences s then False
      else current_epoch \<ge> sx_execute_at_epoch s)"

definition schedule_advance :: "scheduled_execution \<Rightarrow> scheduled_execution \<times> bool" where
  "schedule_advance s =
     (let s1 = s\<lparr>sx_executed_count := sx_executed_count s + 1\<rparr> in
      if \<not> sx_recurring s1 then (s1\<lparr>sx_active := False\<rparr>, False)
      else if sx_max_recurrences s1 > 0 \<and> sx_executed_count s1 \<ge> sx_max_recurrences s1
        then (s1\<lparr>sx_active := False\<rparr>, False)
      else (s1\<lparr>sx_execute_at_epoch := sx_execute_at_epoch s1 + sx_interval_epochs s1\<rparr>, True))"

type_synonym schedule_registry = "(bytes32, scheduled_execution) btree"

definition schedule_register ::
  "scheduled_execution \<Rightarrow> schedule_registry \<Rightarrow> schedule_registry \<times> (err_text + unit)" where
  "schedule_register s r =
     (if bt_has r (sx_schedule_id s) then (r, Inl (Text ''schedule already exists''))
      else if sx_execute_at_epoch s = 0 then (r, Inl (Text ''execute_at_epoch must be > 0''))
      else (bt_put (sx_schedule_id s) s r, Inr ()))"

definition schedule_cancel :: "bytes32 \<Rightarrow> schedule_registry \<Rightarrow> schedule_registry \<times> bool" where
  "schedule_cancel i r =
     (if bt_has r i then (bt_adjust i (\<lambda>s. s\<lparr>sx_active := False\<rparr>) r, True) else (r, False))"

definition get_due :: "schedule_registry \<Rightarrow> u64 \<Rightarrow> scheduled_execution list" where
  "get_due r current_epoch = filter (\<lambda>s. is_due s current_epoch) (bt_values r)"

definition registry_advance :: "bytes32 \<Rightarrow> schedule_registry \<Rightarrow> schedule_registry \<times> bool" where
  "registry_advance i r =
     (case bt_get r i of None \<Rightarrow> (r, False)
      | Some s \<Rightarrow> (bt_adjust i (\<lambda>s. fst (schedule_advance s)) r, snd (schedule_advance s)))"

definition prune_inactive :: "schedule_registry \<Rightarrow> schedule_registry \<times> usize" where
  "prune_inactive r = (let r' = bt_retain (\<lambda>_ s. sx_active s) r in (r', length r - length r'))"

section \<open>Allowances\<close>

record allowance_entry =
  al_owner :: bytes32
  al_spender :: bytes32
  al_asset_id :: bytes32
  al_remaining :: u128

type_synonym allowance_key = "bytes32 \<times> bytes32 \<times> bytes32"
type_synonym allowance_registry = "(allowance_key, allowance_entry) btree"

definition approve :: "bytes32 \<Rightarrow> bytes32 \<Rightarrow> bytes32 \<Rightarrow> u128 \<Rightarrow> allowance_registry \<Rightarrow> allowance_registry" where
  "approve owner spender asset amount r =
     (let key = (owner, spender, asset) in
      if amount = 0 then bt_del key r
      else bt_put key \<lparr>al_owner = owner, al_spender = spender, al_asset_id = asset, al_remaining = amount\<rparr> r)"

definition allowance :: "allowance_registry \<Rightarrow> bytes32 \<Rightarrow> bytes32 \<Rightarrow> bytes32 \<Rightarrow> u128" where
  "allowance r owner spender asset =
     (case bt_get r (owner, spender, asset) of None \<Rightarrow> 0 | Some a \<Rightarrow> al_remaining a)"

definition allowance_spend ::
  "bytes32 \<Rightarrow> bytes32 \<Rightarrow> bytes32 \<Rightarrow> u128 \<Rightarrow> allowance_registry \<Rightarrow> allowance_registry \<times> (err_text + unit)" where
  "allowance_spend owner spender asset amount r =
     (let key = (owner, spender, asset) in
      case bt_get r key of
        None \<Rightarrow> (r, Inl (Text ''no allowance set''))
      | Some entry \<Rightarrow>
          if al_remaining entry < amount then
            (r, Inl (Fmt ''allowance {} < requested {}'' [unat (al_remaining entry), unat amount]))
          else
            (let r1 = bt_adjust key (\<lambda>a. a\<lparr>al_remaining := al_remaining a - amount\<rparr>) r in
             (if al_remaining entry - amount = 0 then bt_del key r1 else r1, Inr ())))"

definition allowance_increase :: "bytes32 \<Rightarrow> bytes32 \<Rightarrow> bytes32 \<Rightarrow> u128 \<Rightarrow> allowance_registry \<Rightarrow> allowance_registry" where
  "allowance_increase owner spender asset amount r =
     approve owner spender asset (sat_add (allowance r owner spender asset) amount) r"

section \<open>Non-fungible tokens\<close>

record nft =
  nt_token_id :: bytes32
  nt_collection_id :: bytes32
  nt_owner :: bytes32
  nt_metadata_uri :: string
  nt_attributes :: "(string, string) btree"
  nt_approved :: "bytes32 option"
  nt_minted_at_epoch :: u64
  nt_frozen :: bool

definition nft_new :: "bytes32 \<Rightarrow> bytes32 \<Rightarrow> bytes32 \<Rightarrow> string \<Rightarrow> u64 \<Rightarrow> nft" where
  "nft_new token_id collection_id owner uri epoch =
     \<lparr>nt_token_id = token_id, nt_collection_id = collection_id, nt_owner = owner, nt_metadata_uri = uri,
      nt_attributes = [], nt_approved = None, nt_minted_at_epoch = epoch, nt_frozen = False\<rparr>"

definition compute_token_id :: "extern \<Rightarrow> bytes32 \<Rightarrow> u64 \<Rightarrow> bytes32" where
  "compute_token_id X collection_id serial =
     x_sha256 X (string_bytes ''OMNIPHI_NFT_V1'' @ be_bytes 32 collection_id @ be_bytes 8 serial)"

definition nft_transfer :: "bytes32 \<Rightarrow> bytes32 \<Rightarrow> nft \<Rightarrow> err_text + nft" where
  "nft_transfer from_addr to_addr n =
     (if nt_frozen n then Inl (Text ''NFT is frozen'')
      else if nt_owner n \<noteq> from_addr \<and> nt_approved n \<noteq> Some from_addr then Inl (Text ''not owner or approved'')
      else Inr (n\<lparr>nt_owner := to_addr, nt_approved := None\<rparr>))"

definition nft_approve :: "bytes32 \<Rightarrow> bytes32 \<Rightarrow> nft \<Rightarrow> err_text + nft" where
  "nft_approve caller operator n =
     (if nt_owner n \<noteq> caller then Inl (Text ''only owner can approve'')
      else Inr (n\<lparr>nt_approved := Some operator\<rparr>))"

record nft_registry =
  nr_tokens :: "(bytes32, nft) btree"
  nr_collection_serials :: "(bytes32, u64) btree"
  nr_owner_index :: "(bytes32, bytes32 list) btree"

definition nft_registry_new :: nft_registry where
  "nft_registry_new = \<lparr>nr_tokens = [], nr_collection_serials = [], nr_owner_index = []\<rparr>"

definition tokens_of :: "nft_registry \<Rightarrow> bytes32 \<Rightarrow> bytes32 list" where
  "tokens_of r owner = (case bt_get (nr_owner_index r) owner of None \<Rightarrow> [] | Some ids \<Rightarrow> ids)"

definition collection_supply :: "nft_registry \<Rightarrow> bytes32 \<Rightarrow> u64" where
  "collection_supply r c = (case bt_get (nr_collection_serials r) c of None \<Rightarrow> 0 | Some n \<Rightarrow> n)"

text \<open>\<^verbatim>\<open>entry(owner).or_default().push(id)\<close> and the \<^verbatim>\<open>retain\<close> on an owner's list.\<close>

definition index_push :: "bytes32 \<Rightarrow> bytes32 \<Rightarrow> nft_registry \<Rightarrow> nft_registry" where
  "index_push owner i r =
     r\<lparr>nr_owner_index := bt_put owner (tokens_of r owner @ [i]) (nr_owner_index r)\<rparr>"

definition index_drop :: "bytes32 \<Rightarrow> bytes32 \<Rightarrow> nft_registry \<Rightarrow> nft_registry" where
  "index_drop owner i r =
     r\<lparr>nr_owner_index := bt_adjust owner (filter (\<lambda>j. j \<noteq> i)) (nr_owner_index r)\<rparr>"

definition nft_mint ::
  "extern \<Rightarrow> bytes32 \<Rightarrow> bytes32 \<Rightarrow> string \<Rightarrow> u64 \<Rightarrow> nft_registry \<Rightarrow> nft_registry \<times> bytes32" where
  "nft_mint X collection_id owner uri epoch r =
     (let serial = collection_supply r collection_id;
          token_id = compute_token_id X collection_id serial;
          r1 = r\<lparr>nr_collection_serials := bt_put collection_id (serial + 1) (nr_collection_serials r),
                 nr_tokens := bt_put token_id (nft_new token_id collection_id owner uri epoch) (nr_tokens r)\<rparr>
      in (index_push owner token_id r1, token_id))"

definition registry_transfer ::
  "bytes32 \<Rightarrow> bytes32 \<Rightarrow> bytes32 \<Rightarrow> nft_registry \<Rightarrow> nft_registry \<times> (err_text + unit)" where
  "registry_transfer token_id from_addr to_addr r =
     (case bt_get (nr_tokens r) token_id of
        None \<Rightarrow> (r, Inl (Text ''NFT not found''))
      | Some n \<Rightarrow>
          (case nft_transfer from_addr to_addr n of
             Inl e \<Rightarrow> (r, Inl e)
           | Inr n' \<Rightarrow>
               (let r1 = r\<lparr>nr_tokens := bt_adjust token_id (\<lambda>_. n') (nr_tokens r)\<rparr>;
                    r2 = index_drop from_addr token_id r1
                in (index_push to_addr token_id r2, Inr ()))))"

definition nft_burn :: "bytes32 \<Rightarrow> bytes32 \<Rightarrow> nft_registry \<Rightarrow> nft_registry \<times> (err_text + unit)" where
  "nft_burn token_id caller r =
     (case bt_get (nr_tokens r) token_id of
        None \<Rightarrow> (r, Inl (Text ''NFT not found''))
      | Some n \<Rightarrow>
          if nt_owner n \<noteq> caller then (r, Inl (Text ''only owner can burn''))
          else (index_drop (nt_owner n) token_id (r\<lparr>nr_tokens := bt_del token_id (nr_tokens r)\<rparr>), Inr ()))"

section \<open>Typed storage\<close>

datatype storage_value =
    SUint128 u128 | SInt128 i128 | SBool bool | SBytes32 bytes32 | SString string | SBytes bytes
  | SMap "(string \<times> storage_value) list" | SList "storage_value list"

type_synonym contract_storage = "(string, storage_value) btree"

definition storage_set :: "string \<Rightarrow> storage_value \<Rightarrow> contract_storage \<Rightarrow> contract_storage" where
  "storage_set key v s = bt_put key v s"

definition storage_get :: "contract_storage \<Rightarrow> string \<Rightarrow> storage_value option" where
  "storage_get s key = bt_get s key"

definition get_uint128 :: "contract_storage \<Rightarrow> string \<Rightarrow> u128 option" where
  "get_uint128 s key = (case storage_get s key of Some (SUint128 v) \<Rightarrow> Some v | _ \<Rightarrow> None)"

definition get_bool :: "contract_storage \<Rightarrow> string \<Rightarrow> bool option" where
  "get_bool s key = (case storage_get s key of Some (SBool v) \<Rightarrow> Some v | _ \<Rightarrow> None)"

definition get_string :: "contract_storage \<Rightarrow> string \<Rightarrow> string option" where
  "get_string s key = (case storage_get s key of Some (SString v) \<Rightarrow> Some v | _ \<Rightarrow> None)"

definition get_bytes32 :: "contract_storage \<Rightarrow> string \<Rightarrow> bytes32 option" where
  "get_bytes32 s key = (case storage_get s key of Some (SBytes32 v) \<Rightarrow> Some v | _ \<Rightarrow> None)"

definition get_map_entry :: "contract_storage \<Rightarrow> string \<Rightarrow> string \<Rightarrow> storage_value option" where
  "get_map_entry s map_key entry_key =
     (case storage_get s map_key of Some (SMap m) \<Rightarrow> bt_get m entry_key | _ \<Rightarrow> None)"

definition set_map_entry :: "string \<Rightarrow> string \<Rightarrow> storage_value \<Rightarrow> contract_storage \<Rightarrow> contract_storage" where
  "set_map_entry map_key entry_key v s =
     (let s1 = (if bt_has s map_key then s else bt_put map_key (SMap []) s) in
      bt_adjust map_key (\<lambda>x. case x of SMap m \<Rightarrow> SMap (bt_put entry_key v m) | _ \<Rightarrow> x) s1)"

definition storage_remove :: "string \<Rightarrow> contract_storage \<Rightarrow> contract_storage \<times> bool" where
  "storage_remove key s = (bt_del key s, bt_has s key)"

definition storage_len :: "contract_storage \<Rightarrow> usize" where
  "storage_len s = length s"

section \<open>Meta-transactions\<close>

record meta_transaction =
  mx_sender :: bytes32
  mx_fee_payer :: bytes32
  mx_inner_tx_id :: bytes32
  mx_relayer_max_fee :: u64
  mx_relayer_tip :: u64
  mx_deadline_epoch :: u64
  mx_nonce :: u64

definition meta_compute_id :: "extern \<Rightarrow> meta_transaction \<Rightarrow> bytes32" where
  "meta_compute_id X t =
     x_sha256 X (string_bytes ''OMNIPHI_META_TX_V1'' @ be_bytes 32 (mx_sender t) @ be_bytes 32 (mx_fee_payer t)
       @ be_bytes 32 (mx_inner_tx_id t) @ be_bytes 8 (mx_nonce t))"

definition meta_validate :: "meta_transaction \<Rightarrow> err_text + unit" where
  "meta_validate t =
     (if mx_sender t = 0 then Inl (Text ''sender is zero'')
      else if mx_fee_payer t = 0 then Inl (Text ''fee_payer is zero'')
      else if mx_sender t = mx_fee_payer t then Inl (Text ''sender and fee_payer must differ'')
      else if mx_relayer_max_fee t = 0 then Inl (Text ''relayer_max_fee must be > 0'')
      else Inr ())"

section \<open>Epoch randomness\<close>

record epoch_randomness =
  er_epoch :: u64
  er_state_root :: bytes32

definition random_bytes32 :: "extern \<Rightarrow> epoch_randomness \<Rightarrow> string \<Rightarrow> bytes32" where
  "random_bytes32 X r domain =
     x_sha256 X (string_bytes ''OMNIPHI_VRF_V1'' @ be_bytes 8 (er_epoch r) @ be_bytes 32 (er_state_root r)
       @ string_bytes domain)"

text \<open>The first 8 and the first 16 bytes of the hash, big-endian.\<close>

definition random_u64 :: "extern \<Rightarrow> epoch_randomness \<Rightarrow> string \<Rightarrow> u64 \<Rightarrow> u64" where
  "random_u64 X r domain mx = (if mx = 0 then 0 else ucast (drop_bit 192 (random_bytes32 X r domain)) mod mx)"

definition random_u128 :: "extern \<Rightarrow> epoch_randomness \<Rightarrow> string \<Rightarrow> u128 \<Rightarrow> u128" where
  "random_u128 X r domain mx = (if mx = 0 then 0 else ucast (drop_bit 128 (random_bytes32 X r domain)) mod mx)"

text \<open>Decimal rendering, as \<^verbatim>\<open>format!\<close> writes it.\<close>

fun decimal :: "nat \<Rightarrow> string" where
  "decimal n = (if n < 10 then [char_of (48 + n)] else decimal (n div 10) @ [char_of (48 + n mod 10)])"

declare decimal.simps [simp del]

definition contract_random :: "extern \<Rightarrow> (bytes \<Rightarrow> string) \<Rightarrow> epoch_randomness \<Rightarrow> bytes32 \<Rightarrow> u64 \<Rightarrow> bytes32" where
  "contract_random X hex r contract_id nonce =
     random_bytes32 X r (''contract:'' @ hex (take 8 (be_bytes 32 contract_id)) @ '':nonce:'' @ decimal (unat nonce))"

definition list_swap :: "nat \<Rightarrow> nat \<Rightarrow> 'a list \<Rightarrow> 'a list" where
  "list_swap i j xs = xs[i := xs ! j, j := xs ! i]"

text \<open>\<^verbatim>\<open>for i in (1..n).rev()\<close>: the argument is the next \<open>i\<close>.\<close>

fun shuffle_from :: "extern \<Rightarrow> epoch_randomness \<Rightarrow> string \<Rightarrow> nat \<Rightarrow> 'a list \<Rightarrow> 'a list" where
  "shuffle_from X r domain 0 xs = xs"
| "shuffle_from X r domain (Suc k) xs =
     (let i = Suc k; j = unat (random_u64 X r (domain @ '':shuffle:'' @ decimal i) (of_nat (i + 1)))
      in shuffle_from X r domain k (list_swap i j xs))"

definition shuffle :: "extern \<Rightarrow> epoch_randomness \<Rightarrow> string \<Rightarrow> 'a list \<Rightarrow> 'a list" where
  "shuffle X r domain items = shuffle_from X r domain (length items - 1) items"

section \<open>Commit and reveal\<close>

record commit_reveal_record =
  rv_id :: bytes32
  rv_commitment :: bytes32
  rv_revealed_value :: "bytes option"
  rv_revealed_salt :: "bytes option"
  rv_committer :: bytes32
  rv_commit_epoch :: u64
  rv_reveal_deadline_epoch :: u64
  rv_revealed :: bool

definition compute_commitment :: "extern \<Rightarrow> bytes \<Rightarrow> bytes \<Rightarrow> bytes32" where
  "compute_commitment X v salt = x_sha256 X (string_bytes ''OMNIPHI_COMMIT_V1'' @ v @ salt)"

definition commit_new :: "extern \<Rightarrow> bytes32 \<Rightarrow> bytes32 \<Rightarrow> u64 \<Rightarrow> u64 \<Rightarrow> commit_reveal_record" where
  "commit_new X committer commitment commit_epoch deadline =
     \<lparr>rv_id = x_sha256 X (string_bytes ''OMNIPHI_CR_ID_V1'' @ be_bytes 32 committer @ be_bytes 32 commitment
                @ be_bytes 8 commit_epoch),
      rv_commitment = commitment, rv_revealed_value = None, rv_revealed_salt = None, rv_committer = committer,
      rv_commit_epoch = commit_epoch, rv_reveal_deadline_epoch = deadline, rv_revealed = False\<rparr>"

definition record_reveal ::
  "extern \<Rightarrow> bytes \<Rightarrow> bytes \<Rightarrow> u64 \<Rightarrow> commit_reveal_record \<Rightarrow> err_text + commit_reveal_record" where
  "record_reveal X v salt current_epoch r =
     (if rv_revealed r then Inl (Text ''already revealed'')
      else if current_epoch > rv_reveal_deadline_epoch r then
        Inl (Fmt ''reveal deadline passed (deadline={}, now={})''
               [unat (rv_reveal_deadline_epoch r), unat current_epoch])
      else if compute_commitment X v salt \<noteq> rv_commitment r then
        Inl (Text ''commitment mismatch: hash(value || salt) != commitment'')
      else Inr (r\<lparr>rv_revealed_value := Some v, rv_revealed_salt := Some salt, rv_revealed := True\<rparr>))"

definition commit_is_expired :: "commit_reveal_record \<Rightarrow> u64 \<Rightarrow> bool" where
  "commit_is_expired r current_epoch \<longleftrightarrow> \<not> rv_revealed r \<and> current_epoch > rv_reveal_deadline_epoch r"

type_synonym commit_registry = "(bytes32, commit_reveal_record) btree"

definition registry_commit :: "commit_reveal_record \<Rightarrow> commit_registry \<Rightarrow> commit_registry \<times> (err_text + bytes32)" where
  "registry_commit r m =
     (if bt_has m (rv_id r) then (m, Inl (Text ''duplicate commit'')) else (bt_put (rv_id r) r m, Inr (rv_id r)))"

definition registry_reveal ::
  "extern \<Rightarrow> bytes32 \<Rightarrow> bytes \<Rightarrow> bytes \<Rightarrow> u64 \<Rightarrow> commit_registry \<Rightarrow> commit_registry \<times> (err_text + commit_reveal_record)" where
  "registry_reveal X i v salt current_epoch m =
     (case bt_get m i of
        None \<Rightarrow> (m, Inl (Text ''commit not found''))
      | Some r \<Rightarrow>
          (case record_reveal X v salt current_epoch r of
             Inl e \<Rightarrow> (m, Inl e)
           | Inr r' \<Rightarrow> (bt_adjust i (\<lambda>_. r') m, Inr r')))"

definition prune_expired :: "u64 \<Rightarrow> commit_registry \<Rightarrow> commit_registry \<times> usize" where
  "prune_expired current_epoch m =
     (let m' = bt_retain (\<lambda>_ r. \<not> commit_is_expired r current_epoch) m in (m', length m - length m'))"

section \<open>Lemmas: allowances\<close>

datatype allowance_op =
    DoApprove allowance_key u128 | DoSpend allowance_key u128 | DoIncrease allowance_key u128

fun allowance_step :: "allowance_registry \<Rightarrow> allowance_op \<Rightarrow> allowance_registry \<times> bool" where
  "allowance_step r (DoApprove (ow, sp, as) a) = (approve ow sp as a r, True)"
| "allowance_step r (DoSpend (ow, sp, as) a) =
     (let (r', res) = allowance_spend ow sp as a r in (r', res = Inr ()))"
| "allowance_step r (DoIncrease (ow, sp, as) a) = (allowance_increase ow sp as a r, True)"

text \<open>The contract: a number per key. A spend needs a positive allowance that covers it.\<close>

fun allowance_spec :: "(allowance_key \<Rightarrow> nat) \<Rightarrow> allowance_op \<Rightarrow> (allowance_key \<Rightarrow> nat) \<times> bool" where
  "allowance_spec m (DoApprove k a) = (m(k := unat a), True)"
| "allowance_spec m (DoSpend k a) =
     (if 0 < m k \<and> unat a \<le> m k then (m(k := m k - unat a), True) else (m, False))"
| "allowance_spec m (DoIncrease k a) = (m(k := min (m k + unat a) (2 ^ 128 - 1)), True)"

definition allowance_abs :: "allowance_registry \<Rightarrow> allowance_key \<Rightarrow> nat" where
  "allowance_abs r k = (case bt_get r k of None \<Rightarrow> 0 | Some a \<Rightarrow> unat (al_remaining a))"

definition allowances_ok :: "allowance_registry \<Rightarrow> bool" where
  "allowances_ok r \<longleftrightarrow> (\<forall>k a. bt_get r k = Some a \<longrightarrow> al_remaining a \<noteq> 0)"

lemma allowance_abs_eq: "allowance_abs r (ow, sp, as) = unat (allowance r ow sp as)"
  by (simp add: allowance_abs_def allowance_def split: option.split)

lemma approve_get:
  "bt_get (approve ow sp as a r) k = (if k = (ow, sp, as) then
     (if a = 0 then None else Some \<lparr>al_owner = ow, al_spender = sp, al_asset_id = as, al_remaining = a\<rparr>)
     else bt_get r k)"
  by (simp add: approve_def Let_def map_simps)

lemma spend_get:
  assumes "bt_get r (ow, sp, as) = Some e" and "a \<le> al_remaining e"
  shows "snd (allowance_spend ow sp as a r) = Inr ()"
    and "bt_get (fst (allowance_spend ow sp as a r)) k = (if k = (ow, sp, as) then
      (if al_remaining e = a then None else Some (e\<lparr>al_remaining := al_remaining e - a\<rparr>)) else bt_get r k)"
  using assms by (auto simp: allowance_spend_def Let_def map_simps)

lemma spend_refused:
  "bt_get r (ow, sp, as) = None \<or> (\<exists>e. bt_get r (ow, sp, as) = Some e \<and> al_remaining e < a) \<Longrightarrow>
     fst (allowance_spend ow sp as a r) = r \<and> snd (allowance_spend ow sp as a r) \<noteq> Inr ()"
  by (auto simp: allowance_spend_def Let_def)

lemma spend_cases:
  obtains (1) e where "bt_get r k = Some e" "a \<le> al_remaining e"
  | (2) "bt_get r k = None \<or> (\<exists>e. bt_get r k = Some e \<and> al_remaining e < a)"
  by (cases "bt_get r k") (use le_less_linear in blast)+

lemma allowance_step_ok: "allowances_ok r \<Longrightarrow> allowances_ok (fst (allowance_step r op))"
proof (cases op)
  case (DoSpend k a)
  assume ok: "allowances_ok r"
  obtain ow sp as where k: "k = (ow, sp, as)" by (cases k)
  show ?thesis
  proof (cases r k a rule: spend_cases)
    case (1 e)
    then show ?thesis
      using ok spend_get(2) [of r ow sp as e a]
      by (auto simp: DoSpend k allowances_ok_def case_prod_beta split: if_splits)
  next
    case 2
    then show ?thesis
      using ok spend_refused [of r ow sp as a] by (simp add: DoSpend k case_prod_beta)
  qed
qed (auto simp: allowances_ok_def approve_get allowance_increase_def split: if_splits prod.splits)

lemma allowance_step_spec:
  assumes "allowances_ok r"
  shows "allowance_spec (allowance_abs r) op = (allowance_abs (fst (allowance_step r op)), snd (allowance_step r op))"
proof (cases op)
  case (DoApprove k a)
  then show ?thesis by (cases k) (auto simp: allowance_abs_def approve_get)
next
  case (DoIncrease k a)
  obtain ow sp as where k: "k = (ow, sp, as)" by (cases k)
  have "allowance_abs (approve ow sp as n r) = (allowance_abs r)(k := unat n)" for n
    by (auto simp: allowance_abs_def approve_get k)
  then show ?thesis
    by (simp add: DoIncrease k allowance_increase_def allowance_abs_eq machine_simps)
next
  case (DoSpend k a)
  obtain ow sp as where k: "k = (ow, sp, as)" by (cases k)
  show ?thesis
  proof (cases r k a rule: spend_cases)
    case (1 e)
    have "al_remaining e \<noteq> 0" using assms 1(1) unfolding allowances_ok_def k by metis
    then have pos: "0 < unat (al_remaining e)" "unat a \<le> unat (al_remaining e)"
      using 1(2) by (simp_all only: unat_gt_0 word_le_nat_alt not_False_eq_True)
    have "allowance_abs (fst (allowance_spend ow sp as a r)) = (allowance_abs r)(k := unat (al_remaining e) - unat a)"
      using 1 spend_get(2) [of r ow sp as e a] by (auto simp: allowance_abs_def k unat_sub_fits)
    moreover have "allowance_abs r k = unat (al_remaining e)" using 1 by (simp add: allowance_abs_def)
    ultimately show ?thesis
      using 1 pos spend_get(1) [of r ow sp as e a] by (simp add: DoSpend k case_prod_beta)
  next
    case 2
    then have "\<not> (0 < allowance_abs r k \<and> unat a \<le> allowance_abs r k)"
      by (auto simp: allowance_abs_def word_less_nat_alt)
    moreover note spend_refused [of r ow sp as a]
    ultimately show ?thesis using 2 by (auto simp: DoSpend k case_prod_beta)
  qed
qed

interpretation allowances: refined_machine allowance_step allowances_ok allowance_spec allowance_abs
  by unfold_locales (simp_all add: allowance_step_ok allowance_step_spec)

section \<open>Lemmas: schedules\<close>

text \<open>The chain's end-of-epoch pass over one schedule: execute it when due.\<close>

definition fire :: "scheduled_execution \<Rightarrow> u64 \<Rightarrow> scheduled_execution \<times> bool" where
  "fire s epoch = (if is_due s epoch then (fst (schedule_advance s), True) else (s, False))"

definition firings_left :: "scheduled_execution \<Rightarrow> nat" where
  "firings_left s = (if \<not> sx_active s then 0 else if \<not> sx_recurring s then 1
     else unat (sx_max_recurrences s) - unat (sx_executed_count s))"

lemma fire_left:
  assumes "\<not> sx_recurring s \<or> sx_max_recurrences s > 0"
  shows "(if snd (fire s epoch) then 1 else 0) + firings_left (fst (fire s epoch)) \<le> firings_left s"
    and "\<not> sx_recurring (fst (fire s epoch)) \<or> sx_max_recurrences (fst (fire s epoch)) > 0"
proof -
  have count: "sx_executed_count s < sx_max_recurrences s \<Longrightarrow>
      unat (sx_executed_count s + 1) = unat (sx_executed_count s) + 1"
    using unat_less_2p [of "sx_max_recurrences s"] by (simp add: word_less_nat_alt unat_add_fits)
  show "(if snd (fire s epoch) then 1 else 0) + firings_left (fst (fire s epoch)) \<le> firings_left s"
    using assms count
    by (auto simp: fire_def is_due_def schedule_advance_def firings_left_def Let_def word_less_nat_alt word_le_nat_alt not_le
        split: if_splits)
  show "\<not> sx_recurring (fst (fire s epoch)) \<or> sx_max_recurrences (fst (fire s epoch)) > 0"
    using assms by (auto simp: fire_def schedule_advance_def Let_def)
qed

interpretation firings: budget_machine fire "\<lambda>_ s. \<not> sx_recurring s \<or> sx_max_recurrences s > 0"
    "\<lambda>fired. if fired then 1 else 0" firings_left
  by unfold_locales (use fire_left in blast)+

lemma firings_bound:
  "\<not> sx_recurring s \<or> sx_max_recurrences s > 0 \<Longrightarrow> length (filter id (snd (run fire s epochs))) \<le> firings_left s"
proof -
  assume "\<not> sx_recurring s \<or> sx_max_recurrences s > 0"
  from firings.run_budget [OF this, of epochs]
  have "(\<Sum>fired \<leftarrow> snd (run fire s epochs). if fired then 1 else 0) \<le> firings_left s" by simp
  moreover have "length (filter id xs) = (\<Sum>x \<leftarrow> xs. if x then 1 else 0)" for xs by (induction xs) simp_all
  ultimately show ?thesis by simp
qed

section \<open>Lemmas: shuffling\<close>

lemma random_u64_less: "mx \<noteq> 0 \<Longrightarrow> random_u64 X r d mx < mx"
  by (simp add: random_u64_def word_less_nat_alt unat_mod unat_gt_0)

lemma random_index_le: "unat (random_u64 X r d (of_nat (i + 1))) \<le> i"
proof (cases "(of_nat (i + 1) :: u64) = 0")
  case True
  then show ?thesis unfolding True by (simp add: random_u64_def)
next
  case False
  have "unat (random_u64 X r d (of_nat (i + 1))) < unat (of_nat (i + 1) :: u64)"
    using random_u64_less [OF False] by (simp only: word_less_nat_alt)
  also have "\<dots> \<le> i + 1" by (simp only: unat_of_nat) (rule mod_less_eq_dividend)
  finally show ?thesis by simp
qed

lemma mset_list_swap: "i < length xs \<Longrightarrow> j < length xs \<Longrightarrow> mset (list_swap i j xs) = mset xs"
  by (simp add: list_swap_def mset_swap)

lemma mset_shuffle_from: "k < length xs \<Longrightarrow> mset (shuffle_from X r d k xs) = mset xs"
proof (induction k arbitrary: xs)
  case (Suc k)
  let ?j = "unat (random_u64 X r (d @ '':shuffle:'' @ decimal (Suc k)) (of_nat (Suc k + 1)))"
  have "?j < length xs" using random_index_le [of X r _ "Suc k"] Suc.prems by (meson le_less_trans)
  then have "mset (list_swap (Suc k) ?j xs) = mset xs" using Suc.prems by (intro mset_list_swap)
  moreover have "k < length (list_swap (Suc k) ?j xs)" using Suc.prems by (simp add: list_swap_def)
  ultimately show ?case using Suc.IH by (simp add: Let_def del: of_nat_Suc)
qed simp

section \<open>Lemmas: token ownership\<close>

definition owned :: "nft_registry \<Rightarrow> bytes32 \<Rightarrow> bytes32 set" where
  "owned r ow = {t. \<exists>n. bt_get (nr_tokens r) t = Some n \<and> nt_owner n = ow}"

text \<open>The owner index lists exactly the tokens of each owner, once.\<close>

definition nft_index_ok :: "nft_registry \<Rightarrow> bool" where
  "nft_index_ok r \<longleftrightarrow> (\<forall>ow. set (tokens_of r ow) = owned r ow \<and> distinct (tokens_of r ow))"

lemma tokens_of_push [simp]:
  "tokens_of (index_push ow i r) ow' = (if ow' = ow then tokens_of r ow @ [i] else tokens_of r ow')"
  by (simp add: index_push_def tokens_of_def map_simps)

lemma tokens_of_drop [simp]:
  "tokens_of (index_drop ow i r) ow' = (if ow' = ow then filter (\<lambda>j. j \<noteq> i) (tokens_of r ow) else tokens_of r ow')"
  by (simp add: index_drop_def tokens_of_def map_simps split: option.split)

lemma index_frame [simp]:
  "nr_tokens (index_push ow i r) = nr_tokens r" "nr_tokens (index_drop ow i r) = nr_tokens r"
  by (simp_all add: index_push_def index_drop_def)

lemma tokens_of_tokens [simp]: "tokens_of (r\<lparr>nr_tokens := t\<rparr>) ow = tokens_of r ow"
  "tokens_of (r\<lparr>nr_collection_serials := c\<rparr>) ow = tokens_of r ow"
  by (simp_all add: tokens_of_def)

lemma mint_index_ok:
  assumes "nft_index_ok r" and "bt_get (nr_tokens r) (snd (nft_mint X c ow uri ep r)) = None"
  shows "nft_index_ok (fst (nft_mint X c ow uri ep r))"
proof -
  let ?t = "compute_token_id X c (collection_supply r c)"
  have fresh: "bt_get (nr_tokens r) ?t = None" using assms(2) by (simp add: nft_mint_def Let_def)
  then have "?t \<notin> set (tokens_of r ow')" for ow'
    using assms(1) by (auto simp: nft_index_ok_def owned_def)
  then show ?thesis
    using assms(1) fresh
    by (auto simp: nft_index_ok_def owned_def nft_mint_def nft_new_def Let_def map_simps)
qed

lemma transfer_index_ok:
  assumes "nft_index_ok r" and "bt_get (nr_tokens r) t = Some n" and "nt_owner n = from_addr"
  shows "nft_index_ok (fst (registry_transfer t from_addr to_addr r))"
proof (cases "nt_frozen n")
  case False
  let ?r = "fst (registry_transfer t from_addr to_addr r)"
  have toks: "tokens_of ?r w = (if w = to_addr then filter (\<lambda>j. w = from_addr \<longrightarrow> j \<noteq> t) (tokens_of r w) @ [t]
      else filter (\<lambda>j. w = from_addr \<longrightarrow> j \<noteq> t) (tokens_of r w))" for w
    using False assms(2,3) by (auto simp: registry_transfer_def nft_transfer_def Let_def)
  have own: "owned ?r w = (if w = to_addr then insert t (owned r w) else owned r w - {t})" for w
    using False assms(2,3)
    by (auto simp: registry_transfer_def nft_transfer_def owned_def Let_def map_simps)
  have t: "t \<in> owned r w \<longleftrightarrow> w = from_addr" for w using assms(2,3) by (auto simp: owned_def)
  show ?thesis
    using assms(1) t by (auto simp: nft_index_ok_def toks own)
qed (use assms in \<open>simp add: registry_transfer_def nft_transfer_def\<close>)

lemma burn_index_ok:
  assumes "nft_index_ok r"
  shows "nft_index_ok (fst (nft_burn t caller r))"
proof -
  have t: "bt_get (nr_tokens r) t = Some n \<Longrightarrow> t \<in> owned r w \<longleftrightarrow> w = nt_owner n" for n w by (auto simp: owned_def)
  then show ?thesis
    using assms
    by (auto simp: nft_burn_def nft_index_ok_def owned_def map_simps split: option.split)
qed

lemma approve_index_ok:
  assumes "nft_index_ok r" and "bt_get (nr_tokens r) t = Some n" and "nft_approve caller operator n = Inr n'"
  shows "nft_index_ok (r\<lparr>nr_tokens := bt_adjust t (\<lambda>_. n') (nr_tokens r)\<rparr>)"
proof -
  have "nt_owner n' = nt_owner n" using assms(3) by (auto simp: nft_approve_def split: if_splits)
  then have "owned (r\<lparr>nr_tokens := bt_adjust t (\<lambda>_. n') (nr_tokens r)\<rparr>) w = owned r w" for w
    using assms(2) by (auto simp: owned_def map_simps)
  with assms(1) show ?thesis by (simp add: nft_index_ok_def)
qed

text \<open>
  The registry's history: minting under an unused id, transfers by the owner (successful or not),
  approvals and burns.
\<close>

inductive nft_history :: "extern \<Rightarrow> nft_registry \<Rightarrow> bool" for X where
  start: "nft_history X nft_registry_new"
| mint: "nft_history X r \<Longrightarrow> bt_get (nr_tokens r) (snd (nft_mint X c ow uri ep r)) = None \<Longrightarrow>
    nft_history X (fst (nft_mint X c ow uri ep r))"
| transfer: "nft_history X r \<Longrightarrow> bt_get (nr_tokens r) t = Some n \<Longrightarrow> nt_owner n = from_addr \<Longrightarrow>
    nft_history X (fst (registry_transfer t from_addr to_addr r))"
| approval: "nft_history X r \<Longrightarrow> bt_get (nr_tokens r) t = Some n \<Longrightarrow> nft_approve caller operator n = Inr n' \<Longrightarrow>
    nft_history X (r\<lparr>nr_tokens := bt_adjust t (\<lambda>_. n') (nr_tokens r)\<rparr>)"
| burn: "nft_history X r \<Longrightarrow> nft_history X (fst (nft_burn t caller r))"

lemma nft_history_index: "nft_history X r \<Longrightarrow> nft_index_ok r"
proof (induction rule: nft_history.induct)
  case start
  then show ?case by (simp add: nft_index_ok_def tokens_of_def owned_def nft_registry_new_def)
qed (simp_all add: mint_index_ok transfer_index_ok approve_index_ok burn_index_ok)

section \<open>Lemmas: the plan context and settlement\<close>

text \<open>What the operations of a plan credit to and debit from a balance.\<close>

fun op_net :: "object_id \<Rightarrow> object_operation \<Rightarrow> int" where
  "op_net i (CreditBalance j a) = (if j = i then int (unat a) else 0)"
| "op_net i (DebitBalance j a) = (if j = i then - int (unat a) else 0)"
| "op_net i _ = 0"

fun op_credit :: "object_id \<Rightarrow> object_operation \<Rightarrow> nat" where
  "op_credit i (CreditBalance j a) = (if j = i then unat a else 0)"
| "op_credit i _ = 0"

lemma fold_net_step_add: "fold (net_step i) ops (net + d) = fold (net_step i) ops net + d"
proof (induction ops arbitrary: net)
  case (Cons op ops)
  have "net_step i op (net + d) = net_step i op net + d"
    by (simp add: net_step_def algebra_simps split: balance_op_type.split)
  with Cons show ?case by simp
qed simp

lemma context_add_net:
  "net_balance_change (context_add X op ctx) i = net_balance_change ctx i + of_int (op_net i op)"
  by (cases op) (auto simp: net_balance_change_def push_balance_op_def net_step_def)

lemma context_net: "net_balance_change (context_from_operations X ops ep g) i = of_int (\<Sum>op \<leftarrow> ops. op_net i op)"
proof -
  have "net_balance_change (fold (context_add X) ops ctx) i =
      net_balance_change ctx i + of_int (\<Sum>op \<leftarrow> ops. op_net i op)" for ctx
    by (induction ops arbitrary: ctx) (simp_all add: context_add_net)
  then show ?thesis by (simp add: context_from_operations_def context_new_def net_balance_change_def)
qed

lemma uint_minus_fits: "unat b \<le> unat a \<Longrightarrow> uint (a - b) = uint a - uint (b :: u128)"
  by (simp add: uint_sub_if' word_le_nat_alt [symmetric] word_le_def)

lemma uint_sat_add_fits: "unat a + unat b < 2 ^ 128 \<Longrightarrow> uint (sat_add a b) = uint a + uint (b :: u128)"
  by (simp only: uint_nat unat_sat_add) simp

lemma apply_op_amount:
  assumes "apply_op X op s aff = Inr (s', aff')" and "get_balance_by_id s i = Some b"
    and "unat (bo_amount b) + op_credit i op < 2 ^ 128"
  shows "\<exists>b'. get_balance_by_id s' i = Some b' \<and> int (unat (bo_amount b')) = int (unat (bo_amount b)) + op_net i op"
  using assms
  by (cases op) (auto simp: get_balance_by_id_def get_balance_by_id_mut_def get_pool_by_id_mut_def store_get_mut_def
      map_simps insert_untyped_def Let_def machine_simps uint_minus_fits uint_sat_add_fits word_le_nat_alt
      split: option.splits)

lemma apply_ops_amount:
  "apply_ops X ops s aff = (s', Inr aff') \<Longrightarrow> get_balance_by_id s i = Some b \<Longrightarrow>
     unat (bo_amount b) + (\<Sum>op \<leftarrow> ops. op_credit i op) < 2 ^ 128 \<Longrightarrow>
   \<exists>b'. get_balance_by_id s' i = Some b' \<and>
     int (unat (bo_amount b')) = int (unat (bo_amount b)) + (\<Sum>op \<leftarrow> ops. op_net i op)"
proof (induction ops arbitrary: s aff b)
  case (Cons op ops)
  obtain s1 aff1 where a: "apply_op X op s aff = Inr (s1, aff1)" and rest: "apply_ops X ops s1 aff1 = (s', Inr aff')"
    using Cons.prems(1) by (auto split: sum.splits)
  obtain b1 where b1: "get_balance_by_id s1 i = Some b1" "int (unat (bo_amount b1)) = int (unat (bo_amount b)) + op_net i op"
    using apply_op_amount [OF a Cons.prems(2)] Cons.prems(3) by auto
  have "op_net i op \<le> int (op_credit i op)" by (cases op) auto
  then have "unat (bo_amount b1) + (\<Sum>op \<leftarrow> ops. op_credit i op) < 2 ^ 128"
    using b1(2) Cons.prems(3) by (simp del: of_nat_unat)
  from Cons.IH [OF rest b1(1) this] b1(2) show ?case by auto
qed auto

lemma bump_keeps_amount:
  "map_option bo_amount (get_balance_by_id (fold bump_version ids s) i) = map_option bo_amount (get_balance_by_id s i)"
proof (induction ids arbitrary: s)
  case (Cons j ids)
  have "map_option bo_amount (get_balance_by_id (bump_version j s) i) = map_option bo_amount (get_balance_by_id s i)"
    by (simp add: get_balance_by_id_def bump_version_eq map_simps option.map_comp comp_def)
  with Cons show ?case by simp
qed simp

lemma apply_plan_amount:
  assumes "apply_plan X plan s = (s', r)" and "rc_success r" and "get_balance_by_id s i = Some b"
    and "unat (bo_amount b) + (\<Sum>op \<leftarrow> ep_operations plan. op_credit i op) < 2 ^ 128"
  shows "\<exists>b'. get_balance_by_id s' i = Some b' \<and>
    int (unat (bo_amount b')) = int (unat (bo_amount b)) + (\<Sum>op \<leftarrow> ep_operations plan. op_net i op)"
proof -
  obtain s1 aff where a: "apply_ops X (ep_operations plan) s [] = (s1, Inr aff)"
    and s': "s' = sync_typed_to_canonical (fold bump_version (mutated_ids aff) s1)"
    by (rule apply_plan_success [OF assms(1,2)]) blast
  have "map_option bo_amount (get_balance_by_id s' i) = map_option bo_amount (get_balance_by_id s1 i)"
    using bump_keeps_amount by (simp add: s' get_balance_by_id_def)
  moreover obtain b1 where "get_balance_by_id s1 i = Some b1"
    "int (unat (bo_amount b1)) = int (unat (bo_amount b)) + (\<Sum>op \<leftarrow> ep_operations plan. op_net i op)"
    using apply_ops_amount [OF a assms(3,4)] by blast
  ultimately show ?thesis by (auto simp del: of_nat_unat)
qed

section \<open>Lemmas: commit and reveal\<close>

datatype reveal_op = DoCommit commit_reveal_record | DoReveal bytes32 bytes bytes u64 | DoPrune u64

fun reveal_step :: "extern \<Rightarrow> commit_registry \<Rightarrow> reveal_op \<Rightarrow> commit_registry \<times> bytes32 list" where
  "reveal_step X m (DoCommit r) = (fst (registry_commit r m), [])"
| "reveal_step X m (DoReveal i v salt ep) =
     (fst (registry_reveal X i v salt ep m),
      if isl (snd (registry_reveal X i v salt ep m)) then [] else [i])"
| "reveal_step X m (DoPrune ep) = (fst (prune_expired ep m), [])"

definition was_revealed :: "commit_registry \<Rightarrow> bytes32 \<Rightarrow> bool" where
  "was_revealed m i \<longleftrightarrow> (\<exists>r. bt_get m i = Some r \<and> rv_revealed r)"

lemma reveal_ok: "record_reveal X v salt ep r = Inr r' \<Longrightarrow> \<not> rv_revealed r \<and> rv_revealed r'"
  by (auto simp: record_reveal_def split: if_splits)

lemma reveal_step_ok: "bt_ok m \<Longrightarrow> bt_ok (fst (reveal_step X m op))"
  by (cases op) (auto simp: registry_commit_def registry_reveal_def prune_expired_def Let_def
      btm.ok_put btm.ok_adjust bt_retain_ok split: option.split sum.split)

lemma reveal_step_mono: "bt_ok m \<Longrightarrow> was_revealed m i \<Longrightarrow> was_revealed (fst (reveal_step X m op)) i"
  by (cases op) (auto simp: was_revealed_def registry_commit_def registry_reveal_def prune_expired_def Let_def
      commit_is_expired_def bt_has_def map_simps bt_retain_get dest: reveal_ok split: option.split sum.split)

interpretation reveals: once_machine "reveal_step X" "\<lambda>_. bt_ok" "\<lambda>ids. ids" was_revealed for X
proof
  fix i :: reveal_op and os :: "reveal_op list" and m :: commit_registry and k :: bytes32
  assume "bt_ok m"
  show "distinct (snd (reveal_step X m i))" by (cases i) auto
  show "k \<in> set (snd (reveal_step X m i)) \<Longrightarrow> \<not> was_revealed m k"
    by (cases i) (auto simp: was_revealed_def registry_reveal_def dest: reveal_ok split: option.splits sum.splits if_splits)
  show "k \<in> set (snd (reveal_step X m i)) \<Longrightarrow> was_revealed (fst (reveal_step X m i)) k"
    by (cases i) (auto simp: was_revealed_def registry_reveal_def map_simps dest: reveal_ok
        split: option.splits sum.splits if_splits)
qed (simp_all add: reveal_step_ok reveal_step_mono)

section \<open>Properties\<close>

text \<open>
  C34. A plan's validation context predicts settlement: \<^verbatim>\<open>net_balance_change\<close> of the context built
  from the plan's operations, read as a signed number, is exactly what a settled plan adds to the
  balance, as long as the credits do not saturate it and the change fits in \<^verbatim>\<open>i128\<close>.
\<close>

theorem plan_context_predicts_settlement:
  assumes "apply_plan X plan s = (s', r)" and "rc_success r" and "get_balance_by_id s i = Some b"
    and "unat (bo_amount b) + (\<Sum>op \<leftarrow> ep_operations plan. op_credit i op) < 2 ^ 128"
    and "(\<Sum>op \<leftarrow> ep_operations plan. op_net i op) \<in> {- (2 ^ 127) ..< 2 ^ 127}"
  shows "\<exists>b'. get_balance_by_id s' i = Some b' \<and>
    int (unat (bo_amount b')) = int (unat (bo_amount b)) +
      sint (net_balance_change (context_from_operations X (ep_operations plan) epoch gas) i)"
proof -
  have "sint (of_int d :: i128) = d" if "d \<in> {- (2 ^ 127) ..< 2 ^ 127}" for d
    using that by (simp add: sint_sbintrunc' signed_take_bit_int_eq_self)
  with assms(5) show ?thesis using apply_plan_amount [OF assms(1-4)] by (simp only: context_net)
qed

theorem plan_context_predicts_settlement_witness:
  "\<exists>s' r b'. apply_plan extern_std (mk_plan 1 100 [DebitBalance 10 5, CreditBalance 11 5] [] []) sample_store = (s', r) \<and>
    get_balance_by_id s' 11 = Some b' \<and> int (unat (bo_amount b')) =
      int (unat (bo_amount (the (get_balance_by_id sample_store 11)))) + sint (net_balance_change (context_from_operations extern_std
        [DebitBalance 10 5, CreditBalance 11 5] 3 100) 11)"
proof -
  let ?p = "mk_plan 1 100 [DebitBalance 10 5, CreditBalance 11 5] [] []"
  obtain s' r where p: "apply_plan extern_std ?p sample_store = (s', r)" by fastforce
  have "rc_success (snd (apply_plan extern_std ?p sample_store))"
    by (simp add: apply_plan_def mk_plan_def sample_store_def store_of_eval bo_available_def sat_sub_def
        sat_add_def sat_mul_def checked_sub_def get_balance_by_id_mut_def bt_adjust_def mutated_ids_def
        meter_new_def default_costs_def consume_def checked_add_def failure_receipt_def Let_def)
  then have r: "rc_success r" by (simp add: p)
  obtain b where b: "get_balance_by_id sample_store 11 = Some b" "unat (bo_amount b) + 5 < 2 ^ 128"
    by (simp add: get_balance_by_id_def sample_store_def store_of_eval)
  from plan_context_predicts_settlement [OF p r b(1), of 3 100] b p show ?thesis
    by (simp add: mk_plan_def)
qed

text \<open>
  C35. Allowances implement a table of numbers: along every sequence of approvals, spends and
  increases on a new registry, each spend succeeds exactly when the table has a positive entry that
  covers it, the registry always shows the table's numbers, and a spent allowance cannot be spent
  again; increases saturate.
\<close>

theorem allowances_refine_table:
  "run allowance_spec (\<lambda>_. 0) ops = (allowance_abs (fst (run allowance_step [] ops)), snd (run allowance_step [] ops)) \<and>
   unat (allowance (fst (run allowance_step [] ops)) ow sp as) = fst (run allowance_spec (\<lambda>_. 0) ops) (ow, sp, as)"
proof -
  have "allowance_abs [] = (\<lambda>_. 0)" "allowances_ok []" by (auto simp: allowance_abs_def allowances_ok_def)
  with allowances.run_spec [of "[]" ops] show ?thesis by (simp add: allowance_abs_eq)
qed

text \<open>
  A schedule that is not recurring, or has a recurrence limit, is executed at most as often as it
  has executions left, whatever sequence of epochs the registry is asked at; the counter never passes
  the limit.
\<close>

theorem schedule_fires_within_limit:
  assumes "\<not> sx_recurring s \<or> sx_max_recurrences s > 0"
  shows "length (filter id (snd (run fire s epochs))) \<le>
    (if \<not> sx_active s then 0 else if \<not> sx_recurring s then 1
     else unat (sx_max_recurrences s) - unat (sx_executed_count s))"
  using firings_bound [OF assms, of epochs] by (simp add: firings_left_def)

definition sample_schedule :: scheduled_execution where
  "sample_schedule = \<lparr>sx_schedule_id = 1, sx_contract_id = 2, sx_schema_id = 3, sx_method = ''tick'', sx_params = [],
     sx_execute_at_epoch = 5, sx_recurring = True, sx_interval_epochs = 2, sx_max_recurrences = 2,
     sx_executed_count = 0, sx_active = True\<rparr>"

theorem schedule_fires_within_limit_witness:
  "snd (run fire sample_schedule [4, 5, 6, 7, 9]) = [False, True, False, True, False] \<and>
   length (filter id (snd (run fire sample_schedule [4, 5, 6, 7, 9]))) \<le> 2"
  using schedule_fires_within_limit [of sample_schedule "[4, 5, 6, 7, 9]"]
  by (simp add: sample_schedule_def run_Cons fire_def is_due_def schedule_advance_def word_le_nat_alt Let_def)

text \<open>
  The owner index of the NFT registry is exact: after any history of mints under unused ids,
  transfers by the owner, approvals and burns, it lists every token of an owner once and nothing else.
\<close>

theorem nft_owner_index_is_exact:
  assumes "nft_history X r"
  shows "distinct (tokens_of r ow) \<and>
    set (tokens_of r ow) = {t. \<exists>n. bt_get (nr_tokens r) t = Some n \<and> nt_owner n = ow}"
  using nft_history_index [OF assms] by (simp add: nft_index_ok_def owned_def)

theorem nft_owner_index_is_exact_witness:
  "distinct (tokens_of (fst (nft_mint extern_std 7 1 ''uri'' 3 nft_registry_new)) 1) \<and>
   set (tokens_of (fst (nft_mint extern_std 7 1 ''uri'' 3 nft_registry_new)) 1) =
     {compute_token_id extern_std 7 0}"
proof -
  let ?r = "fst (nft_mint extern_std 7 1 ''uri'' 3 nft_registry_new)"
  have "nft_history extern_std ?r"
    by (rule nft_history.mint [OF nft_history.start]) (simp add: nft_registry_new_def)
  moreover have "tokens_of ?r 1 = [compute_token_id extern_std 7 0]"
    by (simp add: nft_mint_def Let_def nft_registry_new_def collection_supply_def tokens_of_def index_push_def bt_get_Cons map_simps)
  ultimately show ?thesis using nft_owner_index_is_exact [of extern_std ?r 1] by simp
qed

text \<open>
  A transfer by the approved operator moves the token but leaves it in the old owner's index.
\<close>

theorem operator_transfer_leaves_stale_index:
  assumes "bt_get (nr_tokens r) t = Some n" and "nt_approved n = Some operator" and "\<not> nt_frozen n"
    and "operator \<noteq> nt_owner n" and "to_addr \<noteq> nt_owner n" and "t \<in> set (tokens_of r (nt_owner n))"
  shows "snd (registry_transfer t operator to_addr r) = Inr () \<and>
    t \<in> set (tokens_of (fst (registry_transfer t operator to_addr r)) (nt_owner n)) \<and>
    t \<notin> owned (fst (registry_transfer t operator to_addr r)) (nt_owner n)"
  using assms by (auto simp: registry_transfer_def nft_transfer_def owned_def Let_def map_simps)

text \<open>
  The shuffle of the epoch randomness only reorders: the result has every item as often as the input,
  for every hash function, domain and length, and no index is out of range.
\<close>

theorem shuffle_is_permutation: "mset (shuffle X r domain items) = mset items"
  by (cases items) (simp_all add: shuffle_def mset_shuffle_from)

text \<open>
  A commitment is revealed at most once: along every sequence of commits, reveals and prunings on an
  ordered registry no identifier is revealed twice, and none that was already revealed.
\<close>

theorem each_commit_reveals_once:
  assumes "bt_ok m"
  shows "distinct (concat (snd (run (reveal_step X) m ops))) \<and>
    (\<forall>i r. bt_get m i = Some r \<and> rv_revealed r \<longrightarrow> i \<notin> set (concat (snd (run (reveal_step X) m ops))))"
  using reveals.run_once [OF assms, of X ops] by (auto simp: was_revealed_def)

definition sample_commit :: commit_reveal_record where
  "sample_commit = \<lparr>rv_id = 1, rv_commitment = compute_commitment extern_std [1, 2] [3], rv_revealed_value = None,
     rv_revealed_salt = None, rv_committer = 4, rv_commit_epoch = 1, rv_reveal_deadline_epoch = 9, rv_revealed = False\<rparr>"

theorem each_commit_reveals_once_witness:
  "let ids = concat (snd (run (reveal_step extern_std) []
     [DoCommit sample_commit, DoReveal 1 [1, 2] [3] 9, DoReveal 1 [1, 2] [3] 9]))
   in 1 \<in> set ids \<and> distinct ids"
  using each_commit_reveals_once [of "[]" extern_std "[DoCommit sample_commit, DoReveal 1 [1, 2] [3] 9, DoReveal 1 [1, 2] [3] 9]"]
  by (simp add: run_Cons registry_commit_def bt_has_def registry_reveal_def record_reveal_def sample_commit_def bt_get_Cons map_simps Let_def)

text \<open>The commitment hashes value and salt without a separator: a byte can move from one to the other.\<close>

theorem commitment_does_not_bind_the_split:
  "compute_commitment X (v @ [b]) salt = compute_commitment X v (b # salt)"
  by (simp add: compute_commitment_def)

end
