(* ===== verification/Merkle.thy ===== *)
theory Merkle
  imports Store
begin

text \<open>
  The Merkle commitment to the object store, \<^verbatim>\<open>runtime/src/state/merkle.rs\<close>: hashing with domain
  prefixes, the tree built bottom-up with the last node of an odd level duplicated, inclusion proofs
  and their verification. Shown: every generated proof verifies, a verified proof shows a real entry,
  the root determines the entries, and the depth of the tree.
\<close>

section \<open>Hashing\<close>

definition empty_leaf_hash :: "extern \<Rightarrow> bytes32" where
  "empty_leaf_hash X = x_sha256 X (string_bytes ''OMNIPHI_EMPTY_LEAF'')"

definition leaf_input :: "bytes32 \<Rightarrow> bytes32 \<Rightarrow> bytes" where
  "leaf_input key value_hash = 0 # be_bytes 32 key @ be_bytes 32 value_hash"

definition internal_input :: "bytes32 \<Rightarrow> bytes32 \<Rightarrow> bytes" where
  "internal_input left right = 1 # be_bytes 32 left @ be_bytes 32 right"

definition hash_leaf :: "extern \<Rightarrow> bytes32 \<Rightarrow> bytes32 \<Rightarrow> bytes32" where
  "hash_leaf X key value_hash = x_sha256 X (leaf_input key value_hash)"

definition hash_internal :: "extern \<Rightarrow> bytes32 \<Rightarrow> bytes32 \<Rightarrow> bytes32" where
  "hash_internal X left right = x_sha256 X (internal_input left right)"

section \<open>Proofs\<close>

record proof_node =
  pn_hash :: bytes32
  pn_is_left :: bool

record merkle_proof =
  mp_key :: bytes32
  mp_value_hash :: bytes32
  mp_path :: "proof_node list"
  mp_root :: bytes32

definition climb :: "extern \<Rightarrow> bytes32 \<Rightarrow> proof_node \<Rightarrow> bytes32" where
  "climb X current node =
     (if pn_is_left node then hash_internal X (pn_hash node) current else hash_internal X current (pn_hash node))"

definition merkle_verify :: "extern \<Rightarrow> merkle_proof \<Rightarrow> bool" where
  "merkle_verify X p \<longleftrightarrow> foldl (climb X) (hash_leaf X (mp_key p) (mp_value_hash p)) (mp_path p) = mp_root p"

section \<open>The tree\<close>

record merkle_tree =
  mt_leaves :: "(bytes32 \<times> bytes32) list"
  mt_levels :: "bytes32 list list"
  mt_root :: bytes32

text \<open>One pass of the inner loop: pairs, the last node of an odd level with itself.\<close>

fun next_level :: "extern \<Rightarrow> bytes32 list \<Rightarrow> bytes32 list" where
  "next_level X [] = []"
| "next_level X [a] = [hash_internal X a a]"
| "next_level X (a # b # xs) = hash_internal X a b # next_level X xs"

lemma length_next_level [simp]: "length (next_level X xs) = (length xs + 1) div 2"
  by (induction X xs rule: next_level.induct) auto

text \<open>The outer loop; it starts from a non-empty level, so it stops at a level of one node.\<close>

function build_levels :: "extern \<Rightarrow> bytes32 list \<Rightarrow> bytes32 list list" where
  "build_levels X current = (if length current \<le> 1 then [current] else current # build_levels X (next_level X current))"
  by pat_completeness auto
termination by (relation "measure (\<lambda>(X, xs). length xs)") auto

declare build_levels.simps [simp del]

definition merkle_build :: "extern \<Rightarrow> (bytes32 \<times> bytes32) list \<Rightarrow> merkle_tree" where
  "merkle_build X entries =
     (if entries = [] then
        \<lparr>mt_leaves = [], mt_levels = [[empty_leaf_hash X]], mt_root = empty_leaf_hash X\<rparr>
      else
        (let leaf_hashes = map (\<lambda>(k, v). hash_leaf X k v) entries;
             levels = build_levels X leaf_hashes
         in \<lparr>mt_leaves = zip (map fst entries) leaf_hashes, mt_levels = levels, mt_root = hd (last levels)\<rparr>))"

text \<open>The sibling of a node within its level.\<close>

definition sibling_node :: "nat \<Rightarrow> bytes32 list \<Rightarrow> proof_node" where
  "sibling_node idx level =
     (let s = (if idx mod 2 = 0 then idx + 1 else idx - 1)
      in \<lparr>pn_hash = (if s < length level then level ! s else level ! idx), pn_is_left = (idx mod 2 = 1)\<rparr>)"

fun prove_path :: "nat \<Rightarrow> bytes32 list list \<Rightarrow> proof_node list" where
  "prove_path idx (level # up # levels) = sibling_node idx level # prove_path (idx div 2) (up # levels)"
| "prove_path idx _ = []"

definition merkle_prove :: "merkle_tree \<Rightarrow> nat \<Rightarrow> merkle_proof option" where
  "merkle_prove t index =
     (if index \<ge> length (mt_leaves t) then None
      else Some \<lparr>mp_key = fst (mt_leaves t ! index), mp_value_hash = 0, mp_path = prove_path index (mt_levels t),
                 mp_root = mt_root t\<rparr>)"

definition merkle_len :: "merkle_tree \<Rightarrow> usize" where
  "merkle_len t = length (mt_leaves t)"

definition merkle_depth :: "merkle_tree \<Rightarrow> usize" where
  "merkle_depth t = length (mt_levels t)"

definition merkle_entries :: "extern \<Rightarrow> (object_id, obj) btree \<Rightarrow> (bytes32 \<times> bytes32) list" where
  "merkle_entries X objects = map (\<lambda>(i, x). (i, x_sha256 X (obj_encode X x))) objects"

definition compute_merkle_root :: "extern \<Rightarrow> (object_id, obj) btree \<Rightarrow> merkle_tree \<times> bytes32" where
  "compute_merkle_root X objects =
     (let tree = merkle_build X (merkle_entries X objects) in (tree, mt_root tree))"

section \<open>What is hashed\<close>

text \<open>
  The strings hashed while a level is paired, a tree is built and a proof is verified. Collision
  freedom is assumed on such finite sets only.
\<close>

fun pair_inputs :: "bytes32 list \<Rightarrow> bytes set" where
  "pair_inputs [] = {}"
| "pair_inputs [a] = {internal_input a a}"
| "pair_inputs (a # b # xs) = insert (internal_input a b) (pair_inputs xs)"

definition tree_inputs :: "extern \<Rightarrow> (bytes32 \<times> bytes32) list \<Rightarrow> bytes set" where
  "tree_inputs X entries =
     (\<lambda>(k, v). leaf_input k v) ` set entries \<union>
     \<Union> (pair_inputs ` set (butlast (build_levels X (map (\<lambda>(k, v). hash_leaf X k v) entries))))"

definition climb_input :: "bytes32 \<Rightarrow> proof_node \<Rightarrow> bytes" where
  "climb_input current n =
     (if pn_is_left n then internal_input (pn_hash n) current else internal_input current (pn_hash n))"

fun path_inputs :: "extern \<Rightarrow> bytes32 \<Rightarrow> proof_node list \<Rightarrow> bytes set" where
  "path_inputs X current [] = {}"
| "path_inputs X current (n # ns) =
     insert (climb_input current n) (path_inputs X (climb X current n) ns)"

definition proof_inputs :: "extern \<Rightarrow> merkle_proof \<Rightarrow> bytes set" where
  "proof_inputs X p = insert (leaf_input (mp_key p) (mp_value_hash p))
     (path_inputs X (hash_leaf X (mp_key p) (mp_value_hash p)) (mp_path p))"

section \<open>Lemmas: inputs\<close>

lemma leaf_input_inject [simp]: "leaf_input k v = leaf_input k' v' \<longleftrightarrow> k = k' \<and> v = v'"
  by (simp add: leaf_input_def)

lemma internal_input_inject [simp]: "internal_input a b = internal_input a' b' \<longleftrightarrow> a = a' \<and> b = b'"
  by (simp add: internal_input_def)

lemma leaf_not_internal [simp]: "leaf_input k v \<noteq> internal_input a b" "internal_input a b \<noteq> leaf_input k v"
  by (simp_all add: leaf_input_def internal_input_def)

lemma next_level_hash:
  "h \<in> set (next_level X xs) \<Longrightarrow> \<exists>a b. h = hash_internal X a b \<and> internal_input a b \<in> pair_inputs xs \<and> a \<in> set xs \<and> b \<in> set xs"
  by (induction X xs rule: next_level.induct) auto

lemma pair_inputs_internal: "w \<in> pair_inputs xs \<Longrightarrow> \<exists>a b. w = internal_input a b"
  by (induction xs rule: pair_inputs.induct) auto

section \<open>Lemmas: levels\<close>

lemma build_levels_one: "length xs \<le> 1 \<Longrightarrow> build_levels X xs = [xs]"
  by (subst build_levels.simps) simp

lemma build_levels_step: "1 < length xs \<Longrightarrow> build_levels X xs = xs # build_levels X (next_level X xs)"
  by (subst build_levels.simps) simp

lemma build_levels_nonempty [simp]: "build_levels X xs \<noteq> []"
  by (subst build_levels.simps) simp

lemma build_levels_induct [consumes 1, case_names one step]:
  assumes "xs \<noteq> []"
    and "\<And>a. P [a]"
    and "\<And>xs. 1 < length xs \<Longrightarrow> P (next_level X xs) \<Longrightarrow> P xs"
  shows "P xs"
  using assms(1)
proof (induction "length xs" arbitrary: xs rule: less_induct)
  case less
  show ?case
  proof (cases "1 < length xs")
    case True
    then have "length (next_level X xs) < length xs" "next_level X xs \<noteq> []"
      using length_next_level [of X xs] by (auto simp del: length_next_level simp flip: length_greater_0_conv)
    then show ?thesis using less.hyps assms(3) [OF True] by blast
  next
    case False
    then obtain a where "xs = [a]" using less.prems by (cases xs) auto
    then show ?thesis using assms(2) by simp
  qed
qed

lemma last_build_levels: "xs \<noteq> [] \<Longrightarrow> \<exists>r. last (build_levels X xs) = [r]"
  by (induction xs rule: build_levels_induct [where X = X])
    (simp_all add: build_levels_one build_levels_step)

lemma depth_step:
  fixes n q :: nat
  assumes "q = 1 \<or> even q" "(n + 1) div 2 \<le> q" "q < 2 * ((n + 1) div 2)" "2 \<le> n"
  shows "n \<le> 2 * q" "q < n"
proof -
  show "n \<le> 2 * q" using assms(2) by linarith
  show "q < n"
  proof (cases "even n")
    case True
    then show ?thesis using assms(3) by auto
  next
    case False
    then have "q < n + 1" using assms(3) by (auto elim!: oddE)
    then show ?thesis using assms(1,4) False by (metis One_nat_def less_Suc_eq Suc_eq_plus1 Suc_1 not_less_eq_eq order_refl)
  qed
qed

lemma depth_bounds:
  "xs \<noteq> [] \<Longrightarrow> length xs \<le> 2 ^ (length (build_levels X xs) - 1) \<and>
     2 ^ (length (build_levels X xs) - 1) < 2 * length xs"
proof (induction xs rule: build_levels_induct [where X = X])
  case (step xs)
  let ?d = "length (build_levels X (next_level X xs))" and ?n = "length xs"
  define q :: nat where "q = 2 ^ (?d - 1)"
  have "0 < ?d" by simp
  then have d: "(2::nat) ^ ?d = 2 * q" unfolding q_def by (cases ?d) simp_all
  have q: "q = 1 \<or> even q" unfolding q_def by (cases "?d - 1") simp_all
  have b: "(?n + 1) div 2 \<le> q" "q < 2 * ((?n + 1) div 2)" using step.IH by (simp_all add: q_def)
  have "2 \<le> ?n" using step.hyps by simp
  note depth_step [OF q b this]
  then show ?case using d by (simp add: build_levels_step [OF step.hyps])
qed (simp add: build_levels_one)

lemma sibling_node_shift: "sibling_node (Suc (Suc j)) (a # b # xs) = sibling_node j xs"
proof (cases "even j")
  case False
  then obtain i where "j = Suc i" by (cases j) auto
  then show ?thesis using False by (auto simp: sibling_node_def Let_def odd_iff_mod_2_eq_one)
qed (simp add: sibling_node_def Let_def)

lemma next_level_nth:
  "idx < length xs \<Longrightarrow> next_level X xs ! (idx div 2) = climb X (xs ! idx) (sibling_node idx xs)"
proof (induction X xs arbitrary: idx rule: next_level.induct)
  case (3 X a b xs)
  show ?case
  proof (cases "idx < 2")
    case True
    then have "idx = 0 \<or> idx = 1" by auto
    then show ?thesis by (auto simp: climb_def sibling_node_def)
  next
    case False
    then obtain j where "idx = Suc (Suc j)" by (metis One_nat_def Suc_1 less_2_cases_iff not0_implies_Suc)
    with 3 show ?thesis by (simp add: sibling_node_shift)
  qed
qed (auto simp: climb_def sibling_node_def)

lemma prove_path_climbs:
  "xs \<noteq> [] \<Longrightarrow> idx < length xs \<Longrightarrow>
     foldl (climb X) (xs ! idx) (prove_path idx (build_levels X xs)) = hd (last (build_levels X xs))"
proof (induction xs arbitrary: idx rule: build_levels_induct [where X = X])
  case (step xs)
  obtain up ls where up: "build_levels X (next_level X xs) = up # ls" by (cases "build_levels X (next_level X xs)") auto
  have "idx div 2 < length (next_level X xs)" using step.prems by auto
  from step.IH [OF this] show ?case
    using step.prems by (simp add: build_levels_step [OF step.hyps] up next_level_nth)
qed (simp add: build_levels_one)

section \<open>Lemmas: the hashed strings of an honest proof\<close>

lemma sibling_input:
  "idx < length xs \<Longrightarrow> climb_input (xs ! idx) (sibling_node idx xs) \<in> pair_inputs xs"
proof (induction xs arbitrary: idx rule: pair_inputs.induct)
  case (3 a b xs)
  show ?case
  proof (cases "idx < 2")
    case True
    then have "idx = 0 \<or> idx = 1" by auto
    then show ?thesis by (auto simp: sibling_node_def climb_input_def)
  next
    case False
    then obtain j where "idx = Suc (Suc j)" by (metis One_nat_def Suc_1 less_2_cases_iff not0_implies_Suc)
    with 3 show ?thesis by (simp add: sibling_node_shift)
  qed
qed (auto simp: sibling_node_def climb_input_def)

lemma prove_path_inputs:
  "xs \<noteq> [] \<Longrightarrow> idx < length xs \<Longrightarrow>
     path_inputs X (xs ! idx) (prove_path idx (build_levels X xs)) \<subseteq> \<Union> (pair_inputs ` set (butlast (build_levels X xs)))"
proof (induction xs arbitrary: idx rule: build_levels_induct [where X = X])
  case (step xs)
  obtain up ls where up: "build_levels X (next_level X xs) = up # ls" by (cases "build_levels X (next_level X xs)") auto
  have "idx div 2 < length (next_level X xs)" using step.prems by auto
  from step.IH [OF this] sibling_input [OF step.prems] show ?case
    using step.prems by (simp add: build_levels_step [OF step.hyps] up next_level_nth [symmetric] le_supI2)
qed (simp add: build_levels_one)

section \<open>Lemmas: soundness\<close>

lemma climb_hash: "climb X c n = x_sha256 X (climb_input c n)"
  by (simp add: climb_def climb_input_def hash_internal_def)

lemma climb_input_internal: "climb_input c n = internal_input a b \<Longrightarrow> c \<in> {a, b}"
  by (auto simp: climb_input_def split: if_splits)

lemma climb_input_not_leaf [simp]: "climb_input c n \<noteq> leaf_input k v"
  by (simp add: climb_input_def)

lemma path_inputs_append:
  "path_inputs X c (ns @ ms) = path_inputs X c ns \<union> path_inputs X (foldl (climb X) c ns) ms"
  by (induction ns arbitrary: c) auto

text \<open>
  Walking a verified path down from the root, level by level: without collisions some prefix of the
  path leads to a node of every level of the tree.
\<close>

lemma path_meets_level:
  assumes inj: "inj_on (x_sha256 X) S" and leaf: "leaf_input k v \<in> S"
    and path: "path_inputs X (hash_leaf X k v) ns \<subseteq> S"
  shows "xs \<noteq> [] \<Longrightarrow> \<Union> (pair_inputs ` set (butlast (build_levels X xs))) \<subseteq> S \<Longrightarrow>
    foldl (climb X) (hash_leaf X k v) ns = hd (last (build_levels X xs)) \<Longrightarrow>
    \<exists>ms ms'. ns = ms @ ms' \<and> foldl (climb X) (hash_leaf X k v) ms \<in> set xs"
proof (induction xs rule: build_levels_induct [where X = X])
  case (one a)
  then show ?case by (intro exI [of _ ns] exI [of _ "[]"]) (simp add: build_levels_one)
next
  case (step xs)
  have S: "pair_inputs xs \<subseteq> S" "\<Union> (pair_inputs ` set (butlast (build_levels X (next_level X xs)))) \<subseteq> S"
    and top: "foldl (climb X) (hash_leaf X k v) ns = hd (last (build_levels X (next_level X xs)))"
    using step.prems by (auto simp: build_levels_step [OF step.hyps])
  from step.IH [OF this(2,3)] obtain ms ms' where ns: "ns = ms @ ms'"
    and "foldl (climb X) (hash_leaf X k v) ms \<in> set (next_level X xs)" by blast
  with next_level_hash obtain a b where ab: "foldl (climb X) (hash_leaf X k v) ms = hash_internal X a b"
    "internal_input a b \<in> S" "a \<in> set xs" "b \<in> set xs" using S(1) by blast
  show ?case
  proof (cases ms rule: rev_cases)
    case Nil
    then have "leaf_input k v = internal_input a b"
      using ab leaf inj by (auto simp: hash_leaf_def hash_internal_def dest: inj_onD)
    then show ?thesis by simp
  next
    case (snoc ms1 n)
    let ?c = "foldl (climb X) (hash_leaf X k v) ms1"
    have "climb_input ?c n \<in> S" using path by (simp add: ns snoc path_inputs_append)
    moreover have "x_sha256 X (climb_input ?c n) = x_sha256 X (internal_input a b)"
      using ab(1) by (simp add: snoc climb_hash hash_internal_def)
    ultimately have "climb_input ?c n = internal_input a b" using ab(2) inj by (blast dest: inj_onD)
    then have "?c \<in> set xs" using climb_input_internal ab(3,4) by blast
    then show ?thesis using ns snoc by (metis append_assoc)
  qed
qed

lemma verified_path_shows_entry:
  assumes "inj_on (x_sha256 X) S" and "tree_inputs X entries \<subseteq> S" and "proof_inputs X p \<subseteq> S"
    and "entries \<noteq> []" and "merkle_verify X p" and "mp_root p = mt_root (merkle_build X entries)"
  shows "(mp_key p, mp_value_hash p) \<in> set entries"
proof -
  let ?xs = "map (\<lambda>(k, v). hash_leaf X k v) entries"
  let ?k = "mp_key p" and ?v = "mp_value_hash p"
  have leaf: "leaf_input ?k ?v \<in> S" and path: "path_inputs X (hash_leaf X ?k ?v) (mp_path p) \<subseteq> S"
    using assms(3) by (auto simp: proof_inputs_def)
  have "foldl (climb X) (hash_leaf X ?k ?v) (mp_path p) = hd (last (build_levels X ?xs))"
    using assms(4-6) by (simp add: merkle_verify_def merkle_build_def Let_def)
  moreover have "?xs \<noteq> []" "\<Union> (pair_inputs ` set (butlast (build_levels X ?xs))) \<subseteq> S"
    using assms(2,4) by (simp_all add: tree_inputs_def)
  ultimately obtain ms ms' where
    ms: "mp_path p = ms @ ms'" "foldl (climb X) (hash_leaf X ?k ?v) ms \<in> set ?xs"
    using path_meets_level [OF assms(1) leaf path] by blast
  then obtain k v where kv: "(k, v) \<in> set entries" "foldl (climb X) (hash_leaf X ?k ?v) ms = hash_leaf X k v" by auto
  have "leaf_input k v \<in> S" using assms(2) kv(1) by (auto simp: tree_inputs_def)
  note same = inj_onD [OF assms(1) _ _ this]
  show ?thesis
  proof (cases ms rule: rev_cases)
    case Nil
    then have "leaf_input ?k ?v = leaf_input k v" using kv(2) leaf by (intro same) (simp_all add: hash_leaf_def)
    with kv(1) show ?thesis by simp
  next
    case (snoc ms1 n)
    let ?c = "foldl (climb X) (hash_leaf X ?k ?v) ms1"
    have "climb_input ?c n \<in> S" using path by (simp add: ms(1) snoc path_inputs_append)
    then have "climb_input ?c n = leaf_input k v"
      using kv(2) by (intro same) (simp_all add: snoc climb_hash hash_leaf_def)
    then show ?thesis by simp
  qed
qed

lemma proof_of_entry:
  assumes "index < length entries"
  obtains p where "merkle_prove (merkle_build X entries) index = Some p"
    "mp_key p = fst (entries ! index)" "mp_root p = mt_root (merkle_build X entries)"
    "merkle_verify X (p\<lparr>mp_value_hash := snd (entries ! index)\<rparr>)"
    "proof_inputs X (p\<lparr>mp_value_hash := snd (entries ! index)\<rparr>) \<subseteq> tree_inputs X entries"
proof -
  let ?xs = "map (\<lambda>(k, v). hash_leaf X k v) entries"
  let ?p = "\<lparr>mp_key = fst (entries ! index), mp_value_hash = 0, mp_path = prove_path index (build_levels X ?xs),
    mp_root = mt_root (merkle_build X entries)\<rparr>"
  have ne: "entries \<noteq> []" "?xs \<noteq> []" "index < length ?xs" using assms by auto
  have leaf: "hash_leaf X (fst (entries ! index)) (snd (entries ! index)) = ?xs ! index"
    using assms by (simp add: case_prod_beta)
  have "leaf_input (fst (entries ! index)) (snd (entries ! index)) \<in> (\<lambda>(k, v). leaf_input k v) ` set entries"
    using assms by (auto simp: case_prod_beta image_iff intro!: bexI [of _ "entries ! index"])
  then have "proof_inputs X (?p\<lparr>mp_value_hash := snd (entries ! index)\<rparr>) \<subseteq> tree_inputs X entries"
    using prove_path_inputs [OF ne(2,3), of X] leaf by (auto simp: proof_inputs_def tree_inputs_def)
  moreover have "merkle_prove (merkle_build X entries) index = Some ?p"
    using assms ne(1) by (simp add: merkle_prove_def merkle_build_def Let_def)
  moreover have "merkle_verify X (?p\<lparr>mp_value_hash := snd (entries ! index)\<rparr>)"
    using prove_path_climbs [OF ne(2,3), of X] leaf ne(1) by (simp add: merkle_verify_def merkle_build_def Let_def)
  ultimately show thesis using that [of ?p] by simp
qed

lemma same_root_entries:
  assumes "inj_on (x_sha256 X) S" and "tree_inputs X es \<subseteq> S" and "tree_inputs X es' \<subseteq> S"
    and "es' \<noteq> []" and "mt_root (merkle_build X es) = mt_root (merkle_build X es')"
  shows "set es \<subseteq> set es'"
proof
  fix e assume "e \<in> set es"
  then obtain i where i: "i < length es" "e = es ! i" by (metis in_set_conv_nth)
  obtain p where p: "mp_key p = fst e" "mp_root p = mt_root (merkle_build X es)"
    "merkle_verify X (p\<lparr>mp_value_hash := snd e\<rparr>)" "proof_inputs X (p\<lparr>mp_value_hash := snd e\<rparr>) \<subseteq> tree_inputs X es"
    using proof_of_entry [OF i(1), of X] i(2) by metis
  show "e \<in> set es'"
    using verified_path_shows_entry [OF assms(1,3) _ assms(4) p(3)] p assms(2,5) by auto
qed

section \<open>Properties\<close>

text \<open>
  C22. Every generated inclusion proof verifies: for every index of a tree, \<^verbatim>\<open>prove\<close> returns a proof of
  the key at that index against the tree's root, and once the caller has filled in the value hash,
  \<^verbatim>\<open>verify\<close> accepts it, for every number of leaves (odd levels included). Past the end there is no proof.
\<close>

theorem generated_proofs_verify:
  "(index < length entries \<longrightarrow> (\<exists>p. merkle_prove (merkle_build X entries) index = Some p \<and>
      mp_key p = fst (entries ! index) \<and> mp_root p = mt_root (merkle_build X entries) \<and>
      merkle_verify X (p\<lparr>mp_value_hash := snd (entries ! index)\<rparr>))) \<and>
   (length entries \<le> index \<longrightarrow> merkle_prove (merkle_build X entries) index = None)"
proof (intro conjI impI)
  assume "index < length entries"
  then show "\<exists>p. merkle_prove (merkle_build X entries) index = Some p \<and>
      mp_key p = fst (entries ! index) \<and> mp_root p = mt_root (merkle_build X entries) \<and>
      merkle_verify X (p\<lparr>mp_value_hash := snd (entries ! index)\<rparr>)"
    by (rule proof_of_entry [where X = X]) blast
next
  assume "length entries \<le> index"
  then show "merkle_prove (merkle_build X entries) index = None"
    by (auto simp: merkle_prove_def merkle_build_def Let_def)
qed

definition sample_entries :: "(bytes32 \<times> bytes32) list" where
  "sample_entries = [(1, 10), (2, 20), (3, 30)]"

theorem generated_proofs_verify_witness:
  "\<exists>p. merkle_prove (merkle_build extern_std sample_entries) 2 = Some p \<and> mp_key p = 3 \<and>
    merkle_verify extern_std (p\<lparr>mp_value_hash := 30\<rparr>)"
  using generated_proofs_verify [of 2 sample_entries extern_std] by (auto simp: sample_entries_def)

text \<open>
  A verified proof shows a real entry: whatever the path and its length, if the proof verifies
  against the root of a tree, its key and value hash are an entry of the tree, provided the hash
  function has no collision among the strings hashed by the tree and by the verification. The leaf and
  node prefixes rule out the confusion of leaves with inner nodes.
\<close>

theorem verified_proof_shows_entry:
  assumes "inj_on (x_sha256 X) (tree_inputs X entries \<union> proof_inputs X p)" and "entries \<noteq> []"
    and "merkle_verify X p" and "mp_root p = mt_root (merkle_build X entries)"
  shows "(mp_key p, mp_value_hash p) \<in> set entries"
  using verified_path_shows_entry [OF assms(1) _ _ assms(2-4)] by blast

text \<open>A hash that is injective on the strings of a small tree.\<close>

definition extern_short :: extern where
  "extern_short = extern_std\<lparr>x_sha256 := (\<lambda>bs. if hd bs = 0 \<and> 1 < length bs then ucast (last bs) else 500)\<rparr>"

definition sample_proof :: merkle_proof where
  "sample_proof = \<lparr>mp_key = 2, mp_value_hash = 20, mp_path = [\<lparr>pn_hash = 10, pn_is_left = True\<rparr>], mp_root = 500\<rparr>"

lemma be_bytes_Nil_iff: "be_bytes n w = [] \<longleftrightarrow> n = 0"
  by (simp add: be_bytes_def)

lemma extern_short_hash [simp]:
  "x_sha256 extern_short (leaf_input k v) = ucast (ucast v :: u8)"
  "x_sha256 extern_short (internal_input a b) = 500"
  by (simp_all add: extern_short_def leaf_input_def internal_input_def last_be_bytes be_bytes_Nil_iff)

lemma sample_levels: "build_levels extern_short [10, 20] = [[10, 20], [500]]"
  by (simp add: build_levels_step build_levels_one hash_internal_def)

theorem verified_proof_shows_entry_witness:
  "merkle_verify extern_short sample_proof \<and>
   mp_root sample_proof = mt_root (merkle_build extern_short [(1, 10), (2, 20)]) \<and>
   (mp_key sample_proof, mp_value_hash sample_proof) \<in> set [(1 :: bytes32, 10 :: bytes32), (2, 20)]"
proof -
  have leaves: "map (\<lambda>(k, v). hash_leaf extern_short k v) [(1, 10), (2, 20)] = [10, 20]"
    by (simp add: hash_leaf_def)
  have "merkle_verify extern_short sample_proof"
    by (simp add: merkle_verify_def sample_proof_def climb_def hash_internal_def hash_leaf_def)
  moreover have root: "mp_root sample_proof = mt_root (merkle_build extern_short [(1, 10), (2, 20)])"
    using leaves by (simp add: merkle_build_def Let_def sample_proof_def sample_levels)
  moreover have "tree_inputs extern_short [(1, 10), (2, 20)] \<union> proof_inputs extern_short sample_proof =
      {leaf_input 1 10, leaf_input 2 20, internal_input 10 20}"
    using leaves by (auto simp: tree_inputs_def sample_levels proof_inputs_def sample_proof_def climb_input_def hash_leaf_def)
  then have "inj_on (x_sha256 extern_short)
      (tree_inputs extern_short [(1, 10), (2, 20)] \<union> proof_inputs extern_short sample_proof)"
    by (simp add: inj_on_def)
  ultimately show ?thesis using verified_proof_shows_entry [of extern_short "[(1, 10), (2, 20)]" sample_proof] by blast
qed

text \<open>
  C23. The Merkle root determines the store: two ordered object maps with the same root hold the same
  ids with the same encoded objects, provided the hash has no collision among the strings hashed for
  the two trees and the encodings; the duplication of the last node of odd levels adds no ambiguity.
\<close>

theorem merkle_root_determines_objects:
  assumes "bt_ok objs" and "bt_ok objs'" and "objs \<noteq> []" and "objs' \<noteq> []"
    and "snd (compute_merkle_root X objs) = snd (compute_merkle_root X objs')"
    and "inj_on (x_sha256 X) (tree_inputs X (merkle_entries X objs) \<union> tree_inputs X (merkle_entries X objs') \<union>
      obj_encode X ` (snd ` set objs \<union> snd ` set objs'))"
  shows "map (map_prod id (obj_encode X)) objs = map (map_prod id (obj_encode X)) objs'"
proof -
  have "set (merkle_entries X objs) = set (merkle_entries X objs')"
    using assms(3-5) same_root_entries [OF assms(6), of "merkle_entries X objs" "merkle_entries X objs'"]
      same_root_entries [OF assms(6), of "merkle_entries X objs'" "merkle_entries X objs"]
    by (auto simp: compute_merkle_root_def Let_def merkle_entries_def)
  then have "merkle_entries X objs = merkle_entries X objs'"
    using assms(1,2) by (intro bt_ok_set_eq) (simp_all add: merkle_entries_def bt_ok_def comp_def case_prod_beta)
  then have len: "length objs = length objs'" and nth: "i < length objs' \<Longrightarrow> fst (objs ! i) = fst (objs' ! i) \<and>
      x_sha256 X (obj_encode X (snd (objs ! i))) = x_sha256 X (obj_encode X (snd (objs' ! i)))" for i
    by (auto simp: merkle_entries_def map_equality_iff case_prod_beta)
  have "map_prod id (obj_encode X) (objs ! i) = map_prod id (obj_encode X) (objs' ! i)" if "i < length objs'" for i
    using nth [OF that] that len inj_onD [OF assms(6), of "obj_encode X (snd (objs ! i))" "obj_encode X (snd (objs' ! i))"]
    by (auto simp: prod_eq_iff)
  then show ?thesis using len by (simp add: map_equality_iff)
qed

theorem merkle_root_determines_objects_witness:
  "map (map_prod id (obj_encode extern_short)) [(1 :: bytes32, OBalance (balance_new 1 4 9 100 0))] =
   map (map_prod id (obj_encode extern_short)) [(1, OBalance (balance_new 1 5 9 200 0))]"
proof -
  let ?x = "OBalance (balance_new 1 4 9 100 0)" and ?y = "OBalance (balance_new 1 5 9 200 0)"
  have enc: "obj_encode extern_short ?x = [0]" "obj_encode extern_short ?y = [0]"
    by (simp_all add: obj_encode_def extern_short_def extern_std_def balance_new_def object_meta_new_def)
  have hash: "x_sha256 extern_short [0] = 500" by (simp add: extern_short_def)
  have tree: "tree_inputs extern_short [(1, h)] = {leaf_input 1 h}" for h
    by (simp add: tree_inputs_def build_levels_one)
  show ?thesis
    by (rule merkle_root_determines_objects)
      (auto simp: bt_ok_Cons compute_merkle_root_def merkle_entries_def enc tree hash)
qed

text \<open>
  The tree is balanced: with \<open>n > 0\<close> leaves the number of levels is the binary logarithm of \<open>n\<close>,
  rounded up, plus one, and every inclusion proof has exactly one sibling per level below the root.
\<close>

theorem merkle_depth_is_logarithmic:
  assumes "entries \<noteq> []"
  shows "length entries \<le> 2 ^ (merkle_depth (merkle_build X entries) - 1) \<and>
    2 ^ (merkle_depth (merkle_build X entries) - 1) < 2 * length entries \<and>
    merkle_len (merkle_build X entries) = length entries"
  using depth_bounds [of "map (\<lambda>(k, v). hash_leaf X k v) entries" X] assms
  by (simp add: merkle_depth_def merkle_len_def merkle_build_def Let_def)

theorem merkle_depth_is_logarithmic_witness:
  "(3 :: nat) \<le> 2 ^ (merkle_depth (merkle_build extern_std sample_entries) - 1) \<and>
   2 ^ (merkle_depth (merkle_build extern_std sample_entries) - 1) < (6 :: nat)"
  using merkle_depth_is_logarithmic [of sample_entries extern_std] by (simp add: sample_entries_def)

end
