(* ===== verification/Spending.thy ===== *)
theory Spending
  imports Objects "HOL-Library.Product_Lexorder"
begin

text \<open>
  Spending capabilities, \<^verbatim>\<open>runtime/src/capabilities/spending.rs\<close>: a bounded, expiring, optionally
  scoped right to spend an asset, and the registry with its three indexes. Shown: a capability never
  yields more than its amount over any history, it yields only to its spender, in time and in scope,
  and the index-driven expiry, revocation and lookup agree with scans of the whole registry.
  \<^verbatim>\<open>get_mut\<close> hands out a mutable reference; the histories below use the registry's own operations.
\<close>

section \<open>Capabilities\<close>

datatype spend_status = SActive | SConsumed | SRevoked | SExpired

record spend_capability =
  sc_capability_id :: bytes32
  sc_owner :: bytes32
  sc_allowed_spender :: bytes32
  sc_asset_id :: bytes32
  sc_max_amount :: u128
  sc_remaining_amount :: u128
  sc_expiration_epoch :: u64
  sc_scope_hash :: "bytes32 option"
  sc_status :: spend_status
  sc_created_at_epoch :: u64

definition spend_compute_id :: "extern \<Rightarrow> bytes32 \<Rightarrow> bytes32 \<Rightarrow> bytes32 \<Rightarrow> u128 \<Rightarrow> u64 \<Rightarrow> bytes32" where
  "spend_compute_id X owner spender asset_id max_amount nonce =
     x_sha256 X (string_bytes ''OMNIPHI_SPEND_CAP_V1'' @ be_bytes 32 owner @ be_bytes 32 spender @ be_bytes 32 asset_id
       @ be_bytes 16 max_amount @ be_bytes 8 nonce)"

definition capability_create ::
  "extern \<Rightarrow> bytes32 \<Rightarrow> bytes32 \<Rightarrow> bytes32 \<Rightarrow> u128 \<Rightarrow> u64 \<Rightarrow> bytes32 option \<Rightarrow> u64 \<Rightarrow> u64
     \<Rightarrow> err_text + spend_capability" where
  "capability_create X owner spender asset_id max_amount expiration scope current_epoch nonce =
     (if owner = 0 then Inl (Text ''owner cannot be zero'')
      else if spender = 0 then Inl (Text ''spender cannot be zero'')
      else if owner = spender then Inl (Text ''owner and spender must differ'')
      else if max_amount = 0 then Inl (Text ''max_amount must be > 0'')
      else if expiration \<le> current_epoch then
        Inl (Fmt ''expiration {} must be > current epoch {}'' [unat expiration, unat current_epoch])
      else Inr
        \<lparr>sc_capability_id = spend_compute_id X owner spender asset_id max_amount nonce, sc_owner = owner,
         sc_allowed_spender = spender, sc_asset_id = asset_id, sc_max_amount = max_amount,
         sc_remaining_amount = max_amount, sc_expiration_epoch = expiration, sc_scope_hash = scope,
         sc_status = SActive, sc_created_at_epoch = current_epoch\<rparr>)"

definition is_usable :: "spend_capability \<Rightarrow> u64 \<Rightarrow> bool" where
  "is_usable c current_epoch \<longleftrightarrow> sc_status c = SActive \<and> current_epoch < sc_expiration_epoch c"

definition capability_consume ::
  "bytes32 \<Rightarrow> u128 \<Rightarrow> u64 \<Rightarrow> bytes32 option \<Rightarrow> spend_capability \<Rightarrow> spend_capability \<times> (err_text + u128)" where
  "capability_consume spender amount current_epoch tx_scope c =
     (if sc_status c \<noteq> SActive then (c, Inl (Text ''capability is not Active''))
      else if current_epoch \<ge> sc_expiration_epoch c then
        (c\<lparr>sc_status := SExpired\<rparr>, Inl (Text ''capability has expired''))
      else if spender \<noteq> sc_allowed_spender c then (c, Inl (Text ''unauthorized spender''))
      else if sc_scope_hash c \<noteq> None \<and> tx_scope \<noteq> sc_scope_hash c then
        (c, Inl (Text (if tx_scope = None then ''capability is intent-scoped but no scope_hash provided''
                       else ''scope_hash mismatch'')))
      else if amount = 0 then (c, Inl (Text ''consume amount must be > 0''))
      else if amount > sc_remaining_amount c then
        (c, Inl (Fmt ''insufficient capability: requested {}, remaining {}''
               [unat amount, unat (sc_remaining_amount c)]))
      else
        (let c1 = c\<lparr>sc_remaining_amount := sc_remaining_amount c - amount\<rparr> in
         (if sc_remaining_amount c1 = 0 then c1\<lparr>sc_status := SConsumed\<rparr> else c1, Inr amount)))"

definition capability_revoke :: "bytes32 \<Rightarrow> spend_capability \<Rightarrow> spend_capability \<times> (err_text + unit)" where
  "capability_revoke caller c =
     (if caller \<noteq> sc_owner c then (c, Inl (Text ''only owner can revoke''))
      else if sc_status c \<noteq> SActive then (c, Inl (Text ''cannot revoke: not Active''))
      else (c\<lparr>sc_status := SRevoked\<rparr>, Inr ()))"

definition check_expiration :: "u64 \<Rightarrow> spend_capability \<Rightarrow> spend_capability" where
  "check_expiration current_epoch c =
     (if sc_status c = SActive \<and> current_epoch \<ge> sc_expiration_epoch c then c\<lparr>sc_status := SExpired\<rparr> else c)"

section \<open>The registry\<close>

type_synonym capability_map = "(bytes32, spend_capability) btree"

record spend_registry =
  sr_capabilities :: capability_map
  sr_by_grant :: "(bytes32 \<times> bytes32 \<times> bytes32, bytes32 list) btree"
  sr_by_owner :: "(bytes32, bytes32 list) btree"
  sr_by_expiration :: "(u64, bytes32 list) btree"
  sr_owner_nonces :: "(bytes32, u64) btree"

definition spend_registry_new :: spend_registry where
  "spend_registry_new =
     \<lparr>sr_capabilities = [], sr_by_grant = [], sr_by_owner = [], sr_by_expiration = [], sr_owner_nonces = []\<rparr>"

text \<open>\<^verbatim>\<open>entry(owner).or_insert(0)\<close> happens before the checks, the increment after them.\<close>

definition registry_create ::
  "extern \<Rightarrow> bytes32 \<Rightarrow> bytes32 \<Rightarrow> bytes32 \<Rightarrow> u128 \<Rightarrow> u64 \<Rightarrow> bytes32 option \<Rightarrow> u64 \<Rightarrow> spend_registry
     \<Rightarrow> spend_registry \<times> (err_text + bytes32)" where
  "registry_create X owner spender asset_id max_amount expiration scope current_epoch r =
     (let nonce = (case bt_get (sr_owner_nonces r) owner of None \<Rightarrow> 0 | Some n \<Rightarrow> n);
          r0 = r\<lparr>sr_owner_nonces := bt_put owner nonce (sr_owner_nonces r)\<rparr>
      in case capability_create X owner spender asset_id max_amount expiration scope current_epoch nonce of
           Inl e \<Rightarrow> (r0, Inl e)
         | Inr cap \<Rightarrow>
             (let i = sc_capability_id cap in
              (r0\<lparr>sr_owner_nonces := bt_put owner (nonce + 1) (sr_owner_nonces r0),
                  sr_by_grant := bt_push (owner, spender, asset_id) i (sr_by_grant r0),
                  sr_by_owner := bt_push owner i (sr_by_owner r0),
                  sr_by_expiration := bt_push expiration i (sr_by_expiration r0),
                  sr_capabilities := bt_put i cap (sr_capabilities r0)\<rparr>, Inr i)))"

definition registry_consume ::
  "bytes32 \<Rightarrow> bytes32 \<Rightarrow> u128 \<Rightarrow> u64 \<Rightarrow> bytes32 option \<Rightarrow> spend_registry \<Rightarrow> spend_registry \<times> (err_text + u128)" where
  "registry_consume i spender amount current_epoch tx_scope r =
     (case bt_get (sr_capabilities r) i of
        None \<Rightarrow> (r, Inl (Text ''capability not found''))
      | Some c \<Rightarrow>
          (let (c', res) = capability_consume spender amount current_epoch tx_scope c in
           (r\<lparr>sr_capabilities := bt_adjust i (\<lambda>_. c') (sr_capabilities r)\<rparr>, res)))"

text \<open>\<^verbatim>\<open>max_by_key\<close> keeps the last of equal maxima.\<close>

definition later_max :: "spend_capability option \<Rightarrow> spend_capability \<Rightarrow> spend_capability option" where
  "later_max best c =
     (case best of None \<Rightarrow> Some c
      | Some b \<Rightarrow> if sc_remaining_amount c \<ge> sc_remaining_amount b then Some c else Some b)"

definition find_active :: "spend_registry \<Rightarrow> bytes32 \<Rightarrow> bytes32 \<Rightarrow> bytes32 \<Rightarrow> u64 \<Rightarrow> spend_capability option" where
  "find_active r owner spender asset_id current_epoch =
     foldl later_max None
       (filter (\<lambda>c. is_usable c current_epoch)
         (List.map_filter (bt_get (sr_capabilities r)) (bt_list (sr_by_grant r) (owner, spender, asset_id))))"

definition registry_revoke :: "bytes32 \<Rightarrow> bytes32 \<Rightarrow> spend_registry \<Rightarrow> spend_registry \<times> (err_text + unit)" where
  "registry_revoke i caller r =
     (case bt_get (sr_capabilities r) i of
        None \<Rightarrow> (r, Inl (Text ''capability not found''))
      | Some c \<Rightarrow>
          (let (c', res) = capability_revoke caller c in
           (r\<lparr>sr_capabilities := bt_adjust i (\<lambda>_. c') (sr_capabilities r)\<rparr>, res)))"

text \<open>The body of the loops of \<^verbatim>\<open>revoke_all_by_owner\<close> and \<^verbatim>\<open>expire_stale\<close>.\<close>

definition retire :: "spend_status \<Rightarrow> bytes32 \<Rightarrow> capability_map \<times> usize \<Rightarrow> capability_map \<times> usize" where
  "retire st i mc =
     (case bt_get (fst mc) i of
        None \<Rightarrow> mc
      | Some c \<Rightarrow>
          if sc_status c = SActive then (bt_adjust i (\<lambda>c. c\<lparr>sc_status := st\<rparr>) (fst mc), snd mc + 1) else mc)"

definition revoke_all_by_owner :: "bytes32 \<Rightarrow> spend_registry \<Rightarrow> spend_registry \<times> usize" where
  "revoke_all_by_owner owner r =
     (let (m, count) = fold (retire SRevoked) (bt_list (sr_by_owner r) owner) (sr_capabilities r, 0)
      in (r\<lparr>sr_capabilities := m\<rparr>, count))"

definition expire_stale :: "u64 \<Rightarrow> spend_registry \<Rightarrow> spend_registry \<times> usize" where
  "expire_stale current_epoch r =
     (let expired_epochs = filter (\<lambda>e. e \<le> current_epoch) (bt_keys (sr_by_expiration r));
          ids = concat (map (bt_list (sr_by_expiration r)) expired_epochs);
          (m, count) = fold (retire SExpired) ids (sr_capabilities r, 0)
      in (r\<lparr>sr_capabilities := m\<rparr>, count))"

definition active_count :: "spend_registry \<Rightarrow> u64 \<Rightarrow> usize" where
  "active_count r current_epoch = length (filter (\<lambda>c. is_usable c current_epoch) (bt_values (sr_capabilities r)))"

definition spend_prune :: "u64 \<Rightarrow> spend_registry \<Rightarrow> spend_registry \<times> usize" where
  "spend_prune before_epoch r =
     (let m = bt_retain (\<lambda>_ c. sc_status c = SActive \<or> sc_created_at_epoch c \<ge> before_epoch) (sr_capabilities r)
      in (r\<lparr>sr_capabilities := m\<rparr>, length (sr_capabilities r) - length m))"

section \<open>Histories\<close>

datatype spend_op =
    OpCreate bytes32 bytes32 bytes32 u128 u64 "bytes32 option" u64
  | OpConsume bytes32 bytes32 u128 u64 "bytes32 option"
  | OpRevoke bytes32 bytes32
  | OpRevokeAll bytes32
  | OpExpire u64
  | OpPrune u64

text \<open>One operation; the output is what was consumed from which capability.\<close>

fun spend_step :: "extern \<Rightarrow> spend_registry \<Rightarrow> spend_op \<Rightarrow> spend_registry \<times> (bytes32 \<times> u128) option" where
  "spend_step X r (OpCreate owner spender asset amount expiration scope ep) =
     (fst (registry_create X owner spender asset amount expiration scope ep r), None)"
| "spend_step X r (OpConsume i spender amount ep scope) =
     (case registry_consume i spender amount ep scope r of
        (r', Inl e) \<Rightarrow> (r', None) | (r', Inr a) \<Rightarrow> (r', Some (i, a)))"
| "spend_step X r (OpRevoke i caller) = (fst (registry_revoke i caller r), None)"
| "spend_step X r (OpRevokeAll owner) = (fst (revoke_all_by_owner owner r), None)"
| "spend_step X r (OpExpire ep) = (fst (expire_stale ep r), None)"
| "spend_step X r (OpPrune ep) = (fst (spend_prune ep r), None)"

text \<open>The indexes are exact: a stored capability is listed under its grant, owner and expiration only.\<close>

definition indexed :: "spend_registry \<Rightarrow> bytes32 \<Rightarrow> spend_capability \<Rightarrow> bool" where
  "indexed r i c \<longleftrightarrow>
     (\<forall>g. i \<in> set (bt_list (sr_by_grant r) g) \<longleftrightarrow> g = (sc_owner c, sc_allowed_spender c, sc_asset_id c)) \<and>
     (\<forall>ow. i \<in> set (bt_list (sr_by_owner r) ow) \<longleftrightarrow> ow = sc_owner c) \<and>
     (\<forall>e. i \<in> set (bt_list (sr_by_expiration r) e) \<longleftrightarrow> e = sc_expiration_epoch c)"

definition spend_registry_ok :: "spend_registry \<Rightarrow> bool" where
  "spend_registry_ok r \<longleftrightarrow> bt_ok (sr_capabilities r) \<and>
     (\<forall>i c. bt_get (sr_capabilities r) i = Some c \<longrightarrow> indexed r i c)"

text \<open>The id an operation issues, and whether it was issued before.\<close>

fun issued_id :: "extern \<Rightarrow> spend_registry \<Rightarrow> spend_op \<Rightarrow> bytes32 option" where
  "issued_id X r (OpCreate owner spender asset amount expiration scope ep) =
     (case snd (registry_create X owner spender asset amount expiration scope ep r) of Inl e \<Rightarrow> None | Inr i \<Rightarrow> Some i)"
| "issued_id X r _ = None"

definition unissued :: "spend_registry \<Rightarrow> bytes32 \<Rightarrow> bool" where
  "unissued r i \<longleftrightarrow> (\<forall>g. i \<notin> set (bt_list (sr_by_grant r) g)) \<and> (\<forall>ow. i \<notin> set (bt_list (sr_by_owner r) ow)) \<and>
     (\<forall>e. i \<notin> set (bt_list (sr_by_expiration r) e))"

inductive spend_history :: "extern \<Rightarrow> spend_registry \<Rightarrow> bool" for X where
  start: "spend_history X spend_registry_new"
| step: "spend_history X r \<Longrightarrow> (\<And>i. issued_id X r op = Some i \<Longrightarrow> unissued r i) \<Longrightarrow>
    spend_history X (fst (spend_step X r op))"

text \<open>A run in which the id \<open>i\<close> is not issued again.\<close>

fun not_reissued :: "extern \<Rightarrow> bytes32 \<Rightarrow> spend_op list \<Rightarrow> spend_registry \<Rightarrow> bool" where
  "not_reissued X i [] r \<longleftrightarrow> True"
| "not_reissued X i (op # ops) r \<longleftrightarrow> issued_id X r op \<noteq> Some i \<and> not_reissued X i ops (fst (spend_step X r op))"

text \<open>What a capability can still yield.\<close>

definition capability_budget :: "bytes32 \<Rightarrow> spend_registry \<Rightarrow> nat" where
  "capability_budget i r =
     (case bt_get (sr_capabilities r) i of None \<Rightarrow> 0
      | Some c \<Rightarrow> if sc_status c = SActive then unat (sc_remaining_amount c) else 0)"

definition spent_from :: "bytes32 \<Rightarrow> (bytes32 \<times> u128) option \<Rightarrow> nat" where
  "spent_from i out = (case out of Some (j, a) \<Rightarrow> if j = i then unat a else 0 | None \<Rightarrow> 0)"

section \<open>Lemmas: one capability\<close>

lemma consume_ok_iff_usable:
  "snd (capability_consume spender amount ep scope c) = Inr a \<longleftrightarrow>
     is_usable c ep \<and> spender = sc_allowed_spender c \<and> (sc_scope_hash c = None \<or> scope = sc_scope_hash c) \<and>
     0 < amount \<and> amount \<le> sc_remaining_amount c \<and> a = amount"
  by (auto simp: capability_consume_def is_usable_def Let_def word_neq_0_conv not_le)

lemma spend_frame:
  "sc_owner (fst (capability_consume spender amount ep scope c)) = sc_owner c"
  "sc_allowed_spender (fst (capability_consume spender amount ep scope c)) = sc_allowed_spender c"
  "sc_asset_id (fst (capability_consume spender amount ep scope c)) = sc_asset_id c"
  "sc_expiration_epoch (fst (capability_consume spender amount ep scope c)) = sc_expiration_epoch c"
  by (simp_all add: capability_consume_def Let_def)

lemma revoke_frame:
  "sc_owner (fst (capability_revoke caller c)) = sc_owner c"
  "sc_allowed_spender (fst (capability_revoke caller c)) = sc_allowed_spender c"
  "sc_asset_id (fst (capability_revoke caller c)) = sc_asset_id c"
  "sc_expiration_epoch (fst (capability_revoke caller c)) = sc_expiration_epoch c"
  by (simp_all add: capability_revoke_def)

section \<open>Lemmas: retiring by index\<close>

definition retired :: "spend_status \<Rightarrow> spend_capability \<Rightarrow> spend_capability" where
  "retired st c = (if sc_status c = SActive then c\<lparr>sc_status := st\<rparr> else c)"

lemma retired_frame [simp]:
  "sc_owner (retired st c) = sc_owner c" "sc_allowed_spender (retired st c) = sc_allowed_spender c"
  "sc_asset_id (retired st c) = sc_asset_id c" "sc_expiration_epoch (retired st c) = sc_expiration_epoch c"
  by (simp_all add: retired_def)

definition active_weight :: "spend_capability \<Rightarrow> nat" where
  "active_weight c = (if sc_status c = SActive then 1 else 0)"

lemma retire_get:
  "bt_get (fst (retire st i mc)) j = map_option (\<lambda>c. if j = i then retired st c else c) (bt_get (fst mc) j)"
  by (auto simp: retire_def retired_def map_simps option.map_ident split: option.split)

lemma retire_ok: "bt_ok (fst mc) \<Longrightarrow> bt_ok (fst (retire st i mc))"
  by (auto simp: retire_def btm.ok_adjust split: option.split)

lemma retire_count:
  assumes "st \<noteq> SActive" and "bt_ok (fst mc)"
  shows "snd (retire st i mc) + bt_total active_weight (fst (retire st i mc)) = snd mc + bt_total active_weight (fst mc)"
proof (cases "bt_get (fst mc) i")
  case (Some c)
  with btm.total_adjust [OF assms(2) Some, of active_weight "\<lambda>c. c\<lparr>sc_status := st\<rparr>"] show ?thesis
    using assms(1) by (auto simp: retire_def active_weight_def)
qed (simp add: retire_def)

lemma fold_retire:
  assumes "st \<noteq> SActive"
  shows "bt_ok (fst mc) \<Longrightarrow>
    bt_ok (fst (fold (retire st) ids mc)) \<and>
    (\<forall>j. bt_get (fst (fold (retire st) ids mc)) j =
       map_option (\<lambda>c. if j \<in> set ids then retired st c else c) (bt_get (fst mc) j)) \<and>
    snd (fold (retire st) ids mc) + bt_total active_weight (fst (fold (retire st) ids mc)) =
      snd mc + bt_total active_weight (fst mc)"
proof (induction ids arbitrary: mc)
  case (Cons i ids)
  have twice: "retired st (retired st c) = retired st c" for c using assms by (simp add: retired_def)
  from Cons.IH [OF retire_ok [OF Cons.prems], of st i] retire_count [OF assms Cons.prems, of i] show ?case
    by (auto simp: retire_get option.map_comp comp_def twice intro!: option.map_cong0)
qed (simp add: option.map_ident)

lemma revoke_all_get:
  assumes "bt_ok (sr_capabilities r)"
  shows "bt_get (sr_capabilities (fst (revoke_all_by_owner owner r))) j =
      map_option (\<lambda>c. if j \<in> set (bt_list (sr_by_owner r) owner) then retired SRevoked c else c)
        (bt_get (sr_capabilities r) j)"
    and "bt_ok (sr_capabilities (fst (revoke_all_by_owner owner r)))"
    and "snd (revoke_all_by_owner owner r) + bt_total active_weight (sr_capabilities (fst (revoke_all_by_owner owner r))) =
      bt_total active_weight (sr_capabilities r)"
  using fold_retire [of SRevoked "(sr_capabilities r, 0)" "bt_list (sr_by_owner r) owner"] assms
  by (simp_all add: revoke_all_by_owner_def case_prod_beta)

definition due_ids :: "u64 \<Rightarrow> spend_registry \<Rightarrow> bytes32 list" where
  "due_ids ep r = concat (map (bt_list (sr_by_expiration r)) (filter (\<lambda>e. e \<le> ep) (bt_keys (sr_by_expiration r))))"

lemma expire_get:
  assumes "bt_ok (sr_capabilities r)"
  shows "bt_get (sr_capabilities (fst (expire_stale ep r))) j =
      map_option (\<lambda>c. if j \<in> set (due_ids ep r) then retired SExpired c else c) (bt_get (sr_capabilities r) j)"
    and "bt_ok (sr_capabilities (fst (expire_stale ep r)))"
    and "snd (expire_stale ep r) + bt_total active_weight (sr_capabilities (fst (expire_stale ep r))) =
      bt_total active_weight (sr_capabilities r)"
  using fold_retire [of SExpired "(sr_capabilities r, 0)" "due_ids ep r"] assms
  by (simp_all add: expire_stale_def case_prod_beta due_ids_def Let_def)

lemma index_frames [simp]:
  "sr_by_owner (fst (revoke_all_by_owner owner r)) = sr_by_owner r"
  "sr_by_grant (fst (revoke_all_by_owner owner r)) = sr_by_grant r"
  "sr_by_expiration (fst (revoke_all_by_owner owner r)) = sr_by_expiration r"
  "sr_by_owner (fst (expire_stale ep r)) = sr_by_owner r"
  "sr_by_grant (fst (expire_stale ep r)) = sr_by_grant r"
  "sr_by_expiration (fst (expire_stale ep r)) = sr_by_expiration r"
  by (simp_all add: revoke_all_by_owner_def expire_stale_def case_prod_beta Let_def)

lemma in_due_ids_iff:
  "i \<in> set (due_ids ep r) \<longleftrightarrow> (\<exists>e \<le> ep. i \<in> set (bt_list (sr_by_expiration r) e))"
proof -
  have "i \<in> set (bt_list (sr_by_expiration r) e) \<Longrightarrow> e \<in> set (bt_keys (sr_by_expiration r))" for e
    by (cases "bt_get (sr_by_expiration r) e") (simp_all add: bt_list_def bt_keys_iff)
  then show ?thesis by (auto simp: due_ids_def)
qed

section \<open>Lemmas: the registry invariant\<close>

lemma create_cases:
  obtains (refused) e nonces where
    "registry_create X owner spender asset amount expiration scope ep r = (r\<lparr>sr_owner_nonces := nonces\<rparr>, Inl e)"
  | (created) c nonces where
    "registry_create X owner spender asset amount expiration scope ep r =
       (r\<lparr>sr_owner_nonces := nonces, sr_by_grant := bt_push (owner, spender, asset) (sc_capability_id c) (sr_by_grant r),
          sr_by_owner := bt_push owner (sc_capability_id c) (sr_by_owner r),
          sr_by_expiration := bt_push expiration (sc_capability_id c) (sr_by_expiration r),
          sr_capabilities := bt_put (sc_capability_id c) c (sr_capabilities r)\<rparr>, Inr (sc_capability_id c))"
    "sc_owner c = owner" "sc_allowed_spender c = spender" "sc_asset_id c = asset" "sc_expiration_epoch c = expiration"
proof (cases "capability_create X owner spender asset amount expiration scope ep
    (case bt_get (sr_owner_nonces r) owner of None \<Rightarrow> 0 | Some n \<Rightarrow> n)")
  case (Inl e)
  then show ?thesis using refused by (simp add: registry_create_def Let_def)
next
  case (Inr c)
  moreover have "sc_owner c = owner" "sc_allowed_spender c = spender" "sc_asset_id c = asset"
    "sc_expiration_epoch c = expiration"
    using Inr by (auto simp: capability_create_def split: if_splits)
  ultimately show ?thesis using created by (simp add: registry_create_def Let_def)
qed

lemma indexed_same:
  "indexed r i c \<Longrightarrow> sc_owner c' = sc_owner c \<Longrightarrow> sc_allowed_spender c' = sc_allowed_spender c \<Longrightarrow>
     sc_asset_id c' = sc_asset_id c \<Longrightarrow> sc_expiration_epoch c' = sc_expiration_epoch c \<Longrightarrow> indexed r i c'"
  by (simp add: indexed_def)

text \<open>An operation that keeps the indexes and, entry by entry, the indexed fields keeps the invariant.\<close>

lemma ok_if_same_fields:
  assumes "spend_registry_ok r" and "bt_ok (sr_capabilities r')"
    and "sr_by_grant r' = sr_by_grant r" "sr_by_owner r' = sr_by_owner r" "sr_by_expiration r' = sr_by_expiration r"
    and "\<And>i c'. bt_get (sr_capabilities r') i = Some c' \<Longrightarrow> \<exists>c. bt_get (sr_capabilities r) i = Some c \<and>
      sc_owner c' = sc_owner c \<and> sc_allowed_spender c' = sc_allowed_spender c \<and> sc_asset_id c' = sc_asset_id c \<and>
      sc_expiration_epoch c' = sc_expiration_epoch c"
  shows "spend_registry_ok r'"
proof -
  have "indexed r' i c'" if entry: "bt_get (sr_capabilities r') i = Some c'" for i c'
  proof -
    obtain c where "bt_get (sr_capabilities r) i = Some c" "sc_owner c' = sc_owner c"
      "sc_allowed_spender c' = sc_allowed_spender c" "sc_asset_id c' = sc_asset_id c"
      "sc_expiration_epoch c' = sc_expiration_epoch c" using assms(6) [OF entry] by blast
    then have "indexed r i c'" using assms(1) indexed_same by (metis spend_registry_ok_def)
    then show ?thesis using assms(3-5) by (simp add: indexed_def)
  qed
  then show ?thesis using assms(2) by (simp add: spend_registry_ok_def)
qed

lemma create_ok:
  assumes "spend_registry_ok r"
    and "\<And>i. issued_id X r (OpCreate owner spender asset amount expiration scope ep) = Some i \<Longrightarrow> unissued r i"
  shows "spend_registry_ok (fst (registry_create X owner spender asset amount expiration scope ep r))"
proof (cases X owner spender asset amount expiration scope ep r rule: create_cases)
  case (refused e nonces)
  then show ?thesis using assms(1) by (simp add: spend_registry_ok_def indexed_def)
next
  case (created c nonces)
  then have "unissued r (sc_capability_id c)" using assms(2) by simp
  then show ?thesis
    using assms(1) created by (auto simp: spend_registry_ok_def indexed_def unissued_def map_simps btm.ok_put)
qed

lemma spend_step_ok:
  assumes "spend_registry_ok r" and "\<And>i. issued_id X r op = Some i \<Longrightarrow> unissued r i"
  shows "spend_registry_ok (fst (spend_step X r op))"
proof (cases op)
  case (OpCreate owner spender asset amount expiration scope ep)
  then show ?thesis using create_ok [OF assms(1)] assms(2) by simp
next
  case (OpConsume i spender amount ep scope)
  have "spend_registry_ok (fst (registry_consume i spender amount ep scope r))"
  proof (cases "bt_get (sr_capabilities r) i")
    case (Some c)
    then show ?thesis
      by (intro ok_if_same_fields [OF assms(1)])
        (use assms(1) in \<open>auto simp: registry_consume_def case_prod_beta map_simps spend_frame spend_registry_ok_def
          btm.ok_adjust split: if_splits\<close>)
  qed (use assms(1) in \<open>simp add: registry_consume_def\<close>)
  then show ?thesis by (cases "registry_consume i spender amount ep scope r") (simp add: OpConsume split: sum.split)
next
  case (OpRevoke i caller)
  show ?thesis
  proof (cases "bt_get (sr_capabilities r) i")
    case (Some c)
    then show ?thesis
      by (intro ok_if_same_fields [OF assms(1)])
        (use assms(1) in \<open>auto simp: OpRevoke registry_revoke_def case_prod_beta map_simps revoke_frame spend_registry_ok_def
          btm.ok_adjust split: if_splits\<close>)
  qed (use assms(1) in \<open>simp add: OpRevoke registry_revoke_def\<close>)
next
  case (OpRevokeAll owner)
  then show ?thesis
    by (intro ok_if_same_fields [OF assms(1)])
      (use assms(1) in \<open>auto simp: spend_registry_ok_def revoke_all_get\<close>)
next
  case (OpExpire ep)
  then show ?thesis
    by (intro ok_if_same_fields [OF assms(1)])
      (use assms(1) in \<open>auto simp: spend_registry_ok_def expire_get\<close>)
next
  case (OpPrune ep)
  then show ?thesis
    by (intro ok_if_same_fields [OF assms(1)])
      (use assms(1) in \<open>auto simp: spend_registry_ok_def spend_prune_def Let_def bt_retain_get bt_retain_ok
        split: option.splits if_splits\<close>)
qed

lemma spend_history_ok: "spend_history X r \<Longrightarrow> spend_registry_ok r"
proof (induction rule: spend_history.induct)
  case start
  then show ?case by (simp add: spend_registry_ok_def spend_registry_new_def)
qed (rule spend_step_ok)

section \<open>Lemmas: budgets\<close>

lemma budget_consume:
  "bt_get (sr_capabilities r) i = Some c \<Longrightarrow>
     (case snd (registry_consume i spender amount ep scope r) of Inl e \<Rightarrow> 0 | Inr a \<Rightarrow> unat a) +
     capability_budget i (fst (registry_consume i spender amount ep scope r)) \<le> capability_budget i r"
  by (auto simp: registry_consume_def capability_consume_def capability_budget_def map_simps Let_def not_less
      unat_sub_fits word_le_nat_alt)

lemma budget_consume_other:
  "j \<noteq> i \<Longrightarrow> capability_budget i (fst (registry_consume j spender amount ep scope r)) = capability_budget i r"
  by (auto simp: registry_consume_def capability_budget_def map_simps case_prod_beta split: option.split)

lemma retired_budget: "st \<noteq> SActive \<Longrightarrow> sc_status (retired st c) \<noteq> SActive"
  by (simp add: retired_def)

lemma spend_step_budget:
  assumes "bt_ok (sr_capabilities r)" and "issued_id X r op \<noteq> Some i"
  shows "spent_from i (snd (spend_step X r op)) + capability_budget i (fst (spend_step X r op)) \<le> capability_budget i r"
proof (cases op)
  case (OpCreate owner spender asset amount expiration scope ep)
  show ?thesis
    by (cases X owner spender asset amount expiration scope ep r rule: create_cases)
      (use assms(2) in \<open>auto simp: OpCreate spent_from_def capability_budget_def map_simps\<close>)
next
  case (OpConsume j spender amount ep scope)
  show ?thesis
  proof (cases "j = i")
    case True
    show ?thesis
    proof (cases "bt_get (sr_capabilities r) i")
      case (Some c)
      from budget_consume [OF this, of spender amount ep scope] show ?thesis
        using True by (auto simp: OpConsume spent_from_def split: prod.splits sum.splits)
    qed (simp add: OpConsume True spent_from_def registry_consume_def)
  next
    case False
    then show ?thesis
      using budget_consume_other [OF False, of spender amount ep scope r]
      by (auto simp: OpConsume spent_from_def split: prod.splits sum.splits)
  qed
next
  case (OpRevoke j caller)
  then show ?thesis
    by (auto simp: spent_from_def registry_revoke_def capability_revoke_def capability_budget_def map_simps
        split: option.split)
next
  case (OpRevokeAll owner)
  then show ?thesis
    using revoke_all_get(1) [OF assms(1), of owner i] retired_budget [of SRevoked]
    by (auto simp: spent_from_def capability_budget_def split: option.split)
next
  case (OpExpire ep)
  then show ?thesis
    using expire_get(1) [OF assms(1), of ep i] retired_budget [of SExpired]
    by (auto simp: spent_from_def capability_budget_def split: option.split)
next
  case (OpPrune ep)
  then show ?thesis
    using assms(1) by (auto simp: spent_from_def capability_budget_def spend_prune_def Let_def bt_retain_get split: option.split)
qed

lemma spend_step_bt_ok: "bt_ok (sr_capabilities r) \<Longrightarrow> bt_ok (sr_capabilities (fst (spend_step X r op)))"
proof (cases op)
  case (OpCreate owner spender asset amount expiration scope ep)
  assume "bt_ok (sr_capabilities r)"
  then show ?thesis
    by (cases X owner spender asset amount expiration scope ep r rule: create_cases) (simp_all add: OpCreate btm.ok_put)
qed (auto simp: registry_consume_def registry_revoke_def revoke_all_get expire_get spend_prune_def Let_def bt_retain_ok
    btm.ok_adjust split: option.split prod.split sum.split)

interpretation capability: budget_machine "spend_step X"
    "\<lambda>ops r. bt_ok (sr_capabilities r) \<and> not_reissued X i ops r" "spent_from i" "capability_budget i" for X i
  by unfold_locales (simp_all add: spend_step_bt_ok spend_step_budget)

section \<open>Lemmas: the best capability\<close>

lemma later_max_spec:
  "foldl later_max best cs = Some b \<Longrightarrow>
     (b \<in> set cs \<or> best = Some b) \<and> (\<forall>c \<in> set cs. sc_remaining_amount c \<le> sc_remaining_amount b) \<and>
     (\<forall>c. best = Some c \<longrightarrow> sc_remaining_amount c \<le> sc_remaining_amount b)"
proof (induction cs arbitrary: best)
  case (Cons c cs)
  from Cons.IH [of "later_max best c"] Cons.prems show ?case
    by (auto simp: later_max_def split: option.splits if_splits)
qed simp

lemma later_max_None: "foldl later_max best cs = None \<longleftrightarrow> best = None \<and> cs = []"
proof (induction cs arbitrary: best)
  case (Cons c cs)
  then show ?case by (simp add: later_max_def split: option.split)
qed simp

lemma set_map_filter_get: "set (List.map_filter f xs) = {v. \<exists>x \<in> set xs. f x = Some v}"
  by (induction xs) (auto simp: List.map_filter_simps split: option.splits)

lemma set_candidates:
  assumes "spend_registry_ok r"
  shows "set (filter (\<lambda>c. is_usable c ep)
      (List.map_filter (bt_get (sr_capabilities r)) (bt_list (sr_by_grant r) (ow, sp, a)))) =
    {c. \<exists>i. bt_get (sr_capabilities r) i = Some c \<and> is_usable c ep \<and>
      sc_owner c = ow \<and> sc_allowed_spender c = sp \<and> sc_asset_id c = a}"
proof -
  have "i \<in> set (bt_list (sr_by_grant r) (ow, sp, a)) \<longleftrightarrow> sc_owner c = ow \<and> sc_allowed_spender c = sp \<and> sc_asset_id c = a"
    if "bt_get (sr_capabilities r) i = Some c" for i c
  proof -
    have "indexed r i c" using assms that by (simp add: spend_registry_ok_def)
    then have "i \<in> set (bt_list (sr_by_grant r) (ow, sp, a)) \<longleftrightarrow> (ow, sp, a) = (sc_owner c, sc_allowed_spender c, sc_asset_id c)"
      unfolding indexed_def by blast
    then show ?thesis by auto
  qed
  then show ?thesis unfolding set_filter set_map_filter_get by blast
qed

section \<open>Properties\<close>

text \<open>
  C24. A capability never yields more than it holds: along every sequence of operations on the registry
  in which its id is not issued again, the amounts consumed from a capability sum up to at most what was
  left of it at the start, and to nothing when it is consumed, revoked, expired or missing.
\<close>

theorem capability_never_overspent:
  assumes "bt_ok (sr_capabilities r)" and "not_reissued X i ops r"
  shows "sum_list (map (spent_from i) (snd (run (spend_step X) r ops))) \<le>
    (case bt_get (sr_capabilities r) i of None \<Rightarrow> 0
     | Some c \<Rightarrow> if sc_status c = SActive then unat (sc_remaining_amount c) else 0)"
  using capability.run_budget [of r X i ops] assms by (simp add: capability_budget_def)

definition sample_capability :: spend_capability where
  "sample_capability = \<lparr>sc_capability_id = 5, sc_owner = 1, sc_allowed_spender = 2, sc_asset_id = 9, sc_max_amount = 100,
     sc_remaining_amount = 100, sc_expiration_epoch = 50, sc_scope_hash = None, sc_status = SActive,
     sc_created_at_epoch = 1\<rparr>"

definition sample_spend_registry :: spend_registry where
  "sample_spend_registry = spend_registry_new\<lparr>sr_capabilities := [(5, sample_capability)], sr_by_grant := [((1, 2, 9), [5])],
     sr_by_owner := [(1, [5])], sr_by_expiration := [(50, [5])]\<rparr>"

theorem capability_never_overspent_witness:
  "let out = snd (run (spend_step extern_std) sample_spend_registry [OpConsume 5 2 60 10 None, OpConsume 5 2 60 11 None])
   in out = [Some (5, 60), None] \<and> sum_list (map (spent_from 5) out) \<le> 100"
proof -
  let ?ops = "[OpConsume 5 2 60 10 None, OpConsume 5 2 60 11 None]"
  have "snd (run (spend_step extern_std) sample_spend_registry ?ops) = [Some (5, 60), None]"
    by (simp add: run_Cons sample_spend_registry_def sample_capability_def spend_registry_new_def registry_consume_def
        capability_consume_def bt_get_Cons bt_adjust_def)
  moreover have "sum_list (map (spent_from 5) (snd (run (spend_step extern_std) sample_spend_registry ?ops))) \<le> 100"
    using capability_never_overspent [of sample_spend_registry extern_std 5 ?ops]
    by (simp add: sample_spend_registry_def sample_capability_def spend_registry_new_def bt_ok_Cons bt_get_Cons)
  ultimately show ?thesis by (simp only: Let_def)
qed

text \<open>
  The indexes of the spending registry are as good as scans: after any history in which ids are not
  reissued, expiring by the epoch index expires exactly the active capabilities whose deadline has
  passed and counts them, revoking by the owner index revokes exactly the owner's active ones, and the
  lookup by grant returns a usable capability of the grant with the largest remaining amount whenever
  there is one.
\<close>

theorem spending_indexes_agree_with_scans:
  assumes "spend_history X r"
  shows "bt_get (sr_capabilities (fst (expire_stale ep r))) i = map_option (check_expiration ep) (bt_get (sr_capabilities r) i) \<and>
    snd (expire_stale ep r) + bt_total active_weight (sr_capabilities (fst (expire_stale ep r))) =
      bt_total active_weight (sr_capabilities r) \<and>
    bt_get (sr_capabilities (fst (revoke_all_by_owner ow r))) i = map_option (\<lambda>c. if sc_owner c = ow \<and>
      sc_status c = SActive then c\<lparr>sc_status := SRevoked\<rparr> else c) (bt_get (sr_capabilities r) i) \<and>
    (case find_active r ow sp a ep of
       None \<Rightarrow> \<not> (\<exists>j c. bt_get (sr_capabilities r) j = Some c \<and> is_usable c ep \<and>
         sc_owner c = ow \<and> sc_allowed_spender c = sp \<and> sc_asset_id c = a)
     | Some b \<Rightarrow> is_usable b ep \<and> sc_owner b = ow \<and> sc_allowed_spender b = sp \<and> sc_asset_id b = a \<and>
         (\<forall>j c. bt_get (sr_capabilities r) j = Some c \<and> is_usable c ep \<and> sc_owner c = ow \<and>
            sc_allowed_spender c = sp \<and> sc_asset_id c = a \<longrightarrow> sc_remaining_amount c \<le> sc_remaining_amount b))"
proof -
  have ok: "spend_registry_ok r" using assms by (rule spend_history_ok)
  then have bt: "bt_ok (sr_capabilities r)" by (simp add: spend_registry_ok_def)
  have ix: "(i \<in> set (bt_list (sr_by_owner r) ow) \<longleftrightarrow> ow = sc_owner c) \<and> (i \<in> set (due_ids ep r) \<longleftrightarrow> sc_expiration_epoch c \<le> ep)"
    if "bt_get (sr_capabilities r) i = Some c" for c
    using ok that by (auto simp: spend_registry_ok_def indexed_def in_due_ids_iff)
  have "bt_get (sr_capabilities (fst (expire_stale ep r))) i = map_option (check_expiration ep) (bt_get (sr_capabilities r) i)"
    using ix by (cases "bt_get (sr_capabilities r) i") (simp_all add: expire_get [OF bt] check_expiration_def retired_def)
  moreover have "bt_get (sr_capabilities (fst (revoke_all_by_owner ow r))) i = map_option (\<lambda>c. if sc_owner c = ow \<and>
      sc_status c = SActive then c\<lparr>sc_status := SRevoked\<rparr> else c) (bt_get (sr_capabilities r) i)"
    using ix by (cases "bt_get (sr_capabilities r) i") (auto simp: revoke_all_get [OF bt] retired_def)
  moreover note expire_get(3) [OF bt, of ep]
  moreover have "case find_active r ow sp a ep of
       None \<Rightarrow> \<not> (\<exists>j c. bt_get (sr_capabilities r) j = Some c \<and> is_usable c ep \<and>
         sc_owner c = ow \<and> sc_allowed_spender c = sp \<and> sc_asset_id c = a)
     | Some b \<Rightarrow> is_usable b ep \<and> sc_owner b = ow \<and> sc_allowed_spender b = sp \<and> sc_asset_id b = a \<and>
         (\<forall>j c. bt_get (sr_capabilities r) j = Some c \<and> is_usable c ep \<and> sc_owner c = ow \<and>
            sc_allowed_spender c = sp \<and> sc_asset_id c = a \<longrightarrow> sc_remaining_amount c \<le> sc_remaining_amount b)"
  proof (cases "find_active r ow sp a ep")
    case None
    then have "set (filter (\<lambda>c. is_usable c ep)
        (List.map_filter (bt_get (sr_capabilities r)) (bt_list (sr_by_grant r) (ow, sp, a)))) = {}"
      by (simp add: find_active_def later_max_None)
    then show ?thesis unfolding set_candidates [OF ok] using None by auto
  next
    case (Some b)
    from later_max_spec [OF Some [unfolded find_active_def]] show ?thesis
      unfolding set_candidates [OF ok] using Some by auto
  qed
  ultimately show ?thesis by blast
qed

theorem spending_indexes_agree_with_scans_witness:
  "bt_get (sr_capabilities (fst (expire_stale 60 (fst (registry_create extern_std 1 2 9 100 50 None 1 spend_registry_new))))) 5 =
   map_option (check_expiration 60)
     (bt_get (sr_capabilities (fst (registry_create extern_std 1 2 9 100 50 None 1 spend_registry_new))) 5)"
proof -
  have "spend_history extern_std (fst (spend_step extern_std spend_registry_new (OpCreate 1 2 9 100 50 None 1)))"
    by (rule spend_history.step [OF spend_history.start]) (simp add: unissued_def spend_registry_new_def bt_list_def)
  from spending_indexes_agree_with_scans [OF this, of 60 5] show ?thesis by simp
qed

end
