(* ===== verification/Encrypted.thy ===== *)
theory Encrypted
  imports Intents "HOL-Library.Product_Lexorder"
begin

text \<open>
  Encrypted intents, \<^verbatim>\<open>runtime/src/intents/encrypted.rs\<close>: submission of a commitment, reveal of the
  plaintext, expiry and pruning. Shown: the pending counter is exact, no submitter and nonce is
  revealed twice even across pruning, and a revealed transaction is the committed one.
\<close>

section \<open>Encrypted intents\<close>

datatype encrypted_status = EPending | ERevealed | EExpired | ERejected

record encrypted_intent =
  ei_commitment :: bytes32
  ei_encrypted_payload :: bytes
  ei_reveal_deadline :: u64
  ei_submitter :: bytes32
  ei_nonce :: u64
  ei_submitted_at_epoch :: u64
  ei_status :: encrypted_status

record intent_reveal =
  rl_commitment :: bytes32
  rl_plaintext_intent :: intent_transaction
  rl_reveal_nonce :: bytes32

definition commitment_input :: "extern \<Rightarrow> intent_transaction \<Rightarrow> bytes32 \<Rightarrow> bytes" where
  "commitment_input X tx reveal_nonce =
     string_bytes ''OMNIPHI_COMMIT_V1'' @ be_bytes 32 (signing_payload X tx) @ be_bytes 32 (tx_sender tx)
       @ be_bytes 8 (tx_nonce tx) @ be_bytes 32 reveal_nonce"

definition encrypted_commitment :: "extern \<Rightarrow> intent_transaction \<Rightarrow> bytes32 \<Rightarrow> bytes32" where
  "encrypted_commitment X tx reveal_nonce = x_sha256 X (commitment_input X tx reveal_nonce)"

definition encrypted_create ::
  "extern \<Rightarrow> intent_transaction \<Rightarrow> bytes32 \<Rightarrow> bytes \<Rightarrow> u64 \<Rightarrow> u64 \<Rightarrow> err_text + encrypted_intent" where
  "encrypted_create X tx reveal_nonce payload reveal_deadline current_epoch =
     (if payload = [] then Inl (Text ''encrypted_payload must not be empty'')
      else if reveal_deadline \<le> current_epoch then
        Inl (Fmt ''reveal_deadline {} must be > current epoch {}'' [unat reveal_deadline, unat current_epoch])
      else if tx_sender tx = 0 then Inl (Text ''submitter must be non-zero'')
      else Inr
        \<lparr>ei_commitment = encrypted_commitment X tx reveal_nonce, ei_encrypted_payload = payload,
         ei_reveal_deadline = reveal_deadline, ei_submitter = tx_sender tx, ei_nonce = tx_nonce tx,
         ei_submitted_at_epoch = current_epoch, ei_status = EPending\<rparr>)"

definition is_revealable :: "encrypted_intent \<Rightarrow> u64 \<Rightarrow> bool" where
  "is_revealable e current_epoch \<longleftrightarrow> ei_status e = EPending \<and> current_epoch \<le> ei_reveal_deadline e"

section \<open>The registry\<close>

record encrypted_registry =
  en_intents :: "(bytes32, encrypted_intent) btree"
  en_by_submitter_nonce :: "(bytes32 \<times> u64, bytes32) btree"
  en_pending :: usize

definition encrypted_registry_new :: encrypted_registry where
  "encrypted_registry_new = \<lparr>en_intents = [], en_by_submitter_nonce = [], en_pending = 0\<rparr>"

definition encrypted_submit ::
  "encrypted_intent \<Rightarrow> encrypted_registry \<Rightarrow> encrypted_registry \<times> (err_text + bytes32)" where
  "encrypted_submit e r =
     (let commitment = ei_commitment e; key = (ei_submitter e, ei_nonce e) in
      if bt_has (en_intents r) commitment then (r, Inl (Text ''duplicate commitment''))
      else if bt_has (en_by_submitter_nonce r) key then (r, Inl (Text ''submitter nonce already used''))
      else (r\<lparr>en_by_submitter_nonce := bt_put key commitment (en_by_submitter_nonce r),
              en_intents := bt_put commitment e (en_intents r), en_pending := en_pending r + 1\<rparr>, Inr commitment))"

text \<open>The status change of \<^verbatim>\<open>reveal\<close>, which lowers the counter of pending intents.\<close>

definition settle_status :: "bytes32 \<Rightarrow> encrypted_status \<Rightarrow> encrypted_registry \<Rightarrow> encrypted_registry" where
  "settle_status c st r =
     r\<lparr>en_intents := bt_adjust c (\<lambda>e. e\<lparr>ei_status := st\<rparr>) (en_intents r), en_pending := en_pending r - 1\<rparr>"

definition encrypted_reveal ::
  "extern \<Rightarrow> intent_reveal \<Rightarrow> u64 \<Rightarrow> encrypted_registry \<Rightarrow> encrypted_registry \<times> (err_text + intent_transaction)" where
  "encrypted_reveal X rvl current_epoch r =
     (let c = rl_commitment rvl in
      case bt_get (en_intents r) c of
        None \<Rightarrow> (r, Inl (Text ''commitment not found''))
      | Some e \<Rightarrow>
          (case ei_status e of
             ERevealed \<Rightarrow> (r, Inl (Text ''already revealed (duplicate reveal)''))
           | EExpired \<Rightarrow> (r, Inl (Text ''encrypted intent has expired''))
           | ERejected \<Rightarrow> (r, Inl (Text ''encrypted intent was rejected''))
           | EPending \<Rightarrow>
               if current_epoch > ei_reveal_deadline e then
                 (settle_status c EExpired r,
                  Inl (Fmt ''reveal deadline {} passed (current epoch: {})''
                         [unat (ei_reveal_deadline e), unat current_epoch]))
               else if tx_sender (rl_plaintext_intent rvl) \<noteq> ei_submitter e then
                 (settle_status c ERejected r, Inl (Text ''revealed intent sender does not match submitter''))
               else if encrypted_commitment X (rl_plaintext_intent rvl) (rl_reveal_nonce rvl) \<noteq> c then
                 (settle_status c ERejected r,
                  Inl (Text ''commitment mismatch: revealed intent does not match original commitment''))
               else (settle_status c ERevealed r, Inr (rl_plaintext_intent rvl))))"

definition expire_entry :: "u64 \<Rightarrow> encrypted_intent \<Rightarrow> encrypted_intent" where
  "expire_entry current_epoch e =
     (if ei_status e = EPending \<and> current_epoch > ei_reveal_deadline e then e\<lparr>ei_status := EExpired\<rparr> else e)"

definition encrypted_expire :: "u64 \<Rightarrow> encrypted_registry \<Rightarrow> encrypted_registry \<times> usize" where
  "encrypted_expire current_epoch r =
     (let count = length (filter (\<lambda>e. ei_status e = EPending \<and> current_epoch > ei_reveal_deadline e)
            (bt_values (en_intents r)))
      in (r\<lparr>en_intents := map (\<lambda>(c, e). (c, expire_entry current_epoch e)) (en_intents r),
            en_pending := en_pending r - count\<rparr>, count))"

definition encrypted_prune :: "u64 \<Rightarrow> encrypted_registry \<Rightarrow> encrypted_registry \<times> usize" where
  "encrypted_prune before_epoch r =
     (let kept = bt_retain (\<lambda>_ e. ei_status e = EPending \<or> ei_submitted_at_epoch e \<ge> before_epoch) (en_intents r)
      in (r\<lparr>en_intents := kept, en_pending := length (filter (\<lambda>e. ei_status e = EPending) (bt_values kept))\<rparr>,
          length (en_intents r) - length kept))"

section \<open>Histories\<close>

datatype encrypted_op = OpSubmit encrypted_intent | OpReveal intent_reveal u64 | OpExpireAll u64 | OpPruneOld u64

text \<open>One operation; the output is the submitter and nonce of the intent a reveal opened.\<close>

fun encrypted_step :: "extern \<Rightarrow> encrypted_registry \<Rightarrow> encrypted_op \<Rightarrow> encrypted_registry \<times> (bytes32 \<times> u64) list" where
  "encrypted_step X r (OpSubmit e) = (fst (encrypted_submit e r), [])"
| "encrypted_step X r (OpReveal rvl ep) =
     (fst (encrypted_reveal X rvl ep r),
      if isl (snd (encrypted_reveal X rvl ep r)) then []
      else (case bt_get (en_intents r) (rl_commitment rvl) of None \<Rightarrow> [] | Some e \<Rightarrow> [(ei_submitter e, ei_nonce e)]))"
| "encrypted_step X r (OpExpireAll ep) = (fst (encrypted_expire ep r), [])"
| "encrypted_step X r (OpPruneOld ep) = (fst (encrypted_prune ep r), [])"

definition pending_weight :: "encrypted_intent \<Rightarrow> nat" where
  "pending_weight e = (if ei_status e = EPending then 1 else 0)"

text \<open>Submitted intents are pending ones, as \<^verbatim>\<open>create\<close> makes them.\<close>

fun op_pending :: "encrypted_op \<Rightarrow> bool" where
  "op_pending (OpSubmit e) \<longleftrightarrow> ei_status e = EPending"
| "op_pending _ \<longleftrightarrow> True"

definition encrypted_ok :: "encrypted_registry \<Rightarrow> bool" where
  "encrypted_ok r \<longleftrightarrow> bt_ok (en_intents r) \<and>
     (\<forall>c e. bt_get (en_intents r) c = Some e \<longrightarrow>
        bt_get (en_by_submitter_nonce r) (ei_submitter e, ei_nonce e) = Some c)"

definition pending_exact :: "encrypted_registry \<Rightarrow> bool" where
  "pending_exact r \<longleftrightarrow> en_pending r = bt_total pending_weight (en_intents r)"

text \<open>A submitter and nonce is closed when it was used and no pending intent has it.\<close>

definition key_closed :: "encrypted_registry \<Rightarrow> bytes32 \<times> u64 \<Rightarrow> bool" where
  "key_closed r k \<longleftrightarrow> bt_has (en_by_submitter_nonce r) k \<and>
     (\<forall>c e. bt_get (en_intents r) c = Some e \<longrightarrow> (ei_submitter e, ei_nonce e) = k \<longrightarrow> ei_status e \<noteq> EPending)"

section \<open>Lemmas\<close>

lemma bt_get_map: "bt_get (map (\<lambda>(k, v). (k, f v)) m) k = map_option f (bt_get m k)"
  by (induction m) (auto simp: bt_get_Cons)

lemma bt_ok_map: "bt_ok (map (\<lambda>(k, v). (k, f v)) m) \<longleftrightarrow> bt_ok m"
  by (simp add: bt_ok_def comp_def case_prod_beta)

lemma expire_entry_fields [simp]:
  "ei_submitter (expire_entry ep e) = ei_submitter e" "ei_nonce (expire_entry ep e) = ei_nonce e"
  by (simp_all add: expire_entry_def)

lemma expire_entry_pending: "ei_status (expire_entry ep e) = EPending \<Longrightarrow> ei_status e = EPending"
  by (simp add: expire_entry_def split: if_splits)

lemma reveal_cases:
  obtains (kept) err where "encrypted_reveal X rvl ep r = (r, Inl err)"
  | (closed) e st err where "bt_get (en_intents r) (rl_commitment rvl) = Some e" "ei_status e = EPending" "st \<noteq> EPending"
      "encrypted_reveal X rvl ep r = (settle_status (rl_commitment rvl) st r, Inl err)"
  | (opened) e where "bt_get (en_intents r) (rl_commitment rvl) = Some e" "ei_status e = EPending"
      "ep \<le> ei_reveal_deadline e" "tx_sender (rl_plaintext_intent rvl) = ei_submitter e"
      "encrypted_commitment X (rl_plaintext_intent rvl) (rl_reveal_nonce rvl) = rl_commitment rvl"
      "encrypted_reveal X rvl ep r = (settle_status (rl_commitment rvl) ERevealed r, Inr (rl_plaintext_intent rvl))"
proof (cases "bt_get (en_intents r) (rl_commitment rvl)")
  case None
  then show ?thesis using kept by (simp add: encrypted_reveal_def)
next
  case (Some e)
  show ?thesis
  proof (cases "ei_status e = EPending")
    case False
    then have "\<exists>err. encrypted_reveal X rvl ep r = (r, Inl err)"
      by (cases "ei_status e") (simp_all add: encrypted_reveal_def Some)
    then show ?thesis using kept by blast
  next
    case True
    consider "ei_reveal_deadline e < ep"
      | "\<not> ei_reveal_deadline e < ep" "tx_sender (rl_plaintext_intent rvl) \<noteq> ei_submitter e"
      | "\<not> ei_reveal_deadline e < ep" "tx_sender (rl_plaintext_intent rvl) = ei_submitter e"
        "encrypted_commitment X (rl_plaintext_intent rvl) (rl_reveal_nonce rvl) \<noteq> rl_commitment rvl"
      | "ep \<le> ei_reveal_deadline e" "tx_sender (rl_plaintext_intent rvl) = ei_submitter e"
        "encrypted_commitment X (rl_plaintext_intent rvl) (rl_reveal_nonce rvl) = rl_commitment rvl"
      using not_less by blast
    then show ?thesis
    proof cases
      case 1
      then show ?thesis using closed [OF Some True, of EExpired] by (simp add: encrypted_reveal_def Some True)
    next
      case 2
      then show ?thesis using closed [OF Some True, of ERejected] by (simp add: encrypted_reveal_def Some True)
    next
      case 3
      then show ?thesis using closed [OF Some True, of ERejected] by (simp add: encrypted_reveal_def Some True)
    next
      case 4
      then show ?thesis using opened [OF Some True] by (simp add: encrypted_reveal_def Some True Let_def leD)
    qed
  qed
qed

lemma settle_get:
  "bt_get (en_intents (settle_status c st r)) c' =
     map_option (\<lambda>e. if c' = c then e\<lparr>ei_status := st\<rparr> else e) (bt_get (en_intents r) c')"
  by (simp add: settle_status_def map_simps option.map_ident)

lemma settle_frame [simp]: "en_by_submitter_nonce (settle_status c st r) = en_by_submitter_nonce r"
  by (simp add: settle_status_def)

lemma settle_entry:
  "bt_get (en_intents (settle_status c st r)) c' = Some e' \<Longrightarrow> \<exists>e. bt_get (en_intents r) c' = Some e \<and>
     ei_submitter e' = ei_submitter e \<and> ei_nonce e' = ei_nonce e \<and> (ei_status e' = ei_status e \<or> ei_status e' = st) \<and>
     (c' = c \<longrightarrow> ei_status e' = st)"
  by (auto simp: settle_get)

lemma settle_ok:
  assumes "encrypted_ok r"
  shows "encrypted_ok (settle_status c st r)"
proof -
  have "bt_ok (en_intents (settle_status c st r))"
    using assms by (simp add: encrypted_ok_def settle_status_def btm.ok_adjust)
  moreover have "bt_get (en_by_submitter_nonce r) (ei_submitter e', ei_nonce e') = Some c'"
    if "bt_get (en_intents (settle_status c st r)) c' = Some e'" for c' e'
    using settle_entry [OF that] assms by (auto simp: encrypted_ok_def)
  ultimately show ?thesis by (simp add: encrypted_ok_def)
qed

lemma encrypted_step_ok: "encrypted_ok r \<Longrightarrow> encrypted_ok (fst (encrypted_step X r op))"
proof (cases op)
  case (OpSubmit e)
  assume "encrypted_ok r"
  then show ?thesis
    by (fastforce simp: OpSubmit encrypted_submit_def Let_def encrypted_ok_def map_simps btm.ok_put bt_has_def split: if_splits)
next
  case (OpReveal rvl ep)
  assume "encrypted_ok r"
  then show ?thesis by (cases X rvl ep r rule: reveal_cases) (simp_all add: OpReveal settle_ok)
next
  case (OpExpireAll ep)
  assume "encrypted_ok r"
  then show ?thesis by (auto simp: OpExpireAll encrypted_expire_def Let_def encrypted_ok_def bt_get_map bt_ok_map)
next
  case (OpPruneOld ep)
  assume "encrypted_ok r"
  then show ?thesis
    by (auto simp: OpPruneOld encrypted_prune_def Let_def encrypted_ok_def bt_retain_get bt_retain_ok split: option.splits if_splits)
qed

lemma closed_mono:
  assumes "encrypted_ok r" and "key_closed r k"
  shows "key_closed (fst (encrypted_step X r op)) k"
proof (cases op)
  case (OpSubmit e)
  then show ?thesis
    using assms(2) by (auto simp: encrypted_submit_def Let_def key_closed_def map_simps bt_has_def split: if_splits)
next
  case (OpReveal rvl ep)
  have "key_closed (settle_status c st r) k" if "st \<noteq> EPending" for c st
  proof -
    have "ei_status e' \<noteq> EPending" if "bt_get (en_intents (settle_status c st r)) c' = Some e'" "(ei_submitter e', ei_nonce e') = k"
      for c' e' using settle_entry [OF that(1)] that(2) assms(2) \<open>st \<noteq> EPending\<close> by (auto simp: key_closed_def)
    then show ?thesis using assms(2) by (simp add: key_closed_def)
  qed
  then show ?thesis using assms(2) by (cases X rvl ep r rule: reveal_cases) (auto simp: OpReveal)
next
  case (OpExpireAll ep)
  then show ?thesis using assms(2) by (auto simp: encrypted_expire_def Let_def key_closed_def bt_get_map dest: expire_entry_pending)
next
  case (OpPruneOld ep)
  then show ?thesis
    using assms by (auto simp: encrypted_prune_def Let_def key_closed_def encrypted_ok_def bt_retain_get split: option.splits if_splits)
qed

lemma opened_keys:
  assumes "encrypted_ok r" and "k \<in> set (snd (encrypted_step X r op))"
  shows "\<not> key_closed r k \<and> key_closed (fst (encrypted_step X r op)) k"
proof (cases op)
  case (OpReveal rvl ep)
  show ?thesis
  proof (cases X rvl ep r rule: reveal_cases)
    case (opened e)
    have k: "k = (ei_submitter e, ei_nonce e)" using assms(2) by (simp add: OpReveal opened)
    have own: "bt_get (en_by_submitter_nonce r) (ei_submitter e', ei_nonce e') = Some c"
      if "bt_get (en_intents r) c = Some e'" for c e' using assms(1) that by (simp add: encrypted_ok_def)
    have "key_closed (settle_status (rl_commitment rvl) ERevealed r) k"
      unfolding key_closed_def settle_frame
    proof (intro conjI allI impI)
      show "bt_has (en_by_submitter_nonce r) k" using own [OF opened(1)] by (simp add: bt_has_def k)
      fix c e' assume entry: "bt_get (en_intents (settle_status (rl_commitment rvl) ERevealed r)) c = Some e'"
        and key: "(ei_submitter e', ei_nonce e') = k"
      from settle_entry [OF entry] obtain e0 where e0: "bt_get (en_intents r) c = Some e0"
        "ei_submitter e' = ei_submitter e0" "ei_nonce e' = ei_nonce e0" "c = rl_commitment rvl \<longrightarrow> ei_status e' = ERevealed"
        by blast
      have "Some c = Some (rl_commitment rvl)" using own [OF e0(1)] own [OF opened(1)] key k e0(2,3) by simp
      then show "ei_status e' \<noteq> EPending" using e0(4) by simp
    qed
    moreover have "\<not> key_closed r k" using opened(1,2) by (auto simp: key_closed_def k)
    ultimately show ?thesis by (simp add: OpReveal opened)
  qed (use assms(2) in \<open>simp_all add: OpReveal\<close>)
qed (use assms(2) in simp_all)

interpretation opened_once: once_machine "encrypted_step X" "\<lambda>_. encrypted_ok" "\<lambda>ks. ks" key_closed for X
proof
  fix op :: encrypted_op and ops :: "encrypted_op list" and r :: encrypted_registry and k :: "bytes32 \<times> u64"
  assume ok: "encrypted_ok r"
  show "distinct (snd (encrypted_step X r op))" by (cases op) (auto split: option.split)
  show "encrypted_ok (fst (encrypted_step X r op))" using ok by (rule encrypted_step_ok)
  show "k \<in> set (snd (encrypted_step X r op)) \<Longrightarrow> \<not> key_closed r k" using opened_keys [OF ok] by blast
  show "k \<in> set (snd (encrypted_step X r op)) \<Longrightarrow> key_closed (fst (encrypted_step X r op)) k" using opened_keys [OF ok] by blast
  show "key_closed r k \<Longrightarrow> key_closed (fst (encrypted_step X r op)) k" using ok by (rule closed_mono)
qed

section \<open>Lemmas: the counter\<close>

lemma settle_pending:
  assumes "bt_ok (en_intents r)" and "pending_exact r" and "bt_get (en_intents r) c = Some e"
    and "ei_status e = EPending" and "st \<noteq> EPending"
  shows "pending_exact (settle_status c st r)"
  using btm.total_adjust [OF assms(1,3), of pending_weight "\<lambda>e. e\<lparr>ei_status := st\<rparr>"] assms(2,4,5)
  by (simp add: pending_exact_def settle_status_def pending_weight_def)

lemma total_put_fresh: "bt_get m k = None \<Longrightarrow> bt_total w (bt_put k v m) = w v + bt_total w m"
  by (induction m) (auto simp: bt_get_Cons bt_total_def split: if_splits)

lemma length_filter_total: "length (filter P (bt_values m)) = bt_total (\<lambda>e. if P e then 1 else 0) m"
  by (induction m) (simp_all add: bt_values_def bt_total_def)

lemma total_map: "bt_total w (map (\<lambda>(c, e). (c, f e)) m) = bt_total (\<lambda>e. w (f e)) m"
  by (induction m) (simp_all add: bt_total_def case_prod_beta)

lemma total_add: "bt_total w m + bt_total w' m = bt_total (\<lambda>e. w e + w' e) m"
  by (induction m) (simp_all add: bt_total_def)

lemma total_expire:
  "length (filter (\<lambda>e. ei_status e = EPending \<and> ep > ei_reveal_deadline e) (bt_values m)) +
     bt_total pending_weight (map (\<lambda>(c, e). (c, expire_entry ep e)) m) = bt_total pending_weight m"
proof -
  have "(if ei_status e = EPending \<and> ep > ei_reveal_deadline e then 1 else 0) + pending_weight (expire_entry ep e) = pending_weight e" for e
    by (simp add: pending_weight_def expire_entry_def)
  then show ?thesis by (simp only: length_filter_total total_map total_add)
qed

lemma pending_step:
  assumes "encrypted_ok r" and "pending_exact r" and "op_pending op"
  shows "pending_exact (fst (encrypted_step X r op))"
proof (cases op)
  case (OpSubmit e)
  then show ?thesis
    using assms(2,3)
    by (auto simp: encrypted_submit_def Let_def pending_exact_def bt_has_def total_put_fresh pending_weight_def)
next
  case (OpReveal rvl ep)
  have "bt_ok (en_intents r)" using assms(1) by (simp add: encrypted_ok_def)
  note settle = settle_pending [OF this assms(2)]
  show ?thesis by (cases X rvl ep r rule: reveal_cases) (simp_all add: OpReveal assms(2) settle)
next
  case (OpExpireAll ep)
  then show ?thesis
    using assms(2) total_expire [of ep "en_intents r"] by (simp add: encrypted_expire_def Let_def pending_exact_def)
next
  case (OpPruneOld ep)
  then show ?thesis by (simp add: encrypted_prune_def Let_def pending_exact_def length_filter_total pending_weight_def [abs_def])
qed

interpretation counter: preserving_machine "encrypted_step X"
    "\<lambda>ops r. encrypted_ok r \<and> pending_exact r \<and> list_all op_pending ops" for X
  by unfold_locales (simp add: encrypted_step_ok pending_step)

section \<open>Properties\<close>

text \<open>
  C25. No submitter and nonce is revealed twice: along every sequence of submissions, reveals, expiries
  and prunings on a new registry each pair is opened at most once, also after the opened intent was
  pruned, and the constant-time counter always equals the number of pending intents.
\<close>

theorem encrypted_pairs_open_once:
  "distinct (concat (snd (run (encrypted_step X) encrypted_registry_new ops))) \<and>
   (list_all op_pending ops \<longrightarrow>
      en_pending (fst (run (encrypted_step X) encrypted_registry_new ops)) =
      length (filter (\<lambda>e. ei_status e = EPending) (bt_values (en_intents (fst (run (encrypted_step X) encrypted_registry_new ops))))))"
proof -
  have new: "encrypted_ok encrypted_registry_new" "pending_exact encrypted_registry_new"
    by (simp_all add: encrypted_ok_def pending_exact_def encrypted_registry_new_def bt_total_def)
  have "pending_exact (fst (run (encrypted_step X) encrypted_registry_new ops))" if "list_all op_pending ops"
    using counter.run_inv [of encrypted_registry_new ops "[]" X] new that by simp
  then show ?thesis
    using opened_once.run_once [OF new(1), of X ops]
    by (simp add: pending_exact_def length_filter_total pending_weight_def [abs_def])
qed

definition sample_encrypted :: encrypted_intent where
  "sample_encrypted = \<lparr>ei_commitment = encrypted_commitment extern_std (sample_tx sample_transfer) 5, ei_encrypted_payload = [1],
     ei_reveal_deadline = 9, ei_submitter = 1, ei_nonce = 0, ei_submitted_at_epoch = 2, ei_status = EPending\<rparr>"

definition sample_reveal :: intent_reveal where
  "sample_reveal = \<lparr>rl_commitment = encrypted_commitment extern_std (sample_tx sample_transfer) 5,
     rl_plaintext_intent = sample_tx sample_transfer, rl_reveal_nonce = 5\<rparr>"

theorem encrypted_pairs_open_once_witness:
  "en_pending (fst (run (encrypted_step extern_std) encrypted_registry_new [OpSubmit sample_encrypted, OpExpireAll 20])) =
   length (filter (\<lambda>e. ei_status e = EPending) (bt_values (en_intents
     (fst (run (encrypted_step extern_std) encrypted_registry_new [OpSubmit sample_encrypted, OpExpireAll 20])))))"
  using encrypted_pairs_open_once [of extern_std "[OpSubmit sample_encrypted, OpExpireAll 20]"]
  by (simp add: sample_encrypted_def)

text \<open>
  A reveal opens exactly what was committed: it succeeds only for a pending commitment, in time and
  by the submitter, the returned transaction is the revealed one, and two successful reveals of one
  commitment, in whatever registries, agree on sender, nonce, signing payload and reveal nonce, unless
  the two hashed strings are a collision of SHA-256.
\<close>

theorem reveal_opens_the_commitment:
  assumes "encrypted_reveal X a ep r = (r', Inr tx)" and "encrypted_reveal X b ep2 s = (s', Inr tx2)"
    and "rl_commitment a = rl_commitment b"
    and "inj_on (x_sha256 X) {commitment_input X tx (rl_reveal_nonce a), commitment_input X tx2 (rl_reveal_nonce b)}"
  shows "(\<exists>e. bt_get (en_intents r) (rl_commitment a) = Some e \<and> is_revealable e ep \<and> tx_sender tx = ei_submitter e) \<and>
    signing_payload X tx = signing_payload X tx2 \<and> tx_sender tx = tx_sender tx2 \<and> tx_nonce tx = tx_nonce tx2 \<and>
    rl_reveal_nonce a = rl_reveal_nonce b"
proof -
  obtain e where e: "bt_get (en_intents r) (rl_commitment a) = Some e" "is_revealable e ep" "tx_sender tx = ei_submitter e"
    "encrypted_commitment X tx (rl_reveal_nonce a) = rl_commitment a"
    using assms(1) by (cases X a ep r rule: reveal_cases) (auto simp: is_revealable_def)
  have "encrypted_commitment X tx2 (rl_reveal_nonce b) = rl_commitment b"
    using assms(2) by (cases X b ep2 s rule: reveal_cases) auto
  then have "commitment_input X tx (rl_reveal_nonce a) = commitment_input X tx2 (rl_reveal_nonce b)"
    using e(4) assms(3) by (intro inj_onD [OF assms(4)]) (simp_all add: encrypted_commitment_def)
  with e show ?thesis by (auto simp: commitment_input_def)
qed

lemma sample_reveal_opens:
  "encrypted_reveal extern_std sample_reveal 9 (fst (encrypted_submit sample_encrypted encrypted_registry_new)) =
     (settle_status (rl_commitment sample_reveal) ERevealed (fst (encrypted_submit sample_encrypted encrypted_registry_new)),
      Inr (sample_tx sample_transfer))"
proof -
  have "tx_sender (sample_tx sample_transfer) = 1" by (simp add: sample_tx_def)
  then show ?thesis
    by (simp add: encrypted_reveal_def encrypted_submit_def encrypted_registry_new_def sample_encrypted_def sample_reveal_def
        bt_get_Cons bt_has_def Let_def)
qed

theorem reveal_opens_the_commitment_witness:
  "\<exists>e. bt_get (en_intents (fst (encrypted_submit sample_encrypted encrypted_registry_new))) (rl_commitment sample_reveal) = Some e \<and>
     is_revealable e 9 \<and> tx_sender (sample_tx sample_transfer) = ei_submitter e"
  using reveal_opens_the_commitment [OF sample_reveal_opens sample_reveal_opens] by simp

text \<open>
  Anyone can close a pending intent: a reveal with another sender is not an attempt of the submitter,
  but it rejects the intent for good.
\<close>

theorem foreign_reveal_rejects_intent:
  assumes "bt_get (en_intents r) (rl_commitment a) = Some e" and "ei_status e = EPending" and "ep \<le> ei_reveal_deadline e"
    and "tx_sender (rl_plaintext_intent a) \<noteq> ei_submitter e"
  shows "map_option ei_status (bt_get (en_intents (fst (encrypted_reveal X a ep r))) (rl_commitment a)) = Some ERejected"
  using assms by (simp add: encrypted_reveal_def Let_def settle_get leD)

end
