(* ===== verification/Finality.thy ===== *)
theory Finality
  imports Objects
begin

text \<open>
  The life of a batch after its proposal, \<^verbatim>\<open>poseq/src/finality/mod.rs\<close>: the state graph, the status with
  its transition log, the store of statuses and the epoch checkpoint. Shown: every log is a legal path
  from \<^verbatim>\<open>Proposed\<close> to the current state, terminal states are final, nothing is delivered to the runtime
  without attestation, quorum and finalization, and the checkpoint is the latest finalized batch.
\<close>

section \<open>States\<close>

datatype finality_state =
    FsProposed | FsAttested | FsQuorumReached | FsFinalized | FsRuntimeDelivered | FsRuntimeAcknowledged
  | FsRuntimeRejected | FsSuperseded | FsInvalidated | FsDisputedPlaceholder | FsRecovered

fun can_transition_to :: "finality_state \<Rightarrow> finality_state \<Rightarrow> bool" where
  "can_transition_to FsProposed s \<longleftrightarrow> s \<in> {FsAttested, FsSuperseded, FsInvalidated}"
| "can_transition_to FsAttested s \<longleftrightarrow> s \<in> {FsQuorumReached, FsSuperseded, FsInvalidated}"
| "can_transition_to FsQuorumReached s \<longleftrightarrow> s \<in> {FsFinalized, FsInvalidated}"
| "can_transition_to FsFinalized s \<longleftrightarrow> s \<in> {FsRuntimeDelivered, FsDisputedPlaceholder}"
| "can_transition_to FsRuntimeDelivered s \<longleftrightarrow> s \<in> {FsRuntimeAcknowledged, FsRuntimeRejected, FsRecovered}"
| "can_transition_to FsRuntimeRejected s \<longleftrightarrow> s \<in> {FsRecovered, FsDisputedPlaceholder}"
| "can_transition_to FsDisputedPlaceholder s \<longleftrightarrow> s \<in> {FsRecovered, FsInvalidated}"
| "can_transition_to FsRecovered s \<longleftrightarrow> s = FsRuntimeDelivered"
| "can_transition_to _ s \<longleftrightarrow> False"

definition is_terminal :: "finality_state \<Rightarrow> bool" where
  "is_terminal s \<longleftrightarrow> s \<in> {FsRuntimeAcknowledged, FsSuperseded, FsInvalidated}"

datatype finality_error =
    IllegalTransition finality_state finality_state | AlreadyTerminal finality_state | BatchNotFound bytes32

record transition_record =
  fr_from :: finality_state
  fr_to :: finality_state
  fr_reason :: string
  fr_timestamp_seq :: u64

record batch_status =
  bs_batch_id :: bytes32
  bs_current_state :: finality_state
  bs_epoch :: u64
  bs_slot :: u64
  bs_transitions :: "transition_record list"

definition status_new :: "bytes32 \<Rightarrow> u64 \<Rightarrow> u64 \<Rightarrow> batch_status" where
  "status_new batch_id epoch slot =
     \<lparr>bs_batch_id = batch_id, bs_current_state = FsProposed, bs_epoch = epoch, bs_slot = slot, bs_transitions = []\<rparr>"

text \<open>The shared body of both \<^verbatim>\<open>transition\<close> functions; they differ in the recorded number.\<close>

definition transition_with :: "u64 \<Rightarrow> finality_state \<Rightarrow> string \<Rightarrow> batch_status \<Rightarrow> finality_error + batch_status" where
  "transition_with seq_no next reason st =
     (if is_terminal (bs_current_state st) then Inl (AlreadyTerminal (bs_current_state st))
      else if \<not> can_transition_to (bs_current_state st) next then Inl (IllegalTransition (bs_current_state st) next)
      else Inr (st\<lparr>bs_transitions := bs_transitions st @
                    [\<lparr>fr_from = bs_current_state st, fr_to = next, fr_reason = reason, fr_timestamp_seq = seq_no\<rparr>],
                   bs_current_state := next\<rparr>))"

definition status_transition :: "finality_state \<Rightarrow> string \<Rightarrow> batch_status \<Rightarrow> finality_error + batch_status" where
  "status_transition next reason st = transition_with (of_nat (length (bs_transitions st))) next reason st"

section \<open>The store\<close>

datatype guarantee_level = Tentative | WeakFinality | StrongFinality | Delivered | RecoveryPending | Acknowledged

record finality_checkpoint =
  fc_epoch :: u64
  fc_last_finalized_batch_id :: bytes32
  fc_last_finalized_slot :: u64
  fc_checkpoint_hash :: bytes32

definition checkpoint_compute :: "extern \<Rightarrow> u64 \<Rightarrow> bytes32 \<Rightarrow> u64 \<Rightarrow> finality_checkpoint" where
  "checkpoint_compute X epoch batch_id slot =
     \<lparr>fc_epoch = epoch, fc_last_finalized_batch_id = batch_id, fc_last_finalized_slot = slot,
      fc_checkpoint_hash = x_sha256 X (le_bytes 8 epoch @ be_bytes 32 batch_id @ le_bytes 8 slot)\<rparr>"

record finality_store =
  fn_statuses :: "(bytes32, batch_status) btree"
  fn_seq :: u64

definition finality_store_new :: finality_store where
  "finality_store_new = \<lparr>fn_statuses = [], fn_seq = 0\<rparr>"

definition init_batch :: "bytes32 \<Rightarrow> u64 \<Rightarrow> u64 \<Rightarrow> finality_store \<Rightarrow> finality_store" where
  "init_batch batch_id epoch slot s =
     s\<lparr>fn_statuses := bt_put batch_id (status_new batch_id epoch slot) (fn_statuses s)\<rparr>"

text \<open>The number is taken, and the counter advanced, before any check.\<close>

definition finality_transition ::
  "bytes32 \<Rightarrow> finality_state \<Rightarrow> string \<Rightarrow> finality_store \<Rightarrow> finality_store \<times> (finality_error + unit)" where
  "finality_transition batch_id next reason s =
     (let s1 = s\<lparr>fn_seq := fn_seq s + 1\<rparr> in
      case bt_get (fn_statuses s) batch_id of
        None \<Rightarrow> (s1, Inl (BatchNotFound batch_id))
      | Some st \<Rightarrow>
          (case transition_with (fn_seq s) next reason st of
             Inl e \<Rightarrow> (s1, Inl e)
           | Inr st' \<Rightarrow> (s1\<lparr>fn_statuses := bt_adjust batch_id (\<lambda>_. st') (fn_statuses s)\<rparr>, Inr ())))"

definition level_of :: "finality_state \<Rightarrow> guarantee_level" where
  "level_of s =
     (case s of FsProposed \<Rightarrow> Tentative | FsAttested \<Rightarrow> WeakFinality | FsQuorumReached \<Rightarrow> StrongFinality
      | FsFinalized \<Rightarrow> StrongFinality | FsRuntimeDelivered \<Rightarrow> Delivered | FsRuntimeRejected \<Rightarrow> Delivered
      | FsRecovered \<Rightarrow> RecoveryPending | FsRuntimeAcknowledged \<Rightarrow> Acknowledged | _ \<Rightarrow> Tentative)"

definition guarantee_level_of :: "finality_store \<Rightarrow> bytes32 \<Rightarrow> guarantee_level option" where
  "guarantee_level_of s batch_id = map_option (\<lambda>st. level_of (bs_current_state st)) (bt_get (fn_statuses s) batch_id)"

definition all_in_state :: "finality_store \<Rightarrow> finality_state \<Rightarrow> bytes32 list" where
  "all_in_state s state = map fst (filter (\<lambda>e. bs_current_state (snd e) = state) (fn_statuses s))"

text \<open>\<^verbatim>\<open>max_by_key\<close> keeps the last of equal maxima.\<close>

definition later_slot :: "batch_status option \<Rightarrow> batch_status \<Rightarrow> batch_status option" where
  "later_slot best st =
     (case best of None \<Rightarrow> Some st | Some b \<Rightarrow> if bs_slot st \<ge> bs_slot b then Some st else Some b)"

definition in_checkpoint :: "u64 \<Rightarrow> batch_status \<Rightarrow> bool" where
  "in_checkpoint epoch st \<longleftrightarrow> bs_epoch st = epoch \<and>
     bs_current_state st \<in> {FsFinalized, FsRuntimeDelivered, FsRuntimeAcknowledged}"

definition finality_checkpoint_of :: "extern \<Rightarrow> finality_store \<Rightarrow> u64 \<Rightarrow> finality_checkpoint option" where
  "finality_checkpoint_of X s epoch =
     (case foldl later_slot None (filter (in_checkpoint epoch) (bt_values (fn_statuses s))) of
        None \<Rightarrow> None
      | Some best \<Rightarrow> Some (checkpoint_compute X epoch (bs_batch_id best) (bs_slot best)))"

section \<open>Histories\<close>

datatype finality_op = OpInit bytes32 u64 u64 | OpMove bytes32 finality_state string

fun finality_step :: "finality_store \<Rightarrow> finality_op \<Rightarrow> finality_store \<times> (finality_error + unit)" where
  "finality_step s (OpInit b ep slot) = (init_batch b ep slot s, Inr ())"
| "finality_step s (OpMove b next reason) = finality_transition b next reason s"

text \<open>A log is a legal path from a state to another.\<close>

fun legal_path :: "finality_state \<Rightarrow> transition_record list \<Rightarrow> finality_state \<Rightarrow> bool" where
  "legal_path a [] b \<longleftrightarrow> a = b"
| "legal_path a (r # rs) b \<longleftrightarrow> fr_from r = a \<and> can_transition_to a (fr_to r) \<and> legal_path (fr_to r) rs b"

definition status_ok :: "batch_status \<Rightarrow> bool" where
  "status_ok st \<longleftrightarrow> legal_path FsProposed (bs_transitions st) (bs_current_state st)"

definition finality_ok :: "finality_store \<Rightarrow> bool" where
  "finality_ok s \<longleftrightarrow> bt_ok (fn_statuses s) \<and>
     (\<forall>b st. bt_get (fn_statuses s) b = Some st \<longrightarrow> status_ok st \<and> bs_batch_id st = b)"

definition visited :: "batch_status \<Rightarrow> finality_state set" where
  "visited st = fr_to ` set (bs_transitions st)"

section \<open>Lemmas\<close>

lemma legal_path_snoc: "legal_path a (rs @ [r]) c \<longleftrightarrow> (\<exists>b. legal_path a rs b \<and> fr_from r = b \<and> can_transition_to b (fr_to r) \<and> fr_to r = c)"
  by (induction rs arbitrary: a) auto

lemma transition_ok:
  "transition_with n next reason st = Inr st' \<Longrightarrow> status_ok st \<Longrightarrow>
     status_ok st' \<and> bs_batch_id st' = bs_batch_id st \<and> \<not> is_terminal (bs_current_state st) \<and> bs_current_state st' = next"
  by (auto simp: transition_with_def status_ok_def legal_path_snoc split: if_splits)

lemma finality_step_ok: "finality_ok s \<Longrightarrow> finality_ok (fst (finality_step s op))"
proof (cases op)
  case (OpInit b ep slot)
  assume "finality_ok s"
  then show ?thesis
    by (auto simp: OpInit init_batch_def finality_ok_def map_simps btm.ok_put status_new_def status_ok_def split: if_splits)
next
  case (OpMove b nxt reason)
  assume ok: "finality_ok s"
  show ?thesis
  proof (cases "bt_get (fn_statuses s) b")
    case (Some st)
    then have st: "status_ok st" "bs_batch_id st = b" using ok by (auto simp: finality_ok_def)
    show ?thesis
    proof (cases "transition_with (fn_seq s) nxt reason st")
      case (Inr st')
      from transition_ok [OF Inr st(1)] st(2) show ?thesis
        using ok Some Inr
        by (auto simp: OpMove finality_transition_def finality_ok_def map_simps btm.ok_adjust Let_def split: if_splits)
    qed (use ok Some in \<open>simp add: OpMove finality_transition_def finality_ok_def Let_def\<close>)
  qed (use ok in \<open>simp add: OpMove finality_transition_def finality_ok_def Let_def\<close>)
qed

text \<open>What a legal path from \<^verbatim>\<open>Proposed\<close> has passed through.\<close>

definition past_finalized :: "finality_state \<Rightarrow> bool" where
  "past_finalized s \<longleftrightarrow> s \<in> {FsFinalized, FsRuntimeDelivered, FsRuntimeAcknowledged, FsRuntimeRejected,
     FsDisputedPlaceholder, FsRecovered}"

lemma path_passed:
  "legal_path FsProposed rs s \<Longrightarrow>
     (s \<in> {FsAttested, FsQuorumReached} \<or> past_finalized s \<longrightarrow> FsAttested \<in> fr_to ` set rs) \<and>
     (s = FsQuorumReached \<or> past_finalized s \<longrightarrow> FsQuorumReached \<in> fr_to ` set rs) \<and>
     (past_finalized s \<longrightarrow> FsFinalized \<in> fr_to ` set rs) \<and>
     (s \<in> {FsRuntimeDelivered, FsRuntimeAcknowledged, FsRuntimeRejected} \<longrightarrow> FsRuntimeDelivered \<in> fr_to ` set rs)"
proof (induction rs arbitrary: s rule: rev_induct)
  case (snoc r rs)
  then obtain b where b: "legal_path FsProposed rs b" "can_transition_to b s" "fr_to r = s" by (auto simp: legal_path_snoc)
  from snoc.IH [OF b(1)] b(2) show ?case
    by (cases b) (auto simp: past_finalized_def b(3))
qed (simp add: past_finalized_def)

lemma later_slot_spec:
  "foldl later_slot best sts = Some b \<Longrightarrow>
     (b \<in> set sts \<or> best = Some b) \<and> (\<forall>st \<in> set sts. bs_slot st \<le> bs_slot b) \<and> (\<forall>st. best = Some st \<longrightarrow> bs_slot st \<le> bs_slot b)"
proof (induction sts arbitrary: best)
  case (Cons st sts)
  from Cons.IH [of "later_slot best st"] Cons.prems show ?case
    by (auto simp: later_slot_def split: option.splits if_splits)
qed simp

lemma later_slot_None: "foldl later_slot best sts = None \<longleftrightarrow> best = None \<and> sts = []"
proof (induction sts arbitrary: best)
  case (Cons st sts)
  then show ?case by (simp add: later_slot_def split: option.split)
qed simp

interpretation finality: preserving_machine finality_step "\<lambda>_. finality_ok"
  by unfold_locales (rule finality_step_ok)

fun inits :: "bytes32 \<Rightarrow> finality_op \<Rightarrow> bool" where
  "inits b (OpInit c ep slot) \<longleftrightarrow> c = b"
| "inits b _ \<longleftrightarrow> False"

text \<open>A batch that is done, with the state it ended in, while it is not initialised again.\<close>

definition ended_in :: "bytes32 \<Rightarrow> finality_state \<Rightarrow> finality_store \<Rightarrow> bool" where
  "ended_in b f s \<longleftrightarrow> is_terminal f \<and> map_option bs_current_state (bt_get (fn_statuses s) b) = Some f"

lemma ended_step: "ended_in b f s \<Longrightarrow> \<not> inits b op \<Longrightarrow> ended_in b f (fst (finality_step s op))"
  by (cases op) (auto simp: ended_in_def init_batch_def finality_transition_def transition_with_def map_simps Let_def
      split: option.splits sum.splits if_splits)

interpretation ended: preserving_machine finality_step "\<lambda>ops s. ended_in b f s \<and> \<not> list_ex (inits b) ops" for b f
  by unfold_locales (simp add: ended_step)

section \<open>Properties\<close>

text \<open>
  C13. No batch skips a stage: along every sequence of operations on a new store, the log of each batch is
  a legal path from \<^verbatim>\<open>Proposed\<close> to its current state; a batch that is finalized, delivered, acknowledged,
  rejected, disputed or recovered was attested, reached quorum and was finalized before, and one that the
  runtime acknowledged or rejected had been delivered to it.
\<close>

theorem no_batch_skips_a_stage:
  assumes "bt_get (fn_statuses (fst (run finality_step finality_store_new ops))) b = Some st"
  shows "legal_path FsProposed (bs_transitions st) (bs_current_state st) \<and>
    (past_finalized (bs_current_state st) \<longrightarrow> {FsAttested, FsQuorumReached, FsFinalized} \<subseteq> visited st) \<and>
    (bs_current_state st \<in> {FsRuntimeAcknowledged, FsRuntimeRejected} \<longrightarrow> FsRuntimeDelivered \<in> visited st)"
proof -
  have "finality_ok finality_store_new" by (simp add: finality_ok_def finality_store_new_def)
  then have "finality_ok (fst (run finality_step finality_store_new ops))"
    by (rule finality.run_inv)
  with assms have "legal_path FsProposed (bs_transitions st) (bs_current_state st)"
    by (simp add: finality_ok_def status_ok_def)
  with path_passed [OF this] show ?thesis by (auto simp: visited_def)
qed

theorem no_batch_skips_a_stage_witness:
  "\<exists>st. bt_get (fn_statuses (fst (run finality_step finality_store_new
      [OpInit 1 3 7, OpMove 1 FsAttested [], OpMove 1 FsFinalized [], OpMove 1 FsQuorumReached [], OpMove 1 FsFinalized []]))) 1 = Some st \<and>
    bs_current_state st = FsFinalized \<and> {FsAttested, FsQuorumReached, FsFinalized} \<subseteq> visited st"
proof -
  let ?ops = "[OpInit 1 3 7, OpMove 1 FsAttested [], OpMove 1 FsFinalized [], OpMove 1 FsQuorumReached [], OpMove 1 FsFinalized []]"
  obtain st where st: "bt_get (fn_statuses (fst (run finality_step finality_store_new ?ops))) 1 = Some st" "bs_current_state st = FsFinalized"
    by (simp add: run_Cons finality_store_new_def init_batch_def status_new_def finality_transition_def transition_with_def
        is_terminal_def bt_get_Cons bt_adjust_def)
  with no_batch_skips_a_stage [OF st(1)] show ?thesis by (auto simp: past_finalized_def)
qed

text \<open>
  Terminal states are final: an acknowledged, superseded or invalidated batch keeps its state along
  every sequence of operations that does not initialise it again.
\<close>

theorem terminal_states_are_final:
  assumes "is_terminal f" and "map_option bs_current_state (bt_get (fn_statuses s) b) = Some f"
    and "\<not> list_ex (inits b) ops"
  shows "map_option bs_current_state (bt_get (fn_statuses (fst (run finality_step s ops))) b) = Some f"
  using ended.run_inv [of b f s ops "[]"] assms by (simp add: ended_in_def)

theorem terminal_states_are_final_witness:
  "map_option bs_current_state (bt_get (fn_statuses (fst (run finality_step
     (finality_store_new\<lparr>fn_statuses := [(1, (status_new 1 3 7)\<lparr>bs_current_state := FsInvalidated\<rparr>)]\<rparr>)
     [OpMove 1 FsAttested [], OpInit 2 3 8]))) 1) = Some FsInvalidated"
  by (rule terminal_states_are_final) (simp_all add: is_terminal_def bt_get_Cons)

text \<open>Initialising a batch again resets it, whatever it had reached.\<close>

theorem init_batch_resets_terminal_batch:
  "map_option bs_current_state (bt_get (fn_statuses (init_batch b ep slot s)) b) = Some FsProposed"
  by (simp add: init_batch_def map_simps status_new_def)

text \<open>
  The checkpoint of an epoch is its latest finalized batch: there is one exactly when the epoch has a
  batch that is finalized, delivered or acknowledged, and then no such batch has a higher slot.
\<close>

theorem checkpoint_is_latest_finalized:
  assumes "finality_ok s"
  shows "case finality_checkpoint_of X s epoch of
     None \<Rightarrow> \<not> (\<exists>b st. bt_get (fn_statuses s) b = Some st \<and> in_checkpoint epoch st)
   | Some c \<Rightarrow> (\<exists>st. bt_get (fn_statuses s) (fc_last_finalized_batch_id c) = Some st \<and> in_checkpoint epoch st \<and>
       bs_slot st = fc_last_finalized_slot c) \<and>
       (\<forall>b st. bt_get (fn_statuses s) b = Some st \<and> in_checkpoint epoch st \<longrightarrow> bs_slot st \<le> fc_last_finalized_slot c)"
proof -
  let ?sts = "filter (in_checkpoint epoch) (bt_values (fn_statuses s))"
  have ok: "bt_ok (fn_statuses s)" and ids: "\<And>b st. bt_get (fn_statuses s) b = Some st \<Longrightarrow> bs_batch_id st = b"
    using assms by (auto simp: finality_ok_def)
  have members: "st \<in> set ?sts \<longleftrightarrow> (\<exists>b. bt_get (fn_statuses s) b = Some st) \<and> in_checkpoint epoch st" for st
    by (auto simp: bt_values_in [OF ok])
  show ?thesis
  proof (cases "foldl later_slot None ?sts")
    case None
    then have "st \<notin> set ?sts" for st by (simp add: later_slot_None)
    then have "\<not> (\<exists>b st. bt_get (fn_statuses s) b = Some st \<and> in_checkpoint epoch st)" using members by blast
    then show ?thesis using None by (simp add: finality_checkpoint_of_def)
  next
    case (Some best)
    from later_slot_spec [OF this] have best: "best \<in> set ?sts" "\<forall>st \<in> set ?sts. bs_slot st \<le> bs_slot best" by auto
    then obtain b where "bt_get (fn_statuses s) b = Some best" "in_checkpoint epoch best" using members by blast
    with ids best(2) members show ?thesis by (auto simp: finality_checkpoint_of_def Some checkpoint_compute_def)
  qed
qed

theorem checkpoint_is_latest_finalized_witness:
  "\<exists>c. finality_checkpoint_of extern_std (fst (run finality_step finality_store_new
      [OpInit 1 3 7, OpMove 1 FsAttested [], OpMove 1 FsQuorumReached [], OpMove 1 FsFinalized []])) 3 = Some c \<and>
    7 \<le> fc_last_finalized_slot c"
proof -
  let ?s = "fst (run finality_step finality_store_new
      [OpInit 1 3 7, OpMove 1 FsAttested [], OpMove 1 FsQuorumReached [], OpMove 1 FsFinalized []])"
  have "finality_ok finality_store_new" by (simp add: finality_ok_def finality_store_new_def)
  then have ok: "finality_ok ?s" by (rule finality.run_inv)
  obtain st where st: "bt_get (fn_statuses ?s) 1 = Some st" "in_checkpoint 3 st" "bs_slot st = 7"
    by (simp add: run_Cons finality_store_new_def init_batch_def status_new_def finality_transition_def transition_with_def
        is_terminal_def bt_get_Cons bt_adjust_def in_checkpoint_def)
  from checkpoint_is_latest_finalized [OF ok, where X = extern_std and epoch = 3] st(1,2)
  obtain c where "finality_checkpoint_of extern_std ?s 3 = Some c" "bs_slot st \<le> fc_last_finalized_slot c"
    by (cases "finality_checkpoint_of extern_std ?s 3") auto
  with st(3) show ?thesis by metis
qed

end
