(* ===== verification/Sequencer_Crypto.thy ===== *)
theory Sequencer_Crypto
  imports Intents
begin

text \<open>
  The sequencer's message signatures, \<^verbatim>\<open>poseq/src/crypto\<close>: \<^verbatim>\<open>signer.rs\<close> (identities, envelopes,
  Ed25519 signer and verifier), \<^verbatim>\<open>payloads.rs\<close> (the four signed payloads and their domain tags),
  \<^verbatim>\<open>node_keys.rs\<close>, \<^verbatim>\<open>verifier.rs\<close> and \<^verbatim>\<open>registry.rs\<close> (the structural registry, thresholds and the
  multi-signature aggregator). SHA-256 and Ed25519 are parameters. Shown: what a node signs verifies,
  and an accepted envelope fits one payload of one kind only.
\<close>

section \<open>Identities and envelopes\<close>

datatype phase4_error =
    P4UnknownSigner bytes32 | P4DuplicateSignature bytes32 | P4InvalidSignature bytes32
  | P4InvalidRotationConfig err_text | P4InsufficientCandidates usize usize | P4EpochNotFound u64
  | P4NodeJailed bytes32 | P4AlreadyJailed bytes32 | P4NotJailed bytes32 | P4UnjailCooldownActive u64 u64
  | P4SerializationError string | P4DeserializationError string | P4KeyNotFound string
  | P4SimulationError string | P4OffenseError string

record signer_identity =
  sg_node_id :: bytes32
  sg_public_key_bytes :: bytes32

definition identity_hash :: "extern \<Rightarrow> signer_identity \<Rightarrow> bytes32" where
  "identity_hash X i = x_sha256 X (be_bytes 32 (sg_node_id i) @ be_bytes 32 (sg_public_key_bytes i))"

record signature_envelope =
  env_payload_hash :: bytes32
  env_signature_bytes :: bytes64
  env_signer_id :: bytes32

record ed25519_signer =
  es_identity :: signer_identity
  es_seed :: bytes32

definition signer_from_seed :: "ed25519 \<Rightarrow> bytes32 \<Rightarrow> bytes32 \<Rightarrow> ed25519_signer" where
  "signer_from_seed E node_id seed =
     \<lparr>es_identity = \<lparr>sg_node_id = node_id, sg_public_key_bytes = ed_public E seed\<rparr>, es_seed = seed\<rparr>"

definition signer_sign :: "ed25519 \<Rightarrow> ed25519_signer \<Rightarrow> bytes32 \<Rightarrow> signature_envelope" where
  "signer_sign E s payload_hash =
     \<lparr>env_payload_hash = payload_hash, env_signature_bytes = ed_sign E (es_seed s) payload_hash,
      env_signer_id = sg_node_id (es_identity s)\<rparr>"

text \<open>A verifier is a public key whose bytes decode.\<close>

definition verifier_new :: "ed25519 \<Rightarrow> bytes32 \<Rightarrow> phase4_error + bytes32" where
  "verifier_new E key = (if ed_key_ok E key then Inr key else Inl (P4InvalidSignature key))"

definition verifier_verify :: "ed25519 \<Rightarrow> bytes32 \<Rightarrow> bytes32 \<Rightarrow> signature_envelope \<Rightarrow> bool" where
  "verifier_verify E key payload_hash env =
     (if env_payload_hash env \<noteq> payload_hash then False else ed_verify E key payload_hash (env_signature_bytes env))"

section \<open>Payloads\<close>

text \<open>The domain tags are padded with zero bytes to 32.\<close>

definition domain_tag :: "string \<Rightarrow> bytes" where
  "domain_tag s = string_bytes s @ replicate (32 - length s) 0"

record proposal_payload =
  pp_leader_id :: bytes32
  pp_slot :: u64
  pp_epoch :: u64
  pp_batch_root :: bytes32
  pp_submission_count :: u32

definition proposal_input :: "proposal_payload \<Rightarrow> bytes" where
  "proposal_input p = domain_tag ''POSEQ_PROPOSAL_V1'' @ be_bytes 32 (pp_leader_id p) @ be_bytes 8 (pp_slot p)
     @ be_bytes 8 (pp_epoch p) @ be_bytes 32 (pp_batch_root p) @ be_bytes 4 (pp_submission_count p)"

record attestation_payload =
  ap_attestor_id :: bytes32
  ap_slot :: u64
  ap_epoch :: u64
  ap_batch_id :: bytes32
  ap_vote_accept :: bool

definition bool_byte :: "bool \<Rightarrow> u8" where
  "bool_byte b = (if b then 1 else 0)"

definition attestation_input :: "attestation_payload \<Rightarrow> bytes" where
  "attestation_input p = domain_tag ''POSEQ_ATTEST_V1'' @ be_bytes 32 (ap_attestor_id p) @ be_bytes 8 (ap_slot p)
     @ be_bytes 8 (ap_epoch p) @ be_bytes 32 (ap_batch_id p) @ [bool_byte (ap_vote_accept p)]"

record evidence_payload =
  vp_reporter_id :: bytes32
  vp_accused_id :: bytes32
  vp_slot_a :: u64
  vp_epoch_a :: u64
  vp_batch_id_a :: bytes32
  vp_slot_b :: u64
  vp_epoch_b :: u64
  vp_batch_id_b :: bytes32

definition evidence_input :: "evidence_payload \<Rightarrow> bytes" where
  "evidence_input p = domain_tag ''POSEQ_EVIDENCE_V1'' @ be_bytes 32 (vp_reporter_id p) @ be_bytes 32 (vp_accused_id p)
     @ be_bytes 8 (vp_slot_a p) @ be_bytes 8 (vp_epoch_a p) @ be_bytes 32 (vp_batch_id_a p)
     @ be_bytes 8 (vp_slot_b p) @ be_bytes 8 (vp_epoch_b p) @ be_bytes 32 (vp_batch_id_b p)"

record finalized_payload =
  fp_finalizer_id :: bytes32
  fp_slot :: u64
  fp_epoch :: u64
  fp_batch_id :: bytes32
  fp_finalization_hash :: bytes32

definition finalized_input :: "finalized_payload \<Rightarrow> bytes" where
  "finalized_input p = domain_tag ''POSEQ_FINALIZED_V1'' @ be_bytes 32 (fp_finalizer_id p) @ be_bytes 8 (fp_slot p)
     @ be_bytes 8 (fp_epoch p) @ be_bytes 32 (fp_batch_id p) @ be_bytes 32 (fp_finalization_hash p)"

text \<open>The four payload types, with who must have signed and \<^verbatim>\<open>to_payload_hash\<close>.\<close>

datatype signed_payload =
    ProposalMsg proposal_payload | AttestationMsg attestation_payload | EvidenceMsg evidence_payload
  | FinalizedMsg finalized_payload

fun payload_input :: "signed_payload \<Rightarrow> bytes" where
  "payload_input (ProposalMsg p) = proposal_input p"
| "payload_input (AttestationMsg p) = attestation_input p"
| "payload_input (EvidenceMsg p) = evidence_input p"
| "payload_input (FinalizedMsg p) = finalized_input p"

fun payload_signer :: "signed_payload \<Rightarrow> bytes32" where
  "payload_signer (ProposalMsg p) = pp_leader_id p"
| "payload_signer (AttestationMsg p) = ap_attestor_id p"
| "payload_signer (EvidenceMsg p) = vp_reporter_id p"
| "payload_signer (FinalizedMsg p) = fp_finalizer_id p"

definition to_payload_hash :: "extern \<Rightarrow> signed_payload \<Rightarrow> bytes32" where
  "to_payload_hash X p = x_sha256 X (payload_input p)"

section \<open>Node keys\<close>

record node_key_pair =
  nk_node_id :: bytes32
  nk_public_key_bytes :: bytes32
  nk_signer :: ed25519_signer

definition key_pair_from_seed :: "ed25519 \<Rightarrow> bytes32 \<Rightarrow> bytes32 \<Rightarrow> node_key_pair" where
  "key_pair_from_seed E node_id seed =
     (let s = signer_from_seed E node_id seed
      in \<lparr>nk_node_id = node_id, nk_public_key_bytes = sg_public_key_bytes (es_identity s), nk_signer = s\<rparr>)"

definition sign_payload :: "extern \<Rightarrow> ed25519 \<Rightarrow> node_key_pair \<Rightarrow> signed_payload \<Rightarrow> signature_envelope" where
  "sign_payload X E k p = signer_sign E (nk_signer k) (to_payload_hash X p)"

section \<open>The verifier\<close>

datatype verification_error =
    VUnknownSigner bytes32 | SignatureMismatch | PayloadMismatch | StaleEpoch u64 u64 | WrongSigner bytes32 bytes32

type_synonym poseq_verifier = "(bytes32, bytes32) btree"

definition verifier_register ::
  "ed25519 \<Rightarrow> bytes32 \<Rightarrow> bytes32 \<Rightarrow> poseq_verifier \<Rightarrow> poseq_verifier \<times> (phase4_error + unit)" where
  "verifier_register E node_id key v =
     (case verifier_new E key of Inl e \<Rightarrow> (v, Inl e) | Inr k \<Rightarrow> (bt_put node_id k v, Inr ()))"

definition get_verifier :: "poseq_verifier \<Rightarrow> bytes32 \<Rightarrow> verification_error + bytes32" where
  "get_verifier v node_id = (case bt_get v node_id of None \<Rightarrow> Inl (VUnknownSigner node_id) | Some k \<Rightarrow> Inr k)"

definition check_sig ::
  "ed25519 \<Rightarrow> poseq_verifier \<Rightarrow> bytes32 \<Rightarrow> bytes32 \<Rightarrow> signature_envelope \<Rightarrow> verification_error + unit" where
  "check_sig E v signer_id payload_hash env =
     (case get_verifier v signer_id of
        Inl e \<Rightarrow> Inl e
      | Inr k \<Rightarrow>
          if env_payload_hash env \<noteq> payload_hash then Inl PayloadMismatch
          else if \<not> verifier_verify E k payload_hash env then Inl SignatureMismatch
          else Inr ())"

text \<open>
  \<^verbatim>\<open>verify_proposal\<close>, \<^verbatim>\<open>verify_attestation\<close>, \<^verbatim>\<open>verify_evidence\<close> and \<^verbatim>\<open>verify_finalized\<close> share one body.
\<close>

definition verify_payload ::
  "extern \<Rightarrow> ed25519 \<Rightarrow> poseq_verifier \<Rightarrow> signed_payload \<Rightarrow> signature_envelope \<Rightarrow> verification_error + unit" where
  "verify_payload X E v p env =
     (if env_signer_id env \<noteq> payload_signer p then Inl (WrongSigner (payload_signer p) (env_signer_id env))
      else check_sig E v (env_signer_id env) (to_payload_hash X p) env)"

section \<open>The structural registry and the aggregator\<close>

type_synonym signature_registry = "(bytes32, bytes32) btree"

definition signature_register :: "signer_identity \<Rightarrow> signature_registry \<Rightarrow> signature_registry" where
  "signature_register i r = bt_put (sg_node_id i) (sg_public_key_bytes i) r"

definition signature_deregister :: "bytes32 \<Rightarrow> signature_registry \<Rightarrow> signature_registry" where
  "signature_deregister node_id r = bt_del node_id r"

definition verify_envelope :: "signature_registry \<Rightarrow> signature_envelope \<Rightarrow> phase4_error + bool" where
  "verify_envelope r env =
     (case bt_get r (env_signer_id env) of
        None \<Rightarrow> Inl (P4UnknownSigner (env_signer_id env))
      | Some pk \<Rightarrow>
          if env_payload_hash env = 0 then Inr False
          else if env_signature_bytes env = 0 then Inr False
          else Inr True)"

record multisig_threshold =
  ms_min_count :: usize
  ms_min_stake_bps :: u64

definition ms_two_thirds :: "usize \<Rightarrow> multisig_threshold" where
  "ms_two_thirds total_count = \<lparr>ms_min_count = (total_count * 2 + 2) div 3, ms_min_stake_bps = 6667\<rparr>"

definition ms_majority :: "usize \<Rightarrow> multisig_threshold" where
  "ms_majority total_count = \<lparr>ms_min_count = total_count div 2 + 1, ms_min_stake_bps = 5001\<rparr>"

definition meets_count :: "multisig_threshold \<Rightarrow> usize \<Rightarrow> bool" where
  "meets_count t n \<longleftrightarrow> n \<ge> ms_min_count t"

text \<open>\<^verbatim>\<open>sum\<close> wraps; the comparison saturates.\<close>

definition meets_stake :: "multisig_threshold \<Rightarrow> bytes32 list \<Rightarrow> (bytes32, u64) btree \<Rightarrow> u64 \<Rightarrow> bool" where
  "meets_stake t signers weights total_stake =
     (if total_stake = 0 then False
      else sat_mul (sum_list (List.map_filter (bt_get weights) signers)) 10000 \<ge> sat_mul (ms_min_stake_bps t) total_stake)"

definition meets_both :: "multisig_threshold \<Rightarrow> bytes32 list \<Rightarrow> (bytes32, u64) btree \<Rightarrow> u64 \<Rightarrow> bool" where
  "meets_both t signers weights total_stake \<longleftrightarrow> meets_count t (length signers) \<and> meets_stake t signers weights total_stake"

record multisig_aggregator =
  ma_threshold :: multisig_threshold
  ma_collected :: "(bytes32, signature_envelope) btree"
  ma_registry :: signature_registry

definition add_envelope :: "signature_envelope \<Rightarrow> multisig_aggregator \<Rightarrow> multisig_aggregator \<times> (phase4_error + unit)" where
  "add_envelope env a =
     (let node_id = env_signer_id env in
      if bt_get (ma_registry a) node_id = None then (a, Inl (P4UnknownSigner node_id))
      else if bt_has (ma_collected a) node_id then (a, Inl (P4DuplicateSignature node_id))
      else (case verify_envelope (ma_registry a) env of
              Inl e \<Rightarrow> (a, Inl e)
            | Inr _ \<Rightarrow> (a\<lparr>ma_collected := bt_put node_id env (ma_collected a)\<rparr>, Inr ())))"

definition count_threshold_met :: "multisig_aggregator \<Rightarrow> bool" where
  "count_threshold_met a = meets_count (ma_threshold a) (length (ma_collected a))"

definition stake_threshold_met :: "multisig_aggregator \<Rightarrow> (bytes32, u64) btree \<Rightarrow> u64 \<Rightarrow> bool" where
  "stake_threshold_met a weights total_stake =
     meets_stake (ma_threshold a) (bt_keys (ma_collected a)) weights total_stake"

definition compute_multisig_hash :: "extern \<Rightarrow> (bytes32, signature_envelope) btree \<Rightarrow> bytes32" where
  "compute_multisig_hash X envs = x_sha256 X (concat (map (\<lambda>(i, env).
     be_bytes 32 i @ be_bytes 64 (env_signature_bytes env) @ be_bytes 32 (env_payload_hash env)) envs))"

section \<open>Lemmas\<close>

lemma length_domain_tag: "length s \<le> 32 \<Longrightarrow> length (domain_tag s) = 32"
  by (simp add: domain_tag_def string_bytes_def)

lemma bool_byte_inject [simp]: "bool_byte a = bool_byte b \<longleftrightarrow> a = b"
  by (simp add: bool_byte_def)

lemma tags_differ:
  "domain_tag ''POSEQ_PROPOSAL_V1'' \<noteq> domain_tag ''POSEQ_ATTEST_V1''"
  "domain_tag ''POSEQ_PROPOSAL_V1'' \<noteq> domain_tag ''POSEQ_EVIDENCE_V1''"
  "domain_tag ''POSEQ_PROPOSAL_V1'' \<noteq> domain_tag ''POSEQ_FINALIZED_V1''"
  "domain_tag ''POSEQ_ATTEST_V1'' \<noteq> domain_tag ''POSEQ_EVIDENCE_V1''"
  "domain_tag ''POSEQ_ATTEST_V1'' \<noteq> domain_tag ''POSEQ_FINALIZED_V1''"
  "domain_tag ''POSEQ_EVIDENCE_V1'' \<noteq> domain_tag ''POSEQ_FINALIZED_V1''"
  by (simp_all add: domain_tag_def string_bytes_def)

text \<open>The hashed string determines the payload and its type.\<close>

lemma payload_input_inject: "payload_input p = payload_input q \<longleftrightarrow> p = q"
proof
  assume eq: "payload_input p = payload_input q"
  have tag: "take 32 (payload_input r) = (case r of ProposalMsg _ \<Rightarrow> domain_tag ''POSEQ_PROPOSAL_V1''
      | AttestationMsg _ \<Rightarrow> domain_tag ''POSEQ_ATTEST_V1'' | EvidenceMsg _ \<Rightarrow> domain_tag ''POSEQ_EVIDENCE_V1''
      | FinalizedMsg _ \<Rightarrow> domain_tag ''POSEQ_FINALIZED_V1'')" for r
    by (cases r) (simp_all add: proposal_input_def attestation_input_def evidence_input_def finalized_input_def length_domain_tag)
  from eq have "take 32 (payload_input p) = take 32 (payload_input q)" by simp
  note same = this [unfolded tag]
  show "p = q"
  proof (cases p)
    case (ProposalMsg x)
    with same obtain y where "q = ProposalMsg y" by (cases q) (simp_all add: tags_differ)
    with ProposalMsg eq show ?thesis by (simp add: proposal_input_def)
  next
    case (AttestationMsg x)
    with same obtain y where "q = AttestationMsg y" by (cases q) (simp_all add: tags_differ tags_differ [symmetric])
    with AttestationMsg eq show ?thesis by (simp add: attestation_input_def)
  next
    case (EvidenceMsg x)
    with same obtain y where "q = EvidenceMsg y" by (cases q) (simp_all add: tags_differ tags_differ [symmetric])
    with EvidenceMsg eq show ?thesis by (simp add: evidence_input_def)
  next
    case (FinalizedMsg x)
    with same obtain y where "q = FinalizedMsg y" by (cases q) (simp_all add: tags_differ tags_differ [symmetric])
    with FinalizedMsg eq show ?thesis by (simp add: finalized_input_def)
  qed
qed simp

lemma verify_payload_ok:
  "verify_payload X E v p env = Inr () \<longleftrightarrow> env_signer_id env = payload_signer p \<and> env_payload_hash env = to_payload_hash X p \<and>
     (\<exists>k. bt_get v (payload_signer p) = Some k \<and> ed_verify E k (to_payload_hash X p) (env_signature_bytes env))"
  by (auto simp: verify_payload_def check_sig_def get_verifier_def verifier_verify_def split: option.split)

section \<open>Properties\<close>

text \<open>
  Signing and verifying agree: a payload signed by the node whose identity it names verifies
  under the registered key, every registration of a derived key succeeds, and an envelope that verifies
  for two payloads, of whatever kinds, verifies for one and the same payload, unless the two hashed
  strings are a collision of SHA-256; the domain tags keep the four kinds of message apart.
\<close>

theorem signed_payloads_verify_and_bind:
  assumes "ed25519_ok E"
  shows "(payload_signer p = node_id \<longrightarrow>
      verify_payload X E (fst (verifier_register E node_id (nk_public_key_bytes (key_pair_from_seed E node_id seed)) v)) p
        (sign_payload X E (key_pair_from_seed E node_id seed) p) = Inr ()) \<and>
    (verify_payload X E v p env = Inr () \<and> verify_payload X E v q env = Inr () \<and>
      inj_on (x_sha256 X) {payload_input p, payload_input q} \<longrightarrow> p = q)"
proof (intro conjI impI)
  assume "payload_signer p = node_id"
  then show "verify_payload X E (fst (verifier_register E node_id (nk_public_key_bytes (key_pair_from_seed E node_id seed)) v)) p
      (sign_payload X E (key_pair_from_seed E node_id seed) p) = Inr ()"
    using assms
    by (simp add: verify_payload_ok verifier_register_def verifier_new_def key_pair_from_seed_def signer_from_seed_def
        sign_payload_def signer_sign_def ed25519_ok_def map_simps)
next
  assume a: "verify_payload X E v p env = Inr () \<and> verify_payload X E v q env = Inr () \<and>
      inj_on (x_sha256 X) {payload_input p, payload_input q}"
  then have "env_payload_hash env = x_sha256 X (payload_input p)" "env_payload_hash env = x_sha256 X (payload_input q)"
    unfolding verify_payload_ok to_payload_hash_def by blast+
  then have "x_sha256 X (payload_input p) = x_sha256 X (payload_input q)" by simp
  with a have "payload_input p = payload_input q" by (auto dest: inj_onD)
  then show "p = q" by (simp only: payload_input_inject)
qed

definition sample_vote_msg :: signed_payload where
  "sample_vote_msg = AttestationMsg \<lparr>ap_attestor_id = 3, ap_slot = 10, ap_epoch = 2, ap_batch_id = 42, ap_vote_accept = True\<rparr>"

theorem signed_payloads_verify_and_bind_witness:
  "verify_payload extern_std ed25519_std (fst (verifier_register ed25519_std 3
     (nk_public_key_bytes (key_pair_from_seed ed25519_std 3 99)) [])) sample_vote_msg
     (sign_payload extern_std ed25519_std (key_pair_from_seed ed25519_std 3 99) sample_vote_msg) = Inr ()"
  using signed_payloads_verify_and_bind [OF ed25519_std_ok, of sample_vote_msg 3 extern_std 99 "[]"]
  by (simp add: sample_vote_msg_def)

text \<open>
  The aggregator drops the verdict of \<^verbatim>\<open>verify_envelope\<close>: an envelope whose signature is all zeros is
  collected and counts towards the threshold.
\<close>

theorem aggregator_counts_zero_signatures:
  assumes "bt_get (ma_registry a) (env_signer_id env) = Some k" and "bt_get (ma_collected a) (env_signer_id env) = None"
    and "env_signature_bytes env = 0"
  shows "verify_envelope (ma_registry a) env = Inr False \<and> snd (add_envelope env a) = Inr () \<and>
    bt_get (ma_collected (fst (add_envelope env a))) (env_signer_id env) = Some env"
  using assms by (simp add: add_envelope_def verify_envelope_def Let_def bt_has_def map_simps)

end
