(* ===== verification/Attestation.thy ===== *)
theory Attestation
  imports Sequencer_Crypto HotStuff_Types
begin

text \<open>
  From a proposed to a finalized batch: \<^verbatim>\<open>poseq/src/proposals/batch.rs\<close> (proposals and their states),
  \<^verbatim>\<open>attestations/collector.rs\<close> (votes, conflicts, the quorum check) and \<^verbatim>\<open>finalization/engine.rs\<close>
  (the decision, one batch per slot). Shown: no slot or proposal is finalized twice, a finalized batch
  has a quorum of distinct committee members and no recorded conflict, and two finalized batches share
  an honest approver.
\<close>

section \<open>Proposals\<close>

datatype proposal_state = PsPending | PsCollecting | PsAttested | PsFinalized | PsExpired | PsConflicted

record proposal_header =
  ph_proposal_id :: bytes32
  ph_slot :: u64
  ph_epoch :: u64
  ph_leader_id :: bytes32
  ph_batch_root :: bytes32
  ph_parent_batch_id :: bytes32
  ph_policy_version :: u32

record proposed_batch =
  pb_proposal_id :: bytes32
  pb_slot :: u64
  pb_epoch :: u64
  pb_leader_id :: bytes32
  pb_ordered_submission_ids :: "bytes32 list"
  pb_batch_root :: bytes32
  pb_parent_batch_id :: bytes32
  pb_policy_version :: u32
  pb_created_at_height :: u64
  pb_state :: proposal_state
  pb_metadata :: "(string, string) btree"

definition compute_root :: "extern \<Rightarrow> bytes32 list \<Rightarrow> bytes32" where
  "compute_root X ids = x_sha256 X (concat (map (be_bytes 32) ids))"

definition compute_set_root :: "extern \<Rightarrow> bytes32 list \<Rightarrow> bytes32" where
  "compute_set_root X ids = x_sha256 X (concat (map (be_bytes 32) (sort ids)))"

definition proposal_compute_id :: "extern \<Rightarrow> proposal_header \<Rightarrow> bytes32" where
  "proposal_compute_id X h =
     x_sha256 X (be_bytes 8 (ph_slot h) @ be_bytes 8 (ph_epoch h) @ be_bytes 32 (ph_leader_id h)
       @ be_bytes 32 (ph_batch_root h) @ be_bytes 32 (ph_parent_batch_id h) @ be_bytes 4 (ph_policy_version h))"

definition proposed_new ::
  "extern \<Rightarrow> u64 \<Rightarrow> u64 \<Rightarrow> bytes32 \<Rightarrow> bytes32 list \<Rightarrow> bytes32 \<Rightarrow> u32 \<Rightarrow> u64 \<Rightarrow> proposed_batch" where
  "proposed_new X slot epoch leader ids parent policy height =
     (let root = compute_root X ids;
          h = \<lparr>ph_proposal_id = 0, ph_slot = slot, ph_epoch = epoch, ph_leader_id = leader, ph_batch_root = root,
               ph_parent_batch_id = parent, ph_policy_version = policy\<rparr>
      in \<lparr>pb_proposal_id = proposal_compute_id X h, pb_slot = slot, pb_epoch = epoch, pb_leader_id = leader,
          pb_ordered_submission_ids = ids, pb_batch_root = root, pb_parent_batch_id = parent, pb_policy_version = policy,
          pb_created_at_height = height, pb_state = PsPending, pb_metadata = []\<rparr>)"

text \<open>The state changes: allowed from the listed states only.\<close>

definition move_from :: "proposal_state list \<Rightarrow> proposal_state \<Rightarrow> proposed_batch \<Rightarrow> proposed_batch \<times> bool" where
  "move_from from_states st b =
     (if pb_state b \<in> set from_states then (b\<lparr>pb_state := st\<rparr>, True) else (b, False))"

definition start_collecting :: "proposed_batch \<Rightarrow> proposed_batch \<times> bool" where
  "start_collecting = move_from [PsPending] PsCollecting"

definition mark_attested :: "proposed_batch \<Rightarrow> proposed_batch \<times> bool" where
  "mark_attested = move_from [PsCollecting] PsAttested"

definition mark_finalized :: "proposed_batch \<Rightarrow> proposed_batch \<times> bool" where
  "mark_finalized = move_from [PsAttested, PsCollecting] PsFinalized"

definition mark_expired :: "proposed_batch \<Rightarrow> proposed_batch \<times> bool" where
  "mark_expired = move_from [PsPending, PsCollecting] PsExpired"

definition mark_conflicted :: "proposed_batch \<Rightarrow> proposed_batch \<times> bool" where
  "mark_conflicted = move_from [PsPending, PsCollecting, PsAttested] PsConflicted"

definition proposal_header_of :: "proposed_batch \<Rightarrow> proposal_header" where
  "proposal_header_of b =
     \<lparr>ph_proposal_id = pb_proposal_id b, ph_slot = pb_slot b, ph_epoch = pb_epoch b, ph_leader_id = pb_leader_id b,
      ph_batch_root = pb_batch_root b, ph_parent_batch_id = pb_parent_batch_id b, ph_policy_version = pb_policy_version b\<rparr>"

record batch_proposal =
  bl_header :: proposal_header
  bl_ordered_submission_ids :: "bytes32 list"
  bl_created_at_height :: u64
  bl_leader_signature :: "signature_envelope option"

definition from_proposed :: "proposed_batch \<Rightarrow> batch_proposal" where
  "from_proposed b =
     \<lparr>bl_header = proposal_header_of b, bl_ordered_submission_ids = pb_ordered_submission_ids b,
      bl_created_at_height = pb_created_at_height b, bl_leader_signature = None\<rparr>"

definition proposal_payload_of :: "batch_proposal \<Rightarrow> bytes32 \<Rightarrow> bytes32 \<Rightarrow> signed_payload" where
  "proposal_payload_of p leader root =
     ProposalMsg \<lparr>pp_leader_id = leader, pp_slot = ph_slot (bl_header p), pp_epoch = ph_epoch (bl_header p),
       pp_batch_root = root, pp_submission_count = of_nat (length (bl_ordered_submission_ids p))\<rparr>"

definition proposal_sign :: "extern \<Rightarrow> ed25519 \<Rightarrow> node_key_pair \<Rightarrow> bytes32 \<Rightarrow> batch_proposal \<Rightarrow> batch_proposal" where
  "proposal_sign X E key root p =
     p\<lparr>bl_leader_signature := Some (sign_payload X E key (proposal_payload_of p (nk_node_id key) root))\<rparr>"

definition proposal_verify_signature ::
  "extern \<Rightarrow> ed25519 \<Rightarrow> poseq_verifier \<Rightarrow> bytes32 \<Rightarrow> batch_proposal \<Rightarrow> verification_error + unit" where
  "proposal_verify_signature X E v root p =
     (case bl_leader_signature p of
        None \<Rightarrow> Inr ()
      | Some env \<Rightarrow> verify_payload X E v (proposal_payload_of p (env_signer_id env) root) env)"

section \<open>Votes\<close>

record attestation_vote =
  av_vote_id :: bytes32
  av_proposal_id :: bytes32
  av_attestor_id :: bytes32
  av_approved :: bool
  av_vote_hash :: bytes32
  av_epoch :: u64
  av_signature :: "signature_envelope option"

definition compute_vote_hash :: "extern \<Rightarrow> bytes32 \<Rightarrow> bytes32 \<Rightarrow> bool \<Rightarrow> u64 \<Rightarrow> bytes32" where
  "compute_vote_hash X proposal attestor approved epoch =
     x_sha256 X (be_bytes 32 proposal @ be_bytes 32 attestor @ [bool_byte approved] @ be_bytes 8 epoch)"

definition vote_new :: "extern \<Rightarrow> bytes32 \<Rightarrow> bytes32 \<Rightarrow> bool \<Rightarrow> u64 \<Rightarrow> attestation_vote" where
  "vote_new X proposal attestor approved epoch =
     (let h = compute_vote_hash X proposal attestor approved epoch
      in \<lparr>av_vote_id = h, av_proposal_id = proposal, av_attestor_id = attestor, av_approved = approved,
          av_vote_hash = h, av_epoch = epoch, av_signature = None\<rparr>)"

definition vote_payload :: "attestation_vote \<Rightarrow> u64 \<Rightarrow> bytes32 \<Rightarrow> signed_payload" where
  "vote_payload v slot batch_id =
     AttestationMsg \<lparr>ap_attestor_id = av_attestor_id v, ap_slot = slot, ap_epoch = av_epoch v, ap_batch_id = batch_id,
       ap_vote_accept = av_approved v\<rparr>"

definition vote_new_signed ::
  "extern \<Rightarrow> ed25519 \<Rightarrow> bytes32 \<Rightarrow> bytes32 \<Rightarrow> bool \<Rightarrow> u64 \<Rightarrow> u64 \<Rightarrow> bytes32 \<Rightarrow> node_key_pair \<Rightarrow> attestation_vote" where
  "vote_new_signed X E proposal attestor approved epoch slot batch_id key =
     (let v = vote_new X proposal attestor approved epoch
      in v\<lparr>av_signature := Some (sign_payload X E key (vote_payload v slot batch_id))\<rparr>)"

record conflict_record =
  cf_attestor_id :: bytes32
  cf_first_vote_id :: bytes32
  cf_second_vote_id :: bytes32
  cf_conflict_type :: string

record attestation_threshold =
  at_min_approvals :: usize
  at_min_fraction_bps :: u32

definition at_two_thirds :: "usize \<Rightarrow> attestation_threshold" where
  "at_two_thirds n = \<lparr>at_min_approvals = (n * 2 + 2) div 3, at_min_fraction_bps = 6667\<rparr>"

record quorum_result =
  qr_reached :: bool
  qr_approvals :: usize
  qr_rejections :: usize
  qr_total_votes :: usize
  qr_quorum_hash :: bytes32

definition quorum_compute_hash :: "extern \<Rightarrow> bytes32 \<Rightarrow> usize \<Rightarrow> usize \<Rightarrow> usize \<Rightarrow> bytes32" where
  "quorum_compute_hash X proposal approvals rejections votes =
     x_sha256 X (be_bytes 32 proposal @ be_bytes 8 (of_nat approvals :: u64) @ be_bytes 8 (of_nat rejections :: u64)
       @ be_bytes 8 (of_nat votes :: u64))"

record attestation_collector =
  ac_proposal_id :: bytes32
  ac_votes :: "(bytes32, attestation_vote) btree"
  ac_conflicts :: "conflict_record list"

definition collector_new :: "bytes32 \<Rightarrow> attestation_collector" where
  "collector_new proposal = \<lparr>ac_proposal_id = proposal, ac_votes = [], ac_conflicts = []\<rparr>"

definition push_conflict ::
  "attestation_vote \<Rightarrow> bytes32 \<Rightarrow> string \<Rightarrow> attestation_collector \<Rightarrow> attestation_collector \<times> (conflict_record + bool)" where
  "push_conflict v first kind c =
     (let r = \<lparr>cf_attestor_id = av_attestor_id v, cf_first_vote_id = first, cf_second_vote_id = av_vote_id v,
               cf_conflict_type = kind\<rparr>
      in (c\<lparr>ac_conflicts := ac_conflicts c @ [r]\<rparr>, Inl r))"

definition add_vote :: "attestation_vote \<Rightarrow> attestation_collector \<Rightarrow> attestation_collector \<times> (conflict_record + bool)" where
  "add_vote v c =
     (case bt_get (ac_votes c) (av_attestor_id v) of
        Some existing \<Rightarrow>
          if av_approved existing = av_approved v then (c, Inr False)
          else push_conflict v (av_vote_id existing) ''ApprovalFlip'' c
      | None \<Rightarrow> (c\<lparr>ac_votes := bt_put (av_attestor_id v) v (ac_votes c)\<rparr>, Inr True))"

definition add_vote_from_committee ::
  "attestation_vote \<Rightarrow> bytes32 set \<Rightarrow> attestation_collector \<Rightarrow> attestation_collector \<times> (conflict_record + bool)" where
  "add_vote_from_committee v committee c =
     (if av_attestor_id v \<notin> committee then push_conflict v 0 ''NonCommitteeMember'' c else add_vote v c)"

definition add_verified_vote ::
  "extern \<Rightarrow> ed25519 \<Rightarrow> attestation_vote \<Rightarrow> bytes32 set \<Rightarrow> poseq_verifier \<Rightarrow> u64 \<Rightarrow> bytes32 \<Rightarrow> attestation_collector
     \<Rightarrow> attestation_collector \<times> (conflict_record + bool)" where
  "add_verified_vote X E v committee verifier slot batch_id c =
     (if av_attestor_id v \<notin> committee then push_conflict v 0 ''NonCommitteeMember'' c
      else if (case av_signature v of None \<Rightarrow> False
               | Some env \<Rightarrow> isl (verify_payload X E verifier (vote_payload v slot batch_id) env))
      then push_conflict v 0 ''InvalidSignature'' c
      else add_vote v c)"

definition approving :: "attestation_collector \<Rightarrow> attestation_vote list" where
  "approving c = filter av_approved (bt_values (ac_votes c))"

definition check_quorum :: "extern \<Rightarrow> attestation_threshold \<Rightarrow> usize \<Rightarrow> attestation_collector \<Rightarrow> quorum_result" where
  "check_quorum X t committee_size c =
     (let approvals = length (approving c);
          rejections = length (filter (\<lambda>v. \<not> av_approved v) (bt_values (ac_votes c)));
          votes = length (ac_votes c);
          fraction_ok = (if committee_size = 0 then False
            else (of_nat approvals :: u64) * 10000 \<ge> ucast (at_min_fraction_bps t) * of_nat committee_size);
          count_ok = approvals \<ge> at_min_approvals t
      in \<lparr>qr_reached = (fraction_ok \<and> count_ok), qr_approvals = approvals, qr_rejections = rejections,
          qr_total_votes = votes, qr_quorum_hash = quorum_compute_hash X (ac_proposal_id c) approvals rejections votes\<rparr>)"

definition has_conflicts :: "attestation_collector \<Rightarrow> bool" where
  "has_conflicts c \<longleftrightarrow> ac_conflicts c \<noteq> []"

section \<open>Finalization\<close>

record finalized_batch =
  fb_batch_id :: bytes32
  fb_proposal_id :: bytes32
  fb_slot :: u64
  fb_epoch :: u64
  fb_leader_id :: bytes32
  fb_ordered_submission_ids :: "bytes32 list"
  fb_batch_root :: bytes32
  fb_parent_batch_id :: bytes32
  fb_finalized_at_height :: u64
  fb_quorum_summary :: quorum_result
  fb_finalization_hash :: bytes32

definition compute_finalization_hash ::
  "extern \<Rightarrow> bytes32 \<Rightarrow> u64 \<Rightarrow> u64 \<Rightarrow> bytes32 \<Rightarrow> bytes32 \<Rightarrow> bytes32 \<Rightarrow> u64 \<Rightarrow> bytes32 \<Rightarrow> bytes32" where
  "compute_finalization_hash X proposal slot epoch leader root parent height quorum =
     x_sha256 X (be_bytes 32 proposal @ be_bytes 8 slot @ be_bytes 8 epoch @ be_bytes 32 leader @ be_bytes 32 root
       @ be_bytes 32 parent @ be_bytes 8 height @ be_bytes 32 quorum)"

datatype finalization_decision =
    DFinalized finalized_batch | InsufficientAttestations | ConflictDetected usize | AlreadyFinalized
  | SlotAlreadyFinalized u64 u64 bytes32

record finalization_engine =
  fe_finalized_proposals :: "bytes32 set"
  fe_finalized_slots :: "(u64 \<times> u64, bytes32) btree"

definition finalization_engine_new :: finalization_engine where
  "finalization_engine_new = \<lparr>fe_finalized_proposals = {}, fe_finalized_slots = []\<rparr>"

definition finalize ::
  "extern \<Rightarrow> proposed_batch \<Rightarrow> attestation_collector \<Rightarrow> attestation_threshold \<Rightarrow> usize \<Rightarrow> u64 \<Rightarrow> finalization_engine
     \<Rightarrow> finalization_engine \<times> finalization_decision" where
  "finalize X p c t committee_size height e =
     (let slot_key = (pb_slot p, pb_epoch p); quorum = check_quorum X t committee_size c in
      if pb_proposal_id p \<in> fe_finalized_proposals e then (e, AlreadyFinalized)
      else case bt_get (fe_finalized_slots e) slot_key of
        Some existing \<Rightarrow> (e, SlotAlreadyFinalized (pb_slot p) (pb_epoch p) existing)
      | None \<Rightarrow>
          if has_conflicts c then (e, ConflictDetected (length (ac_conflicts c)))
          else if \<not> qr_reached quorum then (e, InsufficientAttestations)
          else
            (let h = compute_finalization_hash X (pb_proposal_id p) (pb_slot p) (pb_epoch p) (pb_leader_id p)
                       (pb_batch_root p) (pb_parent_batch_id p) height (qr_quorum_hash quorum);
                 b = \<lparr>fb_batch_id = h, fb_proposal_id = pb_proposal_id p, fb_slot = pb_slot p, fb_epoch = pb_epoch p,
                      fb_leader_id = pb_leader_id p, fb_ordered_submission_ids = pb_ordered_submission_ids p,
                      fb_batch_root = pb_batch_root p, fb_parent_batch_id = pb_parent_batch_id p,
                      fb_finalized_at_height = height, fb_quorum_summary = quorum, fb_finalization_hash = h\<rparr>
             in (e\<lparr>fe_finalized_proposals := insert (pb_proposal_id p) (fe_finalized_proposals e),
                   fe_finalized_slots := bt_put slot_key (pb_proposal_id p) (fe_finalized_slots e)\<rparr>,
                 DFinalized b)))"

section \<open>Runs\<close>

text \<open>A call of \<^verbatim>\<open>finalize\<close> with its arguments, and the slot a call finalized.\<close>

type_synonym finalize_call = "proposed_batch \<times> attestation_collector \<times> attestation_threshold \<times> usize \<times> u64"

fun finalize_step :: "extern \<Rightarrow> finalization_engine \<Rightarrow> finalize_call \<Rightarrow> finalization_engine \<times> finalization_decision" where
  "finalize_step X e (p, c, t, n, h) = finalize X p c t n h e"

fun decided_slot :: "finalization_decision \<Rightarrow> (u64 \<times> u64) list" where
  "decided_slot (DFinalized b) = [(fb_slot b, fb_epoch b)]"
| "decided_slot _ = []"

fun decided_proposal :: "finalization_decision \<Rightarrow> bytes32 list" where
  "decided_proposal (DFinalized b) = [fb_proposal_id b]"
| "decided_proposal _ = []"

text \<open>The votes a collector received through the committee check, in order.\<close>

definition collect :: "bytes32 \<Rightarrow> bytes32 set \<Rightarrow> attestation_vote list \<Rightarrow> attestation_collector" where
  "collect proposal committee votes =
     fold (\<lambda>v c. fst (add_vote_from_committee v committee c)) votes (collector_new proposal)"

definition approvers :: "attestation_collector \<Rightarrow> bytes32 set" where
  "approvers c = {n. \<exists>v. bt_get (ac_votes c) n = Some v \<and> av_approved v}"

section \<open>Lemmas: finalization\<close>

lemma finalize_cases:
  obtains (refused) d where "finalize X p c t n h e = (e, d)" "decided_slot d = []" "decided_proposal d = []"
  | (decided) b where "pb_proposal_id p \<notin> fe_finalized_proposals e" "bt_get (fe_finalized_slots e) (pb_slot p, pb_epoch p) = None"
      "\<not> has_conflicts c" "qr_reached (check_quorum X t n c)"
      "finalize X p c t n h e =
        (e\<lparr>fe_finalized_proposals := insert (pb_proposal_id p) (fe_finalized_proposals e),
           fe_finalized_slots := bt_put (pb_slot p, pb_epoch p) (pb_proposal_id p) (fe_finalized_slots e)\<rparr>, DFinalized b)"
      "fb_slot b = pb_slot p" "fb_epoch b = pb_epoch p" "fb_proposal_id b = pb_proposal_id p"
      "fb_ordered_submission_ids b = pb_ordered_submission_ids p" "fb_batch_root b = pb_batch_root p"
      "fb_quorum_summary b = check_quorum X t n c"
proof (cases "pb_proposal_id p \<in> fe_finalized_proposals e \<or> bt_get (fe_finalized_slots e) (pb_slot p, pb_epoch p) \<noteq> None \<or>
    has_conflicts c \<or> \<not> qr_reached (check_quorum X t n c)")
  case True
  then have "\<exists>d. finalize X p c t n h e = (e, d) \<and> decided_slot d = [] \<and> decided_proposal d = []"
    by (cases "bt_get (fe_finalized_slots e) (pb_slot p, pb_epoch p)") (auto simp: finalize_def Let_def)
  then show ?thesis using refused by blast
next
  case False
  then show ?thesis by (intro decided) (auto simp: finalize_def Let_def)
qed

interpretation slots: once_machine "finalize_step X" "\<lambda>_ _. True" decided_slot "\<lambda>e k. bt_has (fe_finalized_slots e) k" for X
proof
  fix i :: finalize_call and calls :: "finalize_call list" and e :: finalization_engine and k :: "u64 \<times> u64"
  obtain p c t n h where i: "i = (p, c, t, n, h)" by (cases i)
  show "distinct (decided_slot (snd (finalize_step X e i)))"
    by (cases X p c t n h e rule: finalize_cases) (simp_all add: i)
  show "k \<in> set (decided_slot (snd (finalize_step X e i))) \<Longrightarrow> \<not> bt_has (fe_finalized_slots e) k"
    by (cases X p c t n h e rule: finalize_cases) (simp_all add: i bt_has_def)
  show "k \<in> set (decided_slot (snd (finalize_step X e i))) \<Longrightarrow> bt_has (fe_finalized_slots (fst (finalize_step X e i))) k"
    by (cases X p c t n h e rule: finalize_cases) (simp_all add: i bt_has_def map_simps)
  show "bt_has (fe_finalized_slots e) k \<Longrightarrow> bt_has (fe_finalized_slots (fst (finalize_step X e i))) k"
    by (cases X p c t n h e rule: finalize_cases) (auto simp: i bt_has_def map_simps)
qed simp

interpretation proposals: once_machine "finalize_step X" "\<lambda>_ _. True" decided_proposal "\<lambda>e k. k \<in> fe_finalized_proposals e" for X
proof
  fix i :: finalize_call and calls :: "finalize_call list" and e :: finalization_engine and k :: bytes32
  obtain p c t n h where i: "i = (p, c, t, n, h)" by (cases i)
  show "distinct (decided_proposal (snd (finalize_step X e i)))"
    by (cases X p c t n h e rule: finalize_cases) (simp_all add: i)
  show "k \<in> set (decided_proposal (snd (finalize_step X e i))) \<Longrightarrow> k \<notin> fe_finalized_proposals e"
    by (cases X p c t n h e rule: finalize_cases) (simp_all add: i)
  show "k \<in> set (decided_proposal (snd (finalize_step X e i))) \<Longrightarrow> k \<in> fe_finalized_proposals (fst (finalize_step X e i))"
    by (cases X p c t n h e rule: finalize_cases) (simp_all add: i)
  show "k \<in> fe_finalized_proposals e \<Longrightarrow> k \<in> fe_finalized_proposals (fst (finalize_step X e i))"
    by (cases X p c t n h e rule: finalize_cases) (auto simp: i)
qed

section \<open>Lemmas: votes\<close>

definition collector_ok :: "bytes32 set \<Rightarrow> attestation_collector \<Rightarrow> bool" where
  "collector_ok committee c \<longleftrightarrow> bt_ok (ac_votes c) \<and>
     (\<forall>n v. bt_get (ac_votes c) n = Some v \<longrightarrow> av_attestor_id v = n \<and> n \<in> committee)"

lemma push_conflict_votes [simp]: "ac_votes (fst (push_conflict v i k c)) = ac_votes c"
  by (simp add: push_conflict_def Let_def)

lemma add_vote_votes:
  "bt_get (ac_votes (fst (add_vote v c))) n =
     (if n = av_attestor_id v \<and> bt_get (ac_votes c) n = None then Some v else bt_get (ac_votes c) n)"
  by (auto simp: add_vote_def map_simps split: option.split)

lemma add_vote_ok:
  "collector_ok committee c \<Longrightarrow> collector_ok committee (fst (add_vote_from_committee v committee c))"
proof -
  assume ok: "collector_ok committee c"
  then have "bt_ok (ac_votes (fst (add_vote v c)))"
    by (auto simp: collector_ok_def add_vote_def btm.ok_put split: option.split)
  then show ?thesis
    using ok by (auto simp: collector_ok_def add_vote_from_committee_def add_vote_votes)
qed

lemma collect_ok: "collector_ok committee (collect proposal committee votes)"
proof -
  have "collector_ok committee (fold (\<lambda>v c. fst (add_vote_from_committee v committee c)) votes c)" if "collector_ok committee c" for c
    using that
  proof (induction votes arbitrary: c)
    case (Cons v votes)
    show ?case unfolding fold_Cons comp_def by (rule Cons.IH [OF add_vote_ok [OF Cons.prems]])
  qed simp
  moreover have "collector_ok committee (collector_new proposal)" by (simp add: collector_new_def collector_ok_def)
  ultimately show ?thesis unfolding collect_def by blast
qed

lemma keys_with: "{k. \<exists>v. (k, v) \<in> set m \<and> P v} = set (map fst (filter (\<lambda>e. P (snd e)) m))"
  by (induction m) auto

text \<open>The approvals counted are the distinct approving attestors.\<close>

lemma card_approvers: "bt_ok (ac_votes c) \<Longrightarrow> card (approvers c) = length (approving c)"
proof -
  assume ok: "bt_ok (ac_votes c)"
  have "approvers c = set (map fst (filter (\<lambda>e. av_approved (snd e)) (ac_votes c)))"
    unfolding approvers_def bt_get_iff [OF ok] by (rule keys_with)
  moreover have "distinct (map fst (filter (\<lambda>e. av_approved (snd e)) (ac_votes c)))"
    using bt_ok_distinct [OF ok] by (rule distinct_map_filter)
  moreover have "length (approving c) = length (filter (\<lambda>e. av_approved (snd e)) (ac_votes c))"
    by (simp add: approving_def bt_values_def filter_map comp_def)
  ultimately show ?thesis by (simp only: distinct_card length_map)
qed

lemma approvers_committee: "collector_ok committee c \<Longrightarrow> approvers c \<subseteq> committee"
  by (auto simp: collector_ok_def approvers_def)

lemma reached_count: "qr_reached (check_quorum X t n c) \<Longrightarrow> at_min_approvals t \<le> length (approving c)"
  by (simp add: check_quorum_def Let_def)

interpretation attested: quorum_system committee "at_min_approvals t"
    "\<lambda>c. collector_ok committee c \<and> (\<exists>X n. qr_reached (check_quorum X t n c))" "\<lambda>c. if collector_ok committee c then approvers c else {}"
    for committee t
proof
  fix c
  show "(if collector_ok committee c then approvers c else {}) \<subseteq> committee" using approvers_committee by simp
  assume "collector_ok committee c \<and> (\<exists>X n. qr_reached (check_quorum X t n c))"
  then show "at_min_approvals t \<le> card (if collector_ok committee c then approvers c else {})"
    by (auto simp: card_approvers collector_ok_def reached_count)
qed

section \<open>Properties\<close>

text \<open>
  C11. One canonical batch per slot: along every sequence of finalization attempts on a new engine no
  (slot, epoch) and no proposal is finalized twice; each finalized batch carries its proposal's order
  and root, its collector had no recorded conflict, and at least the threshold of distinct attestors had
  approved it.
\<close>

theorem one_finalized_batch_per_slot:
  "distinct (concat (map decided_slot (snd (run (finalize_step X) finalization_engine_new calls)))) \<and>
   distinct (concat (map decided_proposal (snd (run (finalize_step X) finalization_engine_new calls)))) \<and>
   (\<forall>e p c t n h b. bt_ok (ac_votes c) \<and> snd (finalize X p c t n h e) = DFinalized b \<longrightarrow>
      fb_ordered_submission_ids b = pb_ordered_submission_ids p \<and> fb_batch_root b = pb_batch_root p \<and>
      \<not> has_conflicts c \<and> at_min_approvals t \<le> card (approvers c) \<and>
      qr_approvals (fb_quorum_summary b) = card (approvers c))"
proof -
  have "fb_ordered_submission_ids b = pb_ordered_submission_ids p \<and> fb_batch_root b = pb_batch_root p \<and>
      \<not> has_conflicts c \<and> at_min_approvals t \<le> card (approvers c) \<and> qr_approvals (fb_quorum_summary b) = card (approvers c)"
    if ok: "bt_ok (ac_votes c)" and fin: "snd (finalize X p c t n h e) = DFinalized b" for e p c t n h b
  proof (cases X p c t n h e rule: finalize_cases)
    case (refused d)
    then show ?thesis using fin by simp
  next
    case (decided b')
    then have "b' = b" using fin by simp
    then show ?thesis
      using decided(3,9-11) reached_count [OF decided(4)] by (simp add: card_approvers [OF ok]) (simp add: check_quorum_def Let_def)
  qed
  then show ?thesis using slots.run_once [of X finalization_engine_new calls] proposals.run_once [of X finalization_engine_new calls] by blast
qed

definition sample_committee :: "bytes32 set" where
  "sample_committee = {1, 2, 3, 4}"

definition sample_votes :: "attestation_vote list" where
  "sample_votes = map (\<lambda>n. vote_new extern_std 50 n True 2) [1, 2, 3]"

definition sample_proposal :: proposed_batch where
  "sample_proposal = \<lparr>pb_proposal_id = 50, pb_slot = 10, pb_epoch = 2, pb_leader_id = 1, pb_ordered_submission_ids = [7, 8],
     pb_batch_root = 60, pb_parent_batch_id = 0, pb_policy_version = 1, pb_created_at_height = 5, pb_state = PsCollecting,
     pb_metadata = []\<rparr>"

lemma sample_quorum: "qr_reached (check_quorum extern_std (at_two_thirds 4) 4 (collect 50 sample_committee sample_votes))"
  "\<not> has_conflicts (collect 50 sample_committee sample_votes)"
  by (simp_all add: collect_def collector_new_def sample_votes_def sample_committee_def add_vote_from_committee_def add_vote_def
      vote_new_def bt_get_Cons check_quorum_def approving_def bt_values_def at_two_thirds_def has_conflicts_def
      word_le_nat_alt Let_def)

theorem one_finalized_batch_per_slot_witness:
  "\<exists>b. snd (finalize extern_std sample_proposal (collect 50 sample_committee sample_votes) (at_two_thirds 4) 4 9
       finalization_engine_new) = DFinalized b \<and>
     3 \<le> card (approvers (collect 50 sample_committee sample_votes))"
proof -
  obtain b where b: "snd (finalize extern_std sample_proposal (collect 50 sample_committee sample_votes) (at_two_thirds 4) 4 9
       finalization_engine_new) = DFinalized b"
    using sample_quorum by (simp add: finalize_def finalization_engine_new_def Let_def)
  moreover have "bt_ok (ac_votes (collect 50 sample_committee sample_votes))"
    using collect_ok [of sample_committee 50 sample_votes] by (simp add: collector_ok_def)
  ultimately have "at_min_approvals (at_two_thirds 4) \<le> card (approvers (collect 50 sample_committee sample_votes))"
    using one_finalized_batch_per_slot [of extern_std "[]"] by blast
  with b show ?thesis by (simp add: at_two_thirds_def)
qed

text \<open>
  C12. Conflicting finalizations need a faulty third: two quorums under the two-thirds threshold, collected
  anywhere from votes of one committee, share an honest attestor who approved both, when fewer than a third
  of the committee are faulty.
\<close>

theorem finalized_batches_share_an_honest_approver:
  assumes "qr_reached (check_quorum X (at_two_thirds (card committee)) n (collect p committee vs))"
    and "qr_reached (check_quorum X (at_two_thirds (card committee)) m (collect q committee ws))"
    and "3 * card (committee - honest) < card committee"
  shows "\<exists>a \<in> honest. a \<in> approvers (collect p committee vs) \<and> a \<in> approvers (collect q committee ws)"
proof -
  let ?t = "at_two_thirds (card committee)"
  have "collector_ok committee (collect p committee vs) \<and> (\<exists>X n. qr_reached (check_quorum X ?t n (collect p committee vs)))"
    "collector_ok committee (collect q committee ws) \<and> (\<exists>X n. qr_reached (check_quorum X ?t n (collect q committee ws)))"
    using assms(1,2) collect_ok by blast+
  moreover have "card committee + card (committee - honest) < 2 * at_min_approvals ?t"
    using assms(3) by (simp add: at_two_thirds_def)
  ultimately show ?thesis
    using attested.honest_in_both [OF _ _ order_refl] collect_ok by (metis (no_types, lifting))
qed

theorem finalized_batches_share_an_honest_approver_witness:
  "\<exists>a \<in> {1, 2, 3 :: bytes32}. a \<in> approvers (collect 50 sample_committee sample_votes) \<and>
     a \<in> approvers (collect 50 sample_committee sample_votes)"
proof -
  have "card sample_committee = 4" "sample_committee - {1, 2, 3} = {4}" by (auto simp: sample_committee_def)
  then show ?thesis
    using finalized_batches_share_an_honest_approver [of extern_std sample_committee 4 50 sample_votes 4 50 sample_votes "{1, 2, 3}"]
      sample_quorum(1) by simp
qed

text \<open>
  One vote of a node outside the committee is recorded as a conflict, and a collector with a conflict is
  never finalized, whatever its votes.
\<close>

theorem outsider_vote_blocks_finalization:
  assumes "av_attestor_id v \<notin> committee" and "pb_proposal_id p \<notin> fe_finalized_proposals e"
    and "bt_get (fe_finalized_slots e) (pb_slot p, pb_epoch p) = None"
  shows "snd (finalize X p (fst (add_vote_from_committee v committee c)) t n h e) = ConflictDetected (length (ac_conflicts c) + 1)"
  using assms by (simp add: finalize_def add_vote_from_committee_def push_conflict_def has_conflicts_def Let_def)

end
