(* ===== verification/Bridge.thy ===== *)
theory Bridge
  imports Attestation
begin

text \<open>
  Delivery of finalized batches to the runtime, \<^verbatim>\<open>poseq/src/bridge/hardened.rs\<close> (delivery records, the
  acknowledgement replay guard) and \<^verbatim>\<open>bridge/pipeline.rs\<close> (the committed envelope, acknowledgements and
  rejections, the per-batch life cycle). Shown: delivery is idempotent, each delivery is acknowledged at
  most once, and the commitment binds the order of the submissions.
  \<^verbatim>\<open>format!("{:?}", cause)\<close> is kept as the cause itself.
\<close>

section \<open>The hardened bridge\<close>

datatype bridge_error =
    EmptyBatch | SerializationFailure string | RuntimeDeliveryFailed string | AlreadyDelivered | AckReplay
  | RejectedByRuntime | DeliveryFailed

record delivery_envelope =
  de_delivery_id :: bytes32
  de_batch_id :: bytes32
  de_slot :: u64
  de_epoch :: u64
  de_ordered_submission_ids :: "bytes32 list"
  de_batch_root :: bytes32
  de_attempt_count :: u32
  de_delivery_hash :: bytes32

definition compute_delivery_id :: "extern \<Rightarrow> bytes32 \<Rightarrow> u32 \<Rightarrow> bytes32" where
  "compute_delivery_id X batch_id attempt_count = x_sha256 X (be_bytes 32 batch_id @ be_bytes 4 attempt_count)"

definition compute_delivery_hash :: "extern \<Rightarrow> bytes32 \<Rightarrow> bytes32 \<Rightarrow> bytes32" where
  "compute_delivery_hash X delivery_id batch_id = x_sha256 X (be_bytes 32 delivery_id @ be_bytes 32 batch_id)"

definition delivery_build :: "extern \<Rightarrow> finalized_batch \<Rightarrow> u32 \<Rightarrow> delivery_envelope" where
  "delivery_build X b attempt_count =
     (let d = compute_delivery_id X (fb_batch_id b) attempt_count
      in \<lparr>de_delivery_id = d, de_batch_id = fb_batch_id b, de_slot = fb_slot b, de_epoch = fb_epoch b,
          de_ordered_submission_ids = fb_ordered_submission_ids b, de_batch_root = fb_batch_root b,
          de_attempt_count = attempt_count, de_delivery_hash = compute_delivery_hash X d (fb_batch_id b)\<rparr>)"

record execution_ack =
  xa_batch_id :: bytes32
  xa_delivery_id :: bytes32
  xa_accepted :: bool
  xa_epoch :: u64
  xa_ack_hash :: bytes32

definition execution_ack_new :: "extern \<Rightarrow> bytes32 \<Rightarrow> bytes32 \<Rightarrow> bool \<Rightarrow> u64 \<Rightarrow> execution_ack" where
  "execution_ack_new X batch_id delivery_id accepted epoch =
     \<lparr>xa_batch_id = batch_id, xa_delivery_id = delivery_id, xa_accepted = accepted, xa_epoch = epoch,
      xa_ack_hash = x_sha256 X (be_bytes 32 batch_id @ be_bytes 32 delivery_id @ [bool_byte accepted] @ be_bytes 8 epoch)\<rparr>"

datatype rejection_cause =
    InvalidEnvelope string | AlreadyApplied | TransientUnavailable string | ExecutionFailure string | SafetyBlock string

fun cause_tag :: "rejection_cause \<Rightarrow> string" where
  "cause_tag (InvalidEnvelope _) = ''invalid_envelope''"
| "cause_tag AlreadyApplied = ''already_applied''"
| "cause_tag (TransientUnavailable _) = ''transient_unavailable''"
| "cause_tag (ExecutionFailure _) = ''execution_failure''"
| "cause_tag (SafetyBlock _) = ''safety_block''"

fun is_retryable :: "rejection_cause \<Rightarrow> bool" where
  "is_retryable (TransientUnavailable _) \<longleftrightarrow> True"
| "is_retryable _ \<longleftrightarrow> False"

record execution_rejection =
  xr_batch_id :: bytes32
  xr_delivery_id :: bytes32
  xr_reason :: rejection_cause
  xr_epoch :: u64

record delivery_record =
  dr_delivery_id :: bytes32
  dr_batch_id :: bytes32
  dr_delivered :: bool
  dr_acked :: bool
  dr_accepted :: bool
  dr_attempt_count :: u32

record hardened_bridge =
  hb_records :: "(bytes32, delivery_record) btree"
  hb_ack_replay_guard :: "(bytes32, bool) btree"
  hb_rejections :: "execution_rejection list"

definition hardened_bridge_new :: hardened_bridge where
  "hardened_bridge_new = \<lparr>hb_records = [], hb_ack_replay_guard = [], hb_rejections = []\<rparr>"

definition bridge_deliver :: "extern \<Rightarrow> finalized_batch \<Rightarrow> hardened_bridge \<Rightarrow> hardened_bridge \<times> delivery_envelope" where
  "bridge_deliver X b h =
     (if bt_has (hb_records h) (fb_batch_id b) then
        (h\<lparr>hb_records := bt_adjust (fb_batch_id b) (\<lambda>r. r\<lparr>dr_attempt_count := sat_add (dr_attempt_count r) 1\<rparr>) (hb_records h)\<rparr>,
         delivery_build X b 1)
      else
        (let env = delivery_build X b 1;
             r = \<lparr>dr_delivery_id = de_delivery_id env, dr_batch_id = fb_batch_id b, dr_delivered = True, dr_acked = False,
                  dr_accepted = False, dr_attempt_count = 1\<rparr>
         in (h\<lparr>hb_records := bt_put (fb_batch_id b) r (hb_records h)\<rparr>, env)))"

definition bridge_record_ack :: "execution_ack \<Rightarrow> hardened_bridge \<Rightarrow> hardened_bridge \<times> (bridge_error + unit)" where
  "bridge_record_ack a h =
     (if bt_has (hb_ack_replay_guard h) (xa_delivery_id a) then (h, Inl AckReplay)
      else (h\<lparr>hb_ack_replay_guard := bt_put (xa_delivery_id a) True (hb_ack_replay_guard h),
              hb_records := bt_adjust (xa_batch_id a) (\<lambda>r. r\<lparr>dr_acked := True, dr_accepted := xa_accepted a\<rparr>) (hb_records h)\<rparr>,
            Inr ()))"

definition bridge_record_rejection :: "execution_rejection \<Rightarrow> hardened_bridge \<Rightarrow> hardened_bridge" where
  "bridge_record_rejection r h =
     h\<lparr>hb_records := bt_adjust (xr_batch_id r) (\<lambda>d. d\<lparr>dr_acked := True, dr_accepted := False\<rparr>) (hb_records h),
       hb_rejections := hb_rejections h @ [r]\<rparr>"

definition is_delivered :: "hardened_bridge \<Rightarrow> bytes32 \<Rightarrow> bool" where
  "is_delivered h b = (case bt_get (hb_records h) b of None \<Rightarrow> False | Some r \<Rightarrow> dr_delivered r)"

definition is_acked :: "hardened_bridge \<Rightarrow> bytes32 \<Rightarrow> bool" where
  "is_acked h b = (case bt_get (hb_records h) b of None \<Rightarrow> False | Some r \<Rightarrow> dr_acked r)"

section \<open>The envelope\<close>

record fairness_meta =
  fm_policy_version :: u32
  fm_forced_inclusion_count :: u32
  fm_rate_limited_count :: u32
  fm_per_submission_class :: bytes

definition fairness_none :: "u32 \<Rightarrow> fairness_meta" where
  "fairness_none version =
     \<lparr>fm_policy_version = version, fm_forced_inclusion_count = 0, fm_rate_limited_count = 0, fm_per_submission_class = []\<rparr>"

record batch_commitment =
  bc_commitment_hash :: bytes32
  bc_finalization_hash :: bytes32
  bc_delivery_id :: bytes32
  bc_submission_root :: bytes32

definition submissions_input :: "bytes32 list \<Rightarrow> bytes" where
  "submissions_input ids = concat (map (be_bytes 32) ids)"

definition commit_input :: "bytes32 \<Rightarrow> bytes32 \<Rightarrow> bytes32 \<Rightarrow> bytes" where
  "commit_input f d root = be_bytes 32 f @ be_bytes 32 d @ be_bytes 32 root"

definition commitment_compute :: "extern \<Rightarrow> bytes32 \<Rightarrow> bytes32 \<Rightarrow> bytes32 list \<Rightarrow> batch_commitment" where
  "commitment_compute X finalization_hash delivery_id ids =
     (let root = x_sha256 X (submissions_input ids)
      in \<lparr>bc_commitment_hash = x_sha256 X (commit_input finalization_hash delivery_id root),
          bc_finalization_hash = finalization_hash, bc_delivery_id = delivery_id, bc_submission_root = root\<rparr>)"

record finalization_envelope =
  fl_batch_id :: bytes32
  fl_delivery_id :: bytes32
  fl_attempt_count :: u32
  fl_slot :: u64
  fl_epoch :: u64
  fl_sequence_number :: u64
  fl_leader_id :: bytes32
  fl_parent_batch_id :: bytes32
  fl_ordered_submission_ids :: "bytes32 list"
  fl_batch_root :: bytes32
  fl_finalization_hash :: bytes32
  fl_quorum_approvals :: usize
  fl_committee_size :: usize
  fl_fairness :: fairness_meta
  fl_commitment :: batch_commitment

definition envelope_build ::
  "extern \<Rightarrow> finalized_batch \<Rightarrow> delivery_envelope \<Rightarrow> u64 \<Rightarrow> fairness_meta \<Rightarrow> finalization_envelope" where
  "envelope_build X b d sequence_number fairness =
     \<lparr>fl_batch_id = fb_batch_id b, fl_delivery_id = de_delivery_id d, fl_attempt_count = de_attempt_count d,
      fl_slot = fb_slot b, fl_epoch = fb_epoch b, fl_sequence_number = sequence_number, fl_leader_id = fb_leader_id b,
      fl_parent_batch_id = fb_parent_batch_id b, fl_ordered_submission_ids = fb_ordered_submission_ids b,
      fl_batch_root = fb_batch_root b, fl_finalization_hash = fb_finalization_hash b,
      fl_quorum_approvals = qr_approvals (fb_quorum_summary b), fl_committee_size = qr_total_votes (fb_quorum_summary b),
      fl_fairness = fairness,
      fl_commitment = commitment_compute X (fb_finalization_hash b) (de_delivery_id d) (fb_ordered_submission_ids b)\<rparr>"

definition envelope_verify :: "extern \<Rightarrow> finalization_envelope \<Rightarrow> bool" where
  "envelope_verify X e \<longleftrightarrow>
     bc_commitment_hash (commitment_compute X (fl_finalization_hash e) (fl_delivery_id e) (fl_ordered_submission_ids e)) =
     bc_commitment_hash (fl_commitment e)"

section \<open>The pipeline\<close>

record ingestion_ack =
  ia_batch_id :: bytes32
  ia_delivery_id :: bytes32
  ia_epoch :: u64
  ia_succeeded_count :: usize
  ia_failed_count :: usize
  ia_execution_result_ref :: "bytes32 option"
  ia_ack_hash :: bytes32

definition ingestion_ack_new ::
  "extern \<Rightarrow> bytes32 \<Rightarrow> bytes32 \<Rightarrow> u64 \<Rightarrow> usize \<Rightarrow> usize \<Rightarrow> bytes32 option \<Rightarrow> ingestion_ack" where
  "ingestion_ack_new X batch_id delivery_id epoch succeeded failed result_ref =
     \<lparr>ia_batch_id = batch_id, ia_delivery_id = delivery_id, ia_epoch = epoch, ia_succeeded_count = succeeded,
      ia_failed_count = failed, ia_execution_result_ref = result_ref,
      ia_ack_hash = x_sha256 X (be_bytes 32 batch_id @ be_bytes 32 delivery_id @ string_bytes ''ack'' @ be_bytes 8 epoch)\<rparr>"

record ingestion_rejection =
  ij_batch_id :: bytes32
  ij_delivery_id :: bytes32
  ij_epoch :: u64
  ij_cause :: rejection_cause
  ij_rejection_hash :: bytes32

definition ingestion_rejection_new ::
  "extern \<Rightarrow> bytes32 \<Rightarrow> bytes32 \<Rightarrow> u64 \<Rightarrow> rejection_cause \<Rightarrow> ingestion_rejection" where
  "ingestion_rejection_new X batch_id delivery_id epoch cause =
     \<lparr>ij_batch_id = batch_id, ij_delivery_id = delivery_id, ij_epoch = epoch, ij_cause = cause,
      ij_rejection_hash = x_sha256 X (be_bytes 32 batch_id @ be_bytes 32 delivery_id @ string_bytes ''reject''
        @ string_bytes (cause_tag cause))\<rparr>"

datatype pipeline_state = PlPending | PlAccepted | PlRejectedRetryable | PlRejectedTerminal

record lifecycle_entry =
  le_batch_id :: bytes32
  le_epoch :: u64
  le_attempt_count :: u32
  le_state :: pipeline_state
  le_execution_result_ref :: "bytes32 option"
  le_rejection_cause :: "rejection_cause option"

record batch_pipeline =
  bp_bridge :: hardened_bridge
  bp_next_sequence :: u64
  bp_lifecycle :: "(bytes32, lifecycle_entry) btree"

definition batch_pipeline_new :: batch_pipeline where
  "batch_pipeline_new = \<lparr>bp_bridge = hardened_bridge_new, bp_next_sequence = 1, bp_lifecycle = []\<rparr>"

definition pipeline_deliver ::
  "extern \<Rightarrow> finalized_batch \<Rightarrow> fairness_meta \<Rightarrow> batch_pipeline \<Rightarrow> batch_pipeline \<times> finalization_envelope" where
  "pipeline_deliver X b fairness p =
     (let (h, d) = bridge_deliver X b (bp_bridge p);
          entry = \<lparr>le_batch_id = fb_batch_id b, le_epoch = fb_epoch b, le_attempt_count = 1, le_state = PlPending,
                   le_execution_result_ref = None, le_rejection_cause = None\<rparr>
      in (p\<lparr>bp_bridge := h, bp_next_sequence := bp_next_sequence p + 1,
            bp_lifecycle :=
              (if bt_has (bp_lifecycle p) (fb_batch_id b)
               then bt_adjust (fb_batch_id b) (\<lambda>e. e\<lparr>le_attempt_count := de_attempt_count d\<rparr>) (bp_lifecycle p)
               else bt_put (fb_batch_id b) entry (bp_lifecycle p))\<rparr>,
          envelope_build X b d (bp_next_sequence p) fairness))"

definition pipeline_record_ack :: "extern \<Rightarrow> ingestion_ack \<Rightarrow> batch_pipeline \<Rightarrow> batch_pipeline \<times> (bridge_error + unit)" where
  "pipeline_record_ack X a p =
     (case bridge_record_ack (execution_ack_new X (ia_batch_id a) (ia_delivery_id a) (ia_succeeded_count a > 0) (ia_epoch a))
             (bp_bridge p) of
        (h, Inl e) \<Rightarrow> (p\<lparr>bp_bridge := h\<rparr>, Inl e)
      | (h, Inr _) \<Rightarrow>
          (p\<lparr>bp_bridge := h,
             bp_lifecycle := bt_adjust (ia_batch_id a)
               (\<lambda>e. e\<lparr>le_state := PlAccepted, le_execution_result_ref := ia_execution_result_ref a\<rparr>) (bp_lifecycle p)\<rparr>, Inr ()))"

definition pipeline_record_rejection :: "ingestion_rejection \<Rightarrow> batch_pipeline \<Rightarrow> batch_pipeline" where
  "pipeline_record_rejection r p =
     p\<lparr>bp_bridge := bridge_record_rejection
           \<lparr>xr_batch_id = ij_batch_id r, xr_delivery_id = ij_delivery_id r, xr_reason = ij_cause r, xr_epoch = ij_epoch r\<rparr>
           (bp_bridge p),
       bp_lifecycle := bt_adjust (ij_batch_id r)
         (\<lambda>e. e\<lparr>le_state := if is_retryable (ij_cause r) then PlRejectedRetryable else PlRejectedTerminal,
               le_rejection_cause := Some (ij_cause r)\<rparr>) (bp_lifecycle p)\<rparr>"

definition needs_retry :: "batch_pipeline \<Rightarrow> bytes32 \<Rightarrow> bool" where
  "needs_retry p b = (case bt_get (bp_lifecycle p) b of None \<Rightarrow> False | Some e \<Rightarrow> le_state e = PlRejectedRetryable)"

definition pipeline_is_terminal :: "batch_pipeline \<Rightarrow> bytes32 \<Rightarrow> bool" where
  "pipeline_is_terminal p b =
     (case bt_get (bp_lifecycle p) b of None \<Rightarrow> False | Some e \<Rightarrow> le_state e \<in> {PlAccepted, PlRejectedTerminal})"

section \<open>Runs\<close>

datatype pipeline_op = OpDeliver finalized_batch fairness_meta | OpAck ingestion_ack | OpReject ingestion_rejection

datatype pipeline_out = OutEnvelope finalization_envelope | OutAcked bytes32 | OutNone

fun pipeline_step :: "extern \<Rightarrow> batch_pipeline \<Rightarrow> pipeline_op \<Rightarrow> batch_pipeline \<times> pipeline_out" where
  "pipeline_step X p (OpDeliver b f) =
     (fst (pipeline_deliver X b f p), OutEnvelope (snd (pipeline_deliver X b f p)))"
| "pipeline_step X p (OpAck a) =
     (fst (pipeline_record_ack X a p),
      if isl (snd (pipeline_record_ack X a p)) then OutNone else OutAcked (ia_delivery_id a))"
| "pipeline_step X p (OpReject r) = (pipeline_record_rejection r p, OutNone)"

fun acked_delivery :: "pipeline_out \<Rightarrow> bytes32 list" where
  "acked_delivery (OutAcked d) = [d]"
| "acked_delivery _ = []"

fun sequence_numbers :: "pipeline_out \<Rightarrow> u64 list" where
  "sequence_numbers (OutEnvelope e) = [fl_sequence_number e]"
| "sequence_numbers _ = []"

section \<open>Lemmas\<close>

lemma deliver_frame [simp]: "hb_ack_replay_guard (fst (bridge_deliver X b h)) = hb_ack_replay_guard h"
  by (simp add: bridge_deliver_def Let_def)

lemma deliver_envelope: "snd (bridge_deliver X b h) = delivery_build X b 1"
  by (simp add: bridge_deliver_def Let_def)

lemma guard_deliver [simp]:
  "hb_ack_replay_guard (bp_bridge (fst (pipeline_deliver X b f p))) = hb_ack_replay_guard (bp_bridge p)"
  by (simp add: pipeline_deliver_def case_prod_beta Let_def)

lemma guard_reject [simp]:
  "hb_ack_replay_guard (bp_bridge (pipeline_record_rejection r p)) = hb_ack_replay_guard (bp_bridge p)"
  by (simp add: pipeline_record_rejection_def bridge_record_rejection_def)

interpretation acks: once_machine "pipeline_step X" "\<lambda>_ _. True" acked_delivery
    "\<lambda>p d. bt_has (hb_ack_replay_guard (bp_bridge p)) d" for X
proof
  fix i :: pipeline_op and p :: batch_pipeline and d :: bytes32
  show "distinct (acked_delivery (snd (pipeline_step X p i)))" by (cases i) auto
  show "d \<in> set (acked_delivery (snd (pipeline_step X p i))) \<Longrightarrow> \<not> bt_has (hb_ack_replay_guard (bp_bridge p)) d"
    by (cases i) (auto simp: pipeline_record_ack_def bridge_record_ack_def execution_ack_new_def split: if_splits)
  show "d \<in> set (acked_delivery (snd (pipeline_step X p i))) \<Longrightarrow>
      bt_has (hb_ack_replay_guard (bp_bridge (fst (pipeline_step X p i)))) d"
    by (cases i) (auto simp: pipeline_record_ack_def bridge_record_ack_def execution_ack_new_def bt_has_def map_simps split: if_splits)
  show "bt_has (hb_ack_replay_guard (bp_bridge p)) d \<Longrightarrow> bt_has (hb_ack_replay_guard (bp_bridge (fst (pipeline_step X p i)))) d"
    by (cases i) (auto simp: pipeline_record_ack_def bridge_record_ack_def execution_ack_new_def bt_has_def map_simps split: if_splits)
qed simp

text \<open>Every envelope of a batch carries the same delivery id and commitment, whatever happened before.\<close>

lemma deliver_fields:
  "fl_delivery_id (snd (pipeline_deliver X b f p)) = compute_delivery_id X (fb_batch_id b) 1"
  "fl_commitment (snd (pipeline_deliver X b f p)) =
     commitment_compute X (fb_finalization_hash b) (compute_delivery_id X (fb_batch_id b) 1) (fb_ordered_submission_ids b)"
  "fl_ordered_submission_ids (snd (pipeline_deliver X b f p)) = fb_ordered_submission_ids b"
  "envelope_verify X (snd (pipeline_deliver X b f p))"
  by (simp_all add: pipeline_deliver_def case_prod_beta Let_def envelope_build_def envelope_verify_def deliver_envelope
      delivery_build_def)

section \<open>Properties\<close>

text \<open>
  C14. Delivery is idempotent and acknowledged once: every delivery of a batch, after whatever deliveries,
  acknowledgements and rejections, carries the same delivery id, order and commitment and passes the
  runtime's check, and along every run no delivery id is acknowledged twice.
\<close>

theorem delivery_is_idempotent_and_acked_once:
  "fl_delivery_id (snd (pipeline_deliver X b f p)) = fl_delivery_id (snd (pipeline_deliver X b g q)) \<and>
   fl_commitment (snd (pipeline_deliver X b f p)) = fl_commitment (snd (pipeline_deliver X b g q)) \<and>
   fl_ordered_submission_ids (snd (pipeline_deliver X b f p)) = fb_ordered_submission_ids b \<and>
   envelope_verify X (snd (pipeline_deliver X b f p)) \<and>
   distinct (concat (map acked_delivery (snd (run (pipeline_step X) batch_pipeline_new ops))))"
  using acks.run_once [of X batch_pipeline_new ops] by (simp add: deliver_fields)

text \<open>
  C15. The commitment binds the order: two envelopes that verify against the same commitment hash have the
  same finalization hash, delivery id and submissions in the same order, unless SHA-256 collides on the
  strings hashed for them.
\<close>

theorem commitment_binds_order:
  assumes "envelope_verify X e" and "envelope_verify X e'"
    and "bc_commitment_hash (fl_commitment e) = bc_commitment_hash (fl_commitment e')"
    and "inj_on (x_sha256 X) {submissions_input (fl_ordered_submission_ids e), submissions_input (fl_ordered_submission_ids e'),
      commit_input (fl_finalization_hash e) (fl_delivery_id e) (x_sha256 X (submissions_input (fl_ordered_submission_ids e))),
      commit_input (fl_finalization_hash e') (fl_delivery_id e') (x_sha256 X (submissions_input (fl_ordered_submission_ids e')))}"
  shows "fl_finalization_hash e = fl_finalization_hash e' \<and> fl_delivery_id e = fl_delivery_id e' \<and>
    fl_ordered_submission_ids e = fl_ordered_submission_ids e'"
proof -
  let ?in = "\<lambda>e. commit_input (fl_finalization_hash e) (fl_delivery_id e) (x_sha256 X (submissions_input (fl_ordered_submission_ids e)))"
  have "x_sha256 X (?in e) = x_sha256 X (?in e')"
    using assms(1-3) by (simp add: envelope_verify_def commitment_compute_def Let_def)
  then have "?in e = ?in e'" by (rule inj_onD [OF assms(4)]) simp_all
  then have eq: "fl_finalization_hash e = fl_finalization_hash e'" "fl_delivery_id e = fl_delivery_id e'"
    "x_sha256 X (submissions_input (fl_ordered_submission_ids e)) = x_sha256 X (submissions_input (fl_ordered_submission_ids e'))"
    by (simp_all add: commit_input_def)
  from eq(3) have "submissions_input (fl_ordered_submission_ids e) = submissions_input (fl_ordered_submission_ids e')"
    by (rule inj_onD [OF assms(4)]) simp_all
  with eq(1,2) show ?thesis by (simp add: submissions_input_def concat_bytes32_inject)
qed

definition sample_finalized :: finalized_batch where
  "sample_finalized = \<lparr>fb_batch_id = 70, fb_proposal_id = 50, fb_slot = 10, fb_epoch = 2, fb_leader_id = 1,
     fb_ordered_submission_ids = [], fb_batch_root = 60, fb_parent_batch_id = 0, fb_finalized_at_height = 9,
     fb_quorum_summary = \<lparr>qr_reached = True, qr_approvals = 3, qr_rejections = 0, qr_total_votes = 3, qr_quorum_hash = 0\<rparr>,
     fb_finalization_hash = 70\<rparr>"

text \<open>A hash that tells strings apart by their length.\<close>

definition extern_length :: extern where
  "extern_length = extern_std\<lparr>x_sha256 := (\<lambda>bs. of_nat (length bs))\<rparr>"

theorem commitment_binds_order_witness:
  "fl_ordered_submission_ids (snd (pipeline_deliver extern_length sample_finalized (fairness_none 1) batch_pipeline_new)) =
   fl_ordered_submission_ids (snd (pipeline_deliver extern_length sample_finalized (fairness_none 2) batch_pipeline_new))"
proof -
  let ?e = "\<lambda>v. snd (pipeline_deliver extern_length sample_finalized (fairness_none v) batch_pipeline_new)"
  have ids: "fl_ordered_submission_ids (?e v) = []" for v by (simp add: deliver_fields sample_finalized_def)
  have fields: "fl_finalization_hash (?e v) = 70" for v
    by (simp add: pipeline_deliver_def case_prod_beta Let_def envelope_build_def sample_finalized_def)
  have "inj_on (x_sha256 extern_length) {[], commit_input 70 (fl_delivery_id (?e 1)) 0}"
    by (auto simp: extern_length_def commit_input_def)
  moreover have "x_sha256 extern_length [] = 0" by (simp add: extern_length_def)
  moreover have "fl_delivery_id (?e 2) = fl_delivery_id (?e 1)" "bc_commitment_hash (fl_commitment (?e 1)) = bc_commitment_hash (fl_commitment (?e 2))"
    by (simp_all add: deliver_fields)
  ultimately show ?thesis
    using commitment_binds_order [OF deliver_fields(4) deliver_fields(4), of extern_length sample_finalized "fairness_none 1"
        batch_pipeline_new sample_finalized "fairness_none 2" batch_pipeline_new]
    by (simp add: ids fields submissions_input_def)
qed

text \<open>
  A rejection is not checked against the state: it takes an accepted batch back to a retryable one, and an
  acknowledgement is accepted for any delivery id, also one that was never issued.
\<close>

theorem rejection_undoes_acceptance:
  assumes "bt_get (bp_lifecycle p) (ij_batch_id r) = Some e" and "le_state e = PlAccepted" and "is_retryable (ij_cause r)"
  shows "pipeline_is_terminal p (ij_batch_id r) \<and> needs_retry (pipeline_record_rejection r p) (ij_batch_id r)"
  using assms by (simp add: pipeline_is_terminal_def needs_retry_def pipeline_record_rejection_def map_simps)

end
