(* ===== verification/Intent_Pool.thy ===== *)
theory Intent_Pool
  imports Objects "HOL-Library.Product_Lexorder"
begin

text \<open>
  The sequencer's public intent pool, \<^verbatim>\<open>poseq/src/intent_pool/\<close>: the intent schema and its structural
  validation (\<^verbatim>\<open>types.rs\<close>), the life cycle of an intent (\<^verbatim>\<open>lifecycle.rs\<close>) and the pool itself
  (\<^verbatim>\<open>pool.rs\<close>: admission with its duplicate, size, deadline, rate and nonce checks, eviction, expiry,
  cancellation, matching and the selection of a batch), with the constants of \<^verbatim>\<open>constants.rs\<close> they use.
  Shown: the pool's indexes agree along every run, an intent and a nonce are admitted at most once, a user
  gets at most ten admissions per block, a batch takes the best open intents, and a life cycle ends.

  The serializer is a parameter: its bytes of an intent kind (hashed into the id) and its size of an intent.
\<close>

section \<open>Constants\<close>

definition MIN_INTENT_LIFETIME :: u64 where "MIN_INTENT_LIFETIME = 10"
definition MAX_POOL_RESIDENCE :: u64 where "MAX_POOL_RESIDENCE = 1000"
definition MIN_INTENT_FEE_BPS :: u64 where "MIN_INTENT_FEE_BPS = 10"
definition MAX_INTENTS_PER_BLOCK_PER_USER :: u32 where "MAX_INTENTS_PER_BLOCK_PER_USER = 10"
definition MAX_NONCE_GAP :: u64 where "MAX_NONCE_GAP = 3"
definition MAX_INTENT_SIZE :: usize where "MAX_INTENT_SIZE = 4096"
definition MAX_POOL_SIZE :: usize where "MAX_POOL_SIZE = 50000"

section \<open>Intents\<close>

datatype asset_type = AssetNative | AssetToken | AssetObject

record asset_id =
  ai_chain_id :: u32
  ai_asset_type :: asset_type
  ai_identifier :: bytes32

definition asset_native :: "bytes32 \<Rightarrow> asset_id" where
  "asset_native i = \<lparr>ai_chain_id = 0, ai_asset_type = AssetNative, ai_identifier = i\<rparr>"

definition asset_token :: "bytes32 \<Rightarrow> asset_id" where
  "asset_token i = \<lparr>ai_chain_id = 0, ai_asset_type = AssetToken, ai_identifier = i\<rparr>"

datatype permission_mode = AllowAll | Whitelist | Blacklist

record solver_permissions =
  sp_mode :: permission_mode
  sp_solver_ids :: "bytes32 list"

definition solver_permissions_default :: solver_permissions where
  "solver_permissions_default = \<lparr>sp_mode = AllowAll, sp_solver_ids = []\<rparr>"

definition is_permitted :: "solver_permissions \<Rightarrow> bytes32 \<Rightarrow> bool" where
  "is_permitted p solver =
     (case sp_mode p of
        AllowAll \<Rightarrow> True
      | Whitelist \<Rightarrow> solver \<in> set (sp_solver_ids p)
      | Blacklist \<Rightarrow> solver \<notin> set (sp_solver_ids p))"

datatype priority = PriorityNormal | PriorityHigh | PriorityUrgent

fun priority_weight :: "priority \<Rightarrow> u32" where
  "priority_weight PriorityNormal = 100"
| "priority_weight PriorityHigh = 500"
| "priority_weight PriorityUrgent = 1000"

record execution_prefs =
  xp_priority :: priority
  xp_max_solver_count :: "u8 option"
  xp_require_full_fill :: bool

definition execution_prefs_default :: execution_prefs where
  "execution_prefs_default =
     \<lparr>xp_priority = PriorityNormal, xp_max_solver_count = None, xp_require_full_fill = False\<rparr>"

record pool_swap_intent =
  ps_asset_in :: asset_id
  ps_asset_out :: asset_id
  ps_amount_in :: u128
  ps_min_amount_out :: u128
  ps_max_slippage_bps :: u16
  ps_route_hint :: "asset_id list option"

record payment_intent =
  py_asset :: asset_id
  py_amount :: u128
  py_recipient :: bytes32
  py_memo :: "bytes option"

record rebalance_params =
  rb_max_hops :: u8
  rb_max_price_impact_bps :: u16

record pool_route_intent =
  pr_source_pool :: bytes32
  pr_target_pool :: bytes32
  pr_asset :: asset_id
  pr_amount :: u128
  pr_min_received :: u128
  pr_rebalance_params :: rebalance_params

datatype intent_kind = KindSwap pool_swap_intent | KindPayment payment_intent | KindRouteLiquidity pool_route_intent

fun type_tag :: "intent_kind \<Rightarrow> u8" where
  "type_tag (KindSwap _) = 1"
| "type_tag (KindPayment _) = 2"
| "type_tag (KindRouteLiquidity _) = 3"

fun kind_str :: "intent_kind \<Rightarrow> string" where
  "kind_str (KindSwap _) = ''swap''"
| "kind_str (KindPayment _) = ''payment''"
| "kind_str (KindRouteLiquidity _) = ''route_liquidity''"

record pool_intent =
  in_intent_id :: bytes32
  in_intent_type :: intent_kind
  in_version :: u16
  in_user :: bytes32
  in_nonce :: u64
  in_recipient :: "bytes32 option"
  in_deadline :: u64
  in_valid_from :: "u64 option"
  in_max_fee :: u64
  in_tip :: "u64 option"
  in_partial_fill_allowed :: bool
  in_solver_permissions :: solver_permissions
  in_execution_preferences :: execution_prefs
  in_witness_hash :: "bytes32 option"
  in_signature :: bytes
  in_metadata :: "(string \<times> string) list"

text \<open>What the code uses of the serializer: \<^verbatim>\<open>bincode::serialize(&kind)\<close> and the length for an intent.\<close>

record pool_codec =
  pc_kind_bytes :: "intent_kind \<Rightarrow> bytes"
  pc_intent_size :: "pool_intent \<Rightarrow> usize"

definition compute_intent_id :: "extern \<Rightarrow> pool_codec \<Rightarrow> pool_intent \<Rightarrow> bytes32" where
  "compute_intent_id X C t =
     x_sha256 X (be_bytes 32 (in_user t) @ be_bytes 8 (in_nonce t) @ [type_tag (in_intent_type t)]
       @ pc_kind_bytes C (in_intent_type t) @ be_bytes 8 (in_deadline t))"

definition verify_intent_id :: "extern \<Rightarrow> pool_codec \<Rightarrow> pool_intent \<Rightarrow> bool" where
  "verify_intent_id X C t \<longleftrightarrow> in_intent_id t = compute_intent_id X C t"

datatype intent_validation_error =
    UnsupportedVersion u16 | ZeroUser | ZeroIntentId | IntentIdMismatch | FeeBelowMinimum u64 u64
  | MissingSignature | ZeroAmount string | ZeroRecipient | SameAsset | SamePool | InvalidSlippage u16
  | InvalidMaxHops u8 | InvalidPriceImpact u16 | MemoTooLarge usize | DeadlineExpired u64 u64
  | IntentTooLarge usize usize | NonceAlreadyUsed bytes32 u64 | NonceGapTooLarge u64 u64
  | RateLimitExceeded bytes32 u32 u32 | PoolFull | DuplicateIntent

fun validate_kind :: "intent_kind \<Rightarrow> intent_validation_error + unit" where
  "validate_kind (KindSwap s) =
     (if ps_amount_in s = 0 then Inl (ZeroAmount ''amount_in'')
      else if ps_min_amount_out s = 0 then Inl (ZeroAmount ''min_amount_out'')
      else if ps_asset_in s = ps_asset_out s then Inl SameAsset
      else if ps_max_slippage_bps s > 10000 then Inl (InvalidSlippage (ps_max_slippage_bps s))
      else Inr ())"
| "validate_kind (KindPayment p) =
     (if py_amount p = 0 then Inl (ZeroAmount ''amount'')
      else if py_recipient p = 0 then Inl ZeroRecipient
      else (case py_memo p of
              Some memo \<Rightarrow> if length memo > 256 then Inl (MemoTooLarge (length memo)) else Inr ()
            | None \<Rightarrow> Inr ()))"
| "validate_kind (KindRouteLiquidity r) =
     (if pr_amount r = 0 then Inl (ZeroAmount ''amount'')
      else if pr_min_received r = 0 then Inl (ZeroAmount ''min_received'')
      else if pr_source_pool r = pr_target_pool r then Inl SamePool
      else if rb_max_hops (pr_rebalance_params r) = 0 \<or> rb_max_hops (pr_rebalance_params r) > 5 then
        Inl (InvalidMaxHops (rb_max_hops (pr_rebalance_params r)))
      else if rb_max_price_impact_bps (pr_rebalance_params r) > 500 then
        Inl (InvalidPriceImpact (rb_max_price_impact_bps (pr_rebalance_params r)))
      else Inr ())"

definition validate_basic :: "extern \<Rightarrow> pool_codec \<Rightarrow> pool_intent \<Rightarrow> intent_validation_error + unit" where
  "validate_basic X C t =
     (if in_version t \<noteq> 1 then Inl (UnsupportedVersion (in_version t))
      else if in_user t = 0 then Inl ZeroUser
      else if in_intent_id t = 0 then Inl ZeroIntentId
      else if \<not> verify_intent_id X C t then Inl IntentIdMismatch
      else if in_max_fee t < MIN_INTENT_FEE_BPS then Inl (FeeBelowMinimum (in_max_fee t) MIN_INTENT_FEE_BPS)
      else if in_signature t = [] then Inl MissingSignature
      else validate_kind (in_intent_type t))"

record intent_announcement =
  an_intent_id :: bytes32
  an_intent_type_tag :: u8
  an_user :: bytes32
  an_deadline :: u64
  an_tip :: u64
  an_size_bytes :: u32

abbreviation in_tip_or_0 :: "pool_intent \<Rightarrow> u64" where
  "in_tip_or_0 t \<equiv> (case in_tip t of None \<Rightarrow> 0 | Some v \<Rightarrow> v)"

definition from_intent :: "pool_codec \<Rightarrow> pool_intent \<Rightarrow> intent_announcement" where
  "from_intent C t =
     \<lparr>an_intent_id = in_intent_id t, an_intent_type_tag = type_tag (in_intent_type t), an_user = in_user t,
      an_deadline = in_deadline t, an_tip = in_tip_or_0 t, an_size_bytes = of_nat (pc_intent_size C t)\<rparr>"

section \<open>Life cycle\<close>

datatype intent_state =
    Created | Admitted | Open | Matched | Sequenced | Executed | Settled | Expired | Cancelled | Disputed | Slashed

definition state_is_terminal :: "intent_state \<Rightarrow> bool" where
  "state_is_terminal s \<longleftrightarrow> s \<in> {Settled, Expired, Cancelled, Slashed}"

definition state_is_active :: "intent_state \<Rightarrow> bool" where
  "state_is_active s \<longleftrightarrow> s \<in> {Created, Admitted, Open, Matched, Sequenced, Executed, Disputed}"

definition is_cancellable :: "intent_state \<Rightarrow> bool" where
  "is_cancellable s \<longleftrightarrow> s \<in> {Open, Matched}"

fun as_byte :: "intent_state \<Rightarrow> u8" where
  "as_byte Created = 0"
| "as_byte Admitted = 1"
| "as_byte Open = 2"
| "as_byte Matched = 3"
| "as_byte Sequenced = 4"
| "as_byte Executed = 5"
| "as_byte Settled = 6"
| "as_byte Expired = 7"
| "as_byte Cancelled = 8"
| "as_byte Disputed = 9"
| "as_byte Slashed = 10"

datatype transition_error = InvalidTransition intent_state intent_state

definition valid_transition :: "intent_state \<Rightarrow> intent_state \<Rightarrow> bool" where
  "valid_transition cur target \<longleftrightarrow>
     (case cur of
        Created \<Rightarrow> target = Admitted
      | Admitted \<Rightarrow> target = Open
      | Open \<Rightarrow> target = Matched \<or> target = Expired \<or> target = Cancelled
      | Matched \<Rightarrow> target = Sequenced \<or> target = Expired \<or> target = Cancelled
      | Sequenced \<Rightarrow> target = Executed
      | Executed \<Rightarrow> target = Settled \<or> target = Disputed
      | Disputed \<Rightarrow> target = Slashed
      | _ \<Rightarrow> False)"

definition transition :: "intent_state \<Rightarrow> intent_state \<Rightarrow> transition_error + intent_state" where
  "transition cur target = (if valid_transition cur target then Inr target else Inl (InvalidTransition cur target))"

record lifecycle_record =
  lr_intent_id :: bytes32
  lr_state :: intent_state
  lr_admitted_at_block :: u64
  lr_last_transition_block :: u64
  lr_matched_bundle_id :: "bytes32 option"
  lr_solver_id :: "bytes32 option"
  lr_receipt_id :: "bytes32 option"

definition lifecycle_new :: "bytes32 \<Rightarrow> u64 \<Rightarrow> lifecycle_record" where
  "lifecycle_new i block =
     \<lparr>lr_intent_id = i, lr_state = Admitted, lr_admitted_at_block = block, lr_last_transition_block = block,
      lr_matched_bundle_id = None, lr_solver_id = None, lr_receipt_id = None\<rparr>"

definition transition_to ::
  "intent_state \<Rightarrow> u64 \<Rightarrow> lifecycle_record \<Rightarrow> lifecycle_record \<times> (transition_error + unit)" where
  "transition_to target block r =
     (case transition (lr_state r) target of
        Inl e \<Rightarrow> (r, Inl e)
      | Inr s \<Rightarrow> (r\<lparr>lr_state := s, lr_last_transition_block := block\<rparr>, Inr ()))"

section \<open>Rate and nonce trackers\<close>

type_synonym rate_tracker = "(bytes32, u64 \<times> u32) btree"
type_synonym pool_nonce_tracker = "(bytes32, u64) btree"

definition check_and_increment ::
  "bytes32 \<Rightarrow> u64 \<Rightarrow> rate_tracker \<Rightarrow> rate_tracker \<times> (intent_validation_error + unit)" where
  "check_and_increment user block m =
     (let e0 = (case bt_get m user of None \<Rightarrow> (block, 0) | Some e \<Rightarrow> e);
          e1 = (if fst e0 \<noteq> block then (block, 0) else e0)
      in if snd e1 \<ge> MAX_INTENTS_PER_BLOCK_PER_USER
         then (bt_put user e1 m, Inl (RateLimitExceeded user (snd e1) MAX_INTENTS_PER_BLOCK_PER_USER))
         else (bt_put user (fst e1, snd e1 + 1) m, Inr ()))"

definition nonce_check_and_record ::
  "bytes32 \<Rightarrow> u64 \<Rightarrow> pool_nonce_tracker \<Rightarrow> pool_nonce_tracker \<times> (intent_validation_error + unit)" where
  "nonce_check_and_record user nonce m =
     (case bt_get m user of
        Some last_nonce \<Rightarrow>
          if nonce \<le> last_nonce then (m, Inl (NonceAlreadyUsed user nonce))
          else if nonce > last_nonce + MAX_NONCE_GAP then (m, Inl (NonceGapTooLarge (last_nonce + 1) nonce))
          else (bt_put user nonce m, Inr ())
      | None \<Rightarrow> (bt_put user nonce m, Inr ()))"

section \<open>The pool\<close>

record pool_entry =
  pe_intent :: pool_intent
  pe_lifecycle :: lifecycle_record

record pool_metrics =
  pm_total_admitted :: u64
  pm_total_rejected :: u64
  pm_total_expired :: u64
  pm_total_evicted :: u64
  pm_rejected_by_reason :: "(string \<times> u64) list"

record intent_pool =
  ip_entries :: "(bytes32, pool_entry) btree"
  ip_insertion_order :: "bytes32 list"
  ip_seen_ids :: "bytes32 set"
  ip_rate_tracker :: rate_tracker
  ip_nonce_tracker :: pool_nonce_tracker
  ip_current_block :: u64
  ip_metrics :: pool_metrics

definition pool_new :: intent_pool where
  "pool_new =
     \<lparr>ip_entries = [], ip_insertion_order = [], ip_seen_ids = {}, ip_rate_tracker = [], ip_nonce_tracker = [],
      ip_current_block = 0,
      ip_metrics = \<lparr>pm_total_admitted = 0, pm_total_rejected = 0, pm_total_expired = 0, pm_total_evicted = 0,
        pm_rejected_by_reason = []\<rparr>\<rparr>"

definition set_block_height :: "u64 \<Rightarrow> intent_pool \<Rightarrow> intent_pool" where
  "set_block_height block p = p\<lparr>ip_current_block := block\<rparr>"

text \<open>\<^verbatim>\<open>*map.entry(reason).or_insert(0) += 1\<close> on the reasons, kept as an association list.\<close>

fun bump_reason :: "string \<Rightarrow> (string \<times> u64) list \<Rightarrow> (string \<times> u64) list" where
  "bump_reason r [] = [(r, 1)]"
| "bump_reason r ((k, n) # m) = (if k = r then (k, n + 1) # m else (k, n) # bump_reason r m)"

definition pool_record_rejection :: "string \<Rightarrow> intent_pool \<Rightarrow> intent_pool" where
  "pool_record_rejection reason p =
     p\<lparr>ip_metrics := (ip_metrics p)\<lparr>pm_total_rejected := pm_total_rejected (ip_metrics p) + 1,
        pm_rejected_by_reason := bump_reason reason (pm_rejected_by_reason (ip_metrics p))\<rparr>\<rparr>"

fun lowest_tip :: "(bytes32 \<times> u64) option \<Rightarrow> (bytes32 \<times> pool_entry) list \<Rightarrow> (bytes32 \<times> u64) option" where
  "lowest_tip best [] = best"
| "lowest_tip best ((i, e) # es) =
     (let tip = in_tip_or_0 (pe_intent e) in
      lowest_tip (case best of None \<Rightarrow> Some (i, tip)
                  | Some (j, t) \<Rightarrow> if tip < t then Some (i, tip) else Some (j, t)) es)"

definition evict_lowest_tip :: "intent_pool \<Rightarrow> intent_pool \<times> bool" where
  "evict_lowest_tip p =
     (case lowest_tip None (ip_entries p) of
        Some (i, _) \<Rightarrow>
          (p\<lparr>ip_entries := bt_del i (ip_entries p),
             ip_insertion_order := filter (\<lambda>j. j \<noteq> i) (ip_insertion_order p),
             ip_metrics := (ip_metrics p)\<lparr>pm_total_evicted := pm_total_evicted (ip_metrics p) + 1\<rparr>\<rparr>, True)
      | None \<Rightarrow> (p, False))"

definition pool_insert :: "pool_codec \<Rightarrow> pool_intent \<Rightarrow> intent_pool \<Rightarrow> intent_pool" where
  "pool_insert C t p =
     p\<lparr>ip_entries := bt_put (in_intent_id t)
         \<lparr>pe_intent = t, pe_lifecycle = lifecycle_new (in_intent_id t) (ip_current_block p)\<rparr> (ip_entries p),
       ip_insertion_order := ip_insertion_order p @ [in_intent_id t],
       ip_seen_ids := insert (in_intent_id t) (ip_seen_ids p),
       ip_metrics := (ip_metrics p)\<lparr>pm_total_admitted := pm_total_admitted (ip_metrics p) + 1\<rparr>\<rparr>"

definition pool_admit ::
  "extern \<Rightarrow> pool_codec \<Rightarrow> pool_intent \<Rightarrow> intent_pool \<Rightarrow> intent_pool \<times> (intent_validation_error + intent_announcement)" where
  "pool_admit X C t p =
     (case validate_basic X C t of
        Inl e \<Rightarrow> (p, Inl e)
      | Inr _ \<Rightarrow>
      if in_intent_id t \<in> ip_seen_ids p \<or> bt_has (ip_entries p) (in_intent_id t) then
        (pool_record_rejection ''duplicate'' p, Inl DuplicateIntent)
      else if pc_intent_size C t > MAX_INTENT_SIZE then
        (pool_record_rejection ''too_large'' p, Inl (IntentTooLarge (pc_intent_size C t) MAX_INTENT_SIZE))
      else if in_deadline t \<le> ip_current_block p + MIN_INTENT_LIFETIME then
        (pool_record_rejection ''deadline_expired'' p, Inl (DeadlineExpired (in_deadline t) (ip_current_block p)))
      else
      case check_and_increment (in_user t) (ip_current_block p) (ip_rate_tracker p) of
        (r, Inl e) \<Rightarrow> (p\<lparr>ip_rate_tracker := r\<rparr>, Inl e)
      | (r, Inr _) \<Rightarrow>
      let p1 = p\<lparr>ip_rate_tracker := r\<rparr> in
      case nonce_check_and_record (in_user t) (in_nonce t) (ip_nonce_tracker p1) of
        (n, Inl e) \<Rightarrow> (p1\<lparr>ip_nonce_tracker := n\<rparr>, Inl e)
      | (n, Inr _) \<Rightarrow>
      let p2 = p1\<lparr>ip_nonce_tracker := n\<rparr>;
          (p3, room) = (if length (ip_entries p2) \<ge> MAX_POOL_SIZE then evict_lowest_tip p2 else (p2, True))
      in if \<not> room then (pool_record_rejection ''pool_full'' p3, Inl PoolFull)
         else (pool_insert C t p3, Inr (from_intent C t)))"

definition pool_remove :: "bytes32 \<Rightarrow> intent_pool \<Rightarrow> intent_pool \<times> pool_entry option" where
  "pool_remove i p =
     (case bt_get (ip_entries p) i of
        Some e \<Rightarrow> (p\<lparr>ip_entries := bt_del i (ip_entries p),
                     ip_insertion_order := filter (\<lambda>j. j \<noteq> i) (ip_insertion_order p)\<rparr>, Some e)
      | None \<Rightarrow> (p, None))"

definition query_open_intents :: "u8 list option \<Rightarrow> u64 \<Rightarrow> intent_pool \<Rightarrow> pool_entry list" where
  "query_open_intents tags min_tip p =
     filter (\<lambda>e. in_tip_or_0 (pe_intent e) \<ge> min_tip)
       (filter (\<lambda>e. case tags of Some ts \<Rightarrow> type_tag (in_intent_type (pe_intent e)) \<in> set ts | None \<Rightarrow> True)
          (filter (\<lambda>e. lr_state (pe_lifecycle e) = Open \<or> lr_state (pe_lifecycle e) = Admitted)
             (bt_values (ip_entries p))))"

definition entry_transition :: "intent_state \<Rightarrow> u64 \<Rightarrow> pool_entry \<Rightarrow> pool_entry" where
  "entry_transition target block e = e\<lparr>pe_lifecycle := fst (transition_to target block (pe_lifecycle e))\<rparr>"

definition open_admitted_intents :: "intent_pool \<Rightarrow> intent_pool" where
  "open_admitted_intents p =
     p\<lparr>ip_entries := map (\<lambda>(i, e). (i, if lr_state (pe_lifecycle e) = Admitted
                                     then entry_transition Open (ip_current_block p) e else e)) (ip_entries p)\<rparr>"

definition mark_matched :: "bytes32 \<Rightarrow> bytes32 \<Rightarrow> bytes32 \<Rightarrow> intent_pool \<Rightarrow> intent_pool \<times> bool" where
  "mark_matched i bundle solver p =
     (case bt_get (ip_entries p) i of
        Some e \<Rightarrow>
          (case transition_to Matched (ip_current_block p) (pe_lifecycle e) of
             (r, Inr _) \<Rightarrow>
               (p\<lparr>ip_entries := bt_adjust i
                   (\<lambda>e. e\<lparr>pe_lifecycle := r\<lparr>lr_matched_bundle_id := Some bundle, lr_solver_id := Some solver\<rparr>\<rparr>)
                   (ip_entries p)\<rparr>, True)
           | (r, Inl _) \<Rightarrow> (p, False))
      | None \<Rightarrow> (p, False))"

definition is_expired_entry :: "u64 \<Rightarrow> pool_entry \<Rightarrow> bool" where
  "is_expired_entry block e \<longleftrightarrow>
     (block \<ge> in_deadline (pe_intent e) \<or> block \<ge> lr_admitted_at_block (pe_lifecycle e) + MAX_POOL_RESIDENCE)
     \<and> (lr_state (pe_lifecycle e) = Open \<or> lr_state (pe_lifecycle e) = Admitted \<or> lr_state (pe_lifecycle e) = Matched)"

definition expire_pool_entry :: "u64 \<Rightarrow> bytes32 \<Rightarrow> intent_pool \<Rightarrow> intent_pool" where
  "expire_pool_entry block i p =
     p\<lparr>ip_entries := bt_del i (bt_adjust i (entry_transition Expired block) (ip_entries p)),
       ip_metrics := (ip_metrics p)\<lparr>pm_total_expired := pm_total_expired (ip_metrics p) + 1\<rparr>\<rparr>"

definition pool_prune_expired :: "intent_pool \<Rightarrow> intent_pool \<times> bytes32 list" where
  "pool_prune_expired p =
     (let block = ip_current_block p;
          expired = map fst (filter (\<lambda>(i, e). is_expired_entry block e) (ip_entries p));
          p1 = fold (expire_pool_entry block) expired p
      in (p1\<lparr>ip_insertion_order := filter (bt_has (ip_entries p1)) (ip_insertion_order p1)\<rparr>, expired))"

definition pool_cancel :: "bytes32 \<Rightarrow> intent_pool \<Rightarrow> intent_pool \<times> bool" where
  "pool_cancel i p =
     (case bt_get (ip_entries p) i of
        Some e \<Rightarrow>
          if is_cancellable (lr_state (pe_lifecycle e))
             \<and> snd (transition_to Cancelled (ip_current_block p) (pe_lifecycle e)) = Inr ()
          then (p\<lparr>ip_entries := bt_del i (ip_entries p),
                  ip_insertion_order := filter (\<lambda>j. j \<noteq> i) (ip_insertion_order p)\<rparr>, True)
          else (p, False)
      | None \<Rightarrow> (p, False))"

text \<open>\<^verbatim>\<open>sort_by\<close> with \<^verbatim>\<open>b.1.cmp(&a.1).then(a.2.cmp(&b.2)).then(a.0.cmp(&b.0))\<close>.\<close>

definition drain_key :: "bytes32 \<times> u64 \<times> u64 \<Rightarrow> int \<times> u64 \<times> bytes32" where
  "drain_key c = (case c of (i, tip, deadline) \<Rightarrow> (- uint tip, deadline, i))"

definition drain_open_for_batch :: "usize \<Rightarrow> intent_pool \<Rightarrow> pool_intent list" where
  "drain_open_for_batch max_count p =
     (let candidates = map (\<lambda>e. (in_intent_id (pe_intent e), in_tip_or_0 (pe_intent e), in_deadline (pe_intent e)))
            (filter (\<lambda>e. lr_state (pe_lifecycle e) = Open) (bt_values (ip_entries p)));
          ids = map fst (take max_count (sort_key drain_key candidates))
      in List.map_filter (\<lambda>i. map_option pe_intent (bt_get (ip_entries p) i)) ids)"

record solver_subscription =
  ss_solver_id :: bytes32
  ss_intent_type_filter :: "u8 list"
  ss_min_tip :: u64
  ss_min_amount :: u128

definition subscription_matches :: "solver_subscription \<Rightarrow> pool_intent \<Rightarrow> bool" where
  "subscription_matches s t =
     (if ss_intent_type_filter s \<noteq> [] \<and> type_tag (in_intent_type t) \<notin> set (ss_intent_type_filter s) then False
      else if in_tip_or_0 t < ss_min_tip s then False
      else if \<not> is_permitted (in_solver_permissions t) (ss_solver_id s) then False
      else True)"

section \<open>The machine of the pool's operations\<close>

datatype pool_op =
    SetBlockHeight u64 | DoAdmit pool_intent | DoRemove bytes32 | OpenAdmitted
  | MarkMatched bytes32 bytes32 bytes32 | PruneExpired | DoCancel bytes32

fun pool_step :: "extern \<Rightarrow> pool_codec \<Rightarrow> intent_pool \<Rightarrow> pool_op \<Rightarrow> intent_pool \<times> pool_intent list" where
  "pool_step X C p (SetBlockHeight b) = (set_block_height b p, [])"
| "pool_step X C p (DoAdmit t) =
     (fst (pool_admit X C t p), if isl (snd (pool_admit X C t p)) then [] else [t])"
| "pool_step X C p (DoRemove i) = (fst (pool_remove i p), [])"
| "pool_step X C p OpenAdmitted = (open_admitted_intents p, [])"
| "pool_step X C p (MarkMatched i b s) = (fst (mark_matched i b s p), [])"
| "pool_step X C p PruneExpired = (fst (pool_prune_expired p), [])"
| "pool_step X C p (DoCancel i) = (fst (pool_cancel i p), [])"

text \<open>The indexes agree: the order lists the entries once each, under their own ids, all of them seen.\<close>

definition entry_ok :: "bytes32 \<Rightarrow> pool_entry \<Rightarrow> bool" where
  "entry_ok i e \<longleftrightarrow> in_intent_id (pe_intent e) = i \<and> lr_intent_id (pe_lifecycle e) = i \<and>
     lr_state (pe_lifecycle e) \<in> {Admitted, Open, Matched} \<and>
     (lr_state (pe_lifecycle e) = Matched \<longleftrightarrow> lr_matched_bundle_id (pe_lifecycle e) \<noteq> None)"

definition pool_wf :: "intent_pool \<Rightarrow> bool" where
  "pool_wf p \<longleftrightarrow> bt_ok (ip_entries p) \<and> length (ip_entries p) \<le> MAX_POOL_SIZE \<and>
     distinct (ip_insertion_order p) \<and> set (ip_insertion_order p) = set (bt_keys (ip_entries p)) \<and>
     set (bt_keys (ip_entries p)) \<subseteq> ip_seen_ids p \<and>
     (\<forall>i e. bt_get (ip_entries p) i = Some e \<longrightarrow> entry_ok i e)"

section \<open>Lemmas: entries and indexes\<close>

lemma lowest_tip_in:
  assumes "lowest_tip best es = Some (i, t)"
  shows "best = Some (i, t) \<or> (\<exists>e. (i, e) \<in> set es \<and> t = in_tip_or_0 (pe_intent e))"
  using assms
proof (induction best es rule: lowest_tip.induct)
  case (2 best j e es)
  then show ?case by (auto simp: Let_def split: option.splits if_splits)
qed simp

lemma lowest_tip_le:
  "lowest_tip best es = Some (i, t) \<Longrightarrow>
     (\<forall>j s. best = Some (j, s) \<longrightarrow> t \<le> s) \<and> (\<forall>e \<in> snd ` set es. t \<le> in_tip_or_0 (pe_intent e))"
proof (induction best es rule: lowest_tip.induct)
  case (2 best j e es)
  let ?tip = "in_tip_or_0 (pe_intent e)"
  let ?b = "case best of None \<Rightarrow> Some (j, ?tip) | Some (k, s) \<Rightarrow> if ?tip < s then Some (j, ?tip) else Some (k, s)"
  have IH: "\<forall>k s. ?b = Some (k, s) \<longrightarrow> t \<le> s" "\<forall>e \<in> snd ` set es. t \<le> in_tip_or_0 (pe_intent e)"
    using 2 by (simp_all add: Let_def)
  have "t \<le> ?tip" "\<forall>k s. best = Some (k, s) \<longrightarrow> t \<le> s"
    using IH(1) by (cases best; force split: if_splits)+
  then show ?case using IH(2) by auto
qed auto

lemma lowest_tip_None: "lowest_tip best es = None \<longleftrightarrow> best = None \<and> es = []"
  by (induction best es rule: lowest_tip.induct) (auto simp: Let_def split: option.splits if_splits)

text \<open>Dropping an entry from the entries and the order keeps the invariant.\<close>

lemma pool_wf_drop:
  assumes "pool_wf p"
  shows "pool_wf (p\<lparr>ip_entries := bt_del i (ip_entries p),
    ip_insertion_order := filter (\<lambda>j. j \<noteq> i) (ip_insertion_order p), ip_metrics := m\<rparr>)"
    and "pool_wf (p\<lparr>ip_entries := bt_del i (ip_entries p),
    ip_insertion_order := filter (\<lambda>j. j \<noteq> i) (ip_insertion_order p)\<rparr>)"
proof -
  have "length (bt_del i (ip_entries p)) \<le> MAX_POOL_SIZE"
    using assms length_bt_del_le [of i "ip_entries p"] by (simp add: pool_wf_def)
  then show "pool_wf (p\<lparr>ip_entries := bt_del i (ip_entries p),
      ip_insertion_order := filter (\<lambda>j. j \<noteq> i) (ip_insertion_order p), ip_metrics := m\<rparr>)"
    and "pool_wf (p\<lparr>ip_entries := bt_del i (ip_entries p),
      ip_insertion_order := filter (\<lambda>j. j \<noteq> i) (ip_insertion_order p)\<rparr>)"
    using assms by (auto simp: pool_wf_def btm.ok_del bt_keys_del map_simps split: if_splits)
qed

lemma pool_wf_trackers:
  "pool_wf (p\<lparr>ip_rate_tracker := r\<rparr>) = pool_wf p"
  "pool_wf (p\<lparr>ip_nonce_tracker := n\<rparr>) = pool_wf p"
  "pool_wf (p\<lparr>ip_current_block := b\<rparr>) = pool_wf p"
  "pool_wf (p\<lparr>ip_metrics := m\<rparr>) = pool_wf p"
  by (simp_all add: pool_wf_def)

lemma evict_wf: "pool_wf p \<Longrightarrow> pool_wf (fst (evict_lowest_tip p))"
  by (auto simp: evict_lowest_tip_def pool_wf_drop split: option.split)

lemma evict_frame:
  "ip_seen_ids (fst (evict_lowest_tip p)) = ip_seen_ids p"
  "ip_nonce_tracker (fst (evict_lowest_tip p)) = ip_nonce_tracker p"
  "ip_rate_tracker (fst (evict_lowest_tip p)) = ip_rate_tracker p"
  "ip_current_block (fst (evict_lowest_tip p)) = ip_current_block p"
  by (auto simp: evict_lowest_tip_def split: option.split)

lemma evict_room:
  assumes "bt_ok (ip_entries p)" and "snd (evict_lowest_tip p)"
  shows "length (ip_entries (fst (evict_lowest_tip p))) < length (ip_entries p)"
proof -
  obtain i t where low: "lowest_tip None (ip_entries p) = Some (i, t)"
    using assms(2) by (auto simp: evict_lowest_tip_def split: option.splits)
  obtain e where "(i, e) \<in> set (ip_entries p)" using lowest_tip_in [OF low] by auto
  then have "bt_get (ip_entries p) i \<noteq> None" using assms(1) by (simp add: bt_in_get)
  then show ?thesis by (simp add: evict_lowest_tip_def low length_bt_del)
qed

lemma pool_insert_wf:
  assumes "pool_wf p" and "in_intent_id t \<notin> ip_seen_ids p" and "length (ip_entries p) < MAX_POOL_SIZE"
  shows "pool_wf (pool_insert C t p)"
proof -
  let ?m = "bt_put (in_intent_id t)
    \<lparr>pe_intent = t, pe_lifecycle = lifecycle_new (in_intent_id t) (ip_current_block p)\<rparr> (ip_entries p)"
  have "length ?m \<le> MAX_POOL_SIZE"
    using assms(3) length_bt_put_le [of "in_intent_id t" _ "ip_entries p"] by (meson Suc_leI le_trans)
  moreover have "in_intent_id t \<notin> set (ip_insertion_order p)" using assms(1,2) by (auto simp: pool_wf_def)
  ultimately show ?thesis
    using assms(1) by (auto simp: pool_wf_def pool_insert_def btm.ok_put bt_keys_put map_simps entry_ok_def
        lifecycle_new_def split: if_splits)
qed

text \<open>What an accepted admission did.\<close>

lemma pool_admit_Inr:
  assumes "pool_admit X C t p = (p', Inr a)"
  obtains r n q where
    "in_intent_id t \<notin> ip_seen_ids p" "a = from_intent C t" "validate_basic X C t = Inr ()"
    "pc_intent_size C t \<le> MAX_INTENT_SIZE" "ip_current_block p + MIN_INTENT_LIFETIME < in_deadline t"
    "check_and_increment (in_user t) (ip_current_block p) (ip_rate_tracker p) = (r, Inr ())"
    "nonce_check_and_record (in_user t) (in_nonce t) (ip_nonce_tracker p) = (n, Inr ())"
    "q = (if length (ip_entries p) \<ge> MAX_POOL_SIZE
          then fst (evict_lowest_tip (p\<lparr>ip_rate_tracker := r, ip_nonce_tracker := n\<rparr>))
          else p\<lparr>ip_rate_tracker := r, ip_nonce_tracker := n\<rparr>)"
    "length (ip_entries p) \<ge> MAX_POOL_SIZE \<longrightarrow> snd (evict_lowest_tip (p\<lparr>ip_rate_tracker := r, ip_nonce_tracker := n\<rparr>))"
    "p' = pool_insert C t q"
  using assms
  by (auto simp: pool_admit_def Let_def not_le not_less split: sum.splits prod.splits if_splits)

lemma evict_refused: "\<not> snd (evict_lowest_tip p) \<Longrightarrow> fst (evict_lowest_tip p) = p"
  by (auto simp: evict_lowest_tip_def split: option.splits)

lemma pool_wf_cong:
  "ip_entries p' = ip_entries p \<Longrightarrow> ip_insertion_order p' = ip_insertion_order p \<Longrightarrow>
   ip_seen_ids p' = ip_seen_ids p \<Longrightarrow> pool_wf p' \<longleftrightarrow> pool_wf p"
  by (simp add: pool_wf_def)

text \<open>A refused admission leaves entries, order and seen ids alone.\<close>

lemma pool_admit_Inl:
  assumes "isl (snd (pool_admit X C t p))"
  shows "ip_entries (fst (pool_admit X C t p)) = ip_entries p \<and>
    ip_insertion_order (fst (pool_admit X C t p)) = ip_insertion_order p \<and>
    ip_seen_ids (fst (pool_admit X C t p)) = ip_seen_ids p \<and>
    ip_current_block (fst (pool_admit X C t p)) = ip_current_block p"
proof -
  obtain r a where r: "check_and_increment (in_user t) (ip_current_block p) (ip_rate_tracker p) = (r, a)" by fastforce
  obtain n b where n: "nonce_check_and_record (in_user t) (in_nonce t) (ip_nonce_tracker p) = (n, b)" by fastforce
  let ?p = "p\<lparr>ip_rate_tracker := r, ip_nonce_tracker := n\<rparr>"
  obtain q room where q: "evict_lowest_tip ?p = (q, room)" by fastforce
  have "\<not> room \<Longrightarrow> q = ?p" using evict_refused [of ?p] by (simp add: q)
  then show ?thesis
    using assms
    by (cases "validate_basic X C t"; cases a; cases b)
      (auto simp: pool_admit_def r n q Let_def pool_record_rejection_def split: if_splits)
qed

lemma pool_admit_wf: "pool_wf p \<Longrightarrow> pool_wf (fst (pool_admit X C t p))"
proof (cases "pool_admit X C t p")
  case (Pair p' res)
  assume wf: "pool_wf p"
  show ?thesis
  proof (cases res)
    case (Inl e)
    with Pair pool_admit_Inl [of X C t p] have "pool_wf p' = pool_wf p"
      by (intro pool_wf_cong) simp_all
    with Pair wf show ?thesis by simp
  next
    case (Inr a)
    then have ok: "pool_admit X C t p = (p', Inr a)" using Pair by simp
    obtain r n q where fresh: "in_intent_id t \<notin> ip_seen_ids p"
      and q: "q = (if length (ip_entries p) \<ge> MAX_POOL_SIZE
          then fst (evict_lowest_tip (p\<lparr>ip_rate_tracker := r, ip_nonce_tracker := n\<rparr>))
          else p\<lparr>ip_rate_tracker := r, ip_nonce_tracker := n\<rparr>)"
      and room: "length (ip_entries p) \<ge> MAX_POOL_SIZE \<longrightarrow>
          snd (evict_lowest_tip (p\<lparr>ip_rate_tracker := r, ip_nonce_tracker := n\<rparr>))"
      and p': "p' = pool_insert C t q"
      using pool_admit_Inr [OF ok] by metis
    let ?p = "p\<lparr>ip_rate_tracker := r, ip_nonce_tracker := n\<rparr>"
    have wf1: "pool_wf ?p" using wf by (simp add: pool_wf_trackers)
    then have "pool_wf q" using evict_wf [of ?p] by (simp add: q)
    moreover have "ip_seen_ids q = ip_seen_ids p" by (simp add: q evict_frame)
    moreover have "length (ip_entries q) < MAX_POOL_SIZE"
    proof (cases "length (ip_entries p) \<ge> MAX_POOL_SIZE")
      case True
      have "length (ip_entries (fst (evict_lowest_tip ?p))) < length (ip_entries ?p)"
        using wf1 room True by (intro evict_room) (simp_all add: pool_wf_def)
      then show ?thesis using wf True by (simp add: q pool_wf_def)
    qed (simp add: q)
    ultimately show ?thesis using fresh Pair p' by (simp add: pool_insert_wf)
  qed
qed

lemma open_entries:
  "ip_entries (open_admitted_intents p) = map (\<lambda>(i, e). (i, if lr_state (pe_lifecycle e) = Admitted
     then entry_transition Open (ip_current_block p) e else e)) (ip_entries p)"
  by (simp add: open_admitted_intents_def)

lemma entry_transition_ok:
  "entry_ok i e \<Longrightarrow> lr_state (pe_lifecycle e) = Admitted \<Longrightarrow> entry_ok i (entry_transition Open b e)"
  by (auto simp: entry_ok_def entry_transition_def transition_to_def transition_def valid_transition_def)

lemma open_wf: "pool_wf p \<Longrightarrow> pool_wf (open_admitted_intents p)"
proof -
  assume wf: "pool_wf p"
  let ?f = "\<lambda>e. if lr_state (pe_lifecycle e) = Admitted then entry_transition Open (ip_current_block p) e else e"
  have "map fst (map (\<lambda>(i, e). (i, ?f e)) (ip_entries p)) = map fst (ip_entries p)"
    by (simp only: map_map bt_map_values)
  then show ?thesis
    using wf unfolding pool_wf_def open_admitted_intents_def bt_ok_def bt_keys_def
    by (auto simp: bt_map_values entry_transition_ok simp del: map_map)
qed

lemma mark_matched_wf: "pool_wf p \<Longrightarrow> pool_wf (fst (mark_matched i b s p))"
  by (auto simp: pool_wf_def mark_matched_def transition_to_def transition_def valid_transition_def btm.ok_adjust map_simps entry_ok_def
      split: option.splits sum.splits if_splits)

lemma fold_expire:
  "ip_entries (fold (expire_pool_entry b) is p) = bt_retain (\<lambda>i _. i \<notin> set is) (ip_entries p)"
  "ip_insertion_order (fold (expire_pool_entry b) is p) = ip_insertion_order p"
  "ip_seen_ids (fold (expire_pool_entry b) is p) = ip_seen_ids p"
  "ip_nonce_tracker (fold (expire_pool_entry b) is p) = ip_nonce_tracker p"
  "ip_rate_tracker (fold (expire_pool_entry b) is p) = ip_rate_tracker p"
  "ip_current_block (fold (expire_pool_entry b) is p) = ip_current_block p"
proof -
  have "bt_del i (bt_adjust i f m) = bt_retain (\<lambda>j _. j \<noteq> i) m" for i f and m :: "(bytes32, pool_entry) btree"
    by (induction m) (auto simp: bt_del_def bt_adjust_def bt_retain_def)
  then show "ip_entries (fold (expire_pool_entry b) is p) = bt_retain (\<lambda>i _. i \<notin> set is) (ip_entries p)"
    by (induction "is" arbitrary: p) (auto simp: expire_pool_entry_def bt_retain_def intro!: filter_cong)
qed (induction "is" arbitrary: p; simp add: expire_pool_entry_def)+

lemma prune_wf: "pool_wf p \<Longrightarrow> pool_wf (fst (pool_prune_expired p))"
proof -
  assume wf: "pool_wf p"
  define x where "x = map fst (filter (\<lambda>(i, e). is_expired_entry (ip_current_block p) e) (ip_entries p))"
  let ?m = "bt_retain (\<lambda>i _. i \<notin> set x) (ip_entries p)"
  have get: "bt_get ?m i = (if i \<in> set x then None else bt_get (ip_entries p) i)" for i
    using wf by (simp add: bt_retain_get pool_wf_def split: option.split)
  have "length ?m \<le> MAX_POOL_SIZE"
    using wf length_filter_le [of "\<lambda>e. fst e \<notin> set x" "ip_entries p"]
    unfolding bt_retain_def pool_wf_def by linarith
  moreover have "set (bt_keys ?m) \<subseteq> set (bt_keys (ip_entries p))"
    by (auto simp: bt_keys_iff get split: if_splits)
  moreover have "fst (pool_prune_expired p) =
      (let q = fold (expire_pool_entry (ip_current_block p)) x p
       in q\<lparr>ip_insertion_order := filter (bt_has (ip_entries q)) (ip_insertion_order q)\<rparr>)"
    by (simp add: pool_prune_expired_def Let_def x_def)
  ultimately show ?thesis
    using wf get
    by (auto simp: pool_wf_def Let_def fold_expire bt_retain_ok bt_has_def bt_keys_iff split: if_splits)
qed

lemma pool_step_wf: "pool_wf p \<Longrightarrow> pool_wf (fst (pool_step X C p op))"
  by (cases op) (auto simp: pool_admit_wf open_wf mark_matched_wf prune_wf set_block_height_def pool_wf_trackers
      pool_remove_def pool_cancel_def pool_wf_drop split: option.split)

lemma pool_new_wf: "pool_wf pool_new"
  by (simp add: pool_wf_def pool_new_def bt_keys_def)

interpretation pool: preserving_machine "pool_step X C" "\<lambda>_. pool_wf" for X C
  by unfold_locales (rule pool_step_wf)

section \<open>Lemmas: what is admitted once\<close>

definition pool_nonce_used :: "intent_pool \<Rightarrow> bytes32 \<times> u64 \<Rightarrow> bool" where
  "pool_nonce_used p k \<longleftrightarrow> (\<exists>h. bt_get (ip_nonce_tracker p) (fst k) = Some h \<and> snd k \<le> h)"

lemma nonce_recorded:
  assumes "nonce_check_and_record u k m = (m', r)"
  shows "bt_get m u = Some h \<Longrightarrow> \<exists>h'. bt_get m' u = Some h' \<and> h \<le> h'"
    and "w \<noteq> u \<Longrightarrow> bt_get m' w = bt_get m w"
    and "r = Inr () \<Longrightarrow> bt_get m' u = Some k \<and> (\<forall>h. bt_get m u = Some h \<longrightarrow> h < k)"
  using assms by (auto simp: nonce_check_and_record_def map_simps not_le split: option.splits if_splits)

lemma pool_admit_nonces:
  "\<exists>r. nonce_check_and_record (in_user t) (in_nonce t) (ip_nonce_tracker p) = (ip_nonce_tracker (fst (pool_admit X C t p)), r)
     \<or> ip_nonce_tracker (fst (pool_admit X C t p)) = ip_nonce_tracker p"
proof -
  obtain r a where r: "check_and_increment (in_user t) (ip_current_block p) (ip_rate_tracker p) = (r, a)" by fastforce
  obtain n b where n: "nonce_check_and_record (in_user t) (in_nonce t) (ip_nonce_tracker p) = (n, b)" by fastforce
  let ?p = "p\<lparr>ip_rate_tracker := r, ip_nonce_tracker := n\<rparr>"
  obtain q room where q: "evict_lowest_tip ?p = (q, room)" by fastforce
  have "ip_nonce_tracker q = n" using evict_frame(2) [of ?p] by (simp add: q)
  then show ?thesis
    by (cases "validate_basic X C t"; cases a; cases b)
      (auto simp: pool_admit_def r n q Let_def pool_record_rejection_def pool_insert_def)
qed

lemma nonce_used_admit: "pool_nonce_used p k \<Longrightarrow> pool_nonce_used (fst (pool_admit X C t p)) k"
proof -
  assume "pool_nonce_used p k"
  then obtain h where h: "bt_get (ip_nonce_tracker p) (fst k) = Some h" "snd k \<le> h" by (auto simp: pool_nonce_used_def)
  consider r where "nonce_check_and_record (in_user t) (in_nonce t) (ip_nonce_tracker p) = (ip_nonce_tracker (fst (pool_admit X C t p)), r)"
    | "ip_nonce_tracker (fst (pool_admit X C t p)) = ip_nonce_tracker p"
    using pool_admit_nonces by blast
  then show ?thesis
  proof cases
    case 1
    note rec = nonce_recorded [OF 1]
    show ?thesis
    proof (cases "fst k = in_user t")
      case True
      then show ?thesis using rec(1) [of h] h by (auto simp: pool_nonce_used_def intro: order_trans)
    next
      case False
      then show ?thesis using rec(2) [of "fst k"] h by (simp add: pool_nonce_used_def)
    qed
  qed (use h in \<open>simp add: pool_nonce_used_def\<close>)
qed

lemma pool_frame:
  "ip_nonce_tracker (fst (pool_remove i p)) = ip_nonce_tracker p" "ip_seen_ids (fst (pool_remove i p)) = ip_seen_ids p"
  "ip_nonce_tracker (fst (mark_matched i b s p)) = ip_nonce_tracker p" "ip_seen_ids (fst (mark_matched i b s p)) = ip_seen_ids p"
  "ip_nonce_tracker (fst (pool_prune_expired p)) = ip_nonce_tracker p" "ip_seen_ids (fst (pool_prune_expired p)) = ip_seen_ids p"
  "ip_nonce_tracker (fst (pool_cancel i p)) = ip_nonce_tracker p" "ip_seen_ids (fst (pool_cancel i p)) = ip_seen_ids p"
  "ip_nonce_tracker (open_admitted_intents p) = ip_nonce_tracker p" "ip_seen_ids (open_admitted_intents p) = ip_seen_ids p"
  by (auto simp: pool_remove_def mark_matched_def pool_prune_expired_def pool_cancel_def open_admitted_intents_def
      fold_expire Let_def split: option.split sum.split prod.split)

lemma pool_admit_emits:
  assumes "\<not> isl (snd (pool_admit X C t p))"
  shows "in_intent_id t \<notin> ip_seen_ids p" "ip_seen_ids (fst (pool_admit X C t p)) = insert (in_intent_id t) (ip_seen_ids p)"
    "\<not> pool_nonce_used p (in_user t, in_nonce t)" "pool_nonce_used (fst (pool_admit X C t p)) (in_user t, in_nonce t)"
    "validate_basic X C t = Inr ()"
proof -
  obtain p' a where ok: "pool_admit X C t p = (p', Inr a)"
    using assms by (cases "pool_admit X C t p"; cases "snd (pool_admit X C t p)") auto
  from pool_admit_Inr [OF ok] obtain r n q where d: "in_intent_id t \<notin> ip_seen_ids p" "validate_basic X C t = Inr ()"
    "nonce_check_and_record (in_user t) (in_nonce t) (ip_nonce_tracker p) = (n, Inr ())"
    "q = (if length (ip_entries p) \<ge> MAX_POOL_SIZE
          then fst (evict_lowest_tip (p\<lparr>ip_rate_tracker := r, ip_nonce_tracker := n\<rparr>))
          else p\<lparr>ip_rate_tracker := r, ip_nonce_tracker := n\<rparr>)" "p' = pool_insert C t q"
    by metis
  have "ip_nonce_tracker p' = n" "ip_seen_ids p' = insert (in_intent_id t) (ip_seen_ids p)"
    using d(4,5) evict_frame by (simp_all add: pool_insert_def)
  then show "in_intent_id t \<notin> ip_seen_ids p" "ip_seen_ids (fst (pool_admit X C t p)) = insert (in_intent_id t) (ip_seen_ids p)"
    "\<not> pool_nonce_used p (in_user t, in_nonce t)" "pool_nonce_used (fst (pool_admit X C t p)) (in_user t, in_nonce t)"
    "validate_basic X C t = Inr ()"
    using d nonce_recorded(3) [OF d(3)] by (auto simp: ok pool_nonce_used_def)
qed

interpretation pool_ids: once_machine "pool_step X C" "\<lambda>_ _. True" "map in_intent_id" "\<lambda>p i. i \<in> ip_seen_ids p" for X C
proof
  fix op p i
  show "distinct (map in_intent_id (snd (pool_step X C p op)))" by (cases op) auto
  show "i \<in> set (map in_intent_id (snd (pool_step X C p op))) \<Longrightarrow> i \<notin> ip_seen_ids p"
    "i \<in> set (map in_intent_id (snd (pool_step X C p op))) \<Longrightarrow> i \<in> ip_seen_ids (fst (pool_step X C p op))"
    by (cases op; auto dest: pool_admit_emits split: if_splits)+
  show "i \<in> ip_seen_ids p \<Longrightarrow> i \<in> ip_seen_ids (fst (pool_step X C p op))"
  proof (cases op)
    case (DoAdmit t)
    then show "i \<in> ip_seen_ids p \<Longrightarrow> ?thesis"
      using pool_admit_Inl [of X C t p] pool_admit_emits(2) [of X C t p] by (cases "isl (snd (pool_admit X C t p))") auto
  qed (simp_all add: pool_frame set_block_height_def)
qed simp

interpretation pool_nonces: once_machine "pool_step X C" "\<lambda>_ _. True" "map (\<lambda>t. (in_user t, in_nonce t))" pool_nonce_used for X C
proof
  fix op p k
  show "distinct (map (\<lambda>t. (in_user t, in_nonce t)) (snd (pool_step X C p op)))" by (cases op) auto
  show "k \<in> set (map (\<lambda>t. (in_user t, in_nonce t)) (snd (pool_step X C p op))) \<Longrightarrow> \<not> pool_nonce_used p k"
    "k \<in> set (map (\<lambda>t. (in_user t, in_nonce t)) (snd (pool_step X C p op))) \<Longrightarrow> pool_nonce_used (fst (pool_step X C p op)) k"
    by (cases op; auto dest: pool_admit_emits split: if_splits)+
  show "pool_nonce_used p k \<Longrightarrow> pool_nonce_used (fst (pool_step X C p op)) k"
    by (cases op) (auto simp: nonce_used_admit, auto simp: pool_nonce_used_def pool_frame set_block_height_def)
qed

section \<open>Lemmas: the rate limit\<close>

text \<open>What is left of a user's quota in the current block.\<close>

definition rate_left :: "bytes32 \<Rightarrow> intent_pool \<Rightarrow> nat" where
  "rate_left u p = (case bt_get (ip_rate_tracker p) u of
     None \<Rightarrow> 10 | Some (b, n) \<Rightarrow> if b = ip_current_block p then 10 - unat n else 10)"

definition of_user :: "bytes32 \<Rightarrow> pool_intent list \<Rightarrow> nat" where
  "of_user u ts = length (filter (\<lambda>t. in_user t = u) ts)"

lemma check_and_increment_left:
  assumes "check_and_increment w (ip_current_block p) (ip_rate_tracker p) = (r, res)"
  shows "rate_left u (p\<lparr>ip_rate_tracker := r\<rparr>) + (if res = Inr () \<and> w = u then 1 else 0) \<le> rate_left u p"
proof -
  have "n < 10 \<Longrightarrow> unat (n + 1) = Suc (unat n)" for n :: u32
    using unat_add_fits [of n 1] by (simp add: word_less_nat_alt)
  then show ?thesis
    using assms
    by (auto simp: check_and_increment_def rate_left_def Let_def MAX_INTENTS_PER_BLOCK_PER_USER_def map_simps
        word_less_nat_alt not_le split: option.splits if_splits prod.splits)
qed

lemma pool_admit_rate:
  obtains r res where "check_and_increment (in_user t) (ip_current_block p) (ip_rate_tracker p) = (r, res)"
    and "ip_rate_tracker (fst (pool_admit X C t p)) = ip_rate_tracker p \<and> isl (snd (pool_admit X C t p)) \<or>
      ip_rate_tracker (fst (pool_admit X C t p)) = r \<and> (\<not> isl (snd (pool_admit X C t p)) \<longrightarrow> res = Inr ())"
    and "ip_current_block (fst (pool_admit X C t p)) = ip_current_block p"
proof -
  obtain r a where r: "check_and_increment (in_user t) (ip_current_block p) (ip_rate_tracker p) = (r, a)" by fastforce
  obtain n b where n: "nonce_check_and_record (in_user t) (in_nonce t) (ip_nonce_tracker p) = (n, b)" by fastforce
  let ?p = "p\<lparr>ip_rate_tracker := r, ip_nonce_tracker := n\<rparr>"
  obtain q room where q: "evict_lowest_tip ?p = (q, room)" by fastforce
  have "ip_rate_tracker q = r" "ip_current_block q = ip_current_block p" using evict_frame(3,4) [of ?p] by (simp_all add: q)
  then show ?thesis
    using that [OF r]
    by (cases "validate_basic X C t"; cases a; cases b)
      (auto simp: pool_admit_def r n q Let_def pool_record_rejection_def pool_insert_def split: if_splits)
qed

lemma rate_left_admit:
  "of_user u (snd (pool_step X C p (DoAdmit t))) + rate_left u (fst (pool_admit X C t p)) \<le> rate_left u p"
proof -
  obtain r res where r: "check_and_increment (in_user t) (ip_current_block p) (ip_rate_tracker p) = (r, res)"
    and tr: "ip_rate_tracker (fst (pool_admit X C t p)) = ip_rate_tracker p \<and> isl (snd (pool_admit X C t p)) \<or>
      ip_rate_tracker (fst (pool_admit X C t p)) = r \<and> (\<not> isl (snd (pool_admit X C t p)) \<longrightarrow> res = Inr ())"
    and blk: "ip_current_block (fst (pool_admit X C t p)) = ip_current_block p"
    by (rule pool_admit_rate)
  have "rate_left u (fst (pool_admit X C t p)) = rate_left u (p\<lparr>ip_rate_tracker := ip_rate_tracker (fst (pool_admit X C t p))\<rparr>)"
    unfolding rate_left_def blk by (simp split: option.split)
  then show ?thesis
    using tr check_and_increment_left [OF r, of u] by (auto simp: of_user_def split: if_splits)
qed

lemma pool_rate_frame:
  "rate_left u (fst (pool_remove i p)) = rate_left u p" "rate_left u (fst (mark_matched i b s p)) = rate_left u p"
  "rate_left u (fst (pool_prune_expired p)) = rate_left u p" "rate_left u (fst (pool_cancel i p)) = rate_left u p"
  "rate_left u (open_admitted_intents p) = rate_left u p"
  by (auto simp: rate_left_def pool_remove_def mark_matched_def pool_prune_expired_def pool_cancel_def
      open_admitted_intents_def fold_expire Let_def split: option.split sum.split prod.split)

interpretation pool_rate: budget_machine "pool_step X C" "\<lambda>ops _. \<forall>b. SetBlockHeight b \<notin> set ops" "of_user u" "rate_left u" for X C u
proof
  fix op ops p
  assume "\<forall>b. SetBlockHeight b \<notin> set (op # ops)"
  then show "of_user u (snd (pool_step X C p op)) + rate_left u (fst (pool_step X C p op)) \<le> rate_left u p"
    using rate_left_admit [of u X C p]
    by (cases op) (auto simp: pool_rate_frame, auto simp: of_user_def)
qed simp

section \<open>Lemmas: choosing a batch\<close>

definition intent_key :: "pool_intent \<Rightarrow> int \<times> u64 \<times> bytes32" where
  "intent_key t = drain_key (in_intent_id t, in_tip_or_0 t, in_deadline t)"

definition open_intents :: "intent_pool \<Rightarrow> pool_intent list" where
  "open_intents p = map pe_intent (filter (\<lambda>e. lr_state (pe_lifecycle e) = Open) (bt_values (ip_entries p)))"

lemma drain_eq:
  assumes "pool_wf p"
  shows "drain_open_for_batch k p = take k (sort_key intent_key (open_intents p))"
proof -
  let ?E = "filter (\<lambda>e. lr_state (pe_lifecycle e) = Open) (bt_values (ip_entries p))"
  let ?c = "\<lambda>e. (in_intent_id (pe_intent e), in_tip_or_0 (pe_intent e), in_deadline (pe_intent e))"
  define es where "es = take k (sort_key (\<lambda>e. intent_key (pe_intent e)) ?E)"
  have in_pool: "bt_get (ip_entries p) (in_intent_id (pe_intent e)) = Some e" if "e \<in> set es" for e
  proof -
    have "e \<in> set (bt_values (ip_entries p))" using that set_take_subset by (fastforce simp: es_def)
    then show ?thesis using assms by (force simp: pool_wf_def bt_values_in entry_ok_def)
  qed
  have "take k (sort_key drain_key (map ?c ?E)) = map ?c es"
    by (simp add: sort_key_map take_map es_def intent_key_def)
  then have "drain_open_for_batch k p =
      List.map_filter (\<lambda>i. map_option pe_intent (bt_get (ip_entries p) i)) (map (\<lambda>e. in_intent_id (pe_intent e)) es)"
    by (simp add: drain_open_for_batch_def comp_def)
  also have "\<dots> = List.map_filter (\<lambda>e. map_option pe_intent (bt_get (ip_entries p) (in_intent_id (pe_intent e)))) es"
    by (simp add: List.map_filter_def comp_def filter_map)
  also have "\<dots> = map pe_intent es" by (rule map_filter_total) (simp add: in_pool)
  also have "\<dots> = take k (sort_key intent_key (open_intents p))"
    by (simp add: es_def open_intents_def sort_key_map take_map)
  finally show ?thesis .
qed

lemma open_intents_distinct:
  assumes "pool_wf p" shows "distinct (map in_intent_id (open_intents p))"
proof -
  have "map (\<lambda>e. in_intent_id (pe_intent e)) (bt_values (ip_entries p)) = map fst (ip_entries p)"
    using assms by (auto simp: bt_values_def pool_wf_def entry_ok_def bt_in_get)
  then have "distinct (map (\<lambda>e. in_intent_id (pe_intent e)) (bt_values (ip_entries p)))"
    using assms by (simp add: pool_wf_def bt_ok_distinct)
  then show ?thesis by (simp add: open_intents_def comp_def distinct_map_filter)
qed

section \<open>Lemmas: life cycles\<close>

fun life_path :: "intent_state \<Rightarrow> intent_state list \<Rightarrow> bool" where
  "life_path s [] \<longleftrightarrow> True"
| "life_path s (t # ts) \<longleftrightarrow> valid_transition s t \<and> life_path t ts"

definition life_step :: "lifecycle_record \<Rightarrow> intent_state \<times> u64 \<Rightarrow> lifecycle_record \<times> intent_state list" where
  "life_step r a = (fst (transition_to (fst a) (snd a) r),
     if isl (snd (transition_to (fst a) (snd a) r)) then [] else [fst a])"

lemma life_run_path: "life_path (lr_state r) (concat (snd (run life_step r as)))"
proof (induction as arbitrary: r)
  case (Cons a as)
  have "life_path (lr_state (fst (life_step r a))) (concat (snd (run life_step (fst (life_step r a)) as)))"
    by (rule Cons.IH)
  then show ?case
    by (auto simp: run_Cons life_step_def [of r a] transition_to_def transition_def)
qed simp

lemma life_path_from:
  "life_path Settled ts \<longleftrightarrow> ts = []" "life_path Expired ts \<longleftrightarrow> ts = []" "life_path Cancelled ts \<longleftrightarrow> ts = []"
  "life_path Slashed ts \<longleftrightarrow> ts = []" "life_path Disputed ts \<longleftrightarrow> ts = [] \<or> ts = [Slashed]"
  "life_path Executed ts \<longleftrightarrow> ts = [] \<or> ts = [Settled] \<or> ts = [Disputed] \<or> ts = [Disputed, Slashed]"
  by (cases ts; cases "tl ts"; cases "tl (tl ts)"; auto simp: valid_transition_def)+

lemma life_path_early:
  "life_path Sequenced ts \<longleftrightarrow> ts = [] \<or> (\<exists>us. ts = Executed # us \<and> life_path Executed us)"
  "life_path Matched ts \<longleftrightarrow> ts = [] \<or> ts = [Expired] \<or> ts = [Cancelled] \<or> (\<exists>us. ts = Sequenced # us \<and> life_path Sequenced us)"
  "life_path Open ts \<longleftrightarrow> ts = [] \<or> ts = [Expired] \<or> ts = [Cancelled] \<or> (\<exists>us. ts = Matched # us \<and> life_path Matched us)"
  "life_path Admitted ts \<longleftrightarrow> ts = [] \<or> (\<exists>us. ts = Open # us \<and> life_path Open us)"
  by (cases ts; auto simp: valid_transition_def life_path_from)+

section \<open>A concrete pool\<close>

definition extern_sample :: extern where
  "extern_sample = extern_std\<lparr>x_sha256 := (\<lambda>bs. of_nat (length bs))\<rparr>"

definition pool_codec_sample :: pool_codec where
  "pool_codec_sample = \<lparr>pc_kind_bytes = (\<lambda>k. [type_tag k]), pc_intent_size = (\<lambda>t. 200)\<rparr>"

definition sample_payment :: pool_intent where
  "sample_payment =
     \<lparr>in_intent_id = 50, in_intent_type = KindPayment \<lparr>py_asset = asset_native 9, py_amount = 10, py_recipient = 2, py_memo = None\<rparr>,
      in_version = 1, in_user = 1, in_nonce = 1, in_recipient = None, in_deadline = 100, in_valid_from = None,
      in_max_fee = 20, in_tip = Some 5, in_partial_fill_allowed = False,
      in_solver_permissions = solver_permissions_default, in_execution_preferences = execution_prefs_default,
      in_witness_hash = None, in_signature = [1], in_metadata = []\<rparr>"

lemma sample_payment_id [simp]: "in_intent_id sample_payment = 50"
  by (simp add: sample_payment_def)

lemma sample_admitted:
  "pool_admit extern_sample pool_codec_sample sample_payment pool_new =
     (pool_insert pool_codec_sample sample_payment (pool_new\<lparr>ip_rate_tracker := [(1, (0, 1))], ip_nonce_tracker := [(1, 1)]\<rparr>),
      Inr (from_intent pool_codec_sample sample_payment))"
  by (simp add: pool_admit_def validate_basic_def verify_intent_id_def compute_intent_id_def extern_sample_def
      pool_codec_sample_def sample_payment_def pool_new_def MIN_INTENT_FEE_BPS_def bt_has_def MAX_INTENT_SIZE_def
      MIN_INTENT_LIFETIME_def check_and_increment_def MAX_INTENTS_PER_BLOCK_PER_USER_def nonce_check_and_record_def
      MAX_POOL_SIZE_def Let_def)

definition sample_pool :: intent_pool where
  "sample_pool = fst (run (pool_step extern_sample pool_codec_sample) pool_new [DoAdmit sample_payment, OpenAdmitted])"

lemma sample_pool_wf: "pool_wf sample_pool"
  unfolding sample_pool_def
  by (rule pool.run_inv) (rule pool_new_wf)

lemma sample_pool_eval:
  "ip_entries sample_pool = [(50, \<lparr>pe_intent = sample_payment,
     pe_lifecycle = (lifecycle_new 50 0)\<lparr>lr_state := Open\<rparr>\<rparr>)]"
  by (simp add: sample_pool_def run_Cons sample_admitted)
    (simp add: open_admitted_intents_def pool_insert_def pool_new_def entry_transition_def transition_to_def transition_def valid_transition_def lifecycle_new_def sample_payment_id)

section \<open>Properties\<close>

text \<open>
  C30. Along every sequence of the pool's operations the indexes agree: the insertion order lists exactly the
  entries, each once; every entry is stored under its intent's id, was seen, and is admitted, open or
  matched (matched exactly when a bundle is recorded); and the pool never exceeds its capacity.
\<close>

theorem pool_indexes_agree:
  "pool_wf (fst (run (pool_step X C) pool_new ops))"
  by (rule pool.run_inv) (rule pool_new_wf)

text \<open>
  C31. No intent id and no nonce of a user is admitted twice, whatever was removed, evicted, expired or
  cancelled in between.
\<close>

theorem pool_admits_each_intent_and_nonce_once:
  defines "admitted \<equiv> \<lambda>X C ops. concat (snd (run (pool_step X C) pool_new ops))"
  shows "distinct (map in_intent_id (admitted X C ops)) \<and>
    distinct (map (\<lambda>t. (in_user t, in_nonce t)) (admitted X C ops))"
  using pool_ids.run_once [of X C pool_new ops] pool_nonces.run_once [of X C pool_new ops]
  by (simp add: admitted_def map_concat)

text \<open>
  Between two changes of the block height a user gets at most ten intents admitted.
\<close>

theorem pool_rate_limit:
  assumes "\<forall>b. SetBlockHeight b \<notin> set ops"
  shows "length (filter (\<lambda>t. in_user t = u) (concat (snd (run (pool_step X C) p ops)))) \<le> 10"
proof -
  have "length (filter (\<lambda>t. in_user t = u) (concat (snd (run (pool_step X C) p ops)))) =
      sum_list (map (of_user u) (snd (run (pool_step X C) p ops)))"
    by (simp add: of_user_def [abs_def] filter_concat length_concat comp_def)
  moreover have "rate_left u p \<le> 10" by (auto simp: rate_left_def split: option.split)
  ultimately show ?thesis using pool_rate.run_budget [OF assms, of u X C p] by linarith
qed

theorem pool_rate_limit_witness:
  "concat (snd (run (pool_step extern_sample pool_codec_sample) pool_new [DoAdmit sample_payment])) = [sample_payment] \<and>
   length (filter (\<lambda>t. in_user t = 1) (concat (snd (run (pool_step extern_sample pool_codec_sample) pool_new [DoAdmit sample_payment])))) \<le> 10"
  using pool_rate_limit [of "[DoAdmit sample_payment]" 1 extern_sample pool_codec_sample pool_new] sample_admitted
  by (simp add: run_Cons)

text \<open>
  A batch takes the best open intents: at most the requested number and as many as there are, each once,
  ordered by tip (highest first), then deadline, then id; an open intent left out ranks after all taken.
\<close>

theorem drain_takes_the_best_open_intents:
  fixes k :: usize
  assumes "pool_wf p"
  defines "batch \<equiv> drain_open_for_batch k p"
  shows "length batch = min (length (open_intents p)) k \<and> sorted (map intent_key batch) \<and>
    distinct (map in_intent_id batch) \<and> set batch \<subseteq> set (open_intents p) \<and>
    (\<forall>t \<in> set batch. \<forall>u \<in> set (open_intents p) - set batch. intent_key t \<le> intent_key u)"
proof -
  have b: "batch = take k (sort_key intent_key (open_intents p))" by (simp add: batch_def drain_eq [OF assms(1)])
  note best = take_sort_key [where k = k and f = intent_key and xs = "open_intents p", folded b]
  have "distinct (map in_intent_id (sort_key intent_key (open_intents p)))"
    using open_intents_distinct [OF assms(1)] by (simp add: distinct_map)
  then have "distinct (map in_intent_id batch)" by (simp add: b take_map [symmetric])
  with best show ?thesis by blast
qed

theorem drain_takes_the_best_open_intents_witness:
  "drain_open_for_batch 5 sample_pool = [sample_payment] \<and> set (drain_open_for_batch 5 sample_pool) \<subseteq> set (open_intents sample_pool) \<and>
   length (drain_open_for_batch 5 sample_pool) = min (length (open_intents sample_pool)) 5"
proof -
  have "drain_open_for_batch 5 sample_pool = [sample_payment]"
    by (simp add: drain_eq sample_pool_wf) (simp add: sample_pool_eval open_intents_def bt_values_def)
  then show ?thesis using drain_takes_the_best_open_intents [OF sample_pool_wf, of 5] by simp
qed

text \<open>
  C32. Every life cycle ends: whatever transitions are attempted on a new record, at most six succeed, none
  after a terminal state, and a settled intent went through matching, sequencing and execution, in order.
\<close>

theorem lifecycle_ends:
  defines "visited \<equiv> \<lambda>i b attempts. concat (snd (run life_step (lifecycle_new i b) attempts))"
  shows "length (visited i b attempts) \<le> 6 \<and>
    (Settled \<in> set (visited i b attempts) \<longrightarrow> visited i b attempts = [Open, Matched, Sequenced, Executed, Settled]) \<and>
    (\<forall>pre s post. visited i b attempts = pre @ s # post \<and> state_is_terminal s \<longrightarrow> post = [])"
proof -
  have lp: "life_path Admitted (visited i b attempts)"
    using life_run_path [of "lifecycle_new i b" attempts] by (simp add: visited_def lifecycle_new_def)
  have last: "life_path s ts \<Longrightarrow> ts = pre @ x # post \<Longrightarrow> state_is_terminal x \<Longrightarrow> post = []" for s ts pre x post
    by (induction pre arbitrary: s ts) (auto simp: state_is_terminal_def life_path_from)
  have "length (visited i b attempts) \<le> 6"
    "Settled \<in> set (visited i b attempts) \<longrightarrow> visited i b attempts = [Open, Matched, Sequenced, Executed, Settled]"
    using lp by (auto simp: life_path_early life_path_from)
  with last [OF lp] show ?thesis by blast
qed

theorem lifecycle_ends_witness:
  "concat (snd (run life_step (lifecycle_new 1 0) [(Open, 1), (Settled, 2), (Matched, 2), (Sequenced, 3), (Executed, 4), (Settled, 5), (Open, 6)]))
     = [Open, Matched, Sequenced, Executed, Settled]"
proof -
  let ?r = "run life_step (lifecycle_new 1 0) [(Open, 1), (Settled, 2), (Matched, 2), (Sequenced, 3), (Executed, 4), (Settled, 5), (Open, 6)]"
  have "Settled \<in> set (concat (snd ?r))"
    by (simp add: run_Cons life_step_def transition_to_def transition_def valid_transition_def lifecycle_new_def)
  then show ?thesis
    using lifecycle_ends [of 1 0 "[(Open, 1), (Settled, 2), (Matched, 2), (Sequenced, 3), (Executed, 4), (Settled, 5), (Open, 6)]"]
    by blast
qed

text \<open>
  A user whose recorded nonce is one below the largest is locked out: the gap test adds to the recorded nonce
  without a check, the sum wraps, and the only remaining nonce is refused as too far ahead.
\<close>

theorem nonce_gap_wraps:
  "nonce_check_and_record 1 18446744073709551615 [(1, 18446744073709551614)] =
     ([(1, 18446744073709551614)], Inl (NonceGapTooLarge 18446744073709551615 18446744073709551615))"
  by (simp add: nonce_check_and_record_def MAX_NONCE_GAP_def bt_get_def)

end
