(* ===== verification/Auction.thy ===== *)
theory Auction
  imports Intent_Pool "HOL-Library.Multiset"
begin

text \<open>
  The sequencer's commit-reveal auction of solver bundles, \<^verbatim>\<open>poseq/src/auction/\<close>: commitments and reveals
  (\<^verbatim>\<open>types.rs\<close>), one batch window (\<^verbatim>\<open>state.rs\<close>), the choice and order of the winning bundles
  (\<^verbatim>\<open>ordering.rs\<close>) and the data-availability checks (\<^verbatim>\<open>da_checks.rs\<close>); and the finality commitment
  validators vote on with its pre-vote checks, \<^verbatim>\<open>finality/commitment.rs\<close> and \<^verbatim>\<open>finality/validator_checks.rs\<close>.
  Shown: bids are sealed, reveals open their commitments, the winners are best for their intents and do not
  depend on the order in which reveals arrive, and validators who accept a commitment agree on the bundles.

  The serializer is a parameter (\<open>bundle_codec\<close>), SHA-256 the one of \<open>extern\<close>.
\<close>

section \<open>Bundles\<close>

definition COMMIT_PHASE_BLOCKS :: u64 where "COMMIT_PHASE_BLOCKS = 5"
definition REVEAL_PHASE_BLOCKS :: u64 where "REVEAL_PHASE_BLOCKS = 3"
definition MAX_COMMITMENTS_PER_SOLVER_PER_WINDOW :: usize where "MAX_COMMITMENTS_PER_SOLVER_PER_WINDOW = 10"
definition MAX_BUNDLE_STEPS :: usize where "MAX_BUNDLE_STEPS = 64"
definition COMMIT_WITHOUT_REVEAL_PENALTY_BPS :: u64 where "COMMIT_WITHOUT_REVEAL_PENALTY_BPS = 100"

datatype access_type = AccessRead | AccessWrite

record resource_access =
  ra_resource_id :: bytes32
  ra_access_type :: access_type

definition resource_read :: "bytes32 \<Rightarrow> resource_access" where
  "resource_read i = \<lparr>ra_resource_id = i, ra_access_type = AccessRead\<rparr>"

definition resource_write :: "bytes32 \<Rightarrow> resource_access" where
  "resource_write i = \<lparr>ra_resource_id = i, ra_access_type = AccessWrite\<rparr>"

definition bundles_conflict :: "resource_access list \<Rightarrow> resource_access list \<Rightarrow> bool" where
  "bundles_conflict a b \<longleftrightarrow>
     (\<exists>ra \<in> set a. \<exists>rb \<in> set b. ra_resource_id ra = ra_resource_id rb \<and>
        (ra_access_type ra = AccessWrite \<or> ra_access_type rb = AccessWrite))"

datatype operation_type =
    OpDebit | OpCredit | OpSwap | OpLock | OpUnlock | OpCreate | OpDestroy | OpTransfer | OpContractCall

record operation_params =
  op_asset :: "asset_id option"
  op_amount :: "u128 option"
  op_recipient :: "bytes32 option"
  op_pool_id :: "bytes32 option"
  op_custom_data :: "bytes option"

record execution_step =
  es_step_index :: u16
  es_operation :: operation_type
  es_object_id :: bytes32
  es_read_set :: "bytes32 list"
  es_write_set :: "bytes32 list"
  es_params :: operation_params

record predicted_output =
  po_intent_id :: bytes32
  po_asset_out :: asset_id
  po_amount_out :: u128
  po_fee_charged_bps :: u64

definition user_outcome_score :: "predicted_output \<Rightarrow> u128" where
  "user_outcome_score o1 = sat_mul (po_amount_out o1) (sat_sub 10000 (to_u128 (po_fee_charged_bps o1))) div 10000"

record fee_breakdown =
  fbd_solver_fee_bps :: u64
  fbd_protocol_fee_bps :: u64
  fbd_total_fee_bps :: u64

datatype liquidity_type = LiquidityPool | LiquidityVault | LiquidityExternal

record liquidity_source =
  ls_source_type :: liquidity_type
  ls_source_id :: bytes32
  ls_asset :: asset_id
  ls_amount_used :: u128

record bundle_commitment =
  bc_bundle_id :: bytes32
  bc_solver_id :: bytes32
  bc_batch_window :: u64
  bc_target_intent_count :: u16
  bc_commitment_hash :: bytes32
  bc_expected_outputs_hash :: bytes32
  bc_execution_plan_hash :: bytes32
  bc_valid_until :: u64
  bc_bond_locked :: u128
  bc_signature :: bytes

definition is_valid_at :: "bundle_commitment \<Rightarrow> u64 \<Rightarrow> bool" where
  "is_valid_at c block \<longleftrightarrow> block \<le> bc_valid_until c"

record bundle_reveal =
  br_bundle_id :: bytes32
  br_solver_id :: bytes32
  br_batch_window :: u64
  br_target_intent_ids :: "bytes32 list"
  br_execution_steps :: "execution_step list"
  br_liquidity_sources :: "liquidity_source list"
  br_predicted_outputs :: "predicted_output list"
  br_fee_breakdown :: fee_breakdown
  br_resource_declarations :: "resource_access list"
  br_nonce :: bytes32
  br_proof_data :: bytes
  br_signature :: bytes

record bundle_codec =
  cd_steps :: "execution_step list \<Rightarrow> bytes"
  cd_outputs :: "predicted_output list \<Rightarrow> bytes"
  cd_fees :: "fee_breakdown \<Rightarrow> bytes"

definition commitment_preimage :: "bundle_codec \<Rightarrow> bundle_reveal \<Rightarrow> bytes" where
  "commitment_preimage C r =
     be_bytes 32 (br_bundle_id r) @ be_bytes 32 (br_solver_id r) @ cd_steps C (br_execution_steps r)
       @ cd_outputs C (br_predicted_outputs r) @ cd_fees C (br_fee_breakdown r) @ be_bytes 32 (br_nonce r)"

definition compute_commitment_hash :: "extern \<Rightarrow> bundle_codec \<Rightarrow> bundle_reveal \<Rightarrow> bytes32" where
  "compute_commitment_hash X C r = x_sha256 X (commitment_preimage C r)"

definition compute_expected_outputs_hash :: "extern \<Rightarrow> bundle_codec \<Rightarrow> bundle_reveal \<Rightarrow> bytes32" where
  "compute_expected_outputs_hash X C r = x_sha256 X (cd_outputs C (br_predicted_outputs r))"

definition compute_execution_plan_hash :: "extern \<Rightarrow> bundle_codec \<Rightarrow> bundle_reveal \<Rightarrow> bytes32" where
  "compute_execution_plan_hash X C r = x_sha256 X (cd_steps C (br_execution_steps r))"

datatype reveal_validation_error =
    BundleIdMismatch | SolverIdMismatch | BatchWindowMismatch | CommitmentHashMismatch bytes32 bytes32
  | OutputsHashMismatch | PlanHashMismatch | NoMatchingCommitmentForReveal | RevealPhaseNotOpen | RevealPhaseOver
  | SolverNotActive | SolverInsufficientBond | IntentNotFound bytes32 | IntentExpired bytes32
  | FeeExceedsMax bytes32 u64 u64 | OutputBelowMin bytes32 u128 u128 | TooManyRevealSteps usize usize
  | DuplicateRevealOf

definition verify_against_commitment ::
  "extern \<Rightarrow> bundle_codec \<Rightarrow> bundle_reveal \<Rightarrow> bundle_commitment \<Rightarrow> reveal_validation_error + unit" where
  "verify_against_commitment X C r c =
     (if br_bundle_id r \<noteq> bc_bundle_id c then Inl BundleIdMismatch
      else if br_solver_id r \<noteq> bc_solver_id c then Inl SolverIdMismatch
      else if br_batch_window r \<noteq> bc_batch_window c then Inl BatchWindowMismatch
      else if compute_commitment_hash X C r \<noteq> bc_commitment_hash c then
        Inl (CommitmentHashMismatch (bc_commitment_hash c) (compute_commitment_hash X C r))
      else if compute_expected_outputs_hash X C r \<noteq> bc_expected_outputs_hash c then Inl OutputsHashMismatch
      else if compute_execution_plan_hash X C r \<noteq> bc_execution_plan_hash c then Inl PlanHashMismatch
      else Inr ())"

text \<open>\<^verbatim>\<open>iter().max().unwrap_or(0)\<close> and \<^verbatim>\<open>iter().sum()\<close>, which wraps.\<close>

definition max_or_0 :: "u128 list \<Rightarrow> u128" where
  "max_or_0 xs = fold max xs 0"

definition best_user_outcome :: "bundle_reveal \<Rightarrow> u128" where
  "best_user_outcome r = max_or_0 (map user_outcome_score (br_predicted_outputs r))"

definition total_user_outcome :: "bundle_reveal \<Rightarrow> u128" where
  "total_user_outcome r = sum_list (map user_outcome_score (br_predicted_outputs r))"

record sequenced_bundle =
  sb_bundle_id :: bytes32
  sb_solver_id :: bytes32
  sb_target_intent_ids :: "bytes32 list"
  sb_execution_steps :: "execution_step list"
  sb_predicted_outputs :: "predicted_output list"
  sb_resource_declarations :: "resource_access list"
  sb_sequence_index :: u32

section \<open>The auction of one batch window\<close>

datatype auction_phase = PhaseCommit | PhaseReveal | PhaseSelection | PhaseClosed

record auction_window =
  aw_batch_window :: u64
  aw_commit_start_block :: u64
  aw_reveal_start_block :: u64
  aw_selection_block :: u64
  aw_commitments :: "(bytes32, bundle_commitment) btree"
  aw_solver_commitment_counts :: "(bytes32, usize) btree"
  aw_reveals :: "(bytes32, bundle_reveal) btree"
  aw_committed_but_not_revealed :: "bytes32 set"

definition auction_new :: "u64 \<Rightarrow> u64 \<Rightarrow> auction_window" where
  "auction_new batch_window start_block =
     \<lparr>aw_batch_window = batch_window, aw_commit_start_block = start_block,
      aw_reveal_start_block = start_block + COMMIT_PHASE_BLOCKS,
      aw_selection_block = start_block + COMMIT_PHASE_BLOCKS + REVEAL_PHASE_BLOCKS,
      aw_commitments = [], aw_solver_commitment_counts = [], aw_reveals = [], aw_committed_but_not_revealed = {}\<rparr>"

definition phase_at :: "auction_window \<Rightarrow> u64 \<Rightarrow> auction_phase" where
  "phase_at w block =
     (if block < aw_reveal_start_block w then PhaseCommit
      else if block < aw_selection_block w then PhaseReveal
      else if block = aw_selection_block w then PhaseSelection
      else PhaseClosed)"

datatype auction_error =
    CommitPhaseEnded | RevealPhaseNotStarted | RevealPhaseClosed | DuplicateCommitment bytes32
  | DuplicateReveal bytes32 | NoMatchingCommitment bytes32 | MaxCommitmentsExceeded bytes32 usize
  | TooManySteps usize usize | RevealValidation reveal_validation_error | WindowClosed

definition count_of :: "bytes32 \<Rightarrow> (bytes32, usize) btree \<Rightarrow> usize" where
  "count_of s m = (case bt_get m s of None \<Rightarrow> 0 | Some n \<Rightarrow> n)"

text \<open>\<^verbatim>\<open>entry(solver).or_insert(0)\<close> creates the counter before the checks that may refuse.\<close>

definition record_commitment ::
  "bundle_commitment \<Rightarrow> u64 \<Rightarrow> auction_window \<Rightarrow> auction_window \<times> (auction_error + unit)" where
  "record_commitment c block w =
     (if phase_at w block \<noteq> PhaseCommit then (w, Inl CommitPhaseEnded)
      else
      let count = count_of (bc_solver_id c) (aw_solver_commitment_counts w);
          w1 = w\<lparr>aw_solver_commitment_counts := bt_put (bc_solver_id c) count (aw_solver_commitment_counts w)\<rparr>
      in if count \<ge> MAX_COMMITMENTS_PER_SOLVER_PER_WINDOW then
           (w1, Inl (MaxCommitmentsExceeded (bc_solver_id c) MAX_COMMITMENTS_PER_SOLVER_PER_WINDOW))
         else if bt_has (aw_commitments w1) (bc_bundle_id c) then (w1, Inl (DuplicateCommitment (bc_bundle_id c)))
         else (w1\<lparr>aw_commitments := bt_put (bc_bundle_id c) c (aw_commitments w1),
                  aw_solver_commitment_counts := bt_put (bc_solver_id c)
                    (count_of (bc_solver_id c) (aw_solver_commitment_counts w1) + 1) (aw_solver_commitment_counts w1)\<rparr>,
               Inr ()))"

definition auction_record_reveal ::
  "extern \<Rightarrow> bundle_codec \<Rightarrow> bundle_reveal \<Rightarrow> u64 \<Rightarrow> auction_window \<Rightarrow> auction_window \<times> (auction_error + unit)" where
  "auction_record_reveal X C r block w =
     (if phase_at w block = PhaseCommit then (w, Inl RevealPhaseNotStarted)
      else if phase_at w block \<noteq> PhaseReveal then (w, Inl RevealPhaseClosed)
      else if bt_has (aw_reveals w) (br_bundle_id r) then (w, Inl (DuplicateReveal (br_bundle_id r)))
      else
      case bt_get (aw_commitments w) (br_bundle_id r) of
        None \<Rightarrow> (w, Inl (NoMatchingCommitment (br_bundle_id r)))
      | Some c \<Rightarrow>
      case verify_against_commitment X C r c of
        Inl e \<Rightarrow> (w, Inl (RevealValidation e))
      | Inr _ \<Rightarrow>
      if length (br_execution_steps r) > MAX_BUNDLE_STEPS then
        (w, Inl (TooManySteps (length (br_execution_steps r)) MAX_BUNDLE_STEPS))
      else (w\<lparr>aw_reveals := bt_put (br_bundle_id r) r (aw_reveals w)\<rparr>, Inr ()))"

record no_reveal_record =
  nr_bundle_id :: bytes32
  nr_solver_id :: bytes32
  nr_batch_window :: u64
  nr_bond_locked :: u128
  nr_penalty_bps :: u64

definition penalty_amount :: "no_reveal_record \<Rightarrow> u128" where
  "penalty_amount n = nr_bond_locked n * to_u128 (nr_penalty_bps n) div 10000"

definition finalize_no_reveals :: "auction_window \<Rightarrow> auction_window \<times> no_reveal_record list" where
  "finalize_no_reveals w =
     (let missing = filter (\<lambda>(i, c). \<not> bt_has (aw_reveals w) i) (aw_commitments w)
      in (w\<lparr>aw_committed_but_not_revealed := (bc_solver_id \<circ> snd) ` set missing\<rparr>,
          map (\<lambda>(i, c). \<lparr>nr_bundle_id = i, nr_solver_id = bc_solver_id c, nr_batch_window = aw_batch_window w,
                 nr_bond_locked = bc_bond_locked c, nr_penalty_bps = COMMIT_WITHOUT_REVEAL_PENALTY_BPS\<rparr>) missing))"

definition valid_reveals :: "auction_window \<Rightarrow> bundle_reveal list" where
  "valid_reveals w = bt_values (aw_reveals w)"

text \<open>The nested loops that group reveals by target intent, also step 2 of the ordering.\<close>

definition group_by_intent :: "bundle_reveal list \<Rightarrow> (bytes32, bundle_reveal list) btree" where
  "group_by_intent rs = fold (\<lambda>r m. fold (\<lambda>i. bt_push i r) (br_target_intent_ids r) m) rs []"

definition reveals_by_intent :: "auction_window \<Rightarrow> (bytes32, bundle_reveal list) btree" where
  "reveals_by_intent w = group_by_intent (bt_values (aw_reveals w))"

section \<open>Ordering\<close>

record intent_ordering_meta =
  im_intent_id :: bytes32
  im_deadline :: u64
  im_tip :: u64

record intent_ordering_result =
  ior_ordered_bundles :: "sequenced_bundle list"
  ior_sequence_root :: bytes32
  ior_total_intents_filled :: u32
  ior_total_bundles_received :: u32
  ior_total_bundles_valid :: u32

definition outcome_score_for_intent :: "bundle_reveal \<Rightarrow> bytes32 \<Rightarrow> u128" where
  "outcome_score_for_intent r i =
     max_or_0 (map user_outcome_score (filter (\<lambda>o1. po_intent_id o1 = i) (br_predicted_outputs r)))"

definition tiebreak_preimage :: "bytes32 \<Rightarrow> bytes32 \<Rightarrow> u64 \<Rightarrow> bytes" where
  "tiebreak_preimage b i window = be_bytes 32 b @ be_bytes 32 i @ be_bytes 8 window"

definition tiebreak_key :: "extern \<Rightarrow> bytes32 \<Rightarrow> bytes32 \<Rightarrow> u64 \<Rightarrow> bytes32" where
  "tiebreak_key X b i window = x_sha256 X (tiebreak_preimage b i window)"

definition canonical_sort_key :: "extern \<Rightarrow> bytes32 \<Rightarrow> u64 \<Rightarrow> bytes32" where
  "canonical_sort_key X i window = x_sha256 X (be_bytes 32 i @ be_bytes 8 window)"

definition compute_sequence_root :: "extern \<Rightarrow> sequenced_bundle list \<Rightarrow> bytes32" where
  "compute_sequence_root X bs = x_sha256 X (concat (map (\<lambda>b. be_bytes 32 (sb_bundle_id b)) bs))"

text \<open>The keys of the two comparators: a descending comparison is one of the negated number.\<close>

definition candidate_key :: "extern \<Rightarrow> u64 \<Rightarrow> bytes32 \<Rightarrow> bundle_reveal \<Rightarrow> int \<times> bytes32" where
  "candidate_key X window i r = (- uint (outcome_score_for_intent r i), tiebreak_key X (br_bundle_id r) i window)"

definition winner_key ::
  "extern \<Rightarrow> u64 \<Rightarrow> (bytes32, intent_ordering_meta) btree \<Rightarrow> bytes32 \<times> bundle_reveal \<Rightarrow> u64 \<times> int \<times> bytes32" where
  "winner_key X window meta e =
     (case bt_get meta (fst e) of
        Some m \<Rightarrow> (im_deadline m, - uint (im_tip m), canonical_sort_key X (fst e) window)
      | None \<Rightarrow> (- 1, 0, canonical_sort_key X (fst e) window))"

definition select_winners ::
  "extern \<Rightarrow> u64 \<Rightarrow> (bytes32, bundle_reveal list) btree \<Rightarrow> (bytes32, bundle_reveal) btree" where
  "select_winners X window grouped =
     fold (\<lambda>(i, candidates) ws. case sort_key (candidate_key X window i) candidates of
                                  [] \<Rightarrow> ws | w # _ \<Rightarrow> bt_put i w ws) grouped []"

fun unique_winners :: "bytes32 set \<Rightarrow> (bytes32 \<times> bundle_reveal) list \<Rightarrow> (bytes32 \<times> bundle_reveal) list" where
  "unique_winners seen [] = []"
| "unique_winners seen ((i, r) # ws) =
     (if br_bundle_id r \<in> seen then unique_winners seen ws
      else (i, r) # unique_winners (insert (br_bundle_id r) seen) ws)"

definition sequence_bundle :: "usize \<Rightarrow> bundle_reveal \<Rightarrow> sequenced_bundle" where
  "sequence_bundle n r =
     \<lparr>sb_bundle_id = br_bundle_id r, sb_solver_id = br_solver_id r, sb_target_intent_ids = br_target_intent_ids r,
      sb_execution_steps = br_execution_steps r, sb_predicted_outputs = br_predicted_outputs r,
      sb_resource_declarations = br_resource_declarations r, sb_sequence_index = of_nat n\<rparr>"

definition order_bundles_with_meta ::
  "extern \<Rightarrow> bundle_reveal list \<Rightarrow> u64 \<Rightarrow> (bytes32, intent_ordering_meta) btree \<Rightarrow> intent_ordering_result" where
  "order_bundles_with_meta X reveals window meta =
     (let winners = select_winners X window (group_by_intent reveals);
          ordered = sort_key (winner_key X window meta) (unique_winners {} winners);
          bundles = map (\<lambda>(n, (_, r)). sequence_bundle n r) (enumerate 0 ordered)
      in \<lparr>ior_ordered_bundles = bundles, ior_sequence_root = compute_sequence_root X bundles,
          ior_total_intents_filled = of_nat (length winners),
          ior_total_bundles_received = of_nat (length reveals), ior_total_bundles_valid = of_nat (length reveals)\<rparr>)"

definition order_bundles :: "extern \<Rightarrow> bundle_reveal list \<Rightarrow> u64 \<Rightarrow> intent_ordering_result" where
  "order_bundles X reveals window = order_bundles_with_meta X reveals window []"

section \<open>Data availability\<close>

datatype da_failure =
    PayloadIncomplete | CommitmentUnavailable bytes32 | IntentUnavailable bytes32
  | InsufficientReplication usize usize | CommitmentExpired bytes32 u64 u64 | SolverInactive bytes32 bytes32
  | ZeroBondLocked bytes32

definition commitment_failures ::
  "(bytes32, bundle_commitment) btree \<Rightarrow> bytes32 set \<Rightarrow> u64 \<Rightarrow> sequenced_bundle \<Rightarrow> da_failure list" where
  "commitment_failures available active block b =
     (case bt_get available (sb_bundle_id b) of
        None \<Rightarrow> [CommitmentUnavailable (sb_bundle_id b)]
      | Some c \<Rightarrow>
          (if \<not> is_valid_at c block then [CommitmentExpired (sb_bundle_id b) (bc_valid_until c) block] else [])
          @ (if bc_solver_id c \<notin> active then [SolverInactive (sb_bundle_id b) (bc_solver_id c)] else [])
          @ (if bc_bond_locked c = 0 then [ZeroBondLocked (sb_bundle_id b)] else []))"

text \<open>The failures; the check passes when there are none.\<close>

definition validate_da ::
  "sequenced_bundle list \<Rightarrow> (bytes32, bundle_commitment) btree \<Rightarrow> bytes32 set \<Rightarrow> bytes32 set \<Rightarrow> u64 \<Rightarrow> bool
     \<Rightarrow> da_failure list" where
  "validate_da bundles available known_intents active block complete =
     (if complete then [] else [PayloadIncomplete])
     @ concat (map (commitment_failures available active block) bundles)
     @ concat (map (\<lambda>b. map IntentUnavailable (filter (\<lambda>i. i \<notin> known_intents) (sb_target_intent_ids b))) bundles)"

record da_failure_tracker =
  dt_consecutive_failures :: u32
  dt_threshold :: u32

definition da_tracker_new :: "u32 \<Rightarrow> da_failure_tracker" where
  "da_tracker_new threshold = \<lparr>dt_consecutive_failures = 0, dt_threshold = threshold\<rparr>"

definition da_record :: "bool \<Rightarrow> da_failure_tracker \<Rightarrow> da_failure_tracker \<times> bool" where
  "da_record passed t =
     (if passed then (t\<lparr>dt_consecutive_failures := 0\<rparr>, False)
      else (t\<lparr>dt_consecutive_failures := dt_consecutive_failures t + 1\<rparr>,
            dt_consecutive_failures t + 1 \<ge> dt_threshold t))"

definition should_force_epoch_transition :: "da_failure_tracker \<Rightarrow> bool" where
  "should_force_epoch_transition t \<longleftrightarrow> dt_consecutive_failures t \<ge> dt_threshold t"

section \<open>The finality commitment and its pre-vote checks\<close>

record finality_commitment =
  fc_sequence_id :: u64
  fc_ordered_bundle_ids :: "bytes32 list"
  fc_intent_ids :: "bytes32 list"
  fc_ordering_root :: bytes32
  fc_bundle_root :: bytes32
  fc_fairness_root :: bytes32
  fc_previous_commitment :: bytes32
  fc_proposer :: bytes32
  fc_timestamp :: u64

definition commitment_root_preimage :: "finality_commitment \<Rightarrow> bytes" where
  "commitment_root_preimage c =
     be_bytes 8 (fc_sequence_id c) @ be_bytes 32 (fc_ordering_root c) @ be_bytes 32 (fc_bundle_root c)
       @ be_bytes 32 (fc_fairness_root c) @ be_bytes 32 (fc_previous_commitment c)"

definition commitment_root :: "extern \<Rightarrow> finality_commitment \<Rightarrow> bytes32" where
  "commitment_root X c = x_sha256 X (commitment_root_preimage c)"

definition compute_bundle_root :: "extern \<Rightarrow> bytes32 list \<Rightarrow> bytes32" where
  "compute_bundle_root X hs = x_sha256 X (concat (map (be_bytes 32) hs))"

text \<open>\<^verbatim>\<open>DACheckFailed\<close> prints the failures; the model keeps them.\<close>

datatype commitment_verification_error =
    OrderingRootMismatch bytes32 bytes32 | BundleRootMismatch bytes32 bytes32 | FairnessRootMismatch bytes32 bytes32
  | MissingBundle bytes32 | MissingIntent bytes32 | DuplicateBundle bytes32 | DACheckFailed "da_failure list"
  | InvalidPreviousCommitment | SequenceGap u64 u64 | InvalidProposer bytes32

definition verify_roots :: "finality_commitment \<Rightarrow> bytes32 \<Rightarrow> bytes32 \<Rightarrow> commitment_verification_error + unit" where
  "verify_roots c ord_root bundle =
     (if fc_ordering_root c \<noteq> ord_root then Inl (OrderingRootMismatch ord_root (fc_ordering_root c))
      else if fc_bundle_root c \<noteq> bundle then Inl (BundleRootMismatch bundle (fc_bundle_root c))
      else Inr ())"

fun first_duplicate :: "bytes32 set \<Rightarrow> bytes32 list \<Rightarrow> bytes32 option" where
  "first_duplicate seen [] = None"
| "first_duplicate seen (b # bs) = (if b \<in> seen then Some b else first_duplicate (insert b seen) bs)"

record vote_context =
  vc_available_commitments :: "(bytes32, bundle_commitment) btree"
  vc_known_intent_ids :: "bytes32 set"
  vc_active_solver_ids :: "bytes32 set"
  vc_known_validators :: "bytes32 set"
  vc_expected_fairness_root :: bytes32
  vc_previous_commitment_root :: "bytes32 option"
  vc_expected_sequence_id :: u64
  vc_current_block :: u64

definition verify_commitment ::
  "extern \<Rightarrow> finality_commitment \<Rightarrow> sequenced_bundle list \<Rightarrow> vote_context \<Rightarrow> commitment_verification_error + unit" where
  "verify_commitment X c bundles v =
     (case first_duplicate {} (fc_ordered_bundle_ids c) of
        Some b \<Rightarrow> Inl (DuplicateBundle b)
      | None \<Rightarrow>
      let ord_root = compute_sequence_root X bundles;
          hashes = List.map_filter (\<lambda>b. map_option bc_commitment_hash (bt_get (vc_available_commitments v) b))
                     (fc_ordered_bundle_ids c);
          bundle_root = compute_bundle_root X hashes;
          da = validate_da bundles (vc_available_commitments v) (vc_known_intent_ids v) (vc_active_solver_ids v)
                 (vc_current_block v) True
      in if fc_ordering_root c \<noteq> ord_root then Inl (OrderingRootMismatch ord_root (fc_ordering_root c))
         else if fc_bundle_root c \<noteq> bundle_root then Inl (BundleRootMismatch bundle_root (fc_bundle_root c))
         else if fc_fairness_root c \<noteq> vc_expected_fairness_root v then
           Inl (FairnessRootMismatch (vc_expected_fairness_root v) (fc_fairness_root c))
         else case find (\<lambda>i. i \<notin> vc_known_intent_ids v) (fc_intent_ids c) of
           Some i \<Rightarrow> Inl (MissingIntent i)
         | None \<Rightarrow>
         if da \<noteq> [] then Inl (DACheckFailed da)
         else if fc_sequence_id c \<noteq> vc_expected_sequence_id v then
           Inl (SequenceGap (vc_expected_sequence_id v) (fc_sequence_id c))
         else if (case vc_previous_commitment_root v of Some r \<Rightarrow> fc_previous_commitment c \<noteq> r | None \<Rightarrow> False) then
           Inl InvalidPreviousCommitment
         else if fc_proposer c \<notin> vc_known_validators v then Inl (InvalidProposer (fc_proposer c))
         else Inr ())"

section \<open>The machine of one window\<close>

datatype auction_op = DoCommit bundle_commitment | DoReveal bundle_reveal | FinalizeNoReveals

text \<open>An operation at a block height; the output is the operation when it was accepted.\<close>

fun auction_step ::
  "extern \<Rightarrow> bundle_codec \<Rightarrow> auction_window \<Rightarrow> u64 \<times> auction_op \<Rightarrow> auction_window \<times> (u64 \<times> auction_op) list" where
  "auction_step X C w (b, DoCommit c) =
     (fst (record_commitment c b w), if isl (snd (record_commitment c b w)) then [] else [(b, DoCommit c)])"
| "auction_step X C w (b, DoReveal r) =
     (fst (auction_record_reveal X C r b w), if isl (snd (auction_record_reveal X C r b w)) then [] else [(b, DoReveal r)])"
| "auction_step X C w (b, FinalizeNoReveals) = (fst (finalize_no_reveals w), [])"

definition by_solver :: "bytes32 \<Rightarrow> bundle_commitment \<Rightarrow> nat" where
  "by_solver s c = (if bc_solver_id c = s then 1 else 0)"

definition window_ok :: "extern \<Rightarrow> bundle_codec \<Rightarrow> auction_window \<Rightarrow> bool" where
  "window_ok X C w \<longleftrightarrow> bt_ok (aw_commitments w) \<and> bt_ok (aw_reveals w) \<and>
     (\<forall>i c. bt_get (aw_commitments w) i = Some c \<longrightarrow> bc_bundle_id c = i) \<and>
     (\<forall>s. count_of s (aw_solver_commitment_counts w) = bt_total (by_solver s) (aw_commitments w) \<and>
          bt_total (by_solver s) (aw_commitments w) \<le> MAX_COMMITMENTS_PER_SOLVER_PER_WINDOW) \<and>
     (\<forall>i r. bt_get (aw_reveals w) i = Some r \<longrightarrow> br_bundle_id r = i \<and>
        length (br_execution_steps r) \<le> MAX_BUNDLE_STEPS \<and>
        (\<exists>c. bt_get (aw_commitments w) i = Some c \<and> verify_against_commitment X C r c = Inr ()))"

lemma bt_total_put_fresh: "bt_get m k = None \<Longrightarrow> bt_total w (bt_put k v m) = w v + bt_total w m"
  by (induction k v m rule: bt_put.induct) (auto simp: bt_get_Cons bt_total_def split: if_splits)

lemma count_of_put: "count_of s (bt_put k n m) = (if s = k then n else count_of s m)"
  by (simp add: count_of_def map_simps)

lemma record_commitment_ok:
  assumes "window_ok X C w" shows "window_ok X C (fst (record_commitment c b w))"
proof (cases "snd (record_commitment c b w)")
  case (Inl e)
  then show ?thesis using assms
    by (auto simp: record_commitment_def window_ok_def Let_def count_of_put split: if_splits)
next
  case (Inr u)
  let ?s = "bc_solver_id c"
  have few: "count_of ?s (aw_solver_commitment_counts w) < MAX_COMMITMENTS_PER_SOLVER_PER_WINDOW"
    and fresh: "bt_get (aw_commitments w) (bc_bundle_id c) = None"
    using Inr by (auto simp: record_commitment_def Let_def bt_has_def split: if_splits)
  have eq: "fst (record_commitment c b w) = w\<lparr>aw_commitments := bt_put (bc_bundle_id c) c (aw_commitments w),
      aw_solver_commitment_counts := bt_put ?s (Suc (count_of ?s (aw_solver_commitment_counts w)))
        (bt_put ?s (count_of ?s (aw_solver_commitment_counts w)) (aw_solver_commitment_counts w))\<rparr>"
    using Inr by (auto simp: record_commitment_def Let_def count_of_put split: if_splits)
  have unopened: "bt_get (aw_reveals w) (bc_bundle_id c) \<noteq> Some r" for r
    using assms fresh by (force simp: window_ok_def)
  have "bt_total (by_solver s) (bt_put (bc_bundle_id c) c (aw_commitments w)) =
      by_solver s c + bt_total (by_solver s) (aw_commitments w)" for s
    by (rule bt_total_put_fresh [OF fresh])
  then show ?thesis
    using assms few fresh unopened unfolding eq window_ok_def
    by (auto simp: count_of_put map_simps btm.ok_put by_solver_def split: if_splits)
qed

lemma record_reveal_ok: "window_ok X C w \<Longrightarrow> window_ok X C (fst (auction_record_reveal X C r b w))"
  by (auto simp: auction_record_reveal_def window_ok_def map_simps btm.ok_put not_less split: option.split sum.split if_splits)

lemma auction_step_ok: "window_ok X C w \<Longrightarrow> window_ok X C (fst (auction_step X C w i))"
  by (cases "(X, C, w, i)" rule: auction_step.cases)
    (auto simp: record_commitment_ok record_reveal_ok finalize_no_reveals_def Let_def, auto simp: window_ok_def)

interpretation auction: preserving_machine "auction_step X C" "\<lambda>_. window_ok X C" for X C
  by unfold_locales (rule auction_step_ok)

lemma auction_new_ok: "window_ok X C (auction_new bw start)"
  by (simp add: window_ok_def auction_new_def count_of_def bt_total_def)

section \<open>Lemmas: phases\<close>

lemma phases_fixed:
  "aw_reveal_start_block (fst (auction_step X C w i)) = aw_reveal_start_block w"
  "aw_selection_block (fst (auction_step X C w i)) = aw_selection_block w"
  by (cases "(X, C, w, i)" rule: auction_step.cases;
      simp add: record_commitment_def auction_record_reveal_def finalize_no_reveals_def Let_def split: option.split sum.split)+

definition in_phase :: "auction_window \<Rightarrow> u64 \<times> auction_op \<Rightarrow> bool" where
  "in_phase w x \<longleftrightarrow> (case snd x of
     DoCommit c \<Rightarrow> fst x < aw_reveal_start_block w
   | DoReveal r \<Rightarrow> aw_reveal_start_block w \<le> fst x \<and> fst x < aw_selection_block w
   | FinalizeNoReveals \<Rightarrow> False)"

lemma accepted_in_phase:
  "x \<in> set (snd (auction_step X C w i)) \<Longrightarrow> fst x = fst i \<and> in_phase w x"
  by (cases "(X, C, w, i)" rule: auction_step.cases)
    (auto simp: record_commitment_def auction_record_reveal_def phase_at_def in_phase_def Let_def not_less split: if_splits)

lemma phase_order:
  "in_phase w x \<Longrightarrow> in_phase w y \<Longrightarrow> fst x \<le> fst y \<Longrightarrow> \<not> (snd x = DoReveal r \<and> snd y = DoCommit c)"
  by (auto simp: in_phase_def)

lemma accepted_run:
  assumes "sorted (map fst ops)"
  shows "sorted (map fst (concat (snd (run (auction_step X C) w ops)))) \<and>
    (\<forall>x \<in> set (concat (snd (run (auction_step X C) w ops))). fst x \<in> fst ` set ops \<and> in_phase w x)"
  using assms
proof (induction ops arbitrary: w)
  case (Cons i ops)
  let ?w = "fst (auction_step X C w i)" and ?now = "snd (auction_step X C w i)"
  let ?rest = "concat (snd (run (auction_step X C) ?w ops))"
  have "in_phase ?w = in_phase w" by (rule ext) (simp only: in_phase_def phases_fixed)
  then have IH: "sorted (map fst ?rest)" "\<forall>x \<in> set ?rest. fst x \<in> fst ` set ops \<and> in_phase w x"
    using Cons.IH [of ?w] Cons.prems by simp_all
  have now: "\<forall>x \<in> set ?now. fst x = fst i \<and> in_phase w x" using accepted_in_phase by blast
  have "length ?now \<le> 1" by (cases "(X, C, w, i)" rule: auction_step.cases) auto
  then have "sorted (map fst ?now)" by (cases ?now) auto
  moreover have "\<forall>x \<in> set ?now. \<forall>y \<in> set ?rest. fst x \<le> fst y"
    using now IH(2) Cons.prems by fastforce
  ultimately have "sorted (map fst (?now @ ?rest))" using IH(1) by (auto simp: sorted_append)
  moreover have "\<forall>x \<in> set (?now @ ?rest). fst x \<in> fst ` set (i # ops) \<and> in_phase w x"
    using now IH(2) by auto
  ultimately show ?case by (simp add: run_Cons)
qed simp

section \<open>Lemmas: grouping and winners\<close>

definition candidates :: "bundle_reveal list \<Rightarrow> bytes32 \<Rightarrow> bundle_reveal list" where
  "candidates rs i = concat (map (\<lambda>r. replicate (count_list (br_target_intent_ids r) i) r) rs)"

definition no_empty :: "('k, 'v list) btree \<Rightarrow> bool" where
  "no_empty m \<longleftrightarrow> (\<forall>k. bt_get m k \<noteq> Some [])"

lemma push_all:
  "bt_list (fold (\<lambda>i. bt_push i r) is m) k = bt_list m k @ replicate (count_list is k) r"
  "no_empty m \<Longrightarrow> no_empty (fold (\<lambda>i. bt_push i r) is m)"
  "bt_ok m \<Longrightarrow> bt_ok (fold (\<lambda>i. bt_push i r) is m)"
proof -
  show "bt_list (fold (\<lambda>i. bt_push i r) is m) k = bt_list m k @ replicate (count_list is k) r"
    by (induction "is" arbitrary: m) (auto simp: replicate_append_same [symmetric])
  show "no_empty m \<Longrightarrow> no_empty (fold (\<lambda>i. bt_push i r) is m)"
    by (induction "is" arbitrary: m) (auto simp: no_empty_def bt_push_def map_simps)
  show "bt_ok m \<Longrightarrow> bt_ok (fold (\<lambda>i. bt_push i r) is m)"
    by (induction "is" arbitrary: m) (auto simp: bt_push_def btm.ok_put)
qed

lemma group_spec:
  "bt_ok (group_by_intent rs)"
  "bt_get (group_by_intent rs) i = (if candidates rs i = [] then None else Some (candidates rs i))"
proof -
  let ?g = "\<lambda>rs m. fold (\<lambda>r m. fold (\<lambda>i. bt_push i r) (br_target_intent_ids r) m) rs m"
  have "bt_ok m \<Longrightarrow> bt_ok (?g rs m)" for m by (induction rs arbitrary: m) (auto simp: push_all)
  then show "bt_ok (group_by_intent rs)" by (simp add: group_by_intent_def)
  have ne: "no_empty m \<Longrightarrow> no_empty (?g rs m)" for m by (induction rs arbitrary: m) (auto simp: push_all)
  have l: "bt_list (?g rs m) i = bt_list m i @ candidates rs i" for m
    by (induction rs arbitrary: m) (auto simp: push_all candidates_def)
  have "no_empty (group_by_intent rs)" using ne [of "[]"] by (simp add: group_by_intent_def no_empty_def)
  moreover have "bt_list (group_by_intent rs) i = candidates rs i"
    using l [of "[]"] by (simp add: group_by_intent_def bt_list_def)
  ultimately show "bt_get (group_by_intent rs) i = (if candidates rs i = [] then None else Some (candidates rs i))"
    by (auto simp: no_empty_def bt_list_def split: option.splits)
qed

lemma set_targeting: "set (candidates rs i) = {r \<in> set rs. i \<in> set (br_target_intent_ids r)}"
  by (auto simp: candidates_def set_replicate_conv_if count_list_0_iff)

definition winner_for :: "extern \<Rightarrow> u64 \<Rightarrow> bundle_reveal list \<Rightarrow> bytes32 \<Rightarrow> bundle_reveal option" where
  "winner_for X window rs i =
     (case sort_key (candidate_key X window i) (candidates rs i) of [] \<Rightarrow> None | w # _ \<Rightarrow> Some w)"

lemma select_winners_fold:
  assumes "bt_ok es" and "bt_ok ws"
  shows "bt_ok (fold (\<lambda>(i, cs) ws. case sort_key (candidate_key X window i) cs of [] \<Rightarrow> ws | w # _ \<Rightarrow> bt_put i w ws) es ws)
    \<and> bt_get (fold (\<lambda>(i, cs) ws. case sort_key (candidate_key X window i) cs of [] \<Rightarrow> ws | w # _ \<Rightarrow> bt_put i w ws) es ws) k =
      (case bt_get es k of None \<Rightarrow> bt_get ws k
       | Some cs \<Rightarrow> (case sort_key (candidate_key X window k) cs of [] \<Rightarrow> bt_get ws k | w # _ \<Rightarrow> Some w))"
  using assms
proof (induction es arbitrary: ws)
  case (Cons e es)
  obtain i cs where e: "e = (i, cs)" by fastforce
  have ok: "bt_ok es" and fresh: "bt_get es i = None"
    using Cons.prems(1) by (auto simp: e bt_ok_Cons bt_get_None_iff)
  show ?case
    using Cons.IH [OF ok, of "case sort_key (candidate_key X window i) cs of [] \<Rightarrow> ws | w # _ \<Rightarrow> bt_put i w ws"]
      Cons.prems(2) fresh
    by (auto simp: e bt_get_Cons map_simps btm.ok_put split: list.splits option.splits if_splits)
qed simp

lemma winners_spec:
  "bt_ok (select_winners X window (group_by_intent rs))"
  "bt_get (select_winners X window (group_by_intent rs)) i = winner_for X window rs i"
  using select_winners_fold [OF group_spec(1), of "[]" X window rs i]
  by (auto simp: select_winners_def group_spec(2) winner_for_def split: list.splits option.splits if_splits)

lemma winner_best:
  assumes "winner_for X window rs i = Some w"
  shows "w \<in> set rs" "i \<in> set (br_target_intent_ids w)"
    "\<And>r. r \<in> set rs \<Longrightarrow> i \<in> set (br_target_intent_ids r) \<Longrightarrow>
       outcome_score_for_intent r i \<le> outcome_score_for_intent w i"
proof -
  let ?k = "candidate_key X window i"
  obtain ws where s: "sort_key ?k (candidates rs i) = w # ws"
    using assms by (auto simp: winner_for_def split: list.splits)
  have set: "set (w # ws) = set (candidates rs i)" using set_sort [of ?k "candidates rs i"] by (simp add: s)
  then show "w \<in> set rs" "i \<in> set (br_target_intent_ids w)" by (auto simp: set_targeting)
  fix r assume "r \<in> set rs" "i \<in> set (br_target_intent_ids r)"
  then have "r \<in> set (w # ws)" by (simp only: set) (simp add: set_targeting)
  then have "?k w \<le> ?k r" using sorted_sort_key [of ?k "candidates rs i"] by (auto simp: s)
  then show "outcome_score_for_intent r i \<le> outcome_score_for_intent w i"
    by (auto simp: candidate_key_def less_eq_prod_def word_le_def)
qed

lemma winner_exists:
  "winner_for X window rs i = None \<longleftrightarrow> (\<forall>r \<in> set rs. i \<notin> set (br_target_intent_ids r))"
proof -
  have "winner_for X window rs i = None \<longleftrightarrow> sort_key (candidate_key X window i) (candidates rs i) = []"
    by (auto simp: winner_for_def split: list.split)
  also have "\<dots> \<longleftrightarrow> candidates rs i = []" by (metis set_sort set_empty)
  also have "\<dots> \<longleftrightarrow> set (candidates rs i) = {}" by simp
  finally show ?thesis by (auto simp: set_targeting)
qed

text \<open>With distinct keys the winner depends on the candidates only, not on their order.\<close>

lemma winner_permuted:
  assumes "mset rs = mset rs'"
    and "\<And>i. inj_on (candidate_key X window i) (set (candidates rs i))"
  shows "winner_for X window rs i = winner_for X window rs' i"
proof -
  have "mset (candidates rs i) = mset (candidates rs' i)"
  proof -
    have "mset (candidates rs i) = (\<Sum>r \<in># mset rs. mset (replicate (count_list (br_target_intent_ids r) i) r))" for rs
      by (induction rs) (simp_all add: candidates_def)
    then show ?thesis by (simp add: assms(1))
  qed
  then have "sort_key (candidate_key X window i) (candidates rs i) = sort_key (candidate_key X window i) (candidates rs' i)"
    using assms(2) by (intro sort_key_inj_key_eq) simp_all
  then show ?thesis by (simp add: winner_for_def)
qed

lemma unique_winners_spec:
  "set (unique_winners seen ws) \<subseteq> set ws"
  "br_bundle_id ` snd ` set (unique_winners seen ws) = br_bundle_id ` snd ` set ws - seen"
  "distinct (map (br_bundle_id \<circ> snd) (unique_winners seen ws))"
proof -
  show "set (unique_winners seen ws) \<subseteq> set ws"
    by (induction seen ws rule: unique_winners.induct) auto
  show ids: "br_bundle_id ` snd ` set (unique_winners seen ws) = br_bundle_id ` snd ` set ws - seen" for seen
    by (induction seen ws rule: unique_winners.induct) auto
  have "br_bundle_id (snd e) \<notin> seen" if "e \<in> set (unique_winners seen ws)" for e seen and ws :: "(bytes32 \<times> bundle_reveal) list"
    using that by (induction seen ws rule: unique_winners.induct) (auto split: if_splits)
  then show "distinct (map (br_bundle_id \<circ> snd) (unique_winners seen ws))"
    by (induction seen ws rule: unique_winners.induct) fastforce+
qed

lemma ordered_bundles_eq:
  "ior_ordered_bundles (order_bundles_with_meta X rs window meta) =
     map (\<lambda>(n, r). sequence_bundle n r) (enumerate 0 (map snd
       (sort_key (winner_key X window meta) (unique_winners {} (select_winners X window (group_by_intent rs))))))"
proof -
  have "map (\<lambda>(n, (_, r)). sequence_bundle n r) (enumerate k xs) =
      map (\<lambda>(n, r). sequence_bundle n r) (enumerate k (map snd xs))" for k and xs :: "(bytes32 \<times> bundle_reveal) list"
    by (induction xs arbitrary: k) auto
  then show ?thesis by (simp add: order_bundles_with_meta_def Let_def)
qed

lemma sequenced_ids:
  "map sb_bundle_id (map (\<lambda>(n, r). sequence_bundle n r) (enumerate k rs)) = map br_bundle_id rs"
  "map sb_sequence_index (map (\<lambda>(n, r). sequence_bundle n r) (enumerate k rs)) = map of_nat [k ..< k + length rs]"
  by (rule nth_equalityI; simp add: nth_enumerate_eq sequence_bundle_def)+

lemma sequenced_in:
  "b \<in> set (map (\<lambda>(n, r). sequence_bundle n r) (enumerate k rs)) \<longleftrightarrow>
     (\<exists>n < length rs. b = sequence_bundle (k + n) (rs ! n))"
  unfolding in_set_conv_nth by (auto simp: nth_enumerate_eq)

section \<open>Lemmas: votes\<close>

lemma first_duplicate_None: "first_duplicate seen bs = None \<longleftrightarrow> distinct bs \<and> set bs \<inter> seen = {}"
  by (induction seen bs rule: first_duplicate.induct) auto

lemma commitment_failures_Nil:
  "commitment_failures available active block b = [] \<longleftrightarrow>
     (\<exists>c. bt_get available (sb_bundle_id b) = Some c \<and> block \<le> bc_valid_until c \<and> bc_solver_id c \<in> active \<and>
        bc_bond_locked c \<noteq> 0)"
  by (auto simp: commitment_failures_def is_valid_at_def split: option.split)

lemma validate_da_Nil:
  "validate_da bs available known active block complete = [] \<longleftrightarrow> complete \<and>
     (\<forall>b \<in> set bs. set (sb_target_intent_ids b) \<subseteq> known \<and>
        (\<exists>c. bt_get available (sb_bundle_id b) = Some c \<and> block \<le> bc_valid_until c \<and> bc_solver_id c \<in> active \<and>
           bc_bond_locked c \<noteq> 0))"
  by (auto simp: validate_da_def commitment_failures_Nil filter_empty_conv split: if_splits)

lemma verify_commitment_Inr:
  "verify_commitment X c bs v = Inr () \<Longrightarrow>
     distinct (fc_ordered_bundle_ids c) \<and> fc_ordering_root c = compute_sequence_root X bs \<and>
     fc_fairness_root c = vc_expected_fairness_root v \<and> set (fc_intent_ids c) \<subseteq> vc_known_intent_ids v \<and>
     validate_da bs (vc_available_commitments v) (vc_known_intent_ids v) (vc_active_solver_ids v) (vc_current_block v) True = [] \<and>
     fc_sequence_id c = vc_expected_sequence_id v \<and> fc_proposer c \<in> vc_known_validators v \<and>
     (\<forall>r. vc_previous_commitment_root v = Some r \<longrightarrow> fc_previous_commitment c = r)"
  by (auto simp: verify_commitment_def Let_def first_duplicate_None find_None_iff split: option.splits if_splits)

section \<open>A concrete auction\<close>

definition extern_sum :: extern where
  "extern_sum = extern_std\<lparr>x_sha256 := (\<lambda>bs. of_nat (sum_list (map unat bs)))\<rparr>"

definition codec_sample :: bundle_codec where
  "codec_sample = \<lparr>cd_steps = (\<lambda>_. []), cd_outputs = (\<lambda>_. []), cd_fees = (\<lambda>_. [])\<rparr>"

definition sample_bundle :: "bytes32 \<Rightarrow> (bytes32 \<times> u128) list \<Rightarrow> bundle_reveal" where
  "sample_bundle b fills =
     \<lparr>br_bundle_id = b, br_solver_id = 7, br_batch_window = 1, br_target_intent_ids = map fst fills,
      br_execution_steps = [], br_liquidity_sources = [],
      br_predicted_outputs = map (\<lambda>(i, a). \<lparr>po_intent_id = i, po_asset_out = asset_native 9, po_amount_out = a, po_fee_charged_bps = 0\<rparr>) fills,
      br_fee_breakdown = \<lparr>fbd_solver_fee_bps = 0, fbd_protocol_fee_bps = 0, fbd_total_fee_bps = 0\<rparr>,
      br_resource_declarations = [], br_nonce = 3, br_proof_data = [], br_signature = []\<rparr>"

definition sample_commitment :: "extern \<Rightarrow> bundle_codec \<Rightarrow> bundle_reveal \<Rightarrow> bundle_commitment" where
  "sample_commitment X C r =
     \<lparr>bc_bundle_id = br_bundle_id r, bc_solver_id = br_solver_id r, bc_batch_window = br_batch_window r,
      bc_target_intent_count = 1, bc_commitment_hash = compute_commitment_hash X C r,
      bc_expected_outputs_hash = compute_expected_outputs_hash X C r,
      bc_execution_plan_hash = compute_execution_plan_hash X C r, bc_valid_until = 100, bc_bond_locked = 50000, bc_signature = []\<rparr>"

lemma sample_bundle_sel [simp]:
  "br_bundle_id (sample_bundle b fs) = b" "br_target_intent_ids (sample_bundle b fs) = map fst fs"
  by (simp_all add: sample_bundle_def)

lemma sample_verifies: "verify_against_commitment X C r (sample_commitment X C r) = Inr ()"
  by (simp add: verify_against_commitment_def sample_commitment_def)

lemmas ordering_eval = order_bundles_with_meta_def group_by_intent_def select_winners_def bt_push_def bt_list_def
  bt_get_def candidate_key_def winner_key_def outcome_score_for_intent_def sample_bundle_def user_outcome_score_def
  max_or_0_def tiebreak_key_def tiebreak_preimage_def canonical_sort_key_def sequence_bundle_def sat_mul_def sat_sub_def

lemma unique_winner_revealed:
  assumes "(i, r) \<in> set (unique_winners {} (select_winners X window (group_by_intent rs)))"
  shows "r \<in> set rs"
proof -
  from assms have "(i, r) \<in> set (select_winners X window (group_by_intent rs))" using unique_winners_spec(1) by blast
  then have "winner_for X window rs i = Some r"
    using bt_in_get [OF winners_spec(1)] by (simp only: winners_spec(2))
  then show ?thesis by (rule winner_best(1))
qed

section \<open>Properties\<close>

text \<open>
  C26. Bids are sealed: when block heights do not go back, every accepted commitment comes before every accepted
  reveal; and along every run each reveal opens its own recorded commitment with at most 64 steps, and a
  solver has at most ten commitments, counted exactly.
\<close>

theorem bids_are_sealed:
  assumes "sorted (map fst ops)"
  shows "sorted_wrt (\<lambda>x y. \<forall>r c. \<not> (snd x = DoReveal r \<and> snd y = DoCommit c))
      (concat (snd (run (auction_step X C) (auction_new bw start) ops))) \<and>
    window_ok X C (fst (run (auction_step X C) (auction_new bw start) ops))"
proof -
  let ?acc = "concat (snd (run (auction_step X C) (auction_new bw start) ops))"
  note acc = accepted_run [OF assms, of X C "auction_new bw start"]
  have "sorted_wrt (\<lambda>x y. fst x \<le> fst y) ?acc" using acc by (simp add: sorted_map)
  then have "sorted_wrt (\<lambda>x y. \<forall>r c. \<not> (snd x = DoReveal r \<and> snd y = DoCommit c)) ?acc"
    by (rule sorted_wrt_mono_rel [rotated]) (use acc phase_order in blast)
  then show ?thesis using auction.run_inv [OF auction_new_ok] by blast
qed

theorem bids_are_sealed_witness:
  defines "r \<equiv> sample_bundle 1 [(1, 10)]"
  shows "concat (snd (run (auction_step extern_sum codec_sample) (auction_new 1 0)
      [(1, DoCommit (sample_commitment extern_sum codec_sample r)), (6, DoReveal r)]))
    = [(1, DoCommit (sample_commitment extern_sum codec_sample r)), (6, DoReveal r)] \<and>
    window_ok extern_sum codec_sample (fst (run (auction_step extern_sum codec_sample) (auction_new 1 0)
      [(1, DoCommit (sample_commitment extern_sum codec_sample r)), (6, DoReveal r)]))"
proof -
  let ?c = "sample_commitment extern_sum codec_sample r"
  have ids: "bc_bundle_id ?c = 1" "br_bundle_id r = 1" "bc_solver_id ?c = 7" "br_execution_steps r = []"
    by (simp_all add: sample_commitment_def r_def) (simp_all add: sample_bundle_def)
  have "concat (snd (run (auction_step extern_sum codec_sample) (auction_new 1 0) [(1, DoCommit ?c), (6, DoReveal r)]))
      = [(1, DoCommit ?c), (6, DoReveal r)]"
    by (simp add: run_Cons record_commitment_def auction_record_reveal_def auction_new_def phase_at_def
        COMMIT_PHASE_BLOCKS_def REVEAL_PHASE_BLOCKS_def count_of_def MAX_COMMITMENTS_PER_SOLVER_PER_WINDOW_def
        bt_has_def bt_get_def ids sample_verifies MAX_BUNDLE_STEPS_def Let_def)
  then show ?thesis
    using bids_are_sealed [of "[(1, DoCommit ?c), (6, DoReveal r)]" extern_sum codec_sample 1 0] by simp
qed

text \<open>
  A reveal is bound by its commitment: two reveals that verify against the same commitment have the same
  bundle, solver, window, steps, outputs, fees and nonce, unless SHA-256 collides on the strings hashed for them
  or the serializer maps two different plans to one string.
\<close>

theorem commitment_binds_reveal:
  assumes "verify_against_commitment X C r c = Inr ()" and "verify_against_commitment X C r' c = Inr ()"
    and "inj_on (cd_steps C) {br_execution_steps r, br_execution_steps r'}"
    and "inj_on (cd_outputs C) {br_predicted_outputs r, br_predicted_outputs r'}"
    and "inj_on (cd_fees C) {br_fee_breakdown r, br_fee_breakdown r'}"
    and "inj_on (x_sha256 X) {commitment_preimage C r, commitment_preimage C r'}"
    and "inj_on (x_sha256 X) {cd_steps C (br_execution_steps r), cd_steps C (br_execution_steps r')}"
    and "inj_on (x_sha256 X) {cd_outputs C (br_predicted_outputs r), cd_outputs C (br_predicted_outputs r')}"
  shows "br_bundle_id r = br_bundle_id r' \<and> br_solver_id r = br_solver_id r' \<and> br_batch_window r = br_batch_window r' \<and>
    br_execution_steps r = br_execution_steps r' \<and> br_predicted_outputs r = br_predicted_outputs r' \<and>
    br_fee_breakdown r = br_fee_breakdown r' \<and> br_nonce r = br_nonce r'"
proof -
  have v: "br_bundle_id x = bc_bundle_id c \<and> br_solver_id x = bc_solver_id c \<and> br_batch_window x = bc_batch_window c \<and>
      x_sha256 X (commitment_preimage C x) = bc_commitment_hash c \<and>
      x_sha256 X (cd_outputs C (br_predicted_outputs x)) = bc_expected_outputs_hash c \<and>
      x_sha256 X (cd_steps C (br_execution_steps x)) = bc_execution_plan_hash c"
    if "verify_against_commitment X C x c = Inr ()" for x
    using that by (auto simp: verify_against_commitment_def compute_commitment_hash_def compute_expected_outputs_hash_def
        compute_execution_plan_hash_def split: if_splits)
  note a = v [OF assms(1)] and b = v [OF assms(2)]
  have "cd_steps C (br_execution_steps r) = cd_steps C (br_execution_steps r')"
    by (rule inj_onD [OF assms(7)]) (use a b in simp_all)
  then have steps: "br_execution_steps r = br_execution_steps r'"
    by (rule inj_onD [OF assms(3)]) simp_all
  have "cd_outputs C (br_predicted_outputs r) = cd_outputs C (br_predicted_outputs r')"
    by (rule inj_onD [OF assms(8)]) (use a b in simp_all)
  then have outs: "br_predicted_outputs r = br_predicted_outputs r'"
    by (rule inj_onD [OF assms(4)]) simp_all
  have "commitment_preimage C r = commitment_preimage C r'"
    by (rule inj_onD [OF assms(6)]) (use a b in simp_all)
  then have "cd_fees C (br_fee_breakdown r) @ be_bytes 32 (br_nonce r) = cd_fees C (br_fee_breakdown r') @ be_bytes 32 (br_nonce r')"
    using a b by (simp add: commitment_preimage_def steps outs)
  then have "cd_fees C (br_fee_breakdown r) = cd_fees C (br_fee_breakdown r') \<and> br_nonce r = br_nonce r'"
    by (subst (asm) append_eq_append_conv) simp_all
  moreover from this have "br_fee_breakdown r = br_fee_breakdown r'"
    by (intro inj_onD [OF assms(5)]) simp_all
  ultimately show ?thesis using a b steps outs by simp
qed

theorem commitment_binds_reveal_witness:
  defines "r \<equiv> sample_bundle 1 [(1, 10)]"
  shows "r \<noteq> r\<lparr>br_target_intent_ids := [5]\<rparr> \<and> br_nonce r = br_nonce (r\<lparr>br_target_intent_ids := [5]\<rparr>)"
proof -
  let ?r = "r\<lparr>br_target_intent_ids := [5]\<rparr>" and ?c = "sample_commitment extern_sum codec_sample r"
  have "verify_against_commitment extern_sum codec_sample ?r ?c = verify_against_commitment extern_sum codec_sample r ?c"
    by (simp add: verify_against_commitment_def compute_commitment_hash_def compute_expected_outputs_hash_def
        compute_execution_plan_hash_def commitment_preimage_def)
  then have "verify_against_commitment extern_sum codec_sample ?r ?c = Inr ()" by (simp only: sample_verifies)
  from commitment_binds_reveal [OF sample_verifies this] have "br_nonce r = br_nonce ?r" by (simp add: commitment_preimage_def)
  moreover have "br_target_intent_ids r \<noteq> br_target_intent_ids ?r" by (simp add: r_def)
  ultimately show ?thesis by metis
qed

text \<open>
  The commitment does not bind the intents a bundle targets, its declared resources or its liquidity: a solver
  may change them after seeing the other commitments.
\<close>

theorem reveal_can_be_retargeted:
  "verify_against_commitment X C (r\<lparr>br_target_intent_ids := ts, br_resource_declarations := ds, br_liquidity_sources := ls\<rparr>) c
     = verify_against_commitment X C r c"
  by (simp add: verify_against_commitment_def compute_commitment_hash_def compute_expected_outputs_hash_def
      compute_execution_plan_hash_def commitment_preimage_def)

text \<open>
  C27. The auction is fair: the sequenced bundles are distinct revealed bundles, numbered in order, and every
  intent some bundle targets is filled by a sequenced bundle that no other bundle beats on the user's outcome.
\<close>

theorem sequenced_bundles_are_best:
  fixes X :: extern and window :: u64 and meta :: "(bytes32, intent_ordering_meta) btree"
  assumes "inj_on br_bundle_id (set rs)"
  defines "bs \<equiv> ior_ordered_bundles (order_bundles_with_meta X rs window meta)"
  shows "distinct (map sb_bundle_id bs) \<and> map sb_sequence_index bs = map of_nat [0 ..< length bs] \<and>
    (\<forall>b \<in> set bs. \<exists>n. \<exists>r \<in> set rs. b = sequence_bundle n r) \<and>
    (\<forall>r \<in> set rs. \<forall>i \<in> set (br_target_intent_ids r). \<exists>w \<in> set rs. \<exists>n. sequence_bundle n w \<in> set bs \<and>
       i \<in> set (br_target_intent_ids w) \<and> outcome_score_for_intent r i \<le> outcome_score_for_intent w i)"
proof -
  define ws where "ws = select_winners X window (group_by_intent rs)"
  define us where "us = map snd (sort_key (winner_key X window meta) (unique_winners {} ws))"
  have bs: "bs = map (\<lambda>(n, r). sequence_bundle n r) (enumerate 0 us)"
    by (simp add: bs_def ordered_bundles_eq us_def ws_def)
  have us_set: "set us = snd ` set (unique_winners {} ws)" by (simp add: us_def)
  have us_rs: "set us \<subseteq> set rs" by (auto simp: us_set ws_def dest: unique_winner_revealed)
  have "distinct (map (br_bundle_id \<circ> snd) (sort_key (winner_key X window meta) (unique_winners {} ws)))"
    using unique_winners_spec(3) [of "{}" ws] by (simp add: distinct_map)
  then have "distinct (map sb_bundle_id bs)" by (simp only: bs sequenced_ids) (simp add: us_def comp_def)
  moreover have "map sb_sequence_index bs = map of_nat [0 ..< length bs]"
    by (simp only: bs sequenced_ids) simp
  moreover have "\<exists>n. \<exists>r \<in> set rs. b = sequence_bundle n r" if b: "b \<in> set bs" for b
  proof -
    obtain n where n: "n < length us" "b = sequence_bundle (0 + n) (us ! n)" using b unfolding bs sequenced_in by blast
    then have "us ! n \<in> set rs" using us_rs nth_mem by blast
    then show ?thesis using n(2) by blast
  qed
  moreover have "\<exists>w \<in> set rs. \<exists>n. sequence_bundle n w \<in> set bs \<and> i \<in> set (br_target_intent_ids w) \<and>
      outcome_score_for_intent r i \<le> outcome_score_for_intent w i"
    if r: "r \<in> set rs" "i \<in> set (br_target_intent_ids r)" for r i
  proof -
    obtain w where w: "winner_for X window rs i = Some w"
      using r winner_exists [of X window rs i] by (cases "winner_for X window rs i") auto
    note best = winner_best [OF w]
    have "(i, w) \<in> set ws" using w winners_spec(2) [of X window rs i] by (simp add: ws_def bt_get_in)
    then have "br_bundle_id w \<in> br_bundle_id ` set us"
      using unique_winners_spec(2) [of "{}" ws] by (force simp: us_set)
    then have "w \<in> set us" using assms(1) us_rs best(1) by (metis imageE inj_onD subsetD)
    then obtain n where "n < length us" "us ! n = w" by (auto simp: in_set_conv_nth)
    then have "sequence_bundle n w \<in> set bs" unfolding bs sequenced_in by force
    then show ?thesis using best r by blast
  qed
  ultimately show ?thesis by blast
qed

theorem sequenced_bundles_are_best_witness:
  defines "rs \<equiv> [sample_bundle 1 [(1, 10)], sample_bundle 2 [(1, 20)]]"
  shows "\<exists>w \<in> set rs. \<exists>n. sequence_bundle n w \<in> set (ior_ordered_bundles (order_bundles_with_meta extern_sum rs 1 [])) \<and>
    1 \<in> set (br_target_intent_ids w) \<and>
    outcome_score_for_intent (sample_bundle 1 [(1, 10)]) 1 \<le> outcome_score_for_intent w 1"
proof -
  have inj: "inj_on br_bundle_id (set rs)" by (auto simp: rs_def inj_on_def)
  have "sample_bundle 1 [(1, 10)] \<in> set rs" "1 \<in> set (br_target_intent_ids (sample_bundle 1 [(1, 10)]))"
    by (simp_all add: rs_def)
  with sequenced_bundles_are_best [OF inj, of extern_sum 1 "[]"] show ?thesis by blast
qed

text \<open>
  C28. The order is canonical: it does not depend on the order in which the reveals are listed, provided bundle ids
  are distinct and SHA-256 does not collide on the tie-break strings.
\<close>

theorem bundle_order_is_canonical:
  assumes "mset rs = mset rs'" and "inj_on br_bundle_id (set rs)"
    and "inj_on (x_sha256 X) (\<Union>r \<in> set rs. \<Union>i \<in> set (br_target_intent_ids r). {tiebreak_preimage (br_bundle_id r) i window})"
  shows "order_bundles_with_meta X rs window meta = order_bundles_with_meta X rs' window meta"
proof -
  have "inj_on (candidate_key X window i) (set (candidates rs i))" for i
  proof (rule inj_onI)
    fix r r' assume in_c: "r \<in> set (candidates rs i)" "r' \<in> set (candidates rs i)"
      and "candidate_key X window i r = candidate_key X window i r'"
    then have "tiebreak_preimage (br_bundle_id r) i window = tiebreak_preimage (br_bundle_id r') i window"
      by (intro inj_onD [OF assms(3)]) (auto simp: candidate_key_def tiebreak_key_def set_targeting)
    then have "br_bundle_id r = br_bundle_id r'" by (simp add: tiebreak_preimage_def)
    then show "r = r'" using assms(2) in_c by (auto simp: set_targeting dest: inj_onD)
  qed
  then have "winner_for X window rs i = winner_for X window rs' i" for i by (rule winner_permuted [OF assms(1)])
  then have "select_winners X window (group_by_intent rs) = select_winners X window (group_by_intent rs')"
    by (intro bt_ext) (simp_all add: winners_spec)
  moreover have "length rs = length rs'" using assms(1) by (metis size_mset)
  ultimately show ?thesis by (simp add: order_bundles_with_meta_def)
qed

theorem bundle_order_is_canonical_witness:
  "order_bundles_with_meta extern_sum [sample_bundle 1 [(1, 10)], sample_bundle 2 [(1, 10)]] 1 [] =
   order_bundles_with_meta extern_sum [sample_bundle 2 [(1, 10)], sample_bundle 1 [(1, 10)]] 1 []"
proof (rule bundle_order_is_canonical)
  let ?rs = "[sample_bundle 1 [(1, 10)], sample_bundle 2 [(1, 10)]]"
  show "inj_on (x_sha256 extern_sum)
      (\<Union>r \<in> set ?rs. \<Union>i \<in> set (br_target_intent_ids r). {tiebreak_preimage (br_bundle_id r) i 1})"
    by (simp add: extern_sum_def tiebreak_preimage_def be_bytes_def upt_rec)
qed (auto simp: add_mset_commute inj_on_def)

text \<open>
  An intent can be sequenced twice: a bundle that wins one of its intents is sequenced with all its targets, also
  those another bundle won.
\<close>

theorem intent_can_be_filled_twice:
  "map sb_target_intent_ids (ior_ordered_bundles (order_bundles extern_sum
     [sample_bundle 1 [(1, 10), (2, 5)], sample_bundle 2 [(1, 20)]] 1)) = [[1], [1, 2]]"
  by (simp add: order_bundles_def ordering_eval extern_sum_def be_bytes_def upt_rec Let_def)


definition sample_finality :: "bytes32 list \<Rightarrow> finality_commitment" where
  "sample_finality declared =
     \<lparr>fc_sequence_id = 1, fc_ordered_bundle_ids = declared, fc_intent_ids = [], fc_ordering_root = 1,
      fc_bundle_root = (if declared = [] then 0 else 11), fc_fairness_root = 0, fc_previous_commitment = 0, fc_proposer = 4, fc_timestamp = 0\<rparr>"

definition sample_votes :: vote_context where
  "sample_votes =
     \<lparr>vc_available_commitments = [(1, (sample_commitment extern_sum codec_sample (sample_bundle 1 [])))],
      vc_known_intent_ids = {}, vc_active_solver_ids = {7}, vc_known_validators = {4},
      vc_expected_fairness_root = 0, vc_previous_commitment_root = None, vc_expected_sequence_id = 1, vc_current_block = 9\<rparr>"

lemma sample_accepted:
  "declared \<in> {[], [1]} \<Longrightarrow>
     verify_commitment extern_sum (sample_finality declared) [sequence_bundle 0 (sample_bundle 1 [])] sample_votes = Inr ()"
  by (auto simp: verify_commitment_def sample_finality_def sample_votes_def sequence_bundle_def sample_bundle_def
      sample_commitment_def compute_sequence_root_def compute_bundle_root_def validate_da_def commitment_failures_def
      is_valid_at_def List.map_filter_def bt_get_def compute_commitment_hash_def commitment_preimage_def codec_sample_def
      extern_sum_def be_bytes_def upt_rec)


text \<open>
  The declared bundle ids of a commitment are not compared with the bundles voted on: a commitment that declares
  none is accepted with one bundle.
\<close>

theorem declared_bundles_are_not_checked:
  "fc_ordered_bundle_ids (sample_finality []) = [] \<and>
   verify_commitment extern_sum (sample_finality []) [sequence_bundle 0 (sample_bundle 1 [])] sample_votes = Inr ()"
  using sample_accepted [of "[]"] by (simp add: sample_finality_def)

text \<open>
  After the reveal phase the records of missing reveals list exactly the commitments without a reveal,
  each once, and charge a hundredth of the locked bond.
\<close>

theorem no_reveal_records_are_exact:
  assumes "window_ok X C w"
  defines "ns \<equiv> snd (finalize_no_reveals w)"
  shows "distinct (map nr_bundle_id ns) \<and>
    set (map nr_bundle_id ns) = set (bt_keys (aw_commitments w)) - set (bt_keys (aw_reveals w)) \<and>
    (\<forall>n \<in> set ns. (\<exists>c. bt_get (aw_commitments w) (nr_bundle_id n) = Some c \<and> nr_solver_id n = bc_solver_id c \<and>
        nr_bond_locked n = bc_bond_locked c) \<and>
      (unat (nr_bond_locked n) * 100 < 2 ^ 128 \<longrightarrow> unat (penalty_amount n) = unat (nr_bond_locked n) div 100))"
proof -
  let ?miss = "filter (\<lambda>(i, c). \<not> bt_has (aw_reveals w) i) (aw_commitments w)"
  have ok: "bt_ok (aw_commitments w)" using assms(1) by (simp add: window_ok_def)
  have ids: "map nr_bundle_id ns = map fst ?miss"
    by (simp add: ns_def finalize_no_reveals_def case_prod_beta)
  have "distinct (map nr_bundle_id ns)"
    unfolding ids using bt_ok_distinct [OF ok] by (rule distinct_map_filter)
  moreover have "set (map nr_bundle_id ns) = set (bt_keys (aw_commitments w)) - set (bt_keys (aw_reveals w))"
    unfolding ids by (force simp: bt_keys_def bt_has_iff)
  moreover have "(\<exists>c. bt_get (aw_commitments w) (nr_bundle_id n) = Some c \<and> nr_solver_id n = bc_solver_id c \<and>
        nr_bond_locked n = bc_bond_locked c) \<and> nr_penalty_bps n = 100" if "n \<in> set ns" for n
    using that ok by (auto simp: ns_def finalize_no_reveals_def COMMIT_WITHOUT_REVEAL_PENALTY_BPS_def bt_in_get)
  moreover have "unat (penalty_amount n) = unat (nr_bond_locked n) div 100"
    if "nr_penalty_bps n = 100" "unat (nr_bond_locked n) * 100 < 2 ^ 128" for n
    using that by (simp add: penalty_amount_def unat_div unat_word_ariths)
  ultimately show ?thesis by blast
qed

theorem no_reveal_records_are_exact_witness:
  "map nr_bundle_id (snd (finalize_no_reveals (fst (run (auction_step extern_sum codec_sample) (auction_new 1 0)
     [(1, DoCommit (sample_commitment extern_sum codec_sample (sample_bundle 1 [])))])))) = [1]"
proof -
  let ?w = "fst (run (auction_step extern_sum codec_sample) (auction_new 1 0)
     [(1, DoCommit (sample_commitment extern_sum codec_sample (sample_bundle 1 [])))])"
  have "window_ok extern_sum codec_sample ?w" by (rule auction.run_inv [OF auction_new_ok])
  from no_reveal_records_are_exact [OF this]
  have d: "distinct (map nr_bundle_id (snd (finalize_no_reveals ?w)))"
    "set (map nr_bundle_id (snd (finalize_no_reveals ?w))) = set (bt_keys (aw_commitments ?w)) - set (bt_keys (aw_reveals ?w))"
    by blast+
  have "bc_bundle_id (sample_commitment extern_sum codec_sample (sample_bundle 1 [])) = 1" by (simp add: sample_commitment_def)
  then have "set (bt_keys (aw_commitments ?w)) = {1}" "aw_reveals ?w = []"
    by (simp_all add: run_Cons record_commitment_def auction_new_def phase_at_def COMMIT_PHASE_BLOCKS_def count_of_def
        MAX_COMMITMENTS_PER_SOLVER_PER_WINDOW_def bt_has_def bt_keys_def Let_def)
  with d have "set (map nr_bundle_id (snd (finalize_no_reveals ?w))) = {1}" by (simp add: bt_keys_def)
  with d(1) show ?thesis
    by (cases "map nr_bundle_id (snd (finalize_no_reveals ?w))") (auto dest: subset_singletonD)
qed

end
