(* ===== verification/Sequencer_Fees.thy ===== *)
theory Sequencer_Fees
  imports Objects
begin

text \<open>
  The sequencer's fee model, \<^verbatim>\<open>poseq/src/gas/\<close>: envelopes and fee results (\<^verbatim>\<open>types.rs\<close>), governed
  parameters (\<^verbatim>\<open>parameters.rs\<close>), the sequencing fee (\<^verbatim>\<open>calculator.rs\<close>), its distribution
  (\<^verbatim>\<open>routing.rs\<close>), the priority score (\<^verbatim>\<open>priority.rs\<close>), quotes (\<^verbatim>\<open>estimation.rs\<close>), cumulative
  accounting (\<^verbatim>\<open>accounting.rs\<close>) and the fee life cycle of an intent (\<^verbatim>\<open>lifecycle.rs\<close>).
  Shown: fees stay within their bounds and the payer's budget, distributions conserve the fee, a tip moves the
  priority by its weight at most, a suggested envelope pays the fee, and a life cycle never charges and refunds
  more than was reserved.
\<close>

section \<open>Envelopes and results\<close>

record seq_envelope =
  sv_payer :: bytes32
  sv_max_poseq_fee :: u128
  sv_max_runtime_fee :: u128
  sv_priority_tip :: u128
  sv_expiry :: u64

datatype seq_envelope_error =
    ZeroPayer | ZeroTotalFee | ZeroExpiry | TotalFeeOverflow | EnvelopeExpired u64 u64
  | InsufficientPoseqFee u128 u128 | InsufficientRuntimeFee u128 u128 | TipExceedsCap u128 u128

definition total_max_fee :: "seq_envelope \<Rightarrow> u128" where
  "total_max_fee e = sat_add (sv_max_poseq_fee e) (sv_max_runtime_fee e)"

definition seq_envelope_validate :: "seq_envelope \<Rightarrow> seq_envelope_error + unit" where
  "seq_envelope_validate e =
     (if sv_payer e = 0 then Inl ZeroPayer
      else if sv_max_poseq_fee e = 0 \<and> sv_max_runtime_fee e = 0 then Inl ZeroTotalFee
      else if sv_expiry e = 0 then Inl ZeroExpiry
      else if checked_add (sv_max_poseq_fee e) (sv_max_runtime_fee e) = None then Inl TotalFeeOverflow
      else Inr ())"

definition seq_is_expired :: "seq_envelope \<Rightarrow> u64 \<Rightarrow> bool" where
  "seq_is_expired e block \<longleftrightarrow> block > sv_expiry e"

record seq_fee_result =
  sf_base_fee :: u128
  sf_bytes_fee :: u128
  sf_effective_tip :: u128
  sf_congestion_multiplier_bps :: u64
  sf_computed_fee :: u128
  sf_charged_fee :: u128
  sf_refund :: u128

definition priority_score :: "seq_fee_result \<Rightarrow> u128" where
  "priority_score r = sf_effective_tip r"

section \<open>Parameters\<close>

record seq_fee_parameters =
  sp_base_admission_fee :: u128
  sp_fee_per_byte :: u128
  sp_target_intents_per_batch :: u64
  sp_min_congestion_multiplier_bps :: u64
  sp_max_congestion_multiplier_bps :: u64
  sp_priority_tip_cap :: u128
  sp_poseq_fee_floor :: u128
  sp_max_poseq_fee_cap :: u128
  sp_expiry_penalty_bps :: u64
  sp_sequencer_reward_bps :: u64
  sp_shared_security_bps :: u64
  sp_treasury_bps :: u64
  sp_burn_bps :: u64

definition testnet_defaults :: seq_fee_parameters where
  "testnet_defaults =
     \<lparr>sp_base_admission_fee = 1000, sp_fee_per_byte = 10, sp_target_intents_per_batch = 64,
      sp_min_congestion_multiplier_bps = 8000, sp_max_congestion_multiplier_bps = 50000, sp_priority_tip_cap = 50000,
      sp_poseq_fee_floor = 500, sp_max_poseq_fee_cap = 10000000, sp_expiry_penalty_bps = 1000,
      sp_sequencer_reward_bps = 4500, sp_shared_security_bps = 2000, sp_treasury_bps = 1500, sp_burn_bps = 2000\<rparr>"

datatype parameter_error =
    ZeroBaseAdmissionFee | ZeroCongestionMultiplier | CongestionMultiplierInverted u64 u64
  | CongestionMultiplierTooHigh u64 | ZeroTargetIntentsPerBatch | FeeFloorExceedsCap u128 u128
  | ExpiryPenaltyTooHigh u64 | DistributionBpsOverflow | DistributionBpsMismatch u64 u64

definition parameters_validate :: "seq_fee_parameters \<Rightarrow> parameter_error + unit" where
  "parameters_validate p =
     (if sp_base_admission_fee p = 0 then Inl ZeroBaseAdmissionFee
      else if sp_min_congestion_multiplier_bps p = 0 then Inl ZeroCongestionMultiplier
      else if sp_min_congestion_multiplier_bps p > sp_max_congestion_multiplier_bps p then
        Inl (CongestionMultiplierInverted (sp_min_congestion_multiplier_bps p) (sp_max_congestion_multiplier_bps p))
      else if sp_max_congestion_multiplier_bps p > 1000000 then
        Inl (CongestionMultiplierTooHigh (sp_max_congestion_multiplier_bps p))
      else if sp_target_intents_per_batch p = 0 then Inl ZeroTargetIntentsPerBatch
      else if sp_poseq_fee_floor p > sp_max_poseq_fee_cap p then
        Inl (FeeFloorExceedsCap (sp_poseq_fee_floor p) (sp_max_poseq_fee_cap p))
      else if sp_expiry_penalty_bps p > 10000 then Inl (ExpiryPenaltyTooHigh (sp_expiry_penalty_bps p))
      else
      case Option.bind (Option.bind (checked_add (sp_sequencer_reward_bps p) (sp_shared_security_bps p))
             (\<lambda>s. checked_add s (sp_treasury_bps p))) (\<lambda>s. checked_add s (sp_burn_bps p)) of
        None \<Rightarrow> Inl DistributionBpsOverflow
      | Some t \<Rightarrow> if t \<noteq> 10000 then Inl (DistributionBpsMismatch t 10000) else Inr ())"

section \<open>The calculator\<close>

record seq_congestion =
  cg_current_intent_count :: u64
  cg_last_batch_intent_count :: u64

definition seq_congestion_multiplier :: "seq_fee_parameters \<Rightarrow> seq_congestion \<Rightarrow> u64" where
  "seq_congestion_multiplier p c =
     (let target = sp_target_intents_per_batch p in
      if target = 0 then sp_max_congestion_multiplier_bps p
      else
      let effective_count = max (cg_current_intent_count c) (cg_last_batch_intent_count c);
          raw = (case checked_div (sat_mul effective_count 10000) target of
                   None \<Rightarrow> sp_max_congestion_multiplier_bps p | Some q \<Rightarrow> q)
      in min (max raw (sp_min_congestion_multiplier_bps p)) (sp_max_congestion_multiplier_bps p))"

definition seq_fee_compute ::
  "seq_fee_parameters \<Rightarrow> seq_envelope \<Rightarrow> u64 \<Rightarrow> seq_congestion \<Rightarrow> u64 \<Rightarrow> seq_envelope_error + seq_fee_result" where
  "seq_fee_compute p e nbytes c block =
     (case seq_envelope_validate e of
        Inl err \<Rightarrow> Inl err
      | Inr _ \<Rightarrow>
      if seq_is_expired e block then Inl (EnvelopeExpired (sv_expiry e) block)
      else
      let base_fee = sp_base_admission_fee p;
          bytes_fee = sat_mul (to_u128 nbytes) (sp_fee_per_byte p);
          effective_tip = min (sv_priority_tip e) (sp_priority_tip_cap p);
          multiplier = seq_congestion_multiplier p c;
          pre_multiplier = sat_add (sat_add base_fee bytes_fee) effective_tip;
          computed_fee = sat_mul pre_multiplier (to_u128 multiplier) div 10000;
          fee1 = (if computed_fee < sp_poseq_fee_floor p then sp_poseq_fee_floor p else computed_fee);
          charged_fee = (if fee1 > sp_max_poseq_fee_cap p then sp_max_poseq_fee_cap p else fee1)
      in if charged_fee > sv_max_poseq_fee e then Inl (InsufficientPoseqFee charged_fee (sv_max_poseq_fee e))
         else Inr \<lparr>sf_base_fee = base_fee, sf_bytes_fee = bytes_fee, sf_effective_tip = effective_tip,
                   sf_congestion_multiplier_bps = multiplier, sf_computed_fee = computed_fee,
                   sf_charged_fee = charged_fee, sf_refund = sat_sub (sv_max_poseq_fee e) charged_fee\<rparr>)"

definition seq_expiry_penalty :: "seq_fee_parameters \<Rightarrow> u128 \<Rightarrow> u128" where
  "seq_expiry_penalty p charged_fee = sat_mul charged_fee (to_u128 (sp_expiry_penalty_bps p)) div 10000"

definition can_afford_minimum :: "seq_fee_parameters \<Rightarrow> seq_envelope \<Rightarrow> bool" where
  "can_afford_minimum p e \<longleftrightarrow> sv_max_poseq_fee e \<ge> sp_poseq_fee_floor p"

section \<open>Distribution\<close>

record fee_distribution =
  dd_total_fee :: u128
  dd_sequencer_rewards :: u128
  dd_shared_security :: u128
  dd_treasury :: u128
  dd_burn :: u128

definition verify_budget_neutral :: "fee_distribution \<Rightarrow> bool" where
  "verify_budget_neutral d \<longleftrightarrow>
     sat_add (sat_add (sat_add (dd_sequencer_rewards d) (dd_shared_security d)) (dd_treasury d)) (dd_burn d) = dd_total_fee d"

definition distribute_fee :: "seq_fee_parameters \<Rightarrow> u128 \<Rightarrow> fee_distribution" where
  "distribute_fee p total_fee =
     (if total_fee = 0 then
        \<lparr>dd_total_fee = 0, dd_sequencer_rewards = 0, dd_shared_security = 0, dd_treasury = 0, dd_burn = 0\<rparr>
      else
      let shared_security = sat_mul total_fee (to_u128 (sp_shared_security_bps p)) div 10000;
          treasury = sat_mul total_fee (to_u128 (sp_treasury_bps p)) div 10000;
          burn = sat_mul total_fee (to_u128 (sp_burn_bps p)) div 10000
      in \<lparr>dd_total_fee = total_fee,
          dd_sequencer_rewards = sat_sub (sat_sub (sat_sub total_fee shared_security) treasury) burn,
          dd_shared_security = shared_security, dd_treasury = treasury, dd_burn = burn\<rparr>)"

definition aggregate_distributions :: "fee_distribution list \<Rightarrow> fee_distribution" where
  "aggregate_distributions ds =
     fold (\<lambda>d agg. \<lparr>dd_total_fee = sat_add (dd_total_fee agg) (dd_total_fee d),
             dd_sequencer_rewards = sat_add (dd_sequencer_rewards agg) (dd_sequencer_rewards d),
             dd_shared_security = sat_add (dd_shared_security agg) (dd_shared_security d),
             dd_treasury = sat_add (dd_treasury agg) (dd_treasury d),
             dd_burn = sat_add (dd_burn agg) (dd_burn d)\<rparr>) ds
       \<lparr>dd_total_fee = 0, dd_sequencer_rewards = 0, dd_shared_security = 0, dd_treasury = 0, dd_burn = 0\<rparr>"

section \<open>Priority\<close>

record priority_config =
  pq_fairness_class_weight_bps :: u64
  pq_urgency_weight_bps :: u64
  pq_tip_weight_bps :: u64
  pq_starvation_weight_bps :: u64
  pq_urgency_horizon_blocks :: u64
  pq_starvation_threshold_blocks :: u64
  pq_max_starvation_boost :: u64

definition priority_config_default :: priority_config where
  "priority_config_default =
     \<lparr>pq_fairness_class_weight_bps = 4000, pq_urgency_weight_bps = 2500, pq_tip_weight_bps = 1500,
      pq_starvation_weight_bps = 2000, pq_urgency_horizon_blocks = 50, pq_starvation_threshold_blocks = 100,
      pq_max_starvation_boost = 10000\<rparr>"

definition priority_config_validate :: "priority_config \<Rightarrow> bool" where
  "priority_config_validate c \<longleftrightarrow>
     sat_add (sat_add (sat_add (pq_fairness_class_weight_bps c) (pq_urgency_weight_bps c)) (pq_tip_weight_bps c))
       (pq_starvation_weight_bps c) = 10000"

record priority_input =
  pi_fairness_class_weight :: u64
  pi_admitted_at_block :: u64
  pi_deadline :: u64
  pi_current_block :: u64
  pi_effective_tip :: u128
  pi_tip_cap :: u128
  pi_is_protected :: bool

record priority_score_parts =
  px_fairness_component :: u64
  px_urgency_component :: u64
  px_tip_component :: u64
  px_starvation_component :: u64
  px_composite :: u64
  px_starvation_active :: bool
  px_is_protected :: bool

definition compute_urgency :: "priority_input \<Rightarrow> u64 \<Rightarrow> u64" where
  "compute_urgency i horizon =
     (if pi_current_block i \<ge> pi_deadline i then 10000
      else
      let blocks_remaining = sat_sub (pi_deadline i) (pi_current_block i) in
      if blocks_remaining \<ge> horizon \<or> horizon = 0 then 0
      else sat_mul (sat_sub horizon blocks_remaining) 10000 div horizon)"

definition tip_raw :: "priority_input \<Rightarrow> u64" where
  "tip_raw i =
     (if pi_tip_cap i = 0 then 0
      else if pi_effective_tip i \<ge> pi_tip_cap i then 10000
      else
      let normalized =
            (if unat (pi_effective_tip i) * 10000 < 2 ^ 128 then (pi_effective_tip i * 10000) div pi_tip_cap i
             else sat_mul (pi_effective_tip i div pi_tip_cap i) 10000)
      in min (to_u64 normalized) 10000)"

definition starvation_raw :: "priority_config \<Rightarrow> priority_input \<Rightarrow> u64" where
  "starvation_raw c i =
     (let waiting = sat_sub (pi_current_block i) (pi_admitted_at_block i) in
      if waiting \<ge> pq_starvation_threshold_blocks c
      then min (sat_mul (sat_sub waiting (pq_starvation_threshold_blocks c)) 100) (pq_max_starvation_boost c)
      else 0)"

definition weighted :: "u64 \<Rightarrow> u64 \<Rightarrow> u64" where
  "weighted raw weight_bps = sat_mul raw weight_bps div 10000"

definition compute_priority :: "priority_config \<Rightarrow> priority_input \<Rightarrow> priority_score_parts" where
  "compute_priority c i =
     (let f = weighted (min (pi_fairness_class_weight i) 10000) (pq_fairness_class_weight_bps c);
          u = weighted (compute_urgency i (pq_urgency_horizon_blocks c)) (pq_urgency_weight_bps c);
          t = weighted (tip_raw i) (pq_tip_weight_bps c);
          v = weighted (starvation_raw c i) (pq_starvation_weight_bps c)
      in \<lparr>px_fairness_component = f, px_urgency_component = u, px_tip_component = t, px_starvation_component = v,
          px_composite = sat_add (sat_add (sat_add f u) t) v,
          px_starvation_active =
            sat_sub (pi_current_block i) (pi_admitted_at_block i) \<ge> pq_starvation_threshold_blocks c,
          px_is_protected = pi_is_protected i\<rparr>)"

section \<open>Quotes\<close>

record quote_breakdown =
  qb_base_admission :: u128
  qb_bandwidth_fee :: u128
  qb_priority_tip :: u128
  qb_congestion_adjustment :: err_text
  qb_runtime_gas_estimate :: u64
  qb_runtime_gas_price :: u128

datatype quote_warning = ComputationError seq_envelope_error | Warning err_text

record seq_fee_quote =
  sq_estimated_poseq_fee :: u128
  sq_estimated_runtime_fee :: u128
  sq_estimated_total_fee :: u128
  sq_congestion_multiplier_bps :: u64
  sq_priority_tip_used :: u128
  sq_tip_was_capped :: bool
  sq_breakdown :: quote_breakdown
  sq_warnings :: "quote_warning list"

definition quote_parts ::
  "seq_fee_parameters \<Rightarrow> seq_envelope \<Rightarrow> u64 \<Rightarrow> seq_congestion \<Rightarrow> u64
     \<Rightarrow> (u128 \<times> u64 \<times> u128 \<times> bool \<times> u128 \<times> u128) \<times> quote_warning list" where
  "quote_parts p e nbytes c block =
     (case seq_fee_compute p e nbytes c block of
        Inr r \<Rightarrow> ((sf_charged_fee r, sf_congestion_multiplier_bps r, sf_effective_tip r,
                   sv_priority_tip e > sp_priority_tip_cap p, sf_base_fee r, sf_bytes_fee r), [])
      | Inl err \<Rightarrow> ((sp_poseq_fee_floor p, 10000, 0, False, sp_base_admission_fee p,
                   sat_mul (to_u128 nbytes) (sp_fee_per_byte p)), [ComputationError err]))"

definition estimate_seq_fee ::
  "seq_fee_parameters \<Rightarrow> seq_envelope \<Rightarrow> u64 \<Rightarrow> seq_congestion \<Rightarrow> u64 \<Rightarrow> u64 \<Rightarrow> u128 \<Rightarrow> seq_fee_quote" where
  "estimate_seq_fee p e nbytes c block runtime_gas gas_price =
     (let ((poseq_fee, multiplier, tip_used, tip_capped, base, byte_fee), ws) = quote_parts p e nbytes c block;
          runtime_fee = sat_mul (to_u128 runtime_gas) gas_price;
          warnings = ws
            @ (if multiplier \<ge> 30000 then [Warning (Text ''high congestion: fees are 3x+ normal'')] else [])
            @ (if tip_capped then [Warning (Fmt ''priority tip capped from {} to {}''
                 [unat (sv_priority_tip e), unat (sp_priority_tip_cap p)])] else [])
            @ (if sv_max_poseq_fee e < poseq_fee then [Warning (Fmt ''max_poseq_fee ({}) may be insufficient (estimated {})''
                 [unat (sv_max_poseq_fee e), unat poseq_fee])] else [])
            @ (if sv_max_runtime_fee e < runtime_fee then [Warning (Fmt ''max_runtime_fee ({}) may be insufficient (estimated {})''
                 [unat (sv_max_runtime_fee e), unat runtime_fee])] else [])
            @ (if seq_is_expired e block then [Warning (Text ''fee envelope has already expired'')] else []);
          desc = (if multiplier < 10000 then Fmt ''{}% below target (discount)'' [unat ((10000 - multiplier) div 100)]
                  else if multiplier = 10000 then Text ''at target (1.0x)''
                  else Fmt ''{}% above target (surcharge)'' [unat ((multiplier - 10000) div 100)])
      in \<lparr>sq_estimated_poseq_fee = poseq_fee, sq_estimated_runtime_fee = runtime_fee,
          sq_estimated_total_fee = sat_add poseq_fee runtime_fee, sq_congestion_multiplier_bps = multiplier,
          sq_priority_tip_used = tip_used, sq_tip_was_capped = tip_capped,
          sq_breakdown = \<lparr>qb_base_admission = base, qb_bandwidth_fee = byte_fee, qb_priority_tip = tip_used,
            qb_congestion_adjustment = desc, qb_runtime_gas_estimate = runtime_gas, qb_runtime_gas_price = gas_price\<rparr>,
          sq_warnings = warnings\<rparr>)"

definition suggest_envelope ::
  "seq_fee_parameters \<Rightarrow> u64 \<Rightarrow> seq_congestion \<Rightarrow> u128 \<Rightarrow> u64 \<Rightarrow> u128 \<Rightarrow> u64 \<Rightarrow> u64 \<Rightarrow> bytes32 \<Rightarrow> seq_envelope" where
  "suggest_envelope p nbytes c priority_tip runtime_gas gas_price expiry_blocks block payer =
     (let effective_tip = min priority_tip (sp_priority_tip_cap p);
          base = sp_base_admission_fee p;
          byte_fee = sat_mul (to_u128 nbytes) (sp_fee_per_byte p);
          multiplier = seq_congestion_multiplier p c;
          raw_poseq = sat_mul (base + byte_fee + effective_tip) (to_u128 multiplier) div 10000;
          poseq_fee = max raw_poseq (sp_poseq_fee_floor p);
          margin_poseq = sat_mul poseq_fee 12 div 10;
          estimated_runtime = sat_mul (to_u128 runtime_gas) gas_price;
          margin_runtime = sat_mul estimated_runtime 12 div 10
      in \<lparr>sv_payer = payer, sv_max_poseq_fee = margin_poseq, sv_max_runtime_fee = margin_runtime,
          sv_priority_tip = priority_tip, sv_expiry = block + expiry_blocks\<rparr>)"

section \<open>Accounting\<close>

record tip_stats =
  tst_intents_with_tip :: u64
  tst_intents_without_tip :: u64
  tst_total_effective_tips :: u128
  tst_max_effective_tip :: u128
  tst_tips_capped :: u64

record seq_fee_accounting =
  sa_total_fees_collected :: u128
  sa_total_runtime_fees_collected :: u128
  sa_total_refunds :: u128
  sa_total_expiry_penalties :: u128
  sa_total_burned :: u128
  sa_total_sequencer_rewards :: u128
  sa_total_shared_security :: u128
  sa_total_treasury :: u128
  sa_intents_charged :: u64
  sa_intents_expired_with_penalty :: u64
  sa_intents_rejected :: u64
  sa_congestion_samples :: "(u64 \<times> u64) list"
  sa_batch_distributions :: "fee_distribution list"
  sa_tip_stats :: tip_stats
  sa_fees_by_intent_type :: "(string \<times> u128) list"

definition accounting_new :: seq_fee_accounting where
  "accounting_new =
     \<lparr>sa_total_fees_collected = 0, sa_total_runtime_fees_collected = 0, sa_total_refunds = 0,
      sa_total_expiry_penalties = 0, sa_total_burned = 0, sa_total_sequencer_rewards = 0, sa_total_shared_security = 0,
      sa_total_treasury = 0, sa_intents_charged = 0, sa_intents_expired_with_penalty = 0, sa_intents_rejected = 0,
      sa_congestion_samples = [], sa_batch_distributions = [],
      sa_tip_stats = \<lparr>tst_intents_with_tip = 0, tst_intents_without_tip = 0, tst_total_effective_tips = 0,
        tst_max_effective_tip = 0, tst_tips_capped = 0\<rparr>, sa_fees_by_intent_type = []\<rparr>"

text \<open>\<^verbatim>\<open>*map.entry(kind).or_insert(0) += fee\<close>, the addition unchecked.\<close>

fun add_by_type :: "string \<Rightarrow> u128 \<Rightarrow> (string \<times> u128) list \<Rightarrow> (string \<times> u128) list" where
  "add_by_type k fee [] = [(k, 0 + fee)]"
| "add_by_type k fee ((k', n) # m) = (if k' = k then (k', n + fee) # m else (k', n) # add_by_type k fee m)"

definition update_tip_stats :: "u128 \<Rightarrow> bool \<Rightarrow> tip_stats \<Rightarrow> tip_stats" where
  "update_tip_stats tip capped t =
     (let t1 = (if tip > 0 then
                  t\<lparr>tst_intents_with_tip := tst_intents_with_tip t + 1,
                    tst_total_effective_tips := sat_add (tst_total_effective_tips t) tip,
                    tst_max_effective_tip := (if tip > tst_max_effective_tip t then tip else tst_max_effective_tip t)\<rparr>
                else t\<lparr>tst_intents_without_tip := tst_intents_without_tip t + 1\<rparr>)
      in if capped then t1\<lparr>tst_tips_capped := tst_tips_capped t1 + 1\<rparr> else t1)"

definition record_poseq_charge ::
  "u128 \<Rightarrow> u128 \<Rightarrow> u128 \<Rightarrow> bool \<Rightarrow> string \<Rightarrow> seq_fee_accounting \<Rightarrow> seq_fee_accounting" where
  "record_poseq_charge charged_fee refund tip capped kind a =
     a\<lparr>sa_total_fees_collected := sat_add (sa_total_fees_collected a) charged_fee,
       sa_total_refunds := sat_add (sa_total_refunds a) refund,
       sa_intents_charged := sa_intents_charged a + 1,
       sa_tip_stats := update_tip_stats tip capped (sa_tip_stats a),
       sa_fees_by_intent_type := add_by_type kind charged_fee (sa_fees_by_intent_type a)\<rparr>"

definition record_runtime_charge :: "u128 \<Rightarrow> seq_fee_accounting \<Rightarrow> seq_fee_accounting" where
  "record_runtime_charge fee a =
     a\<lparr>sa_total_runtime_fees_collected := sat_add (sa_total_runtime_fees_collected a) fee\<rparr>"

definition record_expiry_penalty :: "u128 \<Rightarrow> seq_fee_accounting \<Rightarrow> seq_fee_accounting" where
  "record_expiry_penalty penalty a =
     a\<lparr>sa_total_expiry_penalties := sat_add (sa_total_expiry_penalties a) penalty,
       sa_intents_expired_with_penalty := sa_intents_expired_with_penalty a + 1\<rparr>"

definition accounting_record_rejection :: "seq_fee_accounting \<Rightarrow> seq_fee_accounting" where
  "accounting_record_rejection a = a\<lparr>sa_intents_rejected := sa_intents_rejected a + 1\<rparr>"

definition record_distribution :: "fee_distribution \<Rightarrow> seq_fee_accounting \<Rightarrow> seq_fee_accounting" where
  "record_distribution d a =
     a\<lparr>sa_total_sequencer_rewards := sat_add (sa_total_sequencer_rewards a) (dd_sequencer_rewards d),
       sa_total_shared_security := sat_add (sa_total_shared_security a) (dd_shared_security d),
       sa_total_treasury := sat_add (sa_total_treasury a) (dd_treasury d),
       sa_total_burned := sat_add (sa_total_burned a) (dd_burn d),
       sa_batch_distributions := sa_batch_distributions a @ [d]\<rparr>"

definition record_congestion_sample :: "u64 \<Rightarrow> u64 \<Rightarrow> seq_fee_accounting \<Rightarrow> seq_fee_accounting" where
  "record_congestion_sample block multiplier a =
     (let xs = sa_congestion_samples a @ [(block, multiplier)]
      in a\<lparr>sa_congestion_samples := (if length xs > 1000 then tl xs else xs)\<rparr>)"

definition average_poseq_fee :: "seq_fee_accounting \<Rightarrow> u128" where
  "average_poseq_fee a =
     (if sa_intents_charged a = 0 then 0 else sa_total_fees_collected a div to_u128 (sa_intents_charged a))"

definition average_congestion_bps :: "seq_fee_accounting \<Rightarrow> u64" where
  "average_congestion_bps a =
     (if sa_congestion_samples a = [] then 10000
      else sum_list (map snd (sa_congestion_samples a)) div of_nat (length (sa_congestion_samples a)))"

definition verify_accounting :: "seq_fee_accounting \<Rightarrow> bool" where
  "verify_accounting a \<longleftrightarrow>
     sat_add (sat_add (sat_add (sa_total_sequencer_rewards a) (sa_total_shared_security a)) (sa_total_treasury a))
       (sa_total_burned a) \<le> sat_add (sa_total_fees_collected a) (sa_total_expiry_penalties a)"

section \<open>The fee life cycle of an intent\<close>

datatype fee_lifecycle_state =
    FlRejected string
  | FlPendingReservation
  | FlReserved (fl_payer: bytes32) (fl_max_poseq_fee: u128) (fl_max_runtime_fee: u128) (fl_total_reserved: u128) u64
  | FlSequencingCharged (fl_payer: bytes32) (fl_poseq_fee_charged: u128) (fl_runtime_budget_remaining: u128) u64
  | FlRuntimeCharged (fl_payer: bytes32) (fl_poseq_fee_charged: u128) (fl_runtime_fee_charged: u128)
      (fl_total_charged: u128) (fl_pending_refund: u128) u64
  | FlExpired (fl_payer: bytes32) (fl_penalty: u128) (fl_pending_refund: u128) u64
  | FlCancelled (fl_payer: bytes32) (fl_pending_refund: u128) u64
  | FlRefunded (fl_payer: bytes32) (fl_total_charged: u128) (fl_total_refunded: u128) u64
  | FlClosed (fl_payer: bytes32) (fl_total_charged: u128) (fl_total_refunded: u128) (fl_closed_at_block: u64)

definition fl_is_terminal :: "fee_lifecycle_state \<Rightarrow> bool" where
  "fl_is_terminal s = (case s of FlClosed _ _ _ _ \<Rightarrow> True | FlRejected _ \<Rightarrow> True | _ \<Rightarrow> False)"

definition can_charge_sequencing :: "fee_lifecycle_state \<Rightarrow> bool" where
  "can_charge_sequencing s = (case s of FlReserved _ _ _ _ _ \<Rightarrow> True | _ \<Rightarrow> False)"

definition can_charge_runtime :: "fee_lifecycle_state \<Rightarrow> bool" where
  "can_charge_runtime s = (case s of FlSequencingCharged _ _ _ _ \<Rightarrow> True | _ \<Rightarrow> False)"

definition can_refund :: "fee_lifecycle_state \<Rightarrow> bool" where
  "can_refund s = (case s of FlRuntimeCharged _ _ _ _ _ _ \<Rightarrow> True | FlExpired _ _ _ _ \<Rightarrow> True | FlCancelled _ _ _ \<Rightarrow> True | _ \<Rightarrow> False)"

record fee_transition_record =
  ft_from :: string
  ft_to :: string
  ft_block :: u64

record fee_lifecycle =
  lc_intent_id :: bytes32
  lc_state :: fee_lifecycle_state
  lc_transitions :: "fee_transition_record list"

datatype fee_lifecycle_error =
    InvalidFeeTransition string string | AlreadyCharged string | AlreadyRefunded | AlreadyClosed
  | InsufficientBudget u128 u128 | FeeUnderflow string

definition fee_lifecycle_new :: "bytes32 \<Rightarrow> fee_lifecycle" where
  "fee_lifecycle_new i = \<lparr>lc_intent_id = i, lc_state = FlPendingReservation, lc_transitions = []\<rparr>"

fun state_name :: "fee_lifecycle_state \<Rightarrow> string" where
  "state_name (FlRejected _) = ''Rejected''"
| "state_name FlPendingReservation = ''PendingReservation''"
| "state_name (FlReserved _ _ _ _ _) = ''Reserved''"
| "state_name (FlSequencingCharged _ _ _ _) = ''SequencingCharged''"
| "state_name (FlRuntimeCharged _ _ _ _ _ _) = ''RuntimeCharged''"
| "state_name (FlExpired _ _ _ _) = ''Expired''"
| "state_name (FlCancelled _ _ _) = ''Cancelled''"
| "state_name (FlRefunded _ _ _ _) = ''Refunded''"
| "state_name (FlClosed _ _ _ _) = ''Closed''"

text \<open>\<^verbatim>\<open>self.state = s; self.record_transition(from, to, block)\<close>\<close>

definition fl_move :: "fee_lifecycle_state \<Rightarrow> string \<Rightarrow> u64 \<Rightarrow> fee_lifecycle \<Rightarrow> fee_lifecycle" where
  "fl_move s to_name block l =
     l\<lparr>lc_state := s,
       lc_transitions := lc_transitions l @ [\<lparr>ft_from = state_name (lc_state l), ft_to = to_name, ft_block = block\<rparr>]\<rparr>"

definition fl_reject :: "string \<Rightarrow> fee_lifecycle \<Rightarrow> fee_lifecycle \<times> (fee_lifecycle_error + unit)" where
  "fl_reject reason l =
     (if fl_is_terminal (lc_state l) then (l, Inl AlreadyClosed)
      else (fl_move (FlRejected reason) ''Rejected'' 0 l, Inr ()))"

definition fl_reserve ::
  "bytes32 \<Rightarrow> u128 \<Rightarrow> u128 \<Rightarrow> u64 \<Rightarrow> fee_lifecycle \<Rightarrow> fee_lifecycle \<times> (fee_lifecycle_error + u128)" where
  "fl_reserve payer max_poseq max_runtime block l =
     (if lc_state l \<noteq> FlPendingReservation then (l, Inl (InvalidFeeTransition (state_name (lc_state l)) ''Reserved''))
      else case checked_add max_poseq max_runtime of
        None \<Rightarrow> (l, Inl (FeeUnderflow ''total_reserved''))
      | Some t \<Rightarrow> (fl_move (FlReserved payer max_poseq max_runtime t block) ''Reserved'' block l, Inr t))"

definition fl_charge_sequencing :: "u128 \<Rightarrow> u64 \<Rightarrow> fee_lifecycle \<Rightarrow> fee_lifecycle \<times> (fee_lifecycle_error + unit)" where
  "fl_charge_sequencing poseq_fee block l =
     (case lc_state l of
        FlReserved payer max_poseq max_runtime t b \<Rightarrow>
          if poseq_fee > max_poseq then (l, Inl (InsufficientBudget poseq_fee max_poseq))
          else (fl_move (FlSequencingCharged payer poseq_fee max_runtime block) ''SequencingCharged'' block l, Inr ())
      | st \<Rightarrow> (l, Inl (InvalidFeeTransition (state_name st) ''SequencingCharged'')))"

definition fl_charge_runtime :: "u128 \<Rightarrow> u64 \<Rightarrow> fee_lifecycle \<Rightarrow> fee_lifecycle \<times> (fee_lifecycle_error + u128)" where
  "fl_charge_runtime runtime_fee block l =
     (case lc_state l of
        FlSequencingCharged payer poseq remaining b \<Rightarrow>
          (let actual = min runtime_fee remaining; refund = sat_sub remaining actual
           in (fl_move (FlRuntimeCharged payer poseq actual (sat_add poseq actual) refund block) ''RuntimeCharged'' block l,
               Inr refund))
      | st \<Rightarrow> (l, Inl (InvalidFeeTransition (state_name st) ''RuntimeCharged'')))"

definition fl_expire :: "u128 \<Rightarrow> u64 \<Rightarrow> fee_lifecycle \<Rightarrow> fee_lifecycle \<times> (fee_lifecycle_error + u128)" where
  "fl_expire penalty block l =
     (case lc_state l of
        FlReserved payer max_poseq max_runtime t b \<Rightarrow>
          (let actual = min penalty t; refund = sat_sub t actual
           in (fl_move (FlExpired payer actual refund block) ''Expired'' block l, Inr refund))
      | FlSequencingCharged payer poseq remaining b \<Rightarrow>
          (let actual = min penalty remaining; refund = sat_sub remaining actual
           in (fl_move (FlExpired payer (sat_add poseq actual) refund block) ''Expired'' block l, Inr refund))
      | st \<Rightarrow> (l, Inl (InvalidFeeTransition (state_name st) ''Expired'')))"

definition fl_cancel :: "u64 \<Rightarrow> fee_lifecycle \<Rightarrow> fee_lifecycle \<times> (fee_lifecycle_error + u128)" where
  "fl_cancel block l =
     (case lc_state l of
        FlReserved payer max_poseq max_runtime t b \<Rightarrow> (fl_move (FlCancelled payer t block) ''Cancelled'' block l, Inr t)
      | st \<Rightarrow> (l, Inl (InvalidFeeTransition (state_name st) ''Cancelled'')))"

definition fl_issue_refund :: "u64 \<Rightarrow> fee_lifecycle \<Rightarrow> fee_lifecycle \<times> (fee_lifecycle_error + u128)" where
  "fl_issue_refund block l =
     (case lc_state l of
        FlRuntimeCharged payer poseq runtime charged refund b \<Rightarrow>
          (fl_move (FlRefunded payer charged refund block) ''Refunded'' block l, Inr refund)
      | FlExpired payer penalty refund b \<Rightarrow> (fl_move (FlRefunded payer penalty refund block) ''Refunded'' block l, Inr refund)
      | FlCancelled payer refund b \<Rightarrow> (fl_move (FlRefunded payer 0 refund block) ''Refunded'' block l, Inr refund)
      | st \<Rightarrow> (l, Inl (InvalidFeeTransition (state_name st) ''Refunded'')))"

definition fl_close :: "u64 \<Rightarrow> fee_lifecycle \<Rightarrow> fee_lifecycle \<times> (fee_lifecycle_error + unit)" where
  "fl_close block l =
     (case lc_state l of
        FlRefunded payer charged refunded b \<Rightarrow> (fl_move (FlClosed payer charged refunded block) ''Closed'' block l, Inr ())
      | FlRejected r \<Rightarrow> (l, Inr ())
      | st \<Rightarrow> (l, Inl (InvalidFeeTransition (state_name st) ''Closed'')))"

definition verify_budget_consistency :: "fee_lifecycle \<Rightarrow> bool" where
  "verify_budget_consistency l =
     (case lc_state l of
        FlClosed payer charged refunded b \<Rightarrow> checked_add charged refunded \<noteq> None
      | FlRuntimeCharged payer poseq runtime charged refund b \<Rightarrow> checked_add charged refund \<noteq> None
      | _ \<Rightarrow> True)"

type_synonym seq_fee_ledger = "(bytes32, fee_lifecycle) btree"

definition ledger_begin :: "bytes32 \<Rightarrow> seq_fee_ledger \<Rightarrow> seq_fee_ledger \<times> (fee_lifecycle_error + fee_lifecycle)" where
  "ledger_begin i m =
     (if bt_has m i then (m, Inl (AlreadyCharged ''reservation already exists''))
      else (bt_put i (fee_lifecycle_new i) m, Inr (fee_lifecycle_new i)))"

definition ledger_active_count :: "seq_fee_ledger \<Rightarrow> usize" where
  "ledger_active_count m = length (filter (\<lambda>l. \<not> fl_is_terminal (lc_state l)) (bt_values m))"

definition ledger_prune_closed_before :: "u64 \<Rightarrow> seq_fee_ledger \<Rightarrow> seq_fee_ledger \<times> usize" where
  "ledger_prune_closed_before block m =
     (let m' = bt_retain (\<lambda>_ l. case lc_state l of FlClosed _ _ _ closed_at \<Rightarrow> closed_at \<ge> block
                                | FlRejected _ \<Rightarrow> False | _ \<Rightarrow> True) m
      in (m', length m - length m'))"

section \<open>The machine of one life cycle\<close>

datatype fl_op =
    OpReject string | OpReserve bytes32 u128 u128 u64 | OpChargeSequencing u128 u64 | OpChargeRuntime u128 u64
  | OpExpire u128 u64 | OpCancel u64 | OpRefund u64 | OpClose u64

fun fl_apply :: "fee_lifecycle \<Rightarrow> fl_op \<Rightarrow> fee_lifecycle" where
  "fl_apply l (OpReject r) = fst (fl_reject r l)"
| "fl_apply l (OpReserve p a b t) = fst (fl_reserve p a b t l)"
| "fl_apply l (OpChargeSequencing f b) = fst (fl_charge_sequencing f b l)"
| "fl_apply l (OpChargeRuntime f b) = fst (fl_charge_runtime f b l)"
| "fl_apply l (OpExpire f b) = fst (fl_expire f b l)"
| "fl_apply l (OpCancel b) = fst (fl_cancel b l)"
| "fl_apply l (OpRefund b) = fst (fl_issue_refund b l)"
| "fl_apply l (OpClose b) = fst (fl_close b l)"

text \<open>What the payer has been charged, what was refunded, and what is still held for the payer.\<close>

fun fl_charged :: "fee_lifecycle_state \<Rightarrow> nat" where
  "fl_charged (FlSequencingCharged _ f _ _) = unat f"
| "fl_charged (FlRuntimeCharged _ _ _ c _ _) = unat c"
| "fl_charged (FlExpired _ c _ _) = unat c"
| "fl_charged (FlRefunded _ c _ _) = unat c"
| "fl_charged (FlClosed _ c _ _) = unat c"
| "fl_charged _ = 0"

fun fl_refunded :: "fee_lifecycle_state \<Rightarrow> nat" where
  "fl_refunded (FlRefunded _ _ r _) = unat r"
| "fl_refunded (FlClosed _ _ r _) = unat r"
| "fl_refunded _ = 0"

fun fl_held :: "fee_lifecycle_state \<Rightarrow> nat" where
  "fl_held (FlReserved _ _ _ t _) = unat t"
| "fl_held (FlSequencingCharged _ _ r _) = unat r"
| "fl_held (FlRuntimeCharged _ _ _ _ r _) = unat r"
| "fl_held (FlExpired _ _ r _) = unat r"
| "fl_held (FlCancelled _ r _) = unat r"
| "fl_held _ = 0"

definition fl_paid :: "fee_lifecycle_state \<Rightarrow> nat" where
  "fl_paid s = fl_charged s + fl_refunded s + fl_held s"

fun fl_fits :: "fee_lifecycle_state \<Rightarrow> bool" where
  "fl_fits (FlReserved _ a b t _) \<longleftrightarrow> unat a + unat b = unat t"
| "fl_fits (FlSequencingCharged _ f r _) \<longleftrightarrow> unat f + unat r < 2 ^ 128"
| "fl_fits _ \<longleftrightarrow> True"

fun fl_rank :: "fee_lifecycle_state \<Rightarrow> nat" where
  "fl_rank FlPendingReservation = 0"
| "fl_rank (FlReserved _ _ _ _ _) = 1"
| "fl_rank (FlSequencingCharged _ _ _ _) = 2"
| "fl_rank (FlRuntimeCharged _ _ _ _ _ _) = 3"
| "fl_rank (FlExpired _ _ _ _) = 3"
| "fl_rank (FlCancelled _ _ _) = 3"
| "fl_rank (FlRefunded _ _ _ _) = 4"
| "fl_rank (FlClosed _ _ _ _) = 5"
| "fl_rank (FlRejected _) = 5"

definition fl_step :: "fee_lifecycle \<Rightarrow> fl_op \<Rightarrow> fee_lifecycle \<times> unit" where
  "fl_step l op = (fl_apply l op, ())"

lemmas fl_op_defs = fl_reject_def fl_reserve_def fl_charge_sequencing_def fl_charge_runtime_def fl_expire_def
  fl_cancel_def fl_issue_refund_def fl_close_def fl_move_def

lemma reserve_fits:
  "unat a + unat b = unat t \<Longrightarrow> f \<le> a \<Longrightarrow> unat f + unat b < 2 ^ 128" for a b t f :: u128
  using unat_less_2p [of t] by (simp add: word_le_nat_alt)

text \<open>Once something is reserved, no operation raises what the payer has paid, was refunded and is owed.\<close>

lemma fl_apply_paid:
  assumes "fl_fits (lc_state l)" and "lc_state l \<noteq> FlPendingReservation"
  shows "fl_fits (lc_state (fl_apply l op)) \<and> lc_state (fl_apply l op) \<noteq> FlPendingReservation \<and>
    fl_paid (lc_state (fl_apply l op)) \<le> fl_paid (lc_state l)"
proof (cases op)
  case (OpChargeSequencing f b)
  then show ?thesis using assms
    by (cases "lc_state l")
      (auto simp: fl_op_defs fl_paid_def not_less dest: reserve_fits, simp add: word_le_nat_alt)
next
  case (OpChargeRuntime f b)
  then show ?thesis using assms
    by (cases "lc_state l") (auto simp: fl_op_defs fl_paid_def Let_def machine_simps min_def word_le_nat_alt)
next
  case (OpExpire f b)
  then show ?thesis using assms
    by (cases "lc_state l") (auto simp: fl_op_defs fl_paid_def Let_def machine_simps min_def word_le_nat_alt)
qed (use assms in \<open>cases "lc_state l"; auto simp: fl_op_defs fl_paid_def fl_is_terminal_def\<close>)+

lemma fl_apply_rank:
  "lc_state (fl_apply l op) = lc_state l \<or> fl_rank (lc_state l) < fl_rank (lc_state (fl_apply l op))"
  by (cases op; cases "lc_state l"; auto simp: fl_op_defs fl_is_terminal_def Let_def split: option.split)

interpretation fl_spend: monotone_machine fl_step
  "\<lambda>_ l. fl_fits (lc_state l) \<and> lc_state l \<noteq> FlPendingReservation" "\<lambda>l. - int (fl_paid (lc_state l))"
  by unfold_locales (use fl_apply_paid in \<open>auto simp: fl_step_def\<close>)

interpretation fl_order: monotone_machine fl_step "\<lambda>_ _. True" "\<lambda>l. fl_rank (lc_state l)"
proof
  fix l op
  show "fl_rank (lc_state l) \<le> fl_rank (lc_state (fst (fl_step l op)))"
    using fl_apply_rank [of l op] by (auto simp: fl_step_def)
qed simp

section \<open>Lemmas: fees and shares\<close>

lemma share_le:
  "unat (sat_mul t (to_u128 bps) div 10000) \<le> unat t * unat bps div 10000" for t :: u128
  by (simp add: unat_div machine_simps div_le_mono)

lemma parameters_valid:
  assumes "parameters_validate p = Inr ()"
  shows "sp_min_congestion_multiplier_bps p \<le> sp_max_congestion_multiplier_bps p"
    "sp_poseq_fee_floor p \<le> sp_max_poseq_fee_cap p" "sp_expiry_penalty_bps p \<le> 10000"
    "unat (sp_sequencer_reward_bps p) + unat (sp_shared_security_bps p) + unat (sp_treasury_bps p) + unat (sp_burn_bps p) = 10000"
proof -
  show "sp_min_congestion_multiplier_bps p \<le> sp_max_congestion_multiplier_bps p"
    "sp_poseq_fee_floor p \<le> sp_max_poseq_fee_cap p" "sp_expiry_penalty_bps p \<le> 10000"
    using assms by (auto simp: parameters_validate_def not_less split: if_splits)
  have sum: "sp_sequencer_reward_bps p + sp_shared_security_bps p + sp_treasury_bps p + sp_burn_bps p = 10000"
    "unat (sp_sequencer_reward_bps p) + unat (sp_shared_security_bps p) < 2 ^ 64"
    "unat (sp_sequencer_reward_bps p + sp_shared_security_bps p) + unat (sp_treasury_bps p) < 2 ^ 64"
    "unat (sp_sequencer_reward_bps p + sp_shared_security_bps p + sp_treasury_bps p) + unat (sp_burn_bps p) < 2 ^ 64"
    using assms by (auto simp: parameters_validate_def checked_add_def split: if_splits option.splits)
  have "unat (sp_sequencer_reward_bps p + sp_shared_security_bps p + sp_treasury_bps p + sp_burn_bps p) =
      unat (sp_sequencer_reward_bps p) + unat (sp_shared_security_bps p) + unat (sp_treasury_bps p) + unat (sp_burn_bps p)"
    using sum(2-4) unat_add_fits [of "sp_sequencer_reward_bps p" "sp_shared_security_bps p"]
      unat_add_fits [of "sp_sequencer_reward_bps p + sp_shared_security_bps p" "sp_treasury_bps p"]
      unat_add_fits [of "sp_sequencer_reward_bps p + sp_shared_security_bps p + sp_treasury_bps p" "sp_burn_bps p"]
    by simp
  then show "unat (sp_sequencer_reward_bps p) + unat (sp_shared_security_bps p) + unat (sp_treasury_bps p) + unat (sp_burn_bps p) = 10000"
    by (simp add: sum(1))
qed

lemma shares_fit:
  fixes t :: nat assumes "a + b + c \<le> 10000"
  shows "t * a div 10000 + t * b div 10000 + t * c div 10000 \<le> t"
proof -
  have "10000 * (t * a div 10000 + t * b div 10000 + t * c div 10000) \<le> t * a + t * b + t * c"
    by (simp add: algebra_simps times_div_less_eq_dividend add_mono)
  also have "\<dots> = t * (a + b + c)" by (simp add: algebra_simps)
  also have "\<dots> \<le> t * 10000" using assms by simp
  finally show ?thesis by simp
qed

lemma multiplier_bounded:
  "sp_min_congestion_multiplier_bps p \<le> sp_max_congestion_multiplier_bps p \<Longrightarrow>
     sp_min_congestion_multiplier_bps p \<le> seq_congestion_multiplier p c \<and>
     seq_congestion_multiplier p c \<le> sp_max_congestion_multiplier_bps p"
  by (auto simp: seq_congestion_multiplier_def Let_def)

section \<open>Lemmas: priority\<close>

lemma tip_raw_le: "tip_raw i \<le> 10000"
  by (simp add: tip_raw_def Let_def)

lemma capped_div_le: "n \<le> k * h \<Longrightarrow> 0 < h \<Longrightarrow> min n m div h \<le> k" for n m k h :: nat
proof -
  assume "n \<le> k * h" and h: "0 < h"
  then have "min n m div h \<le> k * h div h" by (intro div_le_mono) (simp add: min.coboundedI1)
  with h show ?thesis by simp
qed

lemma weighted_le: "raw \<le> 10000 \<Longrightarrow> weighted raw w \<le> w"
  using capped_div_le [of "unat raw * unat w" "unat w" 10000 "2 ^ 64 - 1"]
  by (simp add: weighted_def word_le_nat_alt unat_div machine_simps)

lemma urgency_le: "compute_urgency i h \<le> 10000"
proof -
  have "h \<noteq> 0 \<Longrightarrow> sat_mul (sat_sub h r) 10000 div h \<le> 10000" for r
    using capped_div_le [of "(unat h - unat r) * 10000" 10000 "unat h" "2 ^ 64 - 1"]
    by (simp add: word_le_nat_alt unat_div machine_simps unat_gt_0)
  then show ?thesis by (simp add: compute_urgency_def Let_def)
qed

lemma saturating_shift:
  "t \<le> w \<Longrightarrow> min (min (min x m + t) m + v) m \<le> min (min (min x m + t') m + v) m + w" for m :: nat
  by (auto simp: min_def)

lemma sat_add_fits: "unat a + unat b < 2 ^ LENGTH('a) \<Longrightarrow> sat_add a b = a + b" for a b :: "'a::len word"
  by (simp add: sat_add_def)

lemma fl_transitions_le_rank:
  "length (lc_transitions l) \<le> fl_rank (lc_state l) \<Longrightarrow>
     length (lc_transitions (fl_apply l op)) \<le> fl_rank (lc_state (fl_apply l op))"
  by (cases op; cases "lc_state l"; auto simp: fl_op_defs fl_is_terminal_def Let_def split: option.split)

interpretation fl_count: preserving_machine fl_step "\<lambda>_ l. length (lc_transitions l) \<le> fl_rank (lc_state l)"
  by unfold_locales (simp add: fl_step_def fl_transitions_le_rank)

section \<open>Properties\<close>

text \<open>
  With valid parameters a computed sequencing fee lies between the floor and the cap and within the payer's
  maximum, fee and refund make up that maximum, the congestion multiplier and the tip are within their bounds,
  the envelope has not expired, and an expiry penalty is at most the fee.
\<close>

theorem seq_fee_within_bounds:
  assumes "parameters_validate p = Inr ()" and "seq_fee_compute p e n c block = Inr r"
  shows "sp_poseq_fee_floor p \<le> sf_charged_fee r \<and> sf_charged_fee r \<le> sp_max_poseq_fee_cap p \<and>
    unat (sf_charged_fee r) + unat (sf_refund r) = unat (sv_max_poseq_fee e) \<and>
    sp_min_congestion_multiplier_bps p \<le> sf_congestion_multiplier_bps r \<and>
    sf_congestion_multiplier_bps r \<le> sp_max_congestion_multiplier_bps p \<and>
    sf_effective_tip r \<le> sp_priority_tip_cap p \<and> block \<le> sv_expiry e \<and>
    seq_expiry_penalty p (sf_charged_fee r) \<le> sf_charged_fee r"
proof -
  note valid = parameters_valid [OF assms(1)]
  have "unat (sf_charged_fee r) * unat (sp_expiry_penalty_bps p) \<le> unat (sf_charged_fee r) * 10000"
    using valid(3) by (simp add: word_le_nat_alt)
  then have "seq_expiry_penalty p (sf_charged_fee r) \<le> sf_charged_fee r"
    using capped_div_le [of "unat (sf_charged_fee r) * unat (sp_expiry_penalty_bps p)" "unat (sf_charged_fee r)" 10000 "2 ^ 128 - 1"]
    by (simp add: seq_expiry_penalty_def word_le_nat_alt unat_div machine_simps)
  moreover have "unat (sf_charged_fee r) + unat (sf_refund r) = unat (sv_max_poseq_fee e)"
    "sp_poseq_fee_floor p \<le> sf_charged_fee r \<and> sf_charged_fee r \<le> sp_max_poseq_fee_cap p"
    "sf_congestion_multiplier_bps r = seq_congestion_multiplier p c" "sf_effective_tip r \<le> sp_priority_tip_cap p"
    "block \<le> sv_expiry e"
    using assms(2) valid(2)
    by (auto simp: seq_fee_compute_def Let_def seq_is_expired_def machine_simps word_le_nat_alt word_less_nat_alt not_less min_def
        split: sum.splits if_splits)
  ultimately show ?thesis using multiplier_bounded [OF valid(1), of c] by simp
qed

theorem seq_fee_within_bounds_witness:
  "\<exists>r. seq_fee_compute testnet_defaults \<lparr>sv_payer = 1, sv_max_poseq_fee = 5000, sv_max_runtime_fee = 1, sv_priority_tip = 100, sv_expiry = 9\<rparr>
        200 \<lparr>cg_current_intent_count = 10, cg_last_batch_intent_count = 64\<rparr> 5 = Inr r \<and>
      sf_charged_fee r = 3100 \<and> unat (sf_charged_fee r) + unat (sf_refund r) = 5000"
proof -
  let ?e = "\<lparr>sv_payer = 1, sv_max_poseq_fee = 5000, sv_max_runtime_fee = 1, sv_priority_tip = 100, sv_expiry = 9\<rparr>"
  let ?c = "\<lparr>cg_current_intent_count = 10, cg_last_batch_intent_count = 64\<rparr>"
  have v: "parameters_validate testnet_defaults = Inr ()"
    by (simp add: parameters_validate_def testnet_defaults_def checked_add_def)
  obtain r where r: "seq_fee_compute testnet_defaults ?e 200 ?c 5 = Inr r" "sf_charged_fee r = 3100"
    by (simp add: seq_fee_compute_def seq_envelope_validate_def seq_is_expired_def testnet_defaults_def checked_add_def
        seq_congestion_multiplier_def sat_mul_def sat_add_def checked_div_def Let_def)
  from seq_fee_within_bounds [OF v r(1)] r show ?thesis by auto
qed

text \<open>
  With valid parameters a distribution conserves the fee exactly, for every fee: the four shares add up to it,
  the rounding goes to the sequencer and the budget check passes.
\<close>

theorem seq_distribution_conserves:
  assumes "parameters_validate p = Inr ()"
  shows "unat (dd_sequencer_rewards (distribute_fee p t)) + unat (dd_shared_security (distribute_fee p t)) +
      unat (dd_treasury (distribute_fee p t)) + unat (dd_burn (distribute_fee p t)) = unat t \<and>
    verify_budget_neutral (distribute_fee p t)"
proof (cases "t = 0")
  case True
  then show ?thesis by (simp add: distribute_fee_def verify_budget_neutral_def sat_add_def)
next
  case False
  let ?a = "sat_mul t (to_u128 (sp_shared_security_bps p)) div 10000"
  let ?b = "sat_mul t (to_u128 (sp_treasury_bps p)) div 10000"
  let ?c = "sat_mul t (to_u128 (sp_burn_bps p)) div 10000"
  have "unat ?a + unat ?b + unat ?c \<le> unat t"
    using share_le [of t "sp_shared_security_bps p"] share_le [of t "sp_treasury_bps p"] share_le [of t "sp_burn_bps p"]
      shares_fit [of "unat (sp_shared_security_bps p)" "unat (sp_treasury_bps p)" "unat (sp_burn_bps p)" "unat t"]
      parameters_valid(4) [OF assms] by linarith
  then have sum: "unat (dd_sequencer_rewards (distribute_fee p t)) + unat (dd_shared_security (distribute_fee p t)) +
      unat (dd_treasury (distribute_fee p t)) + unat (dd_burn (distribute_fee p t)) = unat t"
    using False by (simp add: distribute_fee_def Let_def unat_sat_sub)
  moreover have "dd_total_fee (distribute_fee p t) = t" using False by (simp add: distribute_fee_def Let_def)
  ultimately show ?thesis
    using unat_less_2p [of t] by (simp add: verify_budget_neutral_def word_unat_eq_iff machine_simps)
qed

theorem seq_distribution_conserves_witness:
  "dd_sequencer_rewards (distribute_fee testnet_defaults 1001) = 451 \<and> verify_budget_neutral (distribute_fee testnet_defaults 1001)"
proof -
  have "parameters_validate testnet_defaults = Inr ()"
    by (simp add: parameters_validate_def testnet_defaults_def checked_add_def)
  from seq_distribution_conserves [OF this, of 1001] show ?thesis
    by (simp add: distribute_fee_def testnet_defaults_def Let_def sat_mul_def sat_sub_def)
qed

text \<open>
  A tip is one bounded signal: whatever tip and cap replace those of an intent, its priority changes by the
  tip's weight at most.
\<close>

theorem tip_moves_priority_by_its_weight:
  "unat (px_composite (compute_priority c i)) \<le>
     unat (px_composite (compute_priority c (i\<lparr>pi_effective_tip := tip, pi_tip_cap := cap\<rparr>))) + unat (pq_tip_weight_bps c)"
proof -
  let ?j = "i\<lparr>pi_effective_tip := tip, pi_tip_cap := cap\<rparr>"
  have same: "compute_urgency ?j h = compute_urgency i h" "starvation_raw c ?j = starvation_raw c i" for h
    by (simp_all add: compute_urgency_def starvation_raw_def)
  have "unat (weighted (tip_raw i) (pq_tip_weight_bps c)) \<le> unat (pq_tip_weight_bps c)"
    using weighted_le [OF tip_raw_le [of i], of "pq_tip_weight_bps c"] by (simp add: word_le_nat_alt)
  then show ?thesis
    by (simp add: compute_priority_def Let_def same machine_simps) (rule saturating_shift)
qed

text \<open>The protected flag does not enter the score.\<close>

theorem protected_flag_does_not_matter:
  "px_composite (compute_priority c (i\<lparr>pi_is_protected := b\<rparr>)) = px_composite (compute_priority c i) \<and>
   px_fairness_component (compute_priority c (i\<lparr>pi_is_protected := b\<rparr>)) = px_fairness_component (compute_priority c i)"
  by (simp add: compute_priority_def Let_def compute_urgency_def starvation_raw_def tip_raw_def)

text \<open>A tip too large to multiply scores nothing, while half of it scores half.\<close>

theorem large_tip_scores_zero:
  defines "i \<equiv> \<lparr>pi_fairness_class_weight = 0, pi_admitted_at_block = 0, pi_deadline = 0, pi_current_block = 0,
    pi_effective_tip = 2 ^ 115, pi_tip_cap = 2 ^ 115 + 1, pi_is_protected = False\<rparr>"
  shows "tip_raw i = 0 \<and> tip_raw (i\<lparr>pi_effective_tip := 2 ^ 114\<rparr>) = 4999"
  by (simp add: i_def tip_raw_def Let_def sat_mul_def)

text \<open>
  A suggested envelope pays the fee: as long as the amounts fit their width, computing the fee with it succeeds
  at every block up to its expiry.
\<close>

theorem suggested_envelope_pays:
  fixes p c tip n
  defines "byte_fee \<equiv> sat_mul (to_u128 n) (sp_fee_per_byte p)" and "eff \<equiv> min tip (sp_priority_tip_cap p)"
  defines "fee \<equiv> max (sat_mul (sp_base_admission_fee p + byte_fee + eff) (to_u128 (seq_congestion_multiplier p c)) div 10000)
    (sp_poseq_fee_floor p)"
  assumes "payer \<noteq> 0" and "sp_poseq_fee_floor p \<noteq> 0" and "block + expiry_blocks \<noteq> 0"
    and "unat (sp_base_admission_fee p) + unat byte_fee + unat eff < 2 ^ 128" and "unat fee * 12 < 2 ^ 128"
    and "unat fee * 12 div 10 + unat (sv_max_runtime_fee (suggest_envelope p n c tip gas price expiry_blocks block payer)) < 2 ^ 128"
    and "block' \<le> block + expiry_blocks"
  shows "\<exists>r. seq_fee_compute p (suggest_envelope p n c tip gas price expiry_blocks block payer) n c block' = Inr r"
proof -
  let ?e = "suggest_envelope p n c tip gas price expiry_blocks block payer"
  let ?raw = "sat_mul (sp_base_admission_fee p + byte_fee + eff) (to_u128 (seq_congestion_multiplier p c)) div 10000"
  have max_fee: "unat (sv_max_poseq_fee ?e) = unat fee * 12 div 10"
    using assms(8) by (simp add: suggest_envelope_def Let_def byte_fee_def eff_def fee_def unat_div machine_simps)
  have e: "sv_payer ?e = payer" "sv_expiry ?e = block + expiry_blocks" "sv_priority_tip ?e = tip"
    by (simp_all add: suggest_envelope_def Let_def)
  have "unat (sp_poseq_fee_floor p) \<le> unat fee" by (simp add: fee_def flip: word_le_nat_alt)
  moreover have "0 < unat (sp_poseq_fee_floor p)" using assms(5) by (simp add: unat_gt_0)
  ultimately have "0 < unat fee" by linarith
  then have pos: "sv_max_poseq_fee ?e \<noteq> 0" using max_fee by auto
  have fits: "checked_add (sv_max_poseq_fee ?e) (sv_max_runtime_fee ?e) \<noteq> None"
    using assms(9) max_fee by (simp add: checked_add_def)
  have ok: "seq_envelope_validate ?e = Inr ()" "\<not> seq_is_expired ?e block'"
    using assms(4,6,10) pos fits by (auto simp: seq_envelope_validate_def seq_is_expired_def e not_less)
  have "unat (sp_base_admission_fee p + byte_fee) = unat (sp_base_admission_fee p) + unat byte_fee"
    using assms(7) by (intro unat_add_fits) simp
  then have pre: "sat_add (sat_add (sp_base_admission_fee p) byte_fee) eff = sp_base_admission_fee p + byte_fee + eff"
    using assms(7) by (simp add: sat_add_fits)
  let ?charged = "if (if ?raw < sp_poseq_fee_floor p then sp_poseq_fee_floor p else ?raw) > sp_max_poseq_fee_cap p
    then sp_max_poseq_fee_cap p else (if ?raw < sp_poseq_fee_floor p then sp_poseq_fee_floor p else ?raw)"
  have fee_le: "fee \<le> sv_max_poseq_fee ?e" using max_fee by (simp add: word_le_nat_alt)
  have "?charged \<le> fee" by (auto simp: fee_def max_def)
  from order_trans [OF this fee_le] have "\<not> ?charged > sv_max_poseq_fee ?e" by (simp only: not_less)
  then show ?thesis
    unfolding seq_fee_compute_def ok Let_def e eff_def [symmetric] byte_fee_def [symmetric] pre sum.case
    using ok(2) by simp
qed

theorem suggested_envelope_pays_witness:
  "\<exists>r. seq_fee_compute testnet_defaults
     (suggest_envelope testnet_defaults 200 \<lparr>cg_current_intent_count = 10, cg_last_batch_intent_count = 64\<rparr> 100 5 2 10 1 3)
     200 \<lparr>cg_current_intent_count = 10, cg_last_batch_intent_count = 64\<rparr> 8 = Inr r"
  by (rule suggested_envelope_pays)
    (simp_all add: testnet_defaults_def seq_congestion_multiplier_def suggest_envelope_def Let_def sat_mul_def checked_div_def)

text \<open>
  C33. A fee life cycle spends within its reservation: whatever operations follow a reservation, what the payer is
  charged, was refunded and is still held for the payer never exceeds the amount reserved, and at most five
  transitions ever happen.
\<close>

theorem fee_lifecycle_within_reservation:
  fixes ops :: "fl_op list"
  assumes "fl_reserve payer a b block (fee_lifecycle_new i) = (l, Inr reserved)"
  defines "final \<equiv> fst (run fl_step l ops)"
  shows "fl_charged (lc_state final) + fl_refunded (lc_state final) + fl_held (lc_state final) \<le> unat reserved \<and>
    length (lc_transitions final) \<le> 5"
proof -
  have l: "lc_state l = FlReserved payer a b reserved block" "unat a + unat b = unat reserved" "length (lc_transitions l) = 1"
    using assms(1) unat_add_fits [of a b]
    by (auto simp: fl_reserve_def fee_lifecycle_new_def fl_move_def checked_add_def split: if_splits)
  have "- int (fl_paid (lc_state l)) \<le> - int (fl_paid (lc_state final))"
    unfolding final_def by (rule fl_spend.run_rank) (simp add: l)
  then have "fl_paid (lc_state final) \<le> fl_paid (lc_state l)" by linarith
  then have "fl_paid (lc_state final) \<le> unat reserved" by (simp add: fl_paid_def l)
  moreover have "length (lc_transitions final) \<le> fl_rank (lc_state final)"
    unfolding final_def by (rule fl_count.run_inv) (simp add: l)
  moreover have "fl_rank s \<le> 5" for s by (cases s) simp_all
  ultimately show ?thesis unfolding fl_paid_def by (meson le_trans)
qed

theorem fee_lifecycle_within_reservation_witness:
  "\<exists>l. fl_reserve 1 100 50 0 (fee_lifecycle_new 7) = (l, Inr 150) \<and>
     fl_charged (lc_state (fst (run fl_step l [OpChargeSequencing 30 1, OpChargeRuntime 20 2, OpRefund 3]))) = 50 \<and>
     fl_charged (lc_state (fst (run fl_step l [OpChargeSequencing 30 1, OpChargeRuntime 20 2, OpRefund 3])))
       + fl_refunded (lc_state (fst (run fl_step l [OpChargeSequencing 30 1, OpChargeRuntime 20 2, OpRefund 3]))) \<le> 150"
proof -
  obtain l where l: "fl_reserve 1 100 50 0 (fee_lifecycle_new 7) = (l, Inr 150)"
    and st: "lc_state l = FlReserved 1 100 50 150 0"
    by (simp add: fl_reserve_def fee_lifecycle_new_def checked_add_def fl_move_def)
  have "fl_charged (lc_state (fst (run fl_step l [OpChargeSequencing 30 1, OpChargeRuntime 20 2, OpRefund 3]))) = 50"
    by (simp add: run_Cons fl_step_def fl_op_defs st Let_def sat_add_def)
  with fee_lifecycle_within_reservation [OF l, of "[OpChargeSequencing 30 1, OpChargeRuntime 20 2, OpRefund 3]"] l
  show ?thesis by auto
qed

text \<open>
  The part of the sequencing budget that is not charged is never refunded: of 150 reserved, 80 are accounted for
  at the end. And a rejection after the reservation releases nothing.
\<close>

theorem unused_sequencing_budget_is_lost:
  "lc_state (fold (\<lambda>op l. fl_apply l op)
     [OpReserve 1 100 50 0, OpChargeSequencing 30 1, OpChargeRuntime 20 2, OpRefund 3, OpClose 4] (fee_lifecycle_new 7))
     = FlClosed 1 50 30 4 \<and>
   fl_held (lc_state (fold (\<lambda>op l. fl_apply l op) [OpReserve 1 100 50 0, OpReject ''late''] (fee_lifecycle_new 7))) = 0"
  by (simp add: fl_op_defs fee_lifecycle_new_def checked_add_def Let_def sat_add_def sat_sub_def fl_is_terminal_def)

end
