(* ===== verification/Slashing.thy ===== *)
theory Slashing
  imports Sequencer_Crypto "HOL-Library.Product_Lexorder" "HOL-Library.List_Lexorder" "HOL-Library.Char_ord"
begin

text \<open>
  Accountability of sequencer nodes: operator bonds, \<^verbatim>\<open>poseq/src/bonding/\<close>; offenses with their slash
  records, the jail and the store that combines them, \<^verbatim>\<open>poseq/src/slashing/\<close>; and the pipeline from
  reported misbehavior to slashing, \<^verbatim>\<open>poseq/src/misbehavior/\<close>. Shown: a bond is never slashed below zero
  and its accounts add up, a node sits in jail exactly while its accumulated slash reaches the threshold,
  no node leaves the jail before its cooldown, and the bond index only names active bonds.
\<close>

section \<open>Operator bonds\<close>

datatype bond_state = BondActive | BondPartiallySlashed | BondJailed | BondExhausted | BondRetired

definition bond_is_slashable :: "bond_state \<Rightarrow> bool" where
  "bond_is_slashable st = (st \<in> {BondActive, BondPartiallySlashed, BondJailed})"

record operator_bond =
  ob_operator_address :: string
  ob_node_id :: bytes32
  ob_bond_amount :: u64
  ob_bond_denom :: string
  ob_bonded_since_epoch :: u64
  ob_is_active :: bool
  ob_withdrawn_at_epoch :: u64
  ob_state :: bond_state
  ob_slashed_amount :: u64
  ob_available_bond :: u64
  ob_last_slash_epoch :: u64
  ob_slash_count :: u32

definition operator_bond_new :: "string \<Rightarrow> bytes32 \<Rightarrow> u64 \<Rightarrow> string \<Rightarrow> u64 \<Rightarrow> operator_bond" where
  "operator_bond_new operator_address node_id bond_amount bond_denom epoch =
     \<lparr>ob_operator_address = operator_address, ob_node_id = node_id, ob_bond_amount = bond_amount,
      ob_bond_denom = bond_denom, ob_bonded_since_epoch = epoch, ob_is_active = True, ob_withdrawn_at_epoch = 0,
      ob_state = BondActive, ob_slashed_amount = 0, ob_available_bond = bond_amount, ob_last_slash_epoch = 0,
      ob_slash_count = 0\<rparr>"

text \<open>The amount before it is capped: computed in 128 bits, truncated to 64, and at least one unit.\<close>

definition slash_base :: "u32 \<Rightarrow> u64 \<Rightarrow> u64" where
  "slash_base slash_bps bond_amount =
     (let slash_amount = to_u64 (to_u128 bond_amount * ucast slash_bps div 10000)
      in if slash_amount = 0 then 1 else slash_amount)"

definition apply_slash :: "u32 \<Rightarrow> u64 \<Rightarrow> operator_bond \<Rightarrow> operator_bond \<times> u64" where
  "apply_slash slash_bps epoch b =
     (if ob_available_bond b = 0 then (b, 0)
      else
      let b1 = (if ob_available_bond b = 0 \<and> ob_slashed_amount b = 0
                then b\<lparr>ob_available_bond := ob_bond_amount b\<rparr> else b);
          slash_amount = slash_base slash_bps (ob_bond_amount b1);
          capped = (if slash_amount > ob_available_bond b1 then ob_available_bond b1 else slash_amount);
          b2 = b1\<lparr>ob_available_bond := ob_available_bond b1 - capped,
                  ob_slashed_amount := ob_slashed_amount b1 + capped,
                  ob_last_slash_epoch := epoch, ob_slash_count := ob_slash_count b1 + 1\<rparr>
      in (if ob_available_bond b2 = 0 then b2\<lparr>ob_state := BondExhausted\<rparr>
          else if ob_state b2 = BondActive then b2\<lparr>ob_state := BondPartiallySlashed\<rparr> else b2,
          capped))"

definition bond_withdraw :: "u64 \<Rightarrow> operator_bond \<Rightarrow> operator_bond" where
  "bond_withdraw epoch b = b\<lparr>ob_is_active := False, ob_withdrawn_at_epoch := epoch\<rparr>"

datatype bond_error =
    BondAlreadyActive | BondNotFound | BondAlreadyWithdrawn | InvalidBondAmount | InvalidBondDenom | BondIsExhausted

record bonding_store =
  bs_bonds :: "(string \<times> bytes32, operator_bond) btree"
  bs_node_index :: "(bytes32, string) btree"

definition bonding_new :: bonding_store where
  "bonding_new = \<lparr>bs_bonds = [], bs_node_index = []\<rparr>"

definition bonding_declare ::
  "string \<Rightarrow> bytes32 \<Rightarrow> u64 \<Rightarrow> string \<Rightarrow> u64 \<Rightarrow> bonding_store \<Rightarrow> bonding_store \<times> (bond_error + unit)" where
  "bonding_declare operator_address node_id bond_amount bond_denom epoch s =
     (if bond_amount = 0 then (s, Inl InvalidBondAmount)
      else if bond_denom = [] then (s, Inl InvalidBondDenom)
      else if (case bt_get (bs_bonds s) (operator_address, node_id) of
                 Some existing \<Rightarrow> ob_is_active existing | None \<Rightarrow> False) then (s, Inl BondAlreadyActive)
      else (s\<lparr>bs_bonds := bt_put (operator_address, node_id)
                  (operator_bond_new operator_address node_id bond_amount bond_denom epoch) (bs_bonds s),
              bs_node_index := bt_put node_id operator_address (bs_node_index s)\<rparr>, Inr ()))"

definition bonding_withdraw ::
  "string \<Rightarrow> bytes32 \<Rightarrow> u64 \<Rightarrow> bonding_store \<Rightarrow> bonding_store \<times> (bond_error + unit)" where
  "bonding_withdraw operator_address node_id epoch s =
     (case bt_get (bs_bonds s) (operator_address, node_id) of
        None \<Rightarrow> (s, Inl BondNotFound)
      | Some b \<Rightarrow>
          if \<not> ob_is_active b then (s, Inl BondAlreadyWithdrawn)
          else (s\<lparr>bs_bonds := bt_adjust (operator_address, node_id) (bond_withdraw epoch) (bs_bonds s),
                  bs_node_index := bt_del node_id (bs_node_index s)\<rparr>, Inr ()))"

definition bonding_get :: "bonding_store \<Rightarrow> string \<Rightarrow> bytes32 \<Rightarrow> operator_bond option" where
  "bonding_get s operator_address node_id = bt_get (bs_bonds s) (operator_address, node_id)"

definition bond_get_by_node :: "bonding_store \<Rightarrow> bytes32 \<Rightarrow> operator_bond option" where
  "bond_get_by_node s node_id =
     (case bt_get (bs_node_index s) node_id of
        None \<Rightarrow> None | Some operator_address \<Rightarrow> bt_get (bs_bonds s) (operator_address, node_id))"

definition has_active_bond :: "bonding_store \<Rightarrow> bytes32 \<Rightarrow> bool" where
  "has_active_bond s node_id =
     (case bond_get_by_node s node_id of None \<Rightarrow> False | Some b \<Rightarrow> ob_is_active b)"

definition all_active_bonds :: "bonding_store \<Rightarrow> operator_bond list" where
  "all_active_bonds s = filter ob_is_active (bt_values (bs_bonds s))"

definition operator_for_node :: "bonding_store \<Rightarrow> bytes32 \<Rightarrow> string option" where
  "operator_for_node s node_id = bt_get (bs_node_index s) node_id"

definition load_bond :: "operator_bond \<Rightarrow> bonding_store \<Rightarrow> bonding_store" where
  "load_bond b s =
     \<lparr>bs_bonds = bt_put (ob_operator_address b, ob_node_id b) b (bs_bonds s),
      bs_node_index = (if ob_is_active b then bt_put (ob_node_id b) (ob_operator_address b) (bs_node_index s)
                       else bs_node_index s)\<rparr>"

definition bonding_load_from_chain :: "operator_bond list \<Rightarrow> bonding_store \<Rightarrow> bonding_store" where
  "bonding_load_from_chain bonds s =
     fold load_bond bonds (s\<lparr>bs_bonds := [], bs_node_index := []\<rparr>)"

section \<open>Offenses\<close>

datatype slashable_offense = DoubleProposal | AbsentDuty | UnfairOrdering | BadAttestation | ReplayOffense

fun offense_label :: "slashable_offense \<Rightarrow> string" where
  "offense_label DoubleProposal = ''double_proposal''"
| "offense_label AbsentDuty = ''absent_from_duty''"
| "offense_label UnfairOrdering = ''fairness_violation''"
| "offense_label BadAttestation = ''invalid_attestation''"
| "offense_label ReplayOffense = ''replay_attack''"

record slash_record =
  sr_offense :: slashable_offense
  sr_node_id :: bytes32
  sr_epoch :: u64
  sr_evidence_hash :: bytes32
  sr_slash_amount_bps :: u64

definition hash_evidence :: "extern \<Rightarrow> bytes \<Rightarrow> bytes32" where
  "hash_evidence X evidence = x_sha256 X evidence"

definition slash_record_new :: "extern \<Rightarrow> slashable_offense \<Rightarrow> bytes32 \<Rightarrow> u64 \<Rightarrow> bytes \<Rightarrow> u64 \<Rightarrow> slash_record" where
  "slash_record_new X offense node_id epoch evidence slash_amount_bps =
     \<lparr>sr_offense = offense, sr_node_id = node_id, sr_epoch = epoch, sr_evidence_hash = hash_evidence X evidence,
      sr_slash_amount_bps = slash_amount_bps\<rparr>"

record slashing_config =
  sc_double_proposal_bps :: u64
  sc_absent_from_duty_bps :: u64
  sc_fairness_violation_bps :: u64
  sc_invalid_attestation_bps :: u64
  sc_replay_attack_bps :: u64
  sc_jail_threshold_bps :: u64
  sc_unjail_cooldown_epochs :: u64

definition slashing_default_config :: slashing_config where
  "slashing_default_config =
     \<lparr>sc_double_proposal_bps = 500, sc_absent_from_duty_bps = 50, sc_fairness_violation_bps = 200,
      sc_invalid_attestation_bps = 100, sc_replay_attack_bps = 50, sc_jail_threshold_bps = 1000,
      sc_unjail_cooldown_epochs = 10\<rparr>"

fun slash_rate :: "slashing_config \<Rightarrow> slashable_offense \<Rightarrow> u64" where
  "slash_rate c DoubleProposal = sc_double_proposal_bps c"
| "slash_rate c AbsentDuty = sc_absent_from_duty_bps c"
| "slash_rate c UnfairOrdering = sc_fairness_violation_bps c"
| "slash_rate c BadAttestation = sc_invalid_attestation_bps c"
| "slash_rate c ReplayOffense = sc_replay_attack_bps c"

record slashing_engine =
  se_config :: slashing_config
  se_cumulative_slash :: "(bytes32, u64) btree"

definition slashing_engine_new :: "slashing_config \<Rightarrow> slashing_engine" where
  "slashing_engine_new c = \<lparr>se_config = c, se_cumulative_slash = []\<rparr>"

definition cumulative_slash_bps :: "slashing_engine \<Rightarrow> bytes32 \<Rightarrow> u64" where
  "cumulative_slash_bps e node_id = (case bt_get (se_cumulative_slash e) node_id of None \<Rightarrow> 0 | Some n \<Rightarrow> n)"

definition process_offense ::
  "extern \<Rightarrow> slashable_offense \<Rightarrow> bytes32 \<Rightarrow> u64 \<Rightarrow> bytes \<Rightarrow> slashing_engine
     \<Rightarrow> slashing_engine \<times> (phase4_error + slash_record)" where
  "process_offense X offense node_id epoch evidence e =
     (let bps = slash_rate (se_config e) offense;
          rec = slash_record_new X offense node_id epoch evidence bps
      in (e\<lparr>se_cumulative_slash := bt_put node_id (sat_add (cumulative_slash_bps e node_id) bps)
              (se_cumulative_slash e)\<rparr>, Inr rec))"

definition should_jail :: "slashing_engine \<Rightarrow> bytes32 \<Rightarrow> bool" where
  "should_jail e node_id = (cumulative_slash_bps e node_id \<ge> sc_jail_threshold_bps (se_config e))"

definition reset_slash :: "bytes32 \<Rightarrow> slashing_engine \<Rightarrow> slashing_engine" where
  "reset_slash node_id e = e\<lparr>se_cumulative_slash := bt_del node_id (se_cumulative_slash e)\<rparr>"

section \<open>The jail\<close>

record jail_record =
  jr_node_id :: bytes32
  jr_jailed_at_epoch :: u64
  jr_eligible_unjail_epoch :: u64

definition jail_record_new :: "bytes32 \<Rightarrow> u64 \<Rightarrow> u64 \<Rightarrow> jail_record" where
  "jail_record_new node_id jailed_at_epoch cooldown_epochs =
     \<lparr>jr_node_id = node_id, jr_jailed_at_epoch = jailed_at_epoch,
      jr_eligible_unjail_epoch = sat_add jailed_at_epoch cooldown_epochs\<rparr>"

definition can_unjail :: "jail_record \<Rightarrow> u64 \<Rightarrow> bool" where
  "can_unjail r current_epoch = (current_epoch \<ge> jr_eligible_unjail_epoch r)"

type_synonym jail_store = "(bytes32, jail_record) btree"

definition jail_is_jailed :: "jail_store \<Rightarrow> bytes32 \<Rightarrow> bool" where
  "jail_is_jailed j node_id = bt_has j node_id"

definition jail :: "bytes32 \<Rightarrow> u64 \<Rightarrow> u64 \<Rightarrow> jail_store \<Rightarrow> jail_store \<times> (phase4_error + jail_record)" where
  "jail node_id epoch cooldown_epochs j =
     (if bt_has j node_id then (j, Inl (P4AlreadyJailed node_id))
      else let r = jail_record_new node_id epoch cooldown_epochs in (bt_put node_id r j, Inr r))"

definition unjail :: "bytes32 \<Rightarrow> u64 \<Rightarrow> jail_store \<Rightarrow> jail_store \<times> (phase4_error + unit)" where
  "unjail node_id current_epoch j =
     (case bt_get j node_id of
        None \<Rightarrow> (j, Inl (P4NotJailed node_id))
      | Some r \<Rightarrow>
          if \<not> can_unjail r current_epoch
          then (j, Inl (P4UnjailCooldownActive (jr_eligible_unjail_epoch r) current_epoch))
          else (bt_del node_id j, Inr ()))"

definition jailed_nodes :: "jail_store \<Rightarrow> bytes32 list" where
  "jailed_nodes j = bt_keys j"

section \<open>The slashing store\<close>

record slashing_store =
  ss_records :: "(bytes32, slash_record list) btree"
  ss_jail_store :: jail_store
  ss_engine :: slashing_engine

record process_result =
  pr_record :: slash_record
  pr_jailed :: bool

definition slashing_new :: "slashing_config \<Rightarrow> slashing_store" where
  "slashing_new c = \<lparr>ss_records = [], ss_jail_store = [], ss_engine = slashing_engine_new c\<rparr>"

definition slashing_is_jailed :: "slashing_store \<Rightarrow> bytes32 \<Rightarrow> bool" where
  "slashing_is_jailed s node_id = jail_is_jailed (ss_jail_store s) node_id"

definition slashing_process ::
  "extern \<Rightarrow> slashable_offense \<Rightarrow> bytes32 \<Rightarrow> u64 \<Rightarrow> bytes \<Rightarrow> slashing_store
     \<Rightarrow> slashing_store \<times> (phase4_error + process_result)" where
  "slashing_process X offense node_id epoch evidence s =
     (case process_offense X offense node_id epoch evidence (ss_engine s) of
        (e, Inl err) \<Rightarrow> (s\<lparr>ss_engine := e\<rparr>, Inl err)
      | (e, Inr rec) \<Rightarrow>
          let s1 = s\<lparr>ss_engine := e, ss_records := bt_push node_id rec (ss_records s)\<rparr> in
          if should_jail e node_id \<and> \<not> jail_is_jailed (ss_jail_store s1) node_id
          then case jail node_id epoch (sc_unjail_cooldown_epochs (se_config e)) (ss_jail_store s1) of
                 (j, Inl err) \<Rightarrow> (s1\<lparr>ss_jail_store := j\<rparr>, Inl err)
               | (j, Inr _) \<Rightarrow> (s1\<lparr>ss_jail_store := j\<rparr>, Inr \<lparr>pr_record = rec, pr_jailed = True\<rparr>)
          else (s1, Inr \<lparr>pr_record = rec, pr_jailed = False\<rparr>))"

definition slashing_unjail :: "bytes32 \<Rightarrow> u64 \<Rightarrow> slashing_store \<Rightarrow> slashing_store \<times> (phase4_error + unit)" where
  "slashing_unjail node_id current_epoch s =
     (case unjail node_id current_epoch (ss_jail_store s) of
        (j, Inl err) \<Rightarrow> (s\<lparr>ss_jail_store := j\<rparr>, Inl err)
      | (j, Inr _) \<Rightarrow> (s\<lparr>ss_jail_store := j, ss_engine := reset_slash node_id (ss_engine s)\<rparr>, Inr ()))"

definition slash_records_of :: "slashing_store \<Rightarrow> bytes32 \<Rightarrow> slash_record list" where
  "slash_records_of s node_id = bt_list (ss_records s) node_id"

definition get_jail_record :: "slashing_store \<Rightarrow> bytes32 \<Rightarrow> jail_record option" where
  "get_jail_record s node_id = bt_get (ss_jail_store s) node_id"

definition jailed_set :: "slashing_store \<Rightarrow> bytes32 set" where
  "jailed_set s = set (jailed_nodes (ss_jail_store s))"

definition total_offense_count :: "slashing_store \<Rightarrow> usize" where
  "total_offense_count s = sum_list (map length (bt_values (ss_records s)))"

definition offense_count :: "slashing_store \<Rightarrow> bytes32 \<Rightarrow> usize" where
  "offense_count s node_id = length (slash_records_of s node_id)"

section \<open>Misbehavior\<close>

datatype misbehavior_type =
    Equivocation | InvalidProposalAuthority | InvalidFairnessEnvelope | InvalidAttestation
  | DuplicateAttestationAbuse | PersistentOmission | InvalidBatchDeliveryAttempt | RuntimeBridgeAbuse
  | StaleCommitteeParticipation | SlotHijackingAttempt | BoundaryTransitionAbuse
  | RepeatedInvalidProposalSpam | FairnessViolation | ReplayAttack | AbsentFromDuty

fun misbehavior_tag :: "misbehavior_type \<Rightarrow> u8" where
  "misbehavior_tag Equivocation = 1"
| "misbehavior_tag InvalidProposalAuthority = 2"
| "misbehavior_tag InvalidFairnessEnvelope = 3"
| "misbehavior_tag InvalidAttestation = 4"
| "misbehavior_tag DuplicateAttestationAbuse = 5"
| "misbehavior_tag PersistentOmission = 6"
| "misbehavior_tag InvalidBatchDeliveryAttempt = 7"
| "misbehavior_tag RuntimeBridgeAbuse = 8"
| "misbehavior_tag StaleCommitteeParticipation = 9"
| "misbehavior_tag SlotHijackingAttempt = 10"
| "misbehavior_tag BoundaryTransitionAbuse = 11"
| "misbehavior_tag RepeatedInvalidProposalSpam = 12"
| "misbehavior_tag FairnessViolation = 13"
| "misbehavior_tag ReplayAttack = 14"
| "misbehavior_tag AbsentFromDuty = 15"

datatype misbehavior_severity = MinorSeverity | ModerateSeverity | SevereSeverity | CriticalSeverity

definition default_severity :: "misbehavior_type \<Rightarrow> misbehavior_severity" where
  "default_severity t =
     (if t \<in> {Equivocation, SlotHijackingAttempt, RuntimeBridgeAbuse, ReplayAttack} then CriticalSeverity
      else if t \<in> {InvalidProposalAuthority, InvalidBatchDeliveryAttempt, BoundaryTransitionAbuse} then SevereSeverity
      else if t \<in> {DuplicateAttestationAbuse, InvalidFairnessEnvelope, InvalidAttestation,
                    StaleCommitteeParticipation, RepeatedInvalidProposalSpam} then ModerateSeverity
      else MinorSeverity)"

definition misbehavior_is_slashable :: "misbehavior_type \<Rightarrow> bool" where
  "misbehavior_is_slashable t = (t \<in> {Equivocation, SlotHijackingAttempt, RuntimeBridgeAbuse, ReplayAttack})"

record misbehavior_evidence =
  me_evidence_type :: misbehavior_type
  me_node_id :: bytes32
  me_epoch :: u64
  me_slot :: "u64 option"
  me_evidence_hash :: bytes32
  me_details :: string

definition evidence_compute_hash :: "extern \<Rightarrow> bytes32 \<Rightarrow> misbehavior_type \<Rightarrow> u64 \<Rightarrow> u64 option \<Rightarrow> bytes32" where
  "evidence_compute_hash X node_id mtype epoch slot =
     x_sha256 X (be_bytes 32 node_id @ [misbehavior_tag mtype] @ le_bytes 8 epoch @
       le_bytes 8 (case slot of None \<Rightarrow> 0 | Some n \<Rightarrow> n))"

definition evidence_new ::
  "extern \<Rightarrow> bytes32 \<Rightarrow> misbehavior_type \<Rightarrow> u64 \<Rightarrow> u64 option \<Rightarrow> string \<Rightarrow> misbehavior_evidence" where
  "evidence_new X node_id evidence_type epoch slot details =
     \<lparr>me_evidence_type = evidence_type, me_node_id = node_id, me_epoch = epoch, me_slot = slot,
      me_evidence_hash = evidence_compute_hash X node_id evidence_type epoch slot, me_details = details\<rparr>"

record misbehavior_case =
  mc_case_id :: bytes32
  mc_evidence :: misbehavior_evidence
  mc_severity :: misbehavior_severity
  mc_resolved :: bool

fun severity_tag :: "misbehavior_severity \<Rightarrow> u8" where
  "severity_tag MinorSeverity = 1"
| "severity_tag ModerateSeverity = 2"
| "severity_tag SevereSeverity = 3"
| "severity_tag CriticalSeverity = 4"

definition case_new :: "extern \<Rightarrow> misbehavior_evidence \<Rightarrow> misbehavior_case" where
  "case_new X evidence =
     (let severity = default_severity (me_evidence_type evidence)
      in \<lparr>mc_case_id = x_sha256 X (be_bytes 32 (me_evidence_hash evidence) @ [severity_tag severity]),
          mc_evidence = evidence, mc_severity = severity, mc_resolved = False\<rparr>)"

type_synonym misbehavior_history = "(bytes32, misbehavior_case list) btree"

definition history_record :: "misbehavior_case \<Rightarrow> misbehavior_history \<Rightarrow> misbehavior_history" where
  "history_record c h = bt_push (me_node_id (mc_evidence c)) c h"

definition cases_for :: "misbehavior_history \<Rightarrow> bytes32 \<Rightarrow> misbehavior_case list" where
  "cases_for h node_id = bt_list h node_id"

definition critical_count :: "misbehavior_history \<Rightarrow> bytes32 \<Rightarrow> usize" where
  "critical_count h node_id = length (filter (\<lambda>c. mc_severity c = CriticalSeverity) (cases_for h node_id))"

definition has_unresolved_slashable :: "misbehavior_history \<Rightarrow> bytes32 \<Rightarrow> bool" where
  "has_unresolved_slashable h node_id =
     list_ex (\<lambda>c. \<not> mc_resolved c \<and> misbehavior_is_slashable (me_evidence_type (mc_evidence c))) (cases_for h node_id)"

text \<open>The loop stops at the first case with the id.\<close>

fun resolve_first :: "bytes32 \<Rightarrow> misbehavior_case list \<Rightarrow> misbehavior_case list \<times> bool" where
  "resolve_first case_id [] = ([], False)"
| "resolve_first case_id (c # cs) =
     (if mc_case_id c = case_id then (c\<lparr>mc_resolved := True\<rparr> # cs, True)
      else (case resolve_first case_id cs of (cs', found) \<Rightarrow> (c # cs', found)))"

definition resolve_case :: "bytes32 \<Rightarrow> bytes32 \<Rightarrow> misbehavior_history \<Rightarrow> misbehavior_history \<times> bool" where
  "resolve_case node_id case_id h =
     (case bt_get h node_id of
        None \<Rightarrow> (h, False)
      | Some cases \<Rightarrow> (bt_adjust node_id (\<lambda>cs. fst (resolve_first case_id cs)) h, snd (resolve_first case_id cases)))"

definition all_unresolved :: "misbehavior_history \<Rightarrow> misbehavior_case list" where
  "all_unresolved h = filter (\<lambda>c. \<not> mc_resolved c) (concat (bt_values h))"

section \<open>Enforcement\<close>

definition to_slashable_offense :: "misbehavior_type \<Rightarrow> slashable_offense option" where
  "to_slashable_offense t =
     (if t \<in> {Equivocation, SlotHijackingAttempt} then Some DoubleProposal
      else if t = ReplayAttack then Some ReplayOffense
      else if t = RuntimeBridgeAbuse then Some BadAttestation
      else if t = FairnessViolation then Some UnfairOrdering
      else if t = AbsentFromDuty then Some AbsentDuty
      else if t \<in> {InvalidAttestation, DuplicateAttestationAbuse} then Some BadAttestation
      else None)"

record misbehavior_enforcer =
  en_history :: misbehavior_history
  en_slashing :: slashing_store

record enforcement_result =
  ef_case :: misbehavior_case
  ef_slash_result :: "process_result option"

definition enforcer_new :: "slashing_store \<Rightarrow> misbehavior_enforcer" where
  "enforcer_new s = \<lparr>en_history = [], en_slashing = s\<rparr>"

definition enforcer_report ::
  "extern \<Rightarrow> misbehavior_evidence \<Rightarrow> misbehavior_enforcer
     \<Rightarrow> misbehavior_enforcer \<times> (phase4_error + enforcement_result)" where
  "enforcer_report X evidence en =
     (let c = case_new X evidence; en1 = en\<lparr>en_history := history_record c (en_history en)\<rparr> in
      if misbehavior_is_slashable (me_evidence_type evidence)
      then case to_slashable_offense (me_evidence_type evidence) of
             Some offense \<Rightarrow>
               (case slashing_process X offense (me_node_id evidence) (me_epoch evidence)
                       (be_bytes 32 (me_evidence_hash evidence)) (en_slashing en1) of
                  (s, Inl err) \<Rightarrow> (en1\<lparr>en_slashing := s\<rparr>, Inl err)
                | (s, Inr r) \<Rightarrow> (en1\<lparr>en_slashing := s\<rparr>, Inr \<lparr>ef_case = c, ef_slash_result = Some r\<rparr>))
           | None \<Rightarrow> (en1, Inr \<lparr>ef_case = c, ef_slash_result = None\<rparr>)
      else (en1, Inr \<lparr>ef_case = c, ef_slash_result = None\<rparr>))"

definition enforcer_jailed_set :: "misbehavior_enforcer \<Rightarrow> bytes32 set" where
  "enforcer_jailed_set en = jailed_set (en_slashing en)"

definition enforcer_is_jailed :: "misbehavior_enforcer \<Rightarrow> bytes32 \<Rightarrow> bool" where
  "enforcer_is_jailed en node_id = slashing_is_jailed (en_slashing en) node_id"

definition enforcer_unjail :: "bytes32 \<Rightarrow> u64 \<Rightarrow> misbehavior_enforcer \<Rightarrow> misbehavior_enforcer \<times> (phase4_error + unit)" where
  "enforcer_unjail node_id current_epoch en =
     (case slashing_unjail node_id current_epoch (en_slashing en) of (s, r) \<Rightarrow> (en\<lparr>en_slashing := s\<rparr>, r))"

section \<open>Penalties\<close>

datatype penalty_severity_level = PenaltyWarning | PenaltyMinor | PenaltyModerate | PenaltySevere | PenaltyFull

fun penalty_rank :: "penalty_severity_level \<Rightarrow> nat" where
  "penalty_rank PenaltyWarning = 0"
| "penalty_rank PenaltyMinor = 1"
| "penalty_rank PenaltyModerate = 2"
| "penalty_rank PenaltySevere = 3"
| "penalty_rank PenaltyFull = 4"

record penalty_recommendation =
  pn_node_id :: bytes32
  pn_severity :: penalty_severity_level
  pn_reason :: misbehavior_severity
  pn_slash_bps :: u32
  pn_suspend_epochs :: u64
  pn_ban :: bool
  pn_governance_escalation :: bool
  pn_evidence_hashes :: "bytes32 list"

fun penalty_from_misbehavior :: "bytes32 \<Rightarrow> misbehavior_severity \<Rightarrow> bytes32 list \<Rightarrow> penalty_recommendation" where
  "penalty_from_misbehavior node_id MinorSeverity hs =
     \<lparr>pn_node_id = node_id, pn_severity = PenaltyWarning, pn_reason = MinorSeverity, pn_slash_bps = 0,
      pn_suspend_epochs = 0, pn_ban = False, pn_governance_escalation = False, pn_evidence_hashes = hs\<rparr>"
| "penalty_from_misbehavior node_id ModerateSeverity hs =
     \<lparr>pn_node_id = node_id, pn_severity = PenaltyMinor, pn_reason = ModerateSeverity, pn_slash_bps = 300,
      pn_suspend_epochs = 2, pn_ban = False, pn_governance_escalation = False, pn_evidence_hashes = hs\<rparr>"
| "penalty_from_misbehavior node_id SevereSeverity hs =
     \<lparr>pn_node_id = node_id, pn_severity = PenaltySevere, pn_reason = SevereSeverity, pn_slash_bps = 3000,
      pn_suspend_epochs = 5, pn_ban = False, pn_governance_escalation = True, pn_evidence_hashes = hs\<rparr>"
| "penalty_from_misbehavior node_id CriticalSeverity hs =
     \<lparr>pn_node_id = node_id, pn_severity = PenaltyFull, pn_reason = CriticalSeverity, pn_slash_bps = 10000,
      pn_suspend_epochs = 0, pn_ban = True, pn_governance_escalation = True, pn_evidence_hashes = hs\<rparr>"

definition compute_payload_hash :: "extern \<Rightarrow> bytes32 \<Rightarrow> bytes32 list \<Rightarrow> u32 \<Rightarrow> bytes32" where
  "compute_payload_hash X node_id hs slash_bps =
     x_sha256 X (be_bytes 32 node_id @ concat (map (be_bytes 32) (sort hs)) @ le_bytes 4 slash_bps)"

record slashable_evidence =
  sp_node_id :: bytes32
  sp_misbehavior_type :: string
  sp_evidence_hashes :: "bytes32 list"
  sp_proposed_slash_bps :: u32
  sp_packaged_at_epoch :: u64
  sp_payload_hash :: bytes32

definition slashable_evidence_new ::
  "extern \<Rightarrow> bytes32 \<Rightarrow> string \<Rightarrow> bytes32 list \<Rightarrow> u32 \<Rightarrow> u64 \<Rightarrow> slashable_evidence" where
  "slashable_evidence_new X node_id mtype hs slash_bps epoch =
     \<lparr>sp_node_id = node_id, sp_misbehavior_type = mtype, sp_evidence_hashes = sort hs, sp_proposed_slash_bps = slash_bps,
      sp_packaged_at_epoch = epoch, sp_payload_hash = compute_payload_hash X node_id (sort hs) slash_bps\<rparr>"

record governance_escalation =
  ge_node_id :: bytes32
  ge_escalation_reason :: string
  ge_evidence_placeholder :: slashable_evidence
  ge_requires_governance_vote :: bool
  ge_epoch :: u64

record penalty_action_hook =
  ph_recommendations :: "(bytes32, penalty_recommendation list) btree"
  ph_escalations :: "governance_escalation list"

definition penalty_hook_new :: penalty_action_hook where
  "penalty_hook_new = \<lparr>ph_recommendations = [], ph_escalations = []\<rparr>"

definition push_recommendation :: "penalty_recommendation \<Rightarrow> penalty_action_hook \<Rightarrow> penalty_action_hook" where
  "push_recommendation r h = h\<lparr>ph_recommendations := bt_push (pn_node_id r) r (ph_recommendations h)\<rparr>"

definition push_escalation :: "governance_escalation \<Rightarrow> penalty_action_hook \<Rightarrow> penalty_action_hook" where
  "push_escalation g h = h\<lparr>ph_escalations := ph_escalations h @ [g]\<rparr>"

definition recommendations_for :: "penalty_action_hook \<Rightarrow> bytes32 \<Rightarrow> penalty_recommendation list" where
  "recommendations_for h node_id = bt_list (ph_recommendations h) node_id"

text \<open>\<^verbatim>\<open>max\<close> of an iterator returns the last of several maximal elements.\<close>

definition max_severity :: "penalty_recommendation list \<Rightarrow> penalty_severity_level option" where
  "max_severity rs =
     fold (\<lambda>r best. case best of
             None \<Rightarrow> Some (pn_severity r)
           | Some b \<Rightarrow> if penalty_rank b \<le> penalty_rank (pn_severity r) then Some (pn_severity r) else best) rs None"

definition highest_severity_for :: "penalty_action_hook \<Rightarrow> bytes32 \<Rightarrow> penalty_severity_level option" where
  "highest_severity_for h node_id =
     (case bt_get (ph_recommendations h) node_id of None \<Rightarrow> None | Some rs \<Rightarrow> max_severity rs)"

section \<open>Histories\<close>

datatype bond_op =
    DeclareBond string bytes32 u64 string u64
  | WithdrawBond string bytes32 u64
  | LoadBonds "operator_bond list"

definition bond_step :: "bonding_store \<Rightarrow> bond_op \<Rightarrow> bonding_store \<times> (bond_error + unit)" where
  "bond_step s op =
     (case op of
        DeclareBond a n amount denom e \<Rightarrow> bonding_declare a n amount denom e s
      | WithdrawBond a n e \<Rightarrow> bonding_withdraw a n e s
      | LoadBonds bs \<Rightarrow> (bonding_load_from_chain bs s, Inr ()))"

text \<open>The slashes of one bond, as pairs of a rate and an epoch, with the amounts taken.\<close>

definition slash_step :: "operator_bond \<Rightarrow> u32 \<times> u64 \<Rightarrow> operator_bond \<times> u64" where
  "slash_step b r = apply_slash (fst r) (snd r) b"

datatype enforce_op =
    Report misbehavior_evidence
  | ProcessOffense slashable_offense bytes32 u64 bytes
  | Unjail bytes32 u64
  | ResolveCase bytes32 bytes32

text \<open>What a step did: the node jailed or released, with the epoch.\<close>

datatype jail_event = JailedAt bytes32 u64 | ReleasedAt bytes32 u64

definition enforce_step :: "extern \<Rightarrow> misbehavior_enforcer \<Rightarrow> enforce_op \<Rightarrow> misbehavior_enforcer \<times> jail_event list" where
  "enforce_step X en op =
     (case op of
        Report ev \<Rightarrow>
          (case enforcer_report X ev en of
             (en', Inr r) \<Rightarrow> (en', case ef_slash_result r of
                                    Some p \<Rightarrow> if pr_jailed p then [JailedAt (me_node_id ev) (me_epoch ev)] else []
                                  | None \<Rightarrow> [])
           | (en', Inl _) \<Rightarrow> (en', []))
      | ProcessOffense off n e evidence \<Rightarrow>
          (case slashing_process X off n e evidence (en_slashing en) of
             (s, Inr p) \<Rightarrow> (en\<lparr>en_slashing := s\<rparr>, if pr_jailed p then [JailedAt n e] else [])
           | (s, Inl _) \<Rightarrow> (en\<lparr>en_slashing := s\<rparr>, []))
      | Unjail n e \<Rightarrow>
          (case enforcer_unjail n e en of
             (en', Inr _) \<Rightarrow> (en', [ReleasedAt n e]) | (en', Inl _) \<Rightarrow> (en', []))
      | ResolveCase n c \<Rightarrow> (en\<lparr>en_history := fst (resolve_case n c (en_history en))\<rparr>, []))"

text \<open>The accounts of a bond add up, and it is exhausted exactly when nothing is left.\<close>

definition bond_ok :: "operator_bond \<Rightarrow> bool" where
  "bond_ok b \<longleftrightarrow> unat (ob_available_bond b) + unat (ob_slashed_amount b) = unat (ob_bond_amount b) \<and>
     (ob_state b = BondExhausted \<longleftrightarrow> ob_available_bond b = 0)"

text \<open>Bonds are stored under their own key, and the index names active bonds only.\<close>

definition bonding_ok :: "bonding_store \<Rightarrow> bool" where
  "bonding_ok s \<longleftrightarrow>
     (\<forall>a n b. bt_get (bs_bonds s) (a, n) = Some b \<longrightarrow> ob_operator_address b = a \<and> ob_node_id b = n) \<and>
     (\<forall>n a. bt_get (bs_node_index s) n = Some a \<longrightarrow>
        (\<exists>b. bt_get (bs_bonds s) (a, n) = Some b \<and> ob_is_active b))"

definition bond_key :: "operator_bond \<Rightarrow> string \<times> bytes32" where
  "bond_key b = (ob_operator_address b, ob_node_id b)"

text \<open>A snapshot of the chain lists every pair of operator and node at most once.\<close>

definition loads_distinct :: "bond_op list \<Rightarrow> bool" where
  "loads_distinct ops \<longleftrightarrow> (\<forall>bs. LoadBonds bs \<in> set ops \<longrightarrow> distinct (map bond_key bs))"

text \<open>With a configuration \<open>c\<close>: the jail holds exactly the nodes over the threshold, with their cooldown.\<close>

definition jail_ok :: "slashing_config \<Rightarrow> slashing_store \<Rightarrow> bool" where
  "jail_ok c s \<longleftrightarrow> se_config (ss_engine s) = c \<and>
     (\<forall>n. bt_has (ss_jail_store s) n \<longleftrightarrow> sc_jail_threshold_bps c \<le> cumulative_slash_bps (ss_engine s) n) \<and>
     (\<forall>n r. bt_get (ss_jail_store s) n = Some r \<longrightarrow>
        jr_eligible_unjail_epoch r = sat_add (jr_jailed_at_epoch r) (sc_unjail_cooldown_epochs c))"

definition jailed_since :: "slashing_store \<Rightarrow> bytes32 \<Rightarrow> u64 option" where
  "jailed_since s n = map_option jr_jailed_at_epoch (bt_get (ss_jail_store s) n)"

text \<open>
  Sentences are served: nobody is jailed twice without a release, and nobody is released before the cooldown.
\<close>

fun sentences_served :: "u64 \<Rightarrow> (bytes32 \<Rightarrow> u64 option) \<Rightarrow> jail_event list \<Rightarrow> bool" where
  "sentences_served d f [] = True"
| "sentences_served d f (JailedAt n e # evs) = (f n = None \<and> sentences_served d (f(n := Some e)) evs)"
| "sentences_served d f (ReleasedAt n e # evs) =
     ((\<exists>e0. f n = Some e0 \<and> sat_add e0 d \<le> e) \<and> sentences_served d (f(n := None)) evs)"

section \<open>Lemmas: bonds\<close>

lemma apply_slash_ok:
  assumes "bond_ok b"
  shows "bond_ok (fst (apply_slash bps e b))"
    "unat (snd (apply_slash bps e b)) + unat (ob_available_bond (fst (apply_slash bps e b))) = unat (ob_available_bond b)"
    "ob_bond_amount (fst (apply_slash bps e b)) = ob_bond_amount b"
proof -
  let ?a = "ob_available_bond b"
  define x where "x = (if slash_base bps (ob_bond_amount b) > ?a then ?a else slash_base bps (ob_bond_amount b))"
  have le: "x \<le> ?a" by (simp add: x_def not_less)
  have sub: "unat (?a - x) = unat ?a - unat x" using le by (rule unat_sub_fits)
  have x_le: "unat x \<le> unat ?a" using le by (simp add: word_le_nat_alt)
  have sum: "unat ?a + unat (ob_slashed_amount b) = unat (ob_bond_amount b)" using assms by (simp add: bond_ok_def)
  have "unat (ob_slashed_amount b) + unat x < 2 ^ 64"
    using x_le sum unat_less_2p [of "ob_bond_amount b"] by (simp only: len_num1 len_bit0 len_bit1) simp
  then have add: "unat (ob_slashed_amount b + x) = unat (ob_slashed_amount b) + unat x"
    by (intro unat_add_fits) simp
  have total: "unat (?a - x) + unat (ob_slashed_amount b + x) = unat (ob_bond_amount b)"
    unfolding sub add using sum x_le by linarith
  have eq: "?a \<noteq> 0 \<Longrightarrow> apply_slash bps e b =
      (let b2 = b\<lparr>ob_available_bond := ?a - x, ob_slashed_amount := ob_slashed_amount b + x,
                  ob_last_slash_epoch := e, ob_slash_count := ob_slash_count b + 1\<rparr>
       in (if ?a - x = 0 then b2\<lparr>ob_state := BondExhausted\<rparr>
           else if ob_state b = BondActive then b2\<lparr>ob_state := BondPartiallySlashed\<rparr> else b2, x))"
    by (simp add: apply_slash_def x_def Let_def)
  have "bond_ok (fst (apply_slash bps e b)) \<and>
      unat (snd (apply_slash bps e b)) + unat (ob_available_bond (fst (apply_slash bps e b))) = unat ?a \<and>
      ob_bond_amount (fst (apply_slash bps e b)) = ob_bond_amount b"
  proof (cases "?a = 0")
    case True
    then have "apply_slash bps e b = (b, 0)" by (simp add: apply_slash_def)
    then show ?thesis using assms by simp
  next
    case False
    let ?b = "fst (apply_slash bps e b)"
    have f: "ob_available_bond ?b = ?a - x" "ob_slashed_amount ?b = ob_slashed_amount b + x"
      "ob_bond_amount ?b = ob_bond_amount b" "snd (apply_slash bps e b) = x"
      "ob_state ?b = (if ?a - x = 0 then BondExhausted else if ob_state b = BondActive then BondPartiallySlashed
        else ob_state b)"
      by (simp_all only: eq [OF False] Let_def fst_conv snd_conv if_distrib [of ob_state] if_distrib [of ob_available_bond]
          if_distrib [of ob_slashed_amount] if_distrib [of ob_bond_amount]) simp_all
    have "ob_state b \<noteq> BondExhausted" using assms False by (simp add: bond_ok_def)
    then have "bond_ok ?b" unfolding bond_ok_def f total by simp
    moreover have "unat x + unat (?a - x) = unat ?a" unfolding sub using x_le by simp
    ultimately show ?thesis unfolding f by blast
  qed
  then show "bond_ok (fst (apply_slash bps e b))"
    "unat (snd (apply_slash bps e b)) + unat (ob_available_bond (fst (apply_slash bps e b))) = unat ?a"
    "ob_bond_amount (fst (apply_slash bps e b)) = ob_bond_amount b" by blast+
qed

interpretation bond_slashes: budget_machine slash_step "\<lambda>_. bond_ok" unat "\<lambda>b. unat (ob_available_bond b)"
  by unfold_locales (simp_all add: slash_step_def apply_slash_ok)

lemma slash_base_exact:
  assumes "bps \<le> 10000"
  shows "unat (slash_base bps amount) = max 1 (unat amount * unat bps div 10000)"
proof -
  have bps: "unat bps \<le> 10000" using assms by (simp add: word_le_nat_alt)
  have small: "unat amount < 2 ^ 64" using unat_less_2p [of amount] by simp
  have cast: "unat (ucast bps :: u128) = unat bps"
    using unat_less_2p [of bps] by (simp add: unsigned_ucast_eq take_bit_nat_eq_self)
  have le: "unat amount * unat bps \<le> unat amount * 10000" using bps by simp
  have "unat amount * 10000 < 2 ^ 128" using small by simp
  then have prod: "unat amount * unat bps < 2 ^ 128" using le by (rule order.strict_trans1 [rotated])
  have "unat (to_u128 amount * ucast bps) = unat amount * unat bps"
    using prod by (simp add: unat_word_ariths cast)
  then have q: "unat (to_u128 amount * ucast bps div 10000) = unat amount * unat bps div 10000"
    by (simp add: unat_div)
  have "unat amount * unat bps div 10000 \<le> unat amount"
    using le by (metis div_le_mono div_mult_self_is_m zero_less_numeral)
  then have t: "unat (to_u64 (to_u128 amount * ucast bps div 10000)) = unat amount * unat bps div 10000"
    using small unfolding unat_to_u64 q by simp
  then have z: "to_u64 (to_u128 amount * ucast bps div 10000) = 0 \<longleftrightarrow> unat amount * unat bps div 10000 = 0"
    by (metis unat_eq_zero)
  show ?thesis
    unfolding slash_base_def Let_def z using t by (simp split: if_split)
qed

lemma apply_slash_amount:
  "ob_available_bond b \<noteq> 0 \<Longrightarrow>
     snd (apply_slash bps e b) = min (slash_base bps (ob_bond_amount b)) (ob_available_bond b)"
  by (auto simp: apply_slash_def Let_def min_def not_less)

lemma load_bond_ok:
  assumes "bonding_ok s" and "bt_get (bs_bonds s) (bond_key b) = None"
  shows "bonding_ok (load_bond b s)"
  using assms unfolding bonding_ok_def load_bond_def bond_key_def
  by (auto simp: map_simps split: if_splits) fastforce

lemma load_bonds_ok:
  "bonding_ok s \<Longrightarrow> distinct (map bond_key bs) \<Longrightarrow> \<forall>b \<in> set bs. bt_get (bs_bonds s) (bond_key b) = None \<Longrightarrow>
     bonding_ok (fold load_bond bs s)"
proof (induction bs arbitrary: s)
  case (Cons b bs)
  have "bonding_ok (load_bond b s)" using Cons.prems by (intro load_bond_ok) auto
  moreover have "\<forall>b' \<in> set bs. bt_get (bs_bonds (load_bond b s)) (bond_key b') = None"
    using Cons.prems by (auto simp: load_bond_def map_simps bond_key_def [symmetric] image_iff)
  ultimately show ?case using Cons.IH Cons.prems(2) by simp
qed simp

lemma bond_step_ok:
  assumes "bonding_ok s" and "loads_distinct (op # ops)"
  shows "bonding_ok (fst (bond_step s op))"
proof (cases op)
  case (DeclareBond a n amount denom e)
  then show ?thesis using assms(1)
    by (auto simp: bond_step_def bonding_declare_def bonding_ok_def operator_bond_new_def map_simps split: if_splits option.splits)
next
  case (WithdrawBond a n e)
  then show ?thesis using assms(1)
    by (auto simp: bond_step_def bonding_withdraw_def bonding_ok_def bond_withdraw_def map_simps split: if_splits option.splits)
next
  case (LoadBonds bs)
  moreover have "bonding_ok (fold load_bond bs (s\<lparr>bs_bonds := [], bs_node_index := []\<rparr>))"
    using assms(2) LoadBonds by (intro load_bonds_ok) (auto simp: bonding_ok_def bt_get_def loads_distinct_def)
  ultimately show ?thesis by (simp add: bond_step_def bonding_load_from_chain_def)
qed

interpretation bonding: preserving_machine bond_step "\<lambda>ops s. bonding_ok s \<and> loads_distinct ops"
  by unfold_locales (use bond_step_ok in \<open>auto simp: loads_distinct_def\<close>)

section \<open>Lemmas: the jail\<close>

lemma slashing_process_eq:
  "slashing_process X off n e ev s =
     (let eng = fst (process_offense X off n e ev (ss_engine s));
          rec = slash_record_new X off n e ev (slash_rate (se_config (ss_engine s)) off);
          s1 = s\<lparr>ss_engine := eng, ss_records := bt_push n rec (ss_records s)\<rparr>;
          jailed = should_jail eng n \<and> \<not> bt_has (ss_jail_store s) n
      in (if jailed then s1\<lparr>ss_jail_store := bt_put n (jail_record_new n e (sc_unjail_cooldown_epochs (se_config eng)))
                             (ss_jail_store s)\<rparr> else s1,
          Inr \<lparr>pr_record = rec, pr_jailed = jailed\<rparr>))"
  by (simp add: slashing_process_def process_offense_def Let_def jail_is_jailed_def jail_def)

lemma cumulative_process:
  "cumulative_slash_bps (fst (process_offense X off n e ev eng)) m =
     (if m = n then sat_add (cumulative_slash_bps eng n) (slash_rate (se_config eng) off) else cumulative_slash_bps eng m)"
  "se_config (fst (process_offense X off n e ev eng)) = se_config eng"
  by (simp_all add: process_offense_def Let_def cumulative_slash_bps_def map_simps)

lemma slashing_process_ok:
  assumes "jail_ok c s"
  obtains s' r where "slashing_process X off n e ev s = (s', Inr r)" and "jail_ok c s'"
    and "jailed_since s' = (if pr_jailed r then (jailed_since s)(n := Some e) else jailed_since s)"
    and "pr_jailed r \<longrightarrow> jailed_since s n = None"
proof -
  let ?eng = "fst (process_offense X off n e ev (ss_engine s))"
  let ?rec = "slash_record_new X off n e ev (slash_rate (se_config (ss_engine s)) off)"
  let ?s1 = "s\<lparr>ss_engine := ?eng, ss_records := bt_push n ?rec (ss_records s)\<rparr>"
  define jailed where "jailed \<longleftrightarrow> should_jail ?eng n \<and> \<not> bt_has (ss_jail_store s) n"
  define s' where "s' = (if jailed then ?s1\<lparr>ss_jail_store := bt_put n (jail_record_new n e (sc_unjail_cooldown_epochs c))
    (ss_jail_store s)\<rparr> else ?s1)"
  have c: "se_config (ss_engine s) = c" using assms by (simp add: jail_ok_def)
  have eq: "slashing_process X off n e ev s = (s', Inr \<lparr>pr_record = ?rec, pr_jailed = jailed\<rparr>)"
    unfolding slashing_process_eq s'_def jailed_def Let_def cumulative_process c ..
  have eng: "ss_engine s' = ?eng" by (simp add: s'_def)
  have js: "ss_jail_store s' = (if jailed then bt_put n (jail_record_new n e (sc_unjail_cooldown_epochs c)) (ss_jail_store s)
      else ss_jail_store s)" by (simp add: s'_def)
  have old: "bt_has (ss_jail_store s) m \<longleftrightarrow> sc_jail_threshold_bps c \<le> cumulative_slash_bps (ss_engine s) m" for m
    using assms by (simp add: jail_ok_def)
  have "bt_has (ss_jail_store s') m \<longleftrightarrow> sc_jail_threshold_bps c \<le> cumulative_slash_bps ?eng m" for m
  proof (cases "m = n")
    case True
    have "bt_has (ss_jail_store s) n \<Longrightarrow> sc_jail_threshold_bps c \<le> cumulative_slash_bps ?eng n"
      unfolding old cumulative_process by (simp add: order_trans [OF _ sat_add_ge])
    then show ?thesis
      unfolding js True by (auto simp: jailed_def should_jail_def cumulative_process c bt_has_def map_simps)
  next
    case False
    then show ?thesis unfolding js by (simp add: cumulative_process old [symmetric] bt_has_def map_simps)
  qed
  then have "jail_ok c s'"
    using assms unfolding jail_ok_def eng js cumulative_process c
    by (auto simp: map_simps jail_record_new_def split: if_splits)
  moreover have "jailed_since s' = (if jailed then (jailed_since s)(n := Some e) else jailed_since s)"
    unfolding jailed_since_def [abs_def] js by (auto simp: map_simps jail_record_new_def)
  moreover have "jailed \<Longrightarrow> jailed_since s n = None" by (simp add: jailed_def jailed_since_def bt_has_def)
  ultimately show thesis using that [OF eq] by simp
qed

lemma slashing_unjail_ok:
  assumes "jail_ok c s" and "0 < sc_jail_threshold_bps c"
  shows "jail_ok c (fst (slashing_unjail n e s))"
    "case snd (slashing_unjail n e s) of
       Inl _ \<Rightarrow> jailed_since (fst (slashing_unjail n e s)) = jailed_since s
     | Inr _ \<Rightarrow> jailed_since (fst (slashing_unjail n e s)) = (jailed_since s)(n := None) \<and>
         (\<exists>e0. jailed_since s n = Some e0 \<and> sat_add e0 (sc_unjail_cooldown_epochs c) \<le> e)"
proof -
  consider (refused) err where "slashing_unjail n e s = (s, Inl err)"
    | (freed) r where "bt_get (ss_jail_store s) n = Some r" "can_unjail r e"
      "slashing_unjail n e s = (s\<lparr>ss_jail_store := bt_del n (ss_jail_store s), ss_engine := reset_slash n (ss_engine s)\<rparr>, Inr ())"
  proof (cases "bt_get (ss_jail_store s) n")
    case None
    then show ?thesis by (intro refused) (simp add: slashing_unjail_def unjail_def)
  next
    case (Some r)
    then show ?thesis
      by (cases "can_unjail r e") (rule freed refused, simp_all add: slashing_unjail_def unjail_def)+
  qed
  then show "jail_ok c (fst (slashing_unjail n e s))"
    "case snd (slashing_unjail n e s) of
       Inl _ \<Rightarrow> jailed_since (fst (slashing_unjail n e s)) = jailed_since s
     | Inr _ \<Rightarrow> jailed_since (fst (slashing_unjail n e s)) = (jailed_since s)(n := None) \<and>
         (\<exists>e0. jailed_since s n = Some e0 \<and> sat_add e0 (sc_unjail_cooldown_epochs c) \<le> e)"
    using assms
    by (cases; auto simp: jail_ok_def reset_slash_def cumulative_slash_bps_def bt_has_def map_simps jailed_since_def
        can_unjail_def fun_eq_iff not_le)+
qed

lemma enforce_step_ok:
  assumes "jail_ok c (en_slashing en)" and "0 < sc_jail_threshold_bps c"
  shows "jail_ok c (en_slashing (fst (enforce_step X en op)))"
    "sentences_served (sc_unjail_cooldown_epochs c) (jailed_since (en_slashing en)) (snd (enforce_step X en op) @ evs) \<longleftrightarrow>
       sentences_served (sc_unjail_cooldown_epochs c) (jailed_since (en_slashing (fst (enforce_step X en op)))) evs"
proof -
  let ?d = "sc_unjail_cooldown_epochs c"
  have "jail_ok c (en_slashing (fst (enforce_step X en op))) \<and>
      (sentences_served ?d (jailed_since (en_slashing en)) (snd (enforce_step X en op) @ evs) \<longleftrightarrow>
       sentences_served ?d (jailed_since (en_slashing (fst (enforce_step X en op)))) evs)"
  proof (cases op)
    case (Report ev)
    let ?en = "en\<lparr>en_history := history_record (case_new X ev) (en_history en)\<rparr>"
    show ?thesis
    proof (cases "misbehavior_is_slashable (me_evidence_type ev) \<and> to_slashable_offense (me_evidence_type ev) \<noteq> None")
      case True
      then obtain off where off: "to_slashable_offense (me_evidence_type ev) = Some off" by blast
      obtain s' r where p: "slashing_process X off (me_node_id ev) (me_epoch ev) (be_bytes 32 (me_evidence_hash ev))
          (en_slashing en) = (s', Inr r)" "jail_ok c s'"
        "jailed_since s' = (if pr_jailed r then (jailed_since (en_slashing en))(me_node_id ev := Some (me_epoch ev))
          else jailed_since (en_slashing en))" "pr_jailed r \<longrightarrow> jailed_since (en_slashing en) (me_node_id ev) = None"
        by (rule slashing_process_ok [OF assms(1), where X = X and off = off and n = "me_node_id ev" and
              e = "me_epoch ev" and ev = "be_bytes 32 (me_evidence_hash ev)"])
      have "enforce_step X en op = (?en\<lparr>en_slashing := s'\<rparr>, if pr_jailed r then [JailedAt (me_node_id ev) (me_epoch ev)] else [])"
        using True by (simp add: Report enforce_step_def enforcer_report_def Let_def off p(1))
      then show ?thesis using p(2-4) by simp
    next
      case False
      then have "enforce_step X en op = (?en, [])"
        by (auto simp: Report enforce_step_def enforcer_report_def Let_def)
      then show ?thesis using assms by simp
    qed
  next
    case (ProcessOffense off n e evidence)
    obtain s' r where p: "slashing_process X off n e evidence (en_slashing en) = (s', Inr r)" "jail_ok c s'"
      "jailed_since s' = (if pr_jailed r then (jailed_since (en_slashing en))(n := Some e) else jailed_since (en_slashing en))"
      "pr_jailed r \<longrightarrow> jailed_since (en_slashing en) n = None"
      by (rule slashing_process_ok [OF assms(1), where X = X and off = off and n = n and e = e and ev = evidence])
    then show ?thesis by (simp add: ProcessOffense enforce_step_def)
  next
    case (Unjail n e)
    obtain s' r where u: "slashing_unjail n e (en_slashing en) = (s', r)" by fastforce
    show ?thesis
      using slashing_unjail_ok [OF assms, of n e] by (cases r) (simp_all add: Unjail enforce_step_def enforcer_unjail_def u)
  next
    case (ResolveCase n k)
    then show ?thesis using assms by (simp add: enforce_step_def)
  qed
  then show "jail_ok c (en_slashing (fst (enforce_step X en op)))"
    "sentences_served ?d (jailed_since (en_slashing en)) (snd (enforce_step X en op) @ evs) \<longleftrightarrow>
       sentences_served ?d (jailed_since (en_slashing (fst (enforce_step X en op)))) evs" by blast+
qed

interpretation enforcer: preserving_machine "enforce_step X"
  "\<lambda>_ en. jail_ok c (en_slashing en) \<and> 0 < sc_jail_threshold_bps c" for X c
  by unfold_locales (simp add: enforce_step_ok)

lemma slashing_new_ok: "0 < sc_jail_threshold_bps c \<Longrightarrow> jail_ok c (slashing_new c)"
  by (simp add: jail_ok_def slashing_new_def slashing_engine_new_def bt_has_def bt_get_def cumulative_slash_bps_def not_le)

lemma run_sentences_served:
  "jail_ok c (en_slashing en) \<Longrightarrow> 0 < sc_jail_threshold_bps c \<Longrightarrow>
     sentences_served (sc_unjail_cooldown_epochs c) (jailed_since (en_slashing en)) (concat (snd (run (enforce_step X) en ops)))"
  by (induction ops arbitrary: en) (simp_all add: run_Cons enforce_step_ok)

section \<open>Properties\<close>

text \<open>
  C21. A bond is never slashed below zero: along every sequence of slashes the amounts taken stay within what was
  left of the bond, available and slashed amount always add up to the declared bond, and the bond is
  exhausted exactly when nothing is left.
\<close>

theorem bond_never_overslashed:
  assumes "bond_ok b"
  shows "sum_list (map unat (snd (run slash_step b slashes))) + unat (ob_available_bond (fst (run slash_step b slashes)))
      \<le> unat (ob_available_bond b) \<and> bond_ok (fst (run slash_step b slashes))"
  using bond_slashes.run_budget [of b slashes] bond_slashes.run_inv [of b slashes] assms by simp

theorem bond_never_overslashed_witness:
  "sum_list (map unat (snd (run slash_step (operator_bond_new ''op'' 1 1000 ''uomni'' 3) [(5000, 4), (10000, 5), (1, 6)]))) +
     unat (ob_available_bond (fst (run slash_step (operator_bond_new ''op'' 1 1000 ''uomni'' 3) [(5000, 4), (10000, 5), (1, 6)])))
     \<le> 1000"
proof -
  have "bond_ok (operator_bond_new ''op'' 1 1000 ''uomni'' 3)" by (simp add: bond_ok_def operator_bond_new_def)
  from bond_never_overslashed [OF this, of "[(5000, 4), (10000, 5), (1, 6)]"]
  show ?thesis by (simp add: operator_bond_new_def)
qed

text \<open>
  A slash of at most 100 per cent takes exactly its share of the declared bond, at least one unit and at most
  what is left.
\<close>

theorem slash_takes_its_share:
  assumes "bps \<le> 10000" and "ob_available_bond b \<noteq> 0"
  shows "unat (snd (apply_slash bps e b)) =
    min (max 1 (unat (ob_bond_amount b) * unat bps div 10000)) (unat (ob_available_bond b))"
  unfolding apply_slash_amount [OF assms(2)] slash_base_exact [OF assms(1), symmetric]
  by (simp add: min_def word_le_nat_alt)

text \<open>A rate above 100 per cent is not capped before the cast to 64 bits: a bond of \<open>2 ^ 63\<close> loses one unit.\<close>

theorem oversized_rate_takes_one_unit:
  "snd (apply_slash 20000 1 (operator_bond_new ''op'' 1 (2 ^ 63) ''uomni'' 0)) = 1"
  by (simp add: apply_slash_def slash_base_def operator_bond_new_def)

text \<open>
  A record from before the available bond was stored (zero available, nothing slashed) is never slashed: the
  early return comes before the initialization meant for it.
\<close>

theorem legacy_bond_is_never_slashed:
  "ob_available_bond b = 0 \<Longrightarrow> apply_slash bps e b = (b, 0)"
  by (simp add: apply_slash_def)

text \<open>
  Along every history of declarations, withdrawals and loads from the chain that list each pair once, a lookup
  by node finds an active bond of that node or nothing.
\<close>

theorem node_lookup_finds_active_bonds:
  assumes "loads_distinct ops"
  defines "s \<equiv> fst (run bond_step bonding_new ops)"
  shows "case bond_get_by_node s n of
      None \<Rightarrow> \<not> has_active_bond s n
    | Some b \<Rightarrow> has_active_bond s n \<and> ob_is_active b \<and> ob_node_id b = n \<and> b \<in> set (all_active_bonds s)"
proof -
  have "bonding_ok s"
    using bonding.run_inv [of bonding_new ops "[]"] assms(1)
    by (simp add: s_def bonding_ok_def bonding_new_def bt_get_def)
  note ok = this [unfolded bonding_ok_def]
  show ?thesis
  proof (cases "bt_get (bs_node_index s) n")
    case None
    then show ?thesis by (simp add: bond_get_by_node_def has_active_bond_def)
  next
    case (Some a)
    then obtain b where b: "bt_get (bs_bonds s) (a, n) = Some b" "ob_is_active b" using ok by blast
    then have "ob_node_id b = n" using ok by blast
    moreover have "b \<in> set (all_active_bonds s)"
      using bt_get_in [OF b(1)] b(2) by (force simp: all_active_bonds_def bt_values_def)
    ultimately show ?thesis using b Some by (simp add: bond_get_by_node_def has_active_bond_def)
  qed
qed

theorem node_lookup_finds_active_bonds_witness:
  "case bond_get_by_node (fst (run bond_step bonding_new [DeclareBond ''a'' 1 10 ''uomni'' 0])) 1 of
      None \<Rightarrow> \<not> has_active_bond (fst (run bond_step bonding_new [DeclareBond ''a'' 1 10 ''uomni'' 0])) 1
    | Some b \<Rightarrow> has_active_bond (fst (run bond_step bonding_new [DeclareBond ''a'' 1 10 ''uomni'' 0])) 1 \<and> ob_is_active b \<and>
        ob_node_id b = 1 \<and> b \<in> set (all_active_bonds (fst (run bond_step bonding_new [DeclareBond ''a'' 1 10 ''uomni'' 0])))"
  by (rule node_lookup_finds_active_bonds) (simp add: loads_distinct_def)

text \<open>
  The index can miss an active bond: when two operators bond the same node, the withdrawal of one removes the
  index entry of the other.
\<close>

theorem withdrawal_hides_another_bond:
  "let s = fst (run bond_step bonding_new [DeclareBond ''a'' 1 10 ''u'' 0, DeclareBond ''b'' 1 10 ''u'' 0, WithdrawBond ''a'' 1 1])
   in \<not> has_active_bond s 1 \<and> map ob_operator_address (all_active_bonds s) = [''b'']"
  by (simp add: run_Cons bond_step_def bonding_declare_def bonding_withdraw_def bonding_new_def bt_get_def bt_adjust_def
      bt_del_def has_active_bond_def bond_get_by_node_def all_active_bonds_def bt_values_def operator_bond_new_def
      bond_withdraw_def Let_def)

text \<open>
  Along every history of reports, offenses, releases and resolved cases, a node is in jail exactly while its
  accumulated slash reaches the threshold.
\<close>

theorem jailed_exactly_at_threshold:
  assumes "0 < sc_jail_threshold_bps c"
  defines "en \<equiv> \<lambda>X ops. fst (run (enforce_step X) (enforcer_new (slashing_new c)) ops)"
  shows "n \<in> enforcer_jailed_set (en X ops) \<longleftrightarrow>
    sc_jail_threshold_bps c \<le> cumulative_slash_bps (ss_engine (en_slashing (en X ops))) n"
proof -
  have "jail_ok c (en_slashing (en X ops)) \<and> 0 < sc_jail_threshold_bps c"
    unfolding en_def by (rule enforcer.run_inv) (simp add: enforcer_new_def slashing_new_ok assms(1))
  moreover have "n \<in> enforcer_jailed_set (en X ops) \<longleftrightarrow> bt_has (ss_jail_store (en_slashing (en X ops))) n"
    by (simp add: enforcer_jailed_set_def jailed_set_def jailed_nodes_def bt_keys_def bt_has_def bt_get_None_iff)
  ultimately show ?thesis by (simp add: jail_ok_def)
qed

theorem jailed_exactly_at_threshold_witness:
  defines "ev \<equiv> evidence_new extern_std 7 Equivocation 3 None []"
  shows "7 \<in> enforcer_jailed_set (fst (run (enforce_step extern_std) (enforcer_new (slashing_new slashing_default_config))
      [Report ev, Report ev])) \<longleftrightarrow> 1000 \<le> cumulative_slash_bps (ss_engine (en_slashing (fst (run (enforce_step extern_std)
      (enforcer_new (slashing_new slashing_default_config)) [Report ev, Report ev])))) 7"
  using jailed_exactly_at_threshold [of slashing_default_config 7 extern_std "[Report ev, Report ev]"]
  by (simp add: slashing_default_config_def)

text \<open>
  C20. Sentences are served: along every history no node is jailed while in jail, and none is released before the
  cooldown after the epoch it was jailed in.
\<close>

theorem no_release_before_cooldown:
  assumes "0 < sc_jail_threshold_bps c"
  shows "sentences_served (sc_unjail_cooldown_epochs c) (\<lambda>_. None)
    (concat (snd (run (enforce_step X) (enforcer_new (slashing_new c)) ops)))"
proof -
  have "jailed_since (slashing_new c) = (\<lambda>_. None)" by (simp add: jailed_since_def slashing_new_def bt_get_def fun_eq_iff)
  then show ?thesis
    using run_sentences_served [of c "enforcer_new (slashing_new c)" X ops] slashing_new_ok [OF assms] assms
    by (simp add: enforcer_new_def)
qed

theorem no_release_before_cooldown_witness:
  "concat (snd (run (enforce_step extern_std) (enforcer_new (slashing_new slashing_default_config))
     [ProcessOffense DoubleProposal 7 3 [], ProcessOffense DoubleProposal 7 4 [], Unjail 7 9, Unjail 7 14])) =
     [JailedAt 7 4, ReleasedAt 7 14] \<and>
   sentences_served 10 (\<lambda>_. None) (concat (snd (run (enforce_step extern_std) (enforcer_new (slashing_new slashing_default_config))
     [ProcessOffense DoubleProposal 7 3 [], ProcessOffense DoubleProposal 7 4 [], Unjail 7 9, Unjail 7 14])))"
proof -
  have "0 < sc_jail_threshold_bps slashing_default_config" by (simp add: slashing_default_config_def)
  from no_release_before_cooldown [OF this, of extern_std
    "[ProcessOffense DoubleProposal 7 3 [], ProcessOffense DoubleProposal 7 4 [], Unjail 7 9, Unjail 7 14]"]
  show ?thesis
    by (simp add: run_Cons enforce_step_def enforcer_new_def slashing_new_def slashing_engine_new_def slashing_default_config_def
        slashing_process_eq process_offense_def should_jail_def cumulative_slash_bps_def sat_add_def bt_get_def bt_has_def
        jail_record_new_def enforcer_unjail_def slashing_unjail_def unjail_def can_unjail_def bt_del_def Let_def)
qed

text \<open>
  The guard of the pipeline is narrower than its table of offenses: reported fairness violations, absences and
  invalid attestations have a slashable offense, but reporting them never touches the slashing store.
\<close>

theorem some_offenses_are_never_slashed:
  assumes "me_evidence_type ev \<in> {FairnessViolation, AbsentFromDuty, InvalidAttestation, DuplicateAttestationAbuse}"
  shows "to_slashable_offense (me_evidence_type ev) \<noteq> None \<and>
    en_slashing (fst (enforcer_report X ev en)) = en_slashing en"
  using assms by (auto simp: to_slashable_offense_def enforcer_report_def misbehavior_is_slashable_def Let_def)

text \<open>
  Evidence is not deduplicated: under the default configuration one equivocation reported twice sends the node to
  jail, although a single double proposal costs half of the threshold.
\<close>

theorem same_evidence_is_slashed_again:
  fixes X :: extern
  defines "ev \<equiv> evidence_new X 7 Equivocation 3 None []"
  defines "en \<equiv> enforcer_new (slashing_new slashing_default_config)"
  shows "\<not> enforcer_is_jailed (fst (enforcer_report X ev en)) 7 \<and>
    enforcer_is_jailed (fst (enforcer_report X ev (fst (enforcer_report X ev en)))) 7"
  by (simp add: ev_def en_def evidence_new_def enforcer_report_def misbehavior_is_slashable_def to_slashable_offense_def
      enforcer_new_def slashing_new_def slashing_engine_new_def slashing_default_config_def slashing_process_eq
      process_offense_def should_jail_def cumulative_slash_bps_def sat_add_def bt_get_def bt_has_def
      enforcer_is_jailed_def slashing_is_jailed_def jail_is_jailed_def Let_def)

text \<open>The hash of packaged evidence does not depend on the order in which the evidence is listed.\<close>

theorem payload_hash_ignores_order:
  "mset hs = mset hs' \<Longrightarrow> compute_payload_hash X node_id hs slash_bps = compute_payload_hash X node_id hs' slash_bps"
proof -
  assume "mset hs = mset hs'"
  then have "sort hs = sort hs'" by (intro properties_for_sort) simp_all
  then show ?thesis by (simp add: compute_payload_hash_def)
qed

end
