(* ===== verification/Committee.thy ===== *)
theory Committee
  imports Slashing
begin

text \<open>
  Who sequences: node identities and the sequencer registry, \<^verbatim>\<open>poseq/src/identities/\<close>; the membership store,
  \<^verbatim>\<open>poseq/src/membership/mod.rs\<close>; committee snapshots imported from the chain, \<^verbatim>\<open>poseq/src/chain_bridge/snapshot.rs\<close>;
  the committee of an epoch, \<^verbatim>\<open>poseq/src/committee/membership.rs\<close>; its rotation, \<^verbatim>\<open>poseq/src/committee_rotation/\<close>;
  epochs, \<^verbatim>\<open>poseq/src/epochs/\<close>; and the leader of a slot, \<^verbatim>\<open>poseq/src/leader_selection/selector.rs\<close>. SHA-256 and
  the hex decoder are parameters. A \<^verbatim>\<open>BTreeSet\<close> is a set, iterated over its sorted list. Shown: rotation picks the
  best-scored eligible nodes and never a jailed one, a committee formed from a snapshot holds exactly the
  members eligible on both layers, leadership is proportional to weight, epochs only move forward and a
  banned or removed node never comes back.
\<close>

unbundle bit_operations_syntax

section \<open>Node identities\<close>

datatype node_role = SequencerRole | ValidatorRole | ObserverRole

datatype node_status = NodeActive | NodeSuspended | NodeEjected | NodePending

record node_identity =
  ni_node_id :: bytes32
  ni_public_key :: bytes32
  ni_role :: node_role
  ni_status :: node_status
  ni_epoch_joined :: u64
  ni_is_eligible_proposer :: bool
  ni_is_eligible_attestor :: bool
  ni_metadata :: "(string, string) btree"

definition node_identity_new :: "bytes32 \<Rightarrow> bytes32 \<Rightarrow> node_role \<Rightarrow> u64 \<Rightarrow> node_identity" where
  "node_identity_new node_id public_key role epoch_joined =
     \<lparr>ni_node_id = node_id, ni_public_key = public_key, ni_role = role, ni_status = NodePending,
      ni_epoch_joined = epoch_joined, ni_is_eligible_proposer = (role = SequencerRole),
      ni_is_eligible_attestor = (role \<in> {SequencerRole, ValidatorRole}), ni_metadata = []\<rparr>"

definition node_activate :: "node_identity \<Rightarrow> node_identity" where
  "node_activate n = n\<lparr>ni_status := NodeActive\<rparr>"

definition node_suspend :: "node_identity \<Rightarrow> node_identity" where
  "node_suspend n = n\<lparr>ni_status := NodeSuspended, ni_is_eligible_proposer := False, ni_is_eligible_attestor := False\<rparr>"

definition node_eject :: "node_identity \<Rightarrow> node_identity" where
  "node_eject n = n\<lparr>ni_status := NodeEjected, ni_is_eligible_proposer := False, ni_is_eligible_attestor := False\<rparr>"

definition node_is_active :: "node_identity \<Rightarrow> bool" where
  "node_is_active n = (ni_status n = NodeActive)"

section \<open>The sequencer registry\<close>

datatype chain_sequencer_status = ChainPending | ChainActive | ChainSuspended | ChainJailed | ChainRetired

definition chain_committee_eligible :: "chain_sequencer_status \<Rightarrow> bool" where
  "chain_committee_eligible st = (st = ChainActive)"

record sequencer_record =
  sq_node_id :: bytes32
  sq_public_key :: bytes32
  sq_moniker :: string
  sq_operator_address :: string
  sq_cosmos_validator_address :: "string option"
  sq_registered_epoch :: u64
  sq_is_active :: bool
  sq_chain_status :: chain_sequencer_status

type_synonym sequencer_registry = "(bytes32, sequencer_record) btree"

definition apply_registration :: "sequencer_record \<Rightarrow> sequencer_registry \<Rightarrow> sequencer_registry" where
  "apply_registration r reg = bt_put (sq_node_id r) r reg"

definition apply_deactivation :: "bytes32 \<Rightarrow> sequencer_registry \<Rightarrow> sequencer_registry" where
  "apply_deactivation node_id reg =
     bt_adjust node_id (\<lambda>r. r\<lparr>sq_is_active := False, sq_chain_status := ChainSuspended\<rparr>) reg"

definition apply_reactivation :: "bytes32 \<Rightarrow> sequencer_registry \<Rightarrow> sequencer_registry" where
  "apply_reactivation node_id reg =
     bt_adjust node_id (\<lambda>r. r\<lparr>sq_is_active := True, sq_chain_status := ChainActive\<rparr>) reg"

definition apply_status_update :: "bytes32 \<Rightarrow> chain_sequencer_status \<Rightarrow> sequencer_registry \<Rightarrow> sequencer_registry" where
  "apply_status_update node_id st reg =
     bt_adjust node_id (\<lambda>r. r\<lparr>sq_is_active := chain_committee_eligible st, sq_chain_status := st\<rparr>) reg"

definition is_chain_eligible :: "sequencer_registry \<Rightarrow> bytes32 \<Rightarrow> bool" where
  "is_chain_eligible reg node_id =
     (case bt_get reg node_id of None \<Rightarrow> False | Some r \<Rightarrow> chain_committee_eligible (sq_chain_status r))"

definition registry_is_active :: "sequencer_registry \<Rightarrow> bytes32 \<Rightarrow> bool" where
  "registry_is_active reg node_id = (case bt_get reg node_id of None \<Rightarrow> False | Some r \<Rightarrow> sq_is_active r)"

definition active_node_ids :: "sequencer_registry \<Rightarrow> bytes32 list" where
  "active_node_ids reg = map sq_node_id (filter sq_is_active (bt_values reg))"

definition to_node_identities :: "sequencer_registry \<Rightarrow> node_identity list" where
  "to_node_identities reg =
     map (\<lambda>r. node_activate (node_identity_new (sq_node_id r) (sq_public_key r) SequencerRole (sq_registered_epoch r)))
       (filter sq_is_active (bt_values reg))"

definition registry_load_from_snapshot :: "sequencer_record list \<Rightarrow> sequencer_registry \<Rightarrow> sequencer_registry" where
  "registry_load_from_snapshot rs reg = fold (\<lambda>r m. bt_put (sq_node_id r) r m) rs []"

section \<open>Membership\<close>

datatype membership_status =
    MemberActive | MemberSuspended string u64 | MemberBanned string u64 | MemberRecovering | MemberObserver
  | MemberLeaving | MemberRemoved

fun membership_status_name :: "membership_status \<Rightarrow> string" where
  "membership_status_name MemberActive = ''Active''"
| "membership_status_name (MemberSuspended _ _) = ''Suspended''"
| "membership_status_name (MemberBanned _ _) = ''Banned''"
| "membership_status_name MemberRecovering = ''Recovering''"
| "membership_status_name MemberObserver = ''Observer''"
| "membership_status_name MemberLeaving = ''Leaving''"
| "membership_status_name MemberRemoved = ''Removed''"

definition member_can_vote :: "membership_status \<Rightarrow> bool" where
  "member_can_vote st = (st = MemberActive)"

definition member_can_propose :: "membership_status \<Rightarrow> bool" where
  "member_can_propose st = (st = MemberActive)"

definition member_can_participate :: "membership_status \<Rightarrow> bool" where
  "member_can_participate st = (st \<in> {MemberActive, MemberRecovering, MemberObserver})"

definition member_is_terminal :: "membership_status \<Rightarrow> bool" where
  "member_is_terminal st = (case st of MemberBanned _ _ \<Rightarrow> True | MemberRemoved \<Rightarrow> True | _ \<Rightarrow> False)"

definition member_can_transition_to :: "membership_status \<Rightarrow> membership_status \<Rightarrow> bool" where
  "member_can_transition_to st next_st =
     (case st of
        MemberActive \<Rightarrow> (case next_st of MemberSuspended _ _ \<Rightarrow> True | MemberBanned _ _ \<Rightarrow> True | MemberLeaving \<Rightarrow> True
                         | MemberObserver \<Rightarrow> True | _ \<Rightarrow> False)
      | MemberSuspended _ _ \<Rightarrow> (case next_st of MemberActive \<Rightarrow> True | MemberRecovering \<Rightarrow> True | MemberBanned _ _ \<Rightarrow> True
                         | MemberRemoved \<Rightarrow> True | _ \<Rightarrow> False)
      | MemberRecovering \<Rightarrow> (case next_st of MemberActive \<Rightarrow> True | MemberSuspended _ _ \<Rightarrow> True | _ \<Rightarrow> False)
      | MemberObserver \<Rightarrow> (case next_st of MemberActive \<Rightarrow> True | MemberLeaving \<Rightarrow> True | _ \<Rightarrow> False)
      | MemberLeaving \<Rightarrow> (case next_st of MemberRemoved \<Rightarrow> True | _ \<Rightarrow> False)
      | _ \<Rightarrow> False)"

record membership_event =
  mv_from :: string
  mv_to :: string
  mv_epoch :: u64
  mv_reason :: string

record node_membership =
  nm_node_id :: bytes32
  nm_status :: membership_status
  nm_joined_epoch :: u64
  nm_history :: "membership_event list"

record role_transition_request =
  rr_node_id :: bytes32
  rr_requested_status :: membership_status
  rr_reason :: string
  rr_epoch :: u64

datatype membership_error =
    MemberNotFound bytes32 | IllegalMemberTransition bytes32 string string | NodeAlreadyTerminal bytes32
  | InsufficientCommitteeSize

type_synonym membership_store = "(bytes32, node_membership) btree"

definition membership_register :: "bytes32 \<Rightarrow> u64 \<Rightarrow> membership_store \<Rightarrow> membership_store \<times> (membership_error + unit)" where
  "membership_register node_id epoch m =
     (if bt_has m node_id then (m, Inr ())
      else (bt_put node_id \<lparr>nm_node_id = node_id, nm_status = MemberActive, nm_joined_epoch = epoch, nm_history = []\<rparr> m,
            Inr ()))"

definition membership_transition ::
  "role_transition_request \<Rightarrow> membership_store \<Rightarrow> membership_store \<times> (membership_error + unit)" where
  "membership_transition req m =
     (case bt_get m (rr_node_id req) of
        None \<Rightarrow> (m, Inl (MemberNotFound (rr_node_id req)))
      | Some member \<Rightarrow>
          if member_is_terminal (nm_status member) then (m, Inl (NodeAlreadyTerminal (rr_node_id req)))
          else if \<not> member_can_transition_to (nm_status member) (rr_requested_status req)
          then (m, Inl (IllegalMemberTransition (rr_node_id req) (membership_status_name (nm_status member))
                         (membership_status_name (rr_requested_status req))))
          else (bt_adjust (rr_node_id req)
                  (\<lambda>x. x\<lparr>nm_history := nm_history x @
                           [\<lparr>mv_from = membership_status_name (nm_status x),
                             mv_to = membership_status_name (rr_requested_status req), mv_epoch = rr_epoch req,
                             mv_reason = rr_reason req\<rparr>],
                         nm_status := rr_requested_status req\<rparr>) m, Inr ()))"

definition active_members :: "membership_store \<Rightarrow> bytes32 list" where
  "active_members m = map fst (filter (\<lambda>e. nm_status (snd e) = MemberActive) m)"

definition membership_can_participate :: "membership_store \<Rightarrow> bytes32 \<Rightarrow> bool" where
  "membership_can_participate m node_id =
     (case bt_get m node_id of None \<Rightarrow> False | Some x \<Rightarrow> member_can_participate (nm_status x))"

definition is_eligible_for_committee :: "membership_store \<Rightarrow> bytes32 \<Rightarrow> bool" where
  "is_eligible_for_committee m node_id =
     (case bt_get m node_id of None \<Rightarrow> True | Some x \<Rightarrow> nm_status x = MemberActive)"

definition chain_suspension :: string where
  "chain_suspension = ''chain-authoritative suspension''"

definition suspend_node :: "bytes32 \<Rightarrow> u64 \<Rightarrow> membership_store \<Rightarrow> membership_store" where
  "suspend_node node_id epoch m =
     (let suspended = MemberSuspended chain_suspension epoch;
          transitioned = fst (membership_transition \<lparr>rr_node_id = node_id, rr_requested_status = suspended,
                                rr_reason = chain_suspension, rr_epoch = epoch\<rparr> m)
      in case bt_get m node_id of
           Some member \<Rightarrow>
             if member_is_terminal (nm_status member) then m
             else (case nm_status member of MemberSuspended _ _ \<Rightarrow> m | _ \<Rightarrow> transitioned)
         | None \<Rightarrow> bt_put node_id \<lparr>nm_node_id = node_id, nm_status = suspended, nm_joined_epoch = epoch, nm_history = []\<rparr> m)"

definition sync_membership_from_chain :: "sequencer_registry \<Rightarrow> u64 \<Rightarrow> membership_store \<Rightarrow> membership_store" where
  "sync_membership_from_chain reg epoch m =
     fold (\<lambda>node_id m. case bt_get reg node_id of
             Some r \<Rightarrow> if \<not> chain_committee_eligible (sq_chain_status r) then suspend_node node_id epoch m else m
           | None \<Rightarrow> m) (bt_keys reg) m"

section \<open>Committee snapshots of the chain\<close>

text \<open>A byte array read as a number; inverse to \<^const>\<open>be_bytes\<close> on 32 bytes.\<close>

definition bytes32_of :: "bytes \<Rightarrow> bytes32" where
  "bytes32_of bs = foldl (\<lambda>a b. push_bit 8 a OR ucast b) 0 bs"

record chain_member =
  cm_node_id :: string
  cm_public_key :: string
  cm_moniker :: string
  cm_role :: string

record chain_snapshot =
  cs_epoch :: u64
  cs_members :: "chain_member list"
  cs_snapshot_hash :: bytes
  cs_produced_at_block :: int

datatype snapshot_import_error =
    SnapshotHashMismatch u64 | DuplicateSnapshotEpoch u64 | InvalidNodeId string
  | StaleSnapshot u64 int int

definition snapshot_preimage :: "u64 \<Rightarrow> bytes32 list \<Rightarrow> bytes" where
  "snapshot_preimage epoch ids =
     string_bytes ''committee_snapshot'' @ be_bytes 8 epoch @ be_bytes 4 (of_nat (length ids) :: u32) @
     concat (map (be_bytes 32) ids)"

definition snapshot_compute_hash :: "extern \<Rightarrow> u64 \<Rightarrow> bytes32 list \<Rightarrow> bytes32" where
  "snapshot_compute_hash X epoch ids = x_sha256 X (snapshot_preimage epoch ids)"

text \<open>\<^verbatim>\<open>hex::decode\<close> followed by the length test; the parameter \<open>unhex\<close> is the decoder.\<close>

definition decode32 :: "(string \<Rightarrow> bytes option) \<Rightarrow> string \<Rightarrow> bytes32 option" where
  "decode32 unhex s =
     (case unhex s of None \<Rightarrow> None | Some b \<Rightarrow> if length b \<noteq> 32 then None else Some (bytes32_of b))"

fun decode_member_ids :: "(string \<Rightarrow> bytes option) \<Rightarrow> chain_member list \<Rightarrow> snapshot_import_error + bytes32 list" where
  "decode_member_ids unhex [] = Inr []"
| "decode_member_ids unhex (m # ms) =
     (case decode32 unhex (cm_node_id m) of
        None \<Rightarrow> Inl (InvalidNodeId (cm_node_id m))
      | Some i \<Rightarrow> rbind (decode_member_ids unhex ms) (\<lambda>ids. Inr (i # ids)))"

definition sorted_member_ids :: "(string \<Rightarrow> bytes option) \<Rightarrow> chain_snapshot \<Rightarrow> snapshot_import_error + bytes32 list" where
  "sorted_member_ids unhex s = rbind (decode_member_ids unhex (cs_members s)) (\<lambda>ids. Inr (sort ids))"

definition snapshot_verify_hash :: "extern \<Rightarrow> (string \<Rightarrow> bytes option) \<Rightarrow> chain_snapshot \<Rightarrow> bool" where
  "snapshot_verify_hash X unhex s =
     (case sorted_member_ids unhex s of
        Inl _ \<Rightarrow> False
      | Inr ids \<Rightarrow> length (cs_snapshot_hash s) = 32 \<and>
          snapshot_compute_hash X (cs_epoch s) ids = bytes32_of (cs_snapshot_hash s))"

record snapshot_importer =
  im_snapshots :: "(u64, chain_snapshot) btree"
  im_max_produced_at_block :: int

definition importer_new :: snapshot_importer where
  "importer_new = \<lparr>im_snapshots = [], im_max_produced_at_block = 0\<rparr>"

definition snapshot_import ::
  "extern \<Rightarrow> (string \<Rightarrow> bytes option) \<Rightarrow> chain_snapshot \<Rightarrow> snapshot_importer
     \<Rightarrow> snapshot_importer \<times> (snapshot_import_error + unit)" where
  "snapshot_import X unhex s im =
     (if bt_has (im_snapshots im) (cs_epoch s) then (im, Inl (DuplicateSnapshotEpoch (cs_epoch s)))
      else if \<not> snapshot_verify_hash X unhex s then (im, Inl (SnapshotHashMismatch (cs_epoch s)))
      else if cs_produced_at_block s > 0 \<and> cs_produced_at_block s < im_max_produced_at_block im
      then (im, Inl (StaleSnapshot (cs_epoch s) (cs_produced_at_block s) (im_max_produced_at_block im)))
      else (im\<lparr>im_max_produced_at_block := (if cs_produced_at_block s > im_max_produced_at_block im
                                            then cs_produced_at_block s else im_max_produced_at_block im),
               im_snapshots := bt_put (cs_epoch s) s (im_snapshots im)\<rparr>, Inr ()))"

section \<open>The committee of an epoch\<close>

record poseq_committee =
  pc_epoch :: u64
  pc_sequencers :: "(bytes32, node_identity) btree"
  pc_attestors :: "(bytes32, node_identity) btree"

definition committee_new :: "u64 \<Rightarrow> poseq_committee" where
  "committee_new epoch = \<lparr>pc_epoch = epoch, pc_sequencers = [], pc_attestors = []\<rparr>"

definition committee_add_node :: "node_identity \<Rightarrow> poseq_committee \<Rightarrow> poseq_committee" where
  "committee_add_node n c =
     (case ni_role n of
        SequencerRole \<Rightarrow> c\<lparr>pc_sequencers := bt_put (ni_node_id n) n (pc_sequencers c)\<rparr>
      | ValidatorRole \<Rightarrow> c\<lparr>pc_attestors := bt_put (ni_node_id n) n (pc_attestors c)\<rparr>
      | ObserverRole \<Rightarrow> c)"

definition eligible_proposers :: "poseq_committee \<Rightarrow> node_identity list" where
  "eligible_proposers c = filter (\<lambda>n. node_is_active n \<and> ni_is_eligible_proposer n) (bt_values (pc_sequencers c))"

definition eligible_attestors :: "poseq_committee \<Rightarrow> node_identity list" where
  "eligible_attestors c =
     sort_key ni_node_id
       (filter (\<lambda>n. node_is_active n \<and> ni_is_eligible_attestor n) (bt_values (pc_sequencers c)) @
        filter (\<lambda>n. node_is_active n \<and> ni_is_eligible_attestor n) (bt_values (pc_attestors c)))"

definition committee_is_member :: "poseq_committee \<Rightarrow> bytes32 \<Rightarrow> bool" where
  "committee_is_member c node_id = (bt_has (pc_sequencers c) node_id \<or> bt_has (pc_attestors c) node_id)"

definition committee_quorum_size :: "poseq_committee \<Rightarrow> usize" where
  "committee_quorum_size c = length (eligible_attestors c)"

datatype committee_formation_error =
    SnapshotVerificationFailed | InsufficientActiveMembers usize usize | CommitteeEpochMismatch u64 u64

text \<open>One turn of the loop over the members of a snapshot: \<open>None\<close> is \<^verbatim>\<open>continue\<close>.\<close>

definition member_identity ::
  "(string \<Rightarrow> bytes option) \<Rightarrow> sequencer_registry \<Rightarrow> membership_store \<Rightarrow> u64 \<Rightarrow> chain_member \<Rightarrow> node_identity option" where
  "member_identity unhex reg ms epoch m =
     (case decode32 unhex (cm_node_id m) of
        None \<Rightarrow> None
      | Some node_id \<Rightarrow>
          if \<not> is_chain_eligible reg node_id then None
          else if \<not> is_eligible_for_committee ms node_id then None
          else case (case bt_get reg node_id of Some r \<Rightarrow> Some (sq_public_key r) | None \<Rightarrow> decode32 unhex (cm_public_key m)) of
                 None \<Rightarrow> None
               | Some pk \<Rightarrow> Some (node_activate (node_identity_new node_id pk
                              (if cm_role m = ''Sequencer'' then SequencerRole
                               else if cm_role m = ''Validator'' then ValidatorRole else SequencerRole) epoch)))"

definition committee_from_chain_snapshot ::
  "extern \<Rightarrow> (string \<Rightarrow> bytes option) \<Rightarrow> chain_snapshot \<Rightarrow> sequencer_registry \<Rightarrow> membership_store \<Rightarrow> u64 \<Rightarrow> usize
     \<Rightarrow> committee_formation_error + poseq_committee" where
  "committee_from_chain_snapshot X unhex s reg ms epoch min_members =
     (if cs_epoch s \<noteq> epoch then Inl (CommitteeEpochMismatch (cs_epoch s) epoch)
      else if \<not> snapshot_verify_hash X unhex s then Inl SnapshotVerificationFailed
      else let c = fold (\<lambda>m c. case member_identity unhex reg ms epoch m of
                            None \<Rightarrow> c | Some n \<Rightarrow> committee_add_node n c) (cs_members s) (committee_new epoch);
               members = length (pc_sequencers c) + length (pc_attestors c)
           in if members < min_members then Inl (InsufficientActiveMembers min_members members) else Inr c)"

definition committee_root_preimage :: "poseq_committee \<Rightarrow> bytes" where
  "committee_root_preimage c =
     concat (map (be_bytes 32) (bt_keys (pc_sequencers c))) @ concat (map (be_bytes 32) (bt_keys (pc_attestors c))) @
     be_bytes 8 (pc_epoch c)"

definition compute_committee_root :: "extern \<Rightarrow> poseq_committee \<Rightarrow> bytes32" where
  "compute_committee_root X c = x_sha256 X (committee_root_preimage c)"

record committee_epoch =
  ce_epoch_number :: u64
  ce_start_height :: u64
  ce_end_height :: u64
  ce_committee_root :: bytes32

definition committee_epoch_new :: "extern \<Rightarrow> u64 \<Rightarrow> u64 \<Rightarrow> u64 \<Rightarrow> poseq_committee \<Rightarrow> committee_epoch" where
  "committee_epoch_new X epoch_number start_height end_height c =
     \<lparr>ce_epoch_number = epoch_number, ce_start_height = start_height, ce_end_height = end_height,
      ce_committee_root = compute_committee_root X c\<rparr>"

record committee_record =
  cr_epoch :: u64
  cr_sequencer_ids :: "bytes32 list"
  cr_attestor_ids :: "bytes32 list"
  cr_committee_root :: bytes32
  cr_quorum_size :: usize

definition record_from_committee :: "extern \<Rightarrow> poseq_committee \<Rightarrow> committee_record" where
  "record_from_committee X c =
     \<lparr>cr_epoch = pc_epoch c, cr_sequencer_ids = bt_keys (pc_sequencers c), cr_attestor_ids = bt_keys (pc_attestors c),
      cr_committee_root = compute_committee_root X c, cr_quorum_size = committee_quorum_size c\<rparr>"

section \<open>Rotation\<close>

record epoch_committee_snapshot =
  ec_epoch :: u64
  ec_members :: "bytes32 set"
  ec_committee_hash :: bytes32

definition committee_compute_hash :: "extern \<Rightarrow> u64 \<Rightarrow> bytes32 set \<Rightarrow> bytes32" where
  "committee_compute_hash X epoch members =
     x_sha256 X (be_bytes 8 epoch @ concat (map (be_bytes 32) (sorted_list_of_set members)))"

definition epoch_committee_new :: "extern \<Rightarrow> u64 \<Rightarrow> bytes32 set \<Rightarrow> epoch_committee_snapshot" where
  "epoch_committee_new X epoch members =
     \<lparr>ec_epoch = epoch, ec_members = members, ec_committee_hash = committee_compute_hash X epoch members\<rparr>"

type_synonym rotation_store = "(u64, epoch_committee_snapshot) btree"

definition rotation_store_insert :: "epoch_committee_snapshot \<Rightarrow> rotation_store \<Rightarrow> rotation_store" where
  "rotation_store_insert s m = bt_put (ec_epoch s) s m"

definition rotation_store_latest :: "rotation_store \<Rightarrow> epoch_committee_snapshot option" where
  "rotation_store_latest m = (if m = [] then None else Some (snd (last m)))"

record rotation_config =
  rc_rotation_period_epochs :: u64
  rc_min_committee_size :: usize
  rc_max_committee_size :: usize
  rc_base_shuffle_seed :: bytes32

definition rotation_config_new :: "u64 \<Rightarrow> usize \<Rightarrow> usize \<Rightarrow> bytes32 \<Rightarrow> phase4_error + rotation_config" where
  "rotation_config_new period lo hi seed =
     (if lo > hi then Inl (P4InvalidRotationConfig (Fmt ''min > max'' [lo, hi]))
      else if period = 0 then Inl (P4InvalidRotationConfig (Text ''rotation_period_epochs must be > 0''))
      else Inr \<lparr>rc_rotation_period_epochs = period, rc_min_committee_size = lo, rc_max_committee_size = hi,
                rc_base_shuffle_seed = seed\<rparr>)"

definition is_rotation_epoch :: "rotation_config \<Rightarrow> u64 \<Rightarrow> bool" where
  "is_rotation_epoch c epoch = (epoch mod rc_rotation_period_epochs c = 0)"

definition shuffle_seed :: "extern \<Rightarrow> rotation_config \<Rightarrow> u64 \<Rightarrow> bytes32 \<Rightarrow> bytes32" where
  "shuffle_seed X c epoch prev_finalization_hash =
     x_sha256 X (be_bytes 8 epoch @ be_bytes 32 (rc_base_shuffle_seed c) @ be_bytes 32 prev_finalization_hash)"

record rotation_record =
  ro_epoch :: u64
  ro_joined :: "bytes32 set"
  ro_left :: "bytes32 set"
  ro_new_committee_hash :: bytes32

definition rotation_record_new :: "u64 \<Rightarrow> bytes32 set \<Rightarrow> bytes32 set \<Rightarrow> bytes32 \<Rightarrow> rotation_record" where
  "rotation_record_new epoch old_members new_members h =
     \<lparr>ro_epoch = epoch, ro_joined = new_members - old_members, ro_left = old_members - new_members,
      ro_new_committee_hash = h\<rparr>"

definition rotation_is_no_change :: "rotation_record \<Rightarrow> bool" where
  "rotation_is_no_change r = (ro_joined r = {} \<and> ro_left r = {})"

record rotation_engine =
  re_config :: rotation_config
  re_rotation_history :: "(u64, rotation_record) btree"

definition rotation_engine_new :: "rotation_config \<Rightarrow> rotation_engine" where
  "rotation_engine_new c = \<lparr>re_config = c, re_rotation_history = []\<rparr>"

definition candidate_score :: "extern \<Rightarrow> bytes32 \<Rightarrow> bytes32 \<Rightarrow> bytes32" where
  "candidate_score X seed node_id = x_sha256 X (be_bytes 32 seed @ be_bytes 32 node_id)"

definition rotate_committee ::
  "extern \<Rightarrow> u64 \<Rightarrow> bytes32 set \<Rightarrow> epoch_committee_snapshot option \<Rightarrow> bytes32 set \<Rightarrow> bytes32 \<Rightarrow> rotation_engine
     \<Rightarrow> rotation_engine \<times> (phase4_error + epoch_committee_snapshot \<times> rotation_record)" where
  "rotate_committee X epoch candidates prev_snapshot excluded prev_finalization_hash e =
     (let eligible = filter (\<lambda>i. i \<notin> excluded) (sorted_list_of_set candidates);
          available = length eligible
      in if available < rc_min_committee_size (re_config e)
         then (e, Inl (P4InsufficientCandidates (rc_min_committee_size (re_config e)) available))
         else
         let target_size = min available (rc_max_committee_size (re_config e));
             seed = shuffle_seed X (re_config e) epoch prev_finalization_hash;
             scored = take target_size (sort_key snd (map (\<lambda>i. (i, candidate_score X seed i)) eligible));
             new_members = set (map fst scored)
         in if card new_members < rc_min_committee_size (re_config e)
            then (e, Inl (P4InsufficientCandidates (rc_min_committee_size (re_config e)) (card new_members)))
            else
            let snapshot = epoch_committee_new X epoch new_members;
                old_members = (case prev_snapshot of None \<Rightarrow> {} | Some s \<Rightarrow> ec_members s);
                rec = rotation_record_new epoch old_members new_members (ec_committee_hash snapshot)
            in (e\<lparr>re_rotation_history := bt_put epoch rec (re_rotation_history e)\<rparr>, Inr (snapshot, rec)))"

section \<open>Epochs\<close>

datatype epoch_status = EpochActive | EpochTransitioning | EpochCompleted

record active_committee =
  at_epoch_id :: u64
  at_members :: "bytes32 set"
  at_leader_for_slot :: "(u64, bytes32) btree"
  at_committee_hash :: bytes32

definition active_compute_hash :: "extern \<Rightarrow> bytes32 set \<Rightarrow> bytes32" where
  "active_compute_hash X members = x_sha256 X (concat (map (be_bytes 32) (sorted_list_of_set members)))"

definition leader_at :: "active_committee \<Rightarrow> u64 \<Rightarrow> bytes32 option" where
  "leader_at c slot = bt_get (at_leader_for_slot c) slot"

record next_committee =
  nc_epoch_id :: u64
  nc_members :: "bytes32 set"
  nc_activation_slot :: u64

record membership_transition_record =
  mt_epoch_id :: u64
  mt_joined :: "bytes32 set"
  mt_left :: "bytes32 set"
  mt_transition_hash :: bytes32

definition transition_record_compute :: "extern \<Rightarrow> u64 \<Rightarrow> bytes32 set \<Rightarrow> bytes32 set \<Rightarrow> membership_transition_record" where
  "transition_record_compute X epoch_id joined left =
     \<lparr>mt_epoch_id = epoch_id, mt_joined = joined, mt_left = left,
      mt_transition_hash = x_sha256 X (le_bytes 8 epoch_id @
        concat (map (\<lambda>j. string_bytes ''J'' @ be_bytes 32 j) (sorted_list_of_set joined)) @
        concat (map (\<lambda>l. string_bytes ''L'' @ be_bytes 32 l) (sorted_list_of_set left)))\<rparr>"

record epoch_state =
  ep_epoch_id :: u64
  ep_start_slot :: u64
  ep_end_slot :: u64
  ep_active_committee :: active_committee
  ep_next_committee :: "next_committee option"
  ep_status :: epoch_status

datatype epoch_error =
    EpochAlreadyExists u64 | EpochNotFound u64 | InvalidSlotRange u64 u64 | CommitteeEmpty | NonMonotonicEpoch u64 u64

record epoch_store =
  eo_epochs :: "(u64, epoch_state) btree"
  eo_current_epoch :: u64

definition epoch_store_new :: "u64 \<Rightarrow> epoch_store" where
  "epoch_store_new initial_epoch = \<lparr>eo_epochs = [], eo_current_epoch = initial_epoch\<rparr>"

definition epoch_current :: "epoch_store \<Rightarrow> epoch_state option" where
  "epoch_current s = bt_get (eo_epochs s) (eo_current_epoch s)"

definition advance_to_epoch :: "u64 \<Rightarrow> epoch_state \<Rightarrow> epoch_store \<Rightarrow> epoch_store \<times> (epoch_error + unit)" where
  "advance_to_epoch new_epoch st s =
     (if new_epoch \<le> eo_current_epoch s \<and> eo_epochs s \<noteq> [] then (s, Inl (NonMonotonicEpoch (eo_current_epoch s) new_epoch))
      else if bt_has (eo_epochs s) new_epoch then (s, Inl (EpochAlreadyExists new_epoch))
      else if ep_start_slot st \<ge> ep_end_slot st then (s, Inl (InvalidSlotRange (ep_start_slot st) (ep_end_slot st)))
      else if at_members (ep_active_committee st) = {} then (s, Inl CommitteeEmpty)
      else (s\<lparr>eo_current_epoch := new_epoch, eo_epochs := bt_put new_epoch st (eo_epochs s)\<rparr>, Inr ()))"

definition slot_in :: "u64 \<Rightarrow> epoch_state \<Rightarrow> bool" where
  "slot_in slot e = (slot \<ge> ep_start_slot e \<and> slot < ep_end_slot e)"

definition is_slot_in_epoch :: "epoch_store \<Rightarrow> u64 \<Rightarrow> u64 \<Rightarrow> bool" where
  "is_slot_in_epoch s epoch_id slot = (case bt_get (eo_epochs s) epoch_id of Some e \<Rightarrow> slot_in slot e | None \<Rightarrow> False)"

definition epoch_for_slot :: "epoch_store \<Rightarrow> u64 \<Rightarrow> u64 option" where
  "epoch_for_slot s slot = map_option ep_epoch_id (find (slot_in slot) (bt_values (eo_epochs s)))"

record epoch_rotation_config =
  er_epoch_length_slots :: u64
  er_min_committee_size :: usize
  er_max_committee_size :: usize
  er_rotation_seed_base :: bytes32

definition epoch_rotation_validate :: "epoch_rotation_config \<Rightarrow> epoch_error + unit" where
  "epoch_rotation_validate c =
     (if er_epoch_length_slots c = 0 then Inl (InvalidSlotRange 0 0)
      else if er_min_committee_size c = 0 then Inl CommitteeEmpty
      else if er_min_committee_size c > er_max_committee_size c then Inl CommitteeEmpty
      else Inr ())"

definition epoch_score :: "extern \<Rightarrow> epoch_rotation_config \<Rightarrow> u64 \<Rightarrow> bytes32 \<Rightarrow> bytes32" where
  "epoch_score X c epoch_id node_id =
     x_sha256 X (be_bytes 32 (er_rotation_seed_base c) @ le_bytes 8 epoch_id @ be_bytes 32 node_id)"

definition compute_next_committee ::
  "extern \<Rightarrow> epoch_rotation_config \<Rightarrow> bytes32 set \<Rightarrow> u64 \<Rightarrow> epoch_error + bytes32 set" where
  "compute_next_committee X c candidates epoch_id =
     (if candidates = {} then Inl CommitteeEmpty
      else if card candidates < er_min_committee_size c then Inl CommitteeEmpty
      else let scored = sort_key snd (map (\<lambda>i. (i, epoch_score X c epoch_id i)) (sorted_list_of_set candidates))
           in Inr (set (map fst (take (min (er_max_committee_size c) (card candidates)) scored))))"

definition slot_leader_index :: "extern \<Rightarrow> bytes32 \<Rightarrow> nat \<Rightarrow> u64 \<Rightarrow> nat" where
  "slot_leader_index X committee_hash n slot =
     (let digest = x_sha256 X (be_bytes 32 committee_hash @ le_bytes 8 slot);
          idx_raw = foldr (\<lambda>b v. push_bit 8 v OR ucast b) (take 8 (be_bytes 32 digest)) (0 :: u64)
      in unat idx_raw mod n)"

definition assign_slot_leaders :: "extern \<Rightarrow> bytes32 set \<Rightarrow> epoch_state \<Rightarrow> (u64, bytes32) btree" where
  "assign_slot_leaders X committee e =
     (let members = sorted_list_of_set committee; n = length members in
      if n = 0 then []
      else let committee_hash = active_compute_hash X committee
           in fold (\<lambda>slot m. bt_put slot (members ! slot_leader_index X committee_hash n slot) m)
                (map of_nat [unat (ep_start_slot e) ..< unat (ep_end_slot e)]) [])"

definition compute_transition_record :: "extern \<Rightarrow> bytes32 set \<Rightarrow> bytes32 set \<Rightarrow> u64 \<Rightarrow> membership_transition_record" where
  "compute_transition_record X prev_members next_members epoch_id =
     transition_record_compute X epoch_id (next_members - prev_members) (prev_members - next_members)"

datatype carry_forward_decision = CarryToNextEpoch | DropAndInvalidate | EscalateToDispute

record epoch_boundary_policy =
  bp_unfinalized_batch_policy :: carry_forward_decision
  bp_undelivered_batch_policy :: carry_forward_decision
  bp_pending_attestation_policy :: carry_forward_decision

definition boundary_strict :: epoch_boundary_policy where
  "boundary_strict = \<lparr>bp_unfinalized_batch_policy = DropAndInvalidate, bp_undelivered_batch_policy = DropAndInvalidate,
     bp_pending_attestation_policy = DropAndInvalidate\<rparr>"

definition boundary_lenient :: epoch_boundary_policy where
  "boundary_lenient = \<lparr>bp_unfinalized_batch_policy = CarryToNextEpoch, bp_undelivered_batch_policy = CarryToNextEpoch,
     bp_pending_attestation_policy = CarryToNextEpoch\<rparr>"

record boundary_result =
  br_epoch_id :: u64
  br_batches_carried :: "bytes32 list"
  br_batches_dropped :: "bytes32 list"
  br_batches_escalated :: "bytes32 list"
  br_membership_transition :: membership_transition_record

definition boundary_batch ::
  "epoch_boundary_policy \<Rightarrow> bytes32 \<times> bool \<Rightarrow> boundary_result \<Rightarrow> boundary_result" where
  "boundary_batch policy b r =
     (if snd b then r\<lparr>br_batches_carried := br_batches_carried r @ [fst b]\<rparr>
      else case bp_unfinalized_batch_policy policy of
             CarryToNextEpoch \<Rightarrow> r\<lparr>br_batches_carried := br_batches_carried r @ [fst b]\<rparr>
           | DropAndInvalidate \<Rightarrow> r\<lparr>br_batches_dropped := br_batches_dropped r @ [fst b]\<rparr>
           | EscalateToDispute \<Rightarrow> r\<lparr>br_batches_escalated := br_batches_escalated r @ [fst b]\<rparr>)"

definition handle_boundary ::
  "epoch_state \<Rightarrow> (bytes32 \<times> bool) list \<Rightarrow> epoch_boundary_policy \<Rightarrow> membership_transition_record \<Rightarrow> boundary_result" where
  "handle_boundary outgoing pending policy transition_rec =
     fold (boundary_batch policy) pending
       \<lparr>br_epoch_id = ep_epoch_id outgoing, br_batches_carried = [], br_batches_dropped = [], br_batches_escalated = [],
        br_membership_transition = transition_rec\<rparr>"

section \<open>The leader of a slot\<close>

datatype leader_selection_policy = RoundRobin | SlotHash bytes32 | WeightedRoundRobin

record selected_leader =
  sl_node_id :: bytes32
  sl_slot :: u64
  sl_epoch :: u64
  sl_selection_method :: string
  sl_selection_hash :: bytes32

definition compute_slot_hash :: "extern \<Rightarrow> u64 \<Rightarrow> u64 \<Rightarrow> bytes32 \<Rightarrow> bytes32" where
  "compute_slot_hash X slot epoch seed = x_sha256 X (le_bytes 8 slot @ le_bytes 8 epoch @ be_bytes 32 seed)"

definition compute_selection_hash :: "extern \<Rightarrow> u64 \<Rightarrow> u64 \<Rightarrow> u64 \<Rightarrow> bytes32 \<Rightarrow> bytes32" where
  "compute_selection_hash X slot epoch index seed =
     x_sha256 X (be_bytes 8 slot @ be_bytes 8 epoch @ be_bytes 8 index @ be_bytes 32 seed)"

text \<open>\<^verbatim>\<open>str::parse::<u64>()\<close>: an optional plus sign and at least one digit, no overflow.\<close>

fun parse_digits :: "nat \<Rightarrow> string \<Rightarrow> nat option" where
  "parse_digits acc [] = Some acc"
| "parse_digits acc (c # cs) =
     (let d = of_char c in
      if d < 48 \<or> 57 < d then None
      else if acc * 10 + (d - 48) < 2 ^ 64 then parse_digits (acc * 10 + (d - 48)) cs else None)"

definition parse_u64 :: "string \<Rightarrow> u64 option" where
  "parse_u64 s =
     (let digits = (if s \<noteq> [] \<and> hd s = CHR ''+'' then tl s else s)
      in if digits = [] then None else map_option of_nat (parse_digits 0 digits))"

definition proposer_weight :: "node_identity \<Rightarrow> u64" where
  "proposer_weight n =
     (case bt_get (ni_metadata n) ''weight'' of
        None \<Rightarrow> 1 | Some w \<Rightarrow> (case parse_u64 w of None \<Rightarrow> 1 | Some v \<Rightarrow> v))"

text \<open>The loop over the weights: the first index whose running total exceeds the position, otherwise 0.\<close>

fun weighted_pick :: "u64 \<Rightarrow> u64 \<Rightarrow> nat \<Rightarrow> u64 list \<Rightarrow> nat" where
  "weighted_pick pos cum i [] = 0"
| "weighted_pick pos cum i (w # ws) = (if pos < cum + w then i else weighted_pick pos (cum + w) (i + 1) ws)"

definition select_leader ::
  "extern \<Rightarrow> u64 \<Rightarrow> u64 \<Rightarrow> poseq_committee \<Rightarrow> leader_selection_policy \<Rightarrow> selected_leader option" where
  "select_leader X slot epoch c policy =
     (let proposers = sort_key ni_node_id (eligible_proposers c); n = of_nat (length proposers) :: u64;
          leader = (\<lambda>index method h. Some \<lparr>sl_node_id = ni_node_id (proposers ! index), sl_slot = slot, sl_epoch = epoch,
                      sl_selection_method = method, sl_selection_hash = h\<rparr>)
      in if proposers = [] then None
         else case policy of
                RoundRobin \<Rightarrow>
                  (let idx = unat (slot mod n)
                   in leader idx ''RoundRobin'' (compute_selection_hash X slot epoch (of_nat idx) 0))
              | SlotHash seed \<Rightarrow>
                  (let h = compute_slot_hash X slot epoch seed;
                       val = foldl (\<lambda>v b. push_bit 8 v OR ucast b) (0 :: u64) (take 8 (be_bytes 32 h))
                   in leader (unat (val mod n)) ''SlotHash'' h)
              | WeightedRoundRobin \<Rightarrow>
                  (let weights = map proposer_weight proposers; total_weight = sum_list weights
                   in if total_weight = 0 then None
                      else let idx = weighted_pick (slot mod total_weight) 0 0 weights
                           in leader idx ''WeightedRoundRobin'' (compute_selection_hash X slot epoch (of_nat idx) 0)))"

section \<open>Histories\<close>

datatype membership_op =
    RegisterMember bytes32 u64 | TransitionMember role_transition_request | SuspendMember bytes32 u64
  | SyncMembers sequencer_registry u64

definition membership_step :: "membership_store \<Rightarrow> membership_op \<Rightarrow> membership_store \<times> unit" where
  "membership_step m op =
     (case op of
        RegisterMember n e \<Rightarrow> (fst (membership_register n e m), ())
      | TransitionMember r \<Rightarrow> (fst (membership_transition r m), ())
      | SuspendMember n e \<Rightarrow> (suspend_node n e m, ())
      | SyncMembers reg e \<Rightarrow> (sync_membership_from_chain reg e m, ()))"

text \<open>The node has a final status \<open>st\<close>.\<close>

definition ended_member :: "bytes32 \<Rightarrow> membership_status \<Rightarrow> membership_store \<Rightarrow> bool" where
  "ended_member n st m \<longleftrightarrow> member_is_terminal st \<and> (\<exists>x. bt_get m n = Some x \<and> nm_status x = st)"

definition epoch_step :: "epoch_store \<Rightarrow> u64 \<times> epoch_state \<Rightarrow> epoch_store \<times> u64 list" where
  "epoch_step s i = (case advance_to_epoch (fst i) (snd i) s of (s', Inr _) \<Rightarrow> (s', [fst i]) | (s', Inl _) \<Rightarrow> (s', []))"

definition epochs_ok :: "epoch_store \<Rightarrow> bool" where
  "epochs_ok s \<longleftrightarrow> (eo_epochs s = [] \<or> bt_has (eo_epochs s) (eo_current_epoch s)) \<and>
     (\<forall>i e. bt_get (eo_epochs s) i = Some e \<longrightarrow>
        i \<le> eo_current_epoch s \<and> ep_start_slot e < ep_end_slot e \<and> at_members (ep_active_committee e) \<noteq> {})"

definition import_step ::
  "extern \<Rightarrow> (string \<Rightarrow> bytes option) \<Rightarrow> snapshot_importer \<Rightarrow> chain_snapshot \<Rightarrow> snapshot_importer \<times> u64 list" where
  "import_step X unhex im s =
     (case snapshot_import X unhex s im of (im', Inr _) \<Rightarrow> (im', [cs_epoch s]) | (im', Inl _) \<Rightarrow> (im', []))"

section \<open>Lemmas: rotation\<close>

lemma filter_sorted_list_of_set:
  fixes candidates excluded :: "'a::linorder set"
  assumes "finite candidates"
  defines "es \<equiv> filter (\<lambda>i. i \<notin> excluded) (sorted_list_of_set candidates)"
  shows "set es = candidates - excluded" "distinct es" "length es = card (candidates - excluded)"
proof -
  show s: "set es = candidates - excluded" using assms(1) by (auto simp: es_def)
  show d: "distinct es" by (simp add: es_def)
  show "length es = card (candidates - excluded)" using distinct_card [OF d] s by simp
qed

lemma scored_members:
  "map fst (take k (sort_key snd (map (\<lambda>i. (i, sc i)) es))) = take k (sort_key sc es)"
  by (simp add: sort_key_map take_map comp_def)

text \<open>The set of the \<open>k\<close> best of the eligible nodes.\<close>

lemma best_members:
  fixes sc :: "'a \<Rightarrow> 'b::linorder" and es :: "'a list" and k :: nat
  assumes "distinct es"
  defines "M \<equiv> set (take k (sort_key sc es))"
  shows "M \<subseteq> set es" "card M = min (length es) k" "a \<in> M \<Longrightarrow> b \<in> set es - M \<Longrightarrow> sc a \<le> sc b"
  using take_sort_key(1,2) [of k sc es] take_sort_key(5) [of a k sc es b] distinct_card [OF take_sort_key(4) [OF assms(1), of k sc]]
  by (simp_all add: M_def)

lemma rotate_committee_eq:
  fixes X :: extern and epoch :: u64 and excluded :: "bytes32 set" and h :: bytes32
    and prev :: "epoch_committee_snapshot option"
  assumes "finite candidates" and "rc_min_committee_size (re_config e) \<le> rc_max_committee_size (re_config e)"
  defines "E \<equiv> candidates - excluded" and "sc \<equiv> candidate_score X (shuffle_seed X (re_config e) epoch h)"
  defines "es \<equiv> filter (\<lambda>i. i \<notin> excluded) (sorted_list_of_set candidates)"
  defines "M \<equiv> set (take (min (card E) (rc_max_committee_size (re_config e))) (sort_key sc es))"
  defines "rec \<equiv> rotation_record_new epoch (case prev of None \<Rightarrow> {} | Some s \<Rightarrow> ec_members s) M
     (ec_committee_hash (epoch_committee_new X epoch M))"
  shows "rotate_committee X epoch candidates prev excluded h e =
    (if card E < rc_min_committee_size (re_config e)
     then (e, Inl (P4InsufficientCandidates (rc_min_committee_size (re_config e)) (card E)))
     else (e\<lparr>re_rotation_history := bt_put epoch rec (re_rotation_history e)\<rparr>, Inr (epoch_committee_new X epoch M, rec)))"
proof -
  note es = filter_sorted_list_of_set [OF assms(1), of excluded, folded es_def E_def]
  have "card M = min (card E) (rc_max_committee_size (re_config e))"
    unfolding M_def best_members(2) [OF es(2)] es(3) by simp
  then have "\<not> card M < rc_min_committee_size (re_config e)" if "\<not> card E < rc_min_committee_size (re_config e)"
    using that assms(2) by simp
  then show ?thesis
    unfolding rotate_committee_def Let_def es_def [symmetric] es(3) scored_members sc_def [symmetric]
    by (simp add: M_def [symmetric] rec_def)
qed

lemma rotation_config_sizes:
  "rotation_config_new period lo hi seed = Inr cfg \<Longrightarrow>
     rc_min_committee_size cfg = lo" "rotation_config_new period lo hi seed = Inr cfg \<Longrightarrow> rc_max_committee_size cfg = hi"
  "rotation_config_new period lo hi seed = Inr cfg \<Longrightarrow> lo \<le> hi"
  by (auto simp: rotation_config_new_def split: if_splits)

section \<open>Lemmas: membership\<close>

lemma ended_transition: "ended_member n st m \<Longrightarrow> ended_member n st (fst (membership_transition r m))"
  by (cases "n = rr_node_id r") (auto simp: ended_member_def membership_transition_def map_simps split: option.split)

lemma ended_register: "ended_member n st m \<Longrightarrow> ended_member n st (fst (membership_register k e m))"
  by (auto simp: ended_member_def membership_register_def bt_has_def map_simps)

lemma ended_suspend: "ended_member n st m \<Longrightarrow> ended_member n st (suspend_node k e m)"
  unfolding suspend_node_def Let_def
  by (auto simp: ended_transition split: option.split membership_status.split) (auto simp: ended_member_def map_simps)

lemma ended_sync: "ended_member n st m \<Longrightarrow> ended_member n st (sync_membership_from_chain reg e m)"
proof -
  have "ended_member n st m \<Longrightarrow> ended_member n st (fold (\<lambda>node_id m. case bt_get reg node_id of
      Some r \<Rightarrow> if \<not> chain_committee_eligible (sq_chain_status r) then suspend_node node_id e m else m | None \<Rightarrow> m) ks m)" for ks
    by (induction ks arbitrary: m) (auto simp: ended_suspend split: option.split)
  then show "ended_member n st m \<Longrightarrow> ?thesis" by (simp add: sync_membership_from_chain_def)
qed

interpretation membership: preserving_machine membership_step "\<lambda>_. ended_member n st" for n st
proof unfold_locales
  fix op ops m assume "ended_member n st m"
  then show "ended_member n st (fst (membership_step m op))"
    by (cases op)
      (simp_all add: membership_step_def ended_transition ended_suspend ended_sync ended_register)
qed

text \<open>After a suspension the node is not eligible, and a suspension makes no other node eligible.\<close>

lemma suspend_not_eligible: "\<not> is_eligible_for_committee (suspend_node n e m) n"
  by (auto simp: is_eligible_for_committee_def suspend_node_def membership_transition_def member_is_terminal_def
      member_can_transition_to_def map_simps Let_def split: option.split membership_status.split)

lemma suspend_keeps_ineligible:
  "\<not> is_eligible_for_committee m k \<Longrightarrow> \<not> is_eligible_for_committee (suspend_node n e m) k"
proof (cases "k = n")
  case False
  then have "bt_get (suspend_node n e m) k = bt_get m k"
    by (auto simp: suspend_node_def Let_def map_simps membership_transition_def split: option.split membership_status.split)
  then show "\<not> is_eligible_for_committee m k \<Longrightarrow> ?thesis" by (simp add: is_eligible_for_committee_def)
qed (simp add: suspend_not_eligible)

lemma sync_not_eligible:
  assumes "bt_get reg n = Some r" and "\<not> chain_committee_eligible (sq_chain_status r)"
  shows "\<not> is_eligible_for_committee (sync_membership_from_chain reg e m) n"
proof -
  let ?f = "\<lambda>node_id m. case bt_get reg node_id of
      Some r \<Rightarrow> if \<not> chain_committee_eligible (sq_chain_status r) then suspend_node node_id e m else m | None \<Rightarrow> m"
  have keep: "\<not> is_eligible_for_committee m n \<Longrightarrow> \<not> is_eligible_for_committee (fold ?f ks m) n" for ks m
    by (induction ks arbitrary: m) (auto simp: suspend_keeps_ineligible split: option.split)
  have "n \<in> set ks \<Longrightarrow> \<not> is_eligible_for_committee (fold ?f ks m) n" for ks m
    using assms by (induction ks arbitrary: m) (auto simp: suspend_not_eligible keep)
  moreover have "n \<in> set (bt_keys reg)" using bt_get_in [OF assms(1)] by (force simp: bt_keys_def)
  ultimately show ?thesis by (simp add: sync_membership_from_chain_def)
qed

section \<open>Lemmas: epochs and imports\<close>

lemma epoch_step_ok: "epochs_ok s \<Longrightarrow> epochs_ok (fst (epoch_step s i))"
  unfolding epoch_step_def advance_to_epoch_def epochs_ok_def
  by (auto simp: map_simps bt_has_def split: if_splits) (metis bt_has_def order.trans less_le_not_le linear option.distinct(1))

interpretation epochs: preserving_machine epoch_step "\<lambda>_. epochs_ok"
  by unfold_locales (rule epoch_step_ok)

lemma epoch_step_cases:
  assumes "epochs_ok s"
  obtains "epoch_step s i = (s, [])"
  | "snd (epoch_step s i) = [fst i]" "eo_current_epoch (fst (epoch_step s i)) = fst i"
    "eo_epochs (fst (epoch_step s i)) \<noteq> []" "eo_epochs s \<noteq> [] \<Longrightarrow> eo_current_epoch s < fst i"
proof -
  have put: "bt_put k v m \<noteq> []" for k :: u64 and v :: epoch_state and m
    by (induction m) (auto split: if_splits)
  show thesis
  proof (cases "epoch_step s i = (s, [])")
    case False
    then show thesis
      by (intro that(2)) (auto simp: epoch_step_def advance_to_epoch_def put not_le split: if_splits)
  qed (rule that(1))
qed

lemma run_epochs_increase:
  "epochs_ok s \<Longrightarrow> sorted_wrt (<) (concat (snd (run epoch_step s is))) \<and>
     (eo_epochs s \<noteq> [] \<longrightarrow> (\<forall>k \<in> set (concat (snd (run epoch_step s is))). eo_current_epoch s < k))"
proof (induction "is" arbitrary: s)
  case (Cons i "is")
  let ?s = "fst (epoch_step s i)"
  note IH = Cons.IH [OF epoch_step_ok [OF Cons.prems], of i]
  show ?case
  proof (cases rule: epoch_step_cases [OF Cons.prems, of i])
    case 1
    then show ?thesis using IH by (simp add: run_Cons)
  next
    case 2
    then show ?thesis using IH by (auto simp: run_Cons dest: order.strict_trans)
  qed
qed simp

lemma import_step_cases:
  obtains "import_step X unhex im s = (im, [])"
  | "snd (import_step X unhex im s) = [cs_epoch s]" "bt_get (im_snapshots im) (cs_epoch s) = None"
    "im_snapshots (fst (import_step X unhex im s)) = bt_put (cs_epoch s) s (im_snapshots im)" "snapshot_verify_hash X unhex s"
proof (cases "import_step X unhex im s = (im, [])")
  case False
  then show thesis
    by (intro that(2)) (auto simp: import_step_def snapshot_import_def bt_has_def split: if_splits)
qed (rule that(1))

interpretation imported: once_machine "import_step X unhex"
  "\<lambda>_ im. \<forall>k s. bt_get (im_snapshots im) k = Some s \<longrightarrow> cs_epoch s = k \<and> snapshot_verify_hash X unhex s"
  "\<lambda>out. out" "\<lambda>im. bt_has (im_snapshots im)" for X unhex
proof unfold_locales
  fix s ss and im :: snapshot_importer and k
  assume inv: "\<forall>k s. bt_get (im_snapshots im) k = Some s \<longrightarrow> cs_epoch s = k \<and> snapshot_verify_hash X unhex s"
  show "\<forall>k s'. bt_get (im_snapshots (fst (import_step X unhex im s))) k = Some s' \<longrightarrow>
      cs_epoch s' = k \<and> snapshot_verify_hash X unhex s'"
    using inv by (cases rule: import_step_cases [of X unhex im s]) (simp_all add: map_simps)
  show "distinct (snd (import_step X unhex im s))" by (cases rule: import_step_cases [of X unhex im s]) simp_all
  show "k \<in> set (snd (import_step X unhex im s)) \<Longrightarrow> \<not> bt_has (im_snapshots im) k"
    "k \<in> set (snd (import_step X unhex im s)) \<Longrightarrow> bt_has (im_snapshots (fst (import_step X unhex im s))) k"
    "bt_has (im_snapshots im) k \<Longrightarrow> bt_has (im_snapshots (fst (import_step X unhex im s))) k"
    by (cases rule: import_step_cases [of X unhex im s]; simp add: bt_has_def map_simps)+
qed

text \<open>A loop that puts a value for every key of a list.\<close>

lemma get_fold_put_fun:
  "bt_get (fold (\<lambda>k. bt_put k (f k)) ks m) k = (if k \<in> set ks then Some (f k) else bt_get m k)"
  by (induction ks arbitrary: m) (auto simp: map_simps)

section \<open>Lemmas: committees\<close>

definition committee_ok :: "poseq_committee \<Rightarrow> bool" where
  "committee_ok c \<longleftrightarrow> bt_ok (pc_sequencers c) \<and> bt_ok (pc_attestors c) \<and>
     (\<forall>i n. bt_get (pc_sequencers c) i = Some n \<longrightarrow> ni_node_id n = i) \<and>
     (\<forall>i n. bt_get (pc_attestors c) i = Some n \<longrightarrow> ni_node_id n = i)"

lemma add_node_ok: "committee_ok c \<Longrightarrow> committee_ok (committee_add_node n c)"
  by (auto simp: committee_ok_def committee_add_node_def bt_put_ok map_simps split: node_role.split)

lemma add_node_member:
  "ni_role n \<noteq> ObserverRole \<Longrightarrow> committee_is_member (committee_add_node n c) i \<longleftrightarrow> i = ni_node_id n \<or> committee_is_member c i"
  by (auto simp: committee_is_member_def committee_add_node_def bt_has_def map_simps split: node_role.split)

lemma member_identity_Some:
  "member_identity unhex reg ms epoch m \<noteq> None \<longleftrightarrow>
     (\<exists>i. decode32 unhex (cm_node_id m) = Some i \<and> is_chain_eligible reg i \<and> is_eligible_for_committee ms i)"
  "member_identity unhex reg ms epoch m = Some n \<Longrightarrow>
     decode32 unhex (cm_node_id m) = Some (ni_node_id n) \<and> ni_role n \<noteq> ObserverRole \<and> node_is_active n \<and>
     (\<exists>r. bt_get reg (ni_node_id n) = Some r \<and> ni_public_key n = sq_public_key r)"
  by (auto simp: member_identity_def is_chain_eligible_def node_activate_def node_identity_new_def node_is_active_def
      split: option.splits if_splits)

lemma committee_fold:
  fixes ms :: "chain_member list" and c :: poseq_committee
  defines "add \<equiv> \<lambda>f. fold (\<lambda>m c. case f m of None \<Rightarrow> c | Some n \<Rightarrow> committee_add_node n c)"
  assumes "\<forall>m n. f m = Some n \<longrightarrow> ni_role n \<noteq> ObserverRole"
  shows "committee_ok c \<Longrightarrow> committee_ok (add f ms c)" "pc_epoch (add f ms c) = pc_epoch c"
    "committee_is_member (add f ms c) i \<longleftrightarrow> committee_is_member c i \<or> (\<exists>m \<in> set ms. \<exists>n. f m = Some n \<and> ni_node_id n = i)"
proof -
  have ep: "pc_epoch (committee_add_node n c) = pc_epoch c" for n c
    by (simp add: committee_add_node_def split: node_role.split)
  show "committee_ok c \<Longrightarrow> committee_ok (add f ms c)"
    unfolding add_def by (induction ms arbitrary: c) (auto simp: add_node_ok split: option.split)
  show "pc_epoch (add f ms c) = pc_epoch c"
    unfolding add_def by (induction ms arbitrary: c) (auto simp: ep split: option.split)
  show "committee_is_member (add f ms c) i \<longleftrightarrow> committee_is_member c i \<or> (\<exists>m \<in> set ms. \<exists>n. f m = Some n \<and> ni_node_id n = i)"
    unfolding add_def using assms(2)
    by (induction ms arbitrary: c) (auto simp: add_node_member split: option.split)
qed

section \<open>Lemmas: leaders\<close>

lemma unat_sum_list_fits: "sum_list (map unat ws) < 2 ^ LENGTH('a) \<Longrightarrow> unat (sum_list ws) = sum_list (map unat ws)"
  for ws :: "'a::len word list"
  by (induction ws) (simp_all add: unat_add_fits)

lemma weighted_pick_spec:
  "unat cum + sum_list (map unat ws) < 2 ^ 64 \<Longrightarrow> unat cum \<le> unat pos \<Longrightarrow> unat pos < unat cum + sum_list (map unat ws) \<Longrightarrow>
     \<exists>j < length ws. weighted_pick pos cum i ws = i + j \<and> unat cum + sum_list (map unat (take j ws)) \<le> unat pos \<and>
       unat pos < unat cum + sum_list (map unat (take (Suc j) ws))"
proof (induction ws arbitrary: cum i)
  case (Cons w ws)
  have add: "unat (cum + w) = unat cum + unat w" using Cons.prems(1) by (intro unat_add_fits) simp
  show ?case
  proof (cases "pos < cum + w")
    case True
    then have "unat pos < unat cum + unat w" by (simp add: word_less_nat_alt add)
    then show ?thesis using True Cons.prems(2) by (intro exI [of _ 0]) simp
  next
    case False
    then have "unat cum + unat w \<le> unat pos" by (simp add: word_less_nat_alt add)
    then obtain j where "j < length ws" "weighted_pick pos (cum + w) (i + 1) ws = i + 1 + j"
      "unat (cum + w) + sum_list (map unat (take j ws)) \<le> unat pos"
      "unat pos < unat (cum + w) + sum_list (map unat (take (Suc j) ws))"
      using Cons.IH [of "cum + w" "i + 1"] Cons.prems by (auto simp: add)
    then show ?thesis using False by (intro exI [of _ "Suc j"]) (simp add: add)
  qed
qed simp

lemma weighted_pick_bound: "ws \<noteq> [] \<Longrightarrow> weighted_pick pos cum i ws < i + length ws"
proof (induction ws arbitrary: cum i)
  case (Cons w ws)
  then show ?case using Cons.IH [of "cum + w" "i + 1"] by (cases ws) auto
qed simp

text \<open>The running totals of the weights cut the positions into intervals of the size of the weights.\<close>

lemma prefix_sum_mono:
  fixes ws :: "nat list"
  assumes "j \<le> k"
  shows "sum_list (take j ws) \<le> sum_list (take k ws)"
proof -
  have "take k ws = take j ws @ take (k - j) (drop j ws)" using assms by (simp add: take_add [symmetric])
  then show ?thesis by simp
qed

lemma weighted_pick_iff:
  fixes ws :: "u64 list"
  defines "S \<equiv> \<lambda>j. sum_list (take j (map unat ws))"
  assumes "sum_list (map unat ws) < 2 ^ 64" and "unat pos < sum_list (map unat ws)" and "j < length ws"
  shows "weighted_pick pos 0 0 ws = j \<longleftrightarrow> S j \<le> unat pos \<and> unat pos < S (Suc j)"
proof -
  obtain k where k: "k < length ws" "weighted_pick pos 0 0 ws = k" "S k \<le> unat pos" "unat pos < S (Suc k)"
    using weighted_pick_spec [of 0 ws pos 0] assms(2,3) by (auto simp: S_def take_map)
  have "k = j" if "S j \<le> unat pos" "unat pos < S (Suc j)"
  proof (rule antisym)
    show "k \<le> j" using prefix_sum_mono [of "Suc j" k "map unat ws"] k(3) that(2) unfolding S_def by linarith
    show "j \<le> k" using prefix_sum_mono [of "Suc k" j "map unat ws"] k(4) that(1) unfolding S_def by linarith
  qed
  with k show ?thesis by blast
qed

lemma unat_of_nat_u64: "t < 2 ^ 64 \<Longrightarrow> unat (of_nat t :: u64) = t"
  by (simp add: unsigned_of_nat take_bit_nat_eq_self)

lemma weighted_pick_count:
  fixes ws :: "u64 list"
  defines "T \<equiv> sum_list (map unat ws)"
  assumes "T < 2 ^ 64" and "j < length ws"
  shows "card {t. t < T \<and> weighted_pick (of_nat t) 0 0 ws = j} = unat (ws ! j)"
proof -
  let ?S = "\<lambda>j. sum_list (take j (map unat ws))"
  have S: "?S (Suc j) = ?S j + unat (ws ! j)" using assms(3) by (simp add: take_Suc_conv_app_nth)
  have le: "?S (Suc j) \<le> T"
    using prefix_sum_mono [of "Suc j" "length ws" "map unat ws"] assms(3) by (simp add: T_def)
  have iff: "weighted_pick (of_nat t) 0 0 ws = j \<longleftrightarrow> ?S j \<le> t \<and> t < ?S (Suc j)" if "t < T" for t
  proof -
    have "unat (of_nat t :: u64) = t" using that assms(2) by (intro unat_of_nat_u64) linarith
    then show ?thesis
      using weighted_pick_iff [of ws "of_nat t" j] that assms(2,3) unfolding T_def by simp
  qed
  have "{t. t < T \<and> weighted_pick (of_nat t) 0 0 ws = j} = {t. t < T \<and> ?S j \<le> t \<and> t < ?S (Suc j)}"
    by (intro Collect_cong conj_cong refl iff)
  also have "\<dots> = {?S j ..< ?S (Suc j)}" using le by auto
  finally have "{t. t < T \<and> weighted_pick (of_nat t) 0 0 ws = j} = {?S j ..< ?S (Suc j)}" .
  then show ?thesis using S by simp
qed

lemma proposers_distinct:
  assumes "committee_ok c"
  shows "distinct (map ni_node_id (eligible_proposers c))"
proof -
  have keys: "map ni_node_id (bt_values (pc_sequencers c)) = bt_keys (pc_sequencers c)"
    using assms bt_in_get [of "pc_sequencers c"] by (force simp: committee_ok_def bt_values_def bt_keys_def)
  have "distinct (map ni_node_id (bt_values (pc_sequencers c)))"
    unfolding keys using assms by (simp add: committee_ok_def bt_ok_distinct bt_keys_def)
  then show ?thesis by (simp add: eligible_proposers_def distinct_map_filter)
qed

lemma select_leader_weighted:
  fixes c :: poseq_committee
  defines "ps \<equiv> sort_key ni_node_id (eligible_proposers c)"
  shows "map_option sl_node_id (select_leader X slot epoch c WeightedRoundRobin) =
    (if sum_list (map proposer_weight ps) = 0 then None
     else Some (ni_node_id (ps ! weighted_pick (slot mod sum_list (map proposer_weight ps)) 0 0 (map proposer_weight ps))))"
  by (auto simp: select_leader_def Let_def ps_def [symmetric])

section \<open>Properties\<close>

text \<open>
  C16. Rotation picks the best: it succeeds exactly when enough candidates are not excluded; the committee then
  consists of eligible candidates, has the largest allowed size, no eligible node left out has a smaller score,
  and the record tells exactly who joined and who left.
\<close>

theorem rotation_picks_the_best:
  fixes X :: extern and epoch :: u64 and candidates excluded :: "bytes32 set" and h :: bytes32
    and prev :: "epoch_committee_snapshot option" and e :: rotation_engine
  assumes "finite candidates" and "rotation_config_new period lo hi seed = Inr (re_config e)"
  defines "E \<equiv> candidates - excluded"
    and "score \<equiv> candidate_score X (shuffle_seed X (re_config e) epoch h)"
    and "old \<equiv> (case prev of None \<Rightarrow> {} | Some s \<Rightarrow> ec_members s)"
  shows "case rotate_committee X epoch candidates prev excluded h e of
      (e', Inl _) \<Rightarrow> card E < lo \<and> e' = e
    | (e', Inr (s, r)) \<Rightarrow> lo \<le> card E \<and> ec_epoch s = epoch \<and> ec_members s \<subseteq> E \<and> card (ec_members s) = min (card E) hi \<and>
        (\<forall>a \<in> ec_members s. \<forall>b \<in> E - ec_members s. score a \<le> score b) \<and>
        ec_members s = (old - ro_left r) \<union> ro_joined r \<and> ro_joined r \<inter> old = {} \<and> ro_left r \<subseteq> old \<and>
        bt_get (re_rotation_history e') epoch = Some r"
proof -
  note cfg = rotation_config_sizes [OF assms(2)]
  let ?es = "filter (\<lambda>i. i \<notin> excluded) (sorted_list_of_set candidates)"
  let ?M = "set (take (min (card E) hi) (sort_key score ?es))"
  note es = filter_sorted_list_of_set [OF assms(1), of excluded, folded E_def]
  note best = best_members [OF es(2), where k = "min (card E) hi" and sc = score, unfolded es]
  note eq = rotate_committee_eq [OF assms(1), where e = e and X = X and epoch = epoch and excluded = excluded and h = h and
      prev = prev, unfolded cfg, OF cfg(3), folded E_def score_def old_def]
  show ?thesis
    unfolding eq using best
    by (auto simp: epoch_committee_new_def rotation_record_new_def map_simps)
qed

theorem rotation_picks_the_best_witness:
  defines "cfg \<equiv> \<lparr>rc_rotation_period_epochs = 1, rc_min_committee_size = 1, rc_max_committee_size = 1, rc_base_shuffle_seed = 0\<rparr>"
  shows "case rotate_committee extern_std 2 {1, 2, 3} None {3} 9 (rotation_engine_new cfg) of
      (e', Inl _) \<Rightarrow> card ({1, 2, 3} - {3 :: bytes32}) < 1 \<and> e' = rotation_engine_new cfg
    | (e', Inr (s, r)) \<Rightarrow> 1 \<le> card ({1, 2, 3} - {3 :: bytes32}) \<and> ec_epoch s = 2 \<and> ec_members s \<subseteq> {1, 2, 3} - {3} \<and>
        card (ec_members s) = min (card ({1, 2, 3} - {3 :: bytes32})) 1 \<and>
        (\<forall>a \<in> ec_members s. \<forall>b \<in> {1, 2, 3} - {3} - ec_members s.
           candidate_score extern_std (shuffle_seed extern_std (re_config (rotation_engine_new cfg)) 2 9) a \<le>
           candidate_score extern_std (shuffle_seed extern_std (re_config (rotation_engine_new cfg)) 2 9) b) \<and>
        ec_members s = ({} - ro_left r) \<union> ro_joined r \<and> ro_joined r \<inter> {} = {} \<and> ro_left r \<subseteq> {} \<and>
        bt_get (re_rotation_history e') 2 = Some r"
  by (rule rotation_picks_the_best [where prev = None and period = 1 and seed = 0, unfolded option.case])
    (simp_all add: rotation_config_new_def rotation_engine_new_def cfg_def)

text \<open>
  C17. A jailed node is never rotated into the committee: after every history of reports, offenses and releases, no
  member of a committee formed with the jailed set excluded has an accumulated slash at the threshold.
\<close>

theorem jailed_nodes_are_not_rotated_in:
  fixes X :: extern and c :: slashing_config and ops :: "enforce_op list"
  assumes "finite candidates" and "rotation_config_new period lo hi seed = Inr (re_config e)"
    and "0 < sc_jail_threshold_bps c"
  defines "en \<equiv> fst (run (enforce_step X) (enforcer_new (slashing_new c)) ops)"
  assumes "rotate_committee X epoch candidates prev (enforcer_jailed_set en) h e = (e', Inr (s, r))" and "n \<in> ec_members s"
  shows "n \<in> candidates \<and> cumulative_slash_bps (ss_engine (en_slashing en)) n < sc_jail_threshold_bps c"
proof -
  have lo_hi: "rc_min_committee_size (re_config e) \<le> rc_max_committee_size (re_config e)"
    using rotation_config_sizes [OF assms(2)] by simp
  let ?E = "candidates - enforcer_jailed_set en"
  have "n \<in> ?E"
    using assms(5,6) filter_sorted_list_of_set(1) [OF assms(1), of "enforcer_jailed_set en"]
      take_sort_key(2) [of _ _ "filter (\<lambda>i. i \<notin> enforcer_jailed_set en) (sorted_list_of_set candidates)"]
    unfolding rotate_committee_eq [OF assms(1) lo_hi]
    by (fastforce simp: epoch_committee_new_def split: if_splits)
  moreover have "jail_ok c (en_slashing en) \<and> 0 < sc_jail_threshold_bps c"
    unfolding en_def by (rule enforcer.run_inv) (simp add: enforcer_new_def slashing_new_ok assms(3))
  ultimately show ?thesis
    by (auto simp: jail_ok_def enforcer_jailed_set_def jailed_set_def jailed_nodes_def bt_keys_def bt_has_iff not_le)
qed

theorem jailed_nodes_are_not_rotated_in_witness:
  defines "e \<equiv> rotation_engine_new \<lparr>rc_rotation_period_epochs = 1, rc_min_committee_size = 0, rc_max_committee_size = 5, rc_base_shuffle_seed = 0\<rparr>"
  defines "en \<equiv> fst (run (enforce_step extern_std) (enforcer_new (slashing_new slashing_default_config))
    [ProcessOffense DoubleProposal 7 3 [], ProcessOffense DoubleProposal 7 4 []])"
  shows "\<exists>e' s r. rotate_committee extern_std 5 {7, 8} None (enforcer_jailed_set en) 9 e = (e', Inr (s, r)) \<and> ec_members s = {8} \<and>
    cumulative_slash_bps (ss_engine (en_slashing en)) 8 < 1000"
proof -
  have jailed: "enforcer_jailed_set en = {7}"
    by (simp add: en_def run_Cons enforce_step_def enforcer_new_def slashing_new_def slashing_engine_new_def
        slashing_default_config_def slashing_process_eq process_offense_def should_jail_def cumulative_slash_bps_def sat_add_def
        bt_get_def bt_has_def jail_record_new_def enforcer_jailed_set_def jailed_set_def jailed_nodes_def bt_keys_def Let_def)
  obtain e' s r where rot: "rotate_committee extern_std 5 {7, 8} None (enforcer_jailed_set en) 9 e = (e', Inr (s, r))"
    and s: "ec_members s = {8}"
    by (simp add: jailed rotate_committee_def e_def rotation_engine_new_def Let_def epoch_committee_new_def)
  from jailed_nodes_are_not_rotated_in [of "{7, 8}" 1 0 5 0 e slashing_default_config extern_std 5 None
    "[ProcessOffense DoubleProposal 7 3 [], ProcessOffense DoubleProposal 7 4 []]" 9 e' s r 8, folded en_def] rot s
  show ?thesis
    by (auto simp: e_def rotation_engine_new_def rotation_config_new_def slashing_default_config_def)
qed

text \<open>
  C19. A committee formed from a snapshot of the chain holds exactly the nodes the snapshot lists that are active on
  the chain and not barred locally; the snapshot is of this epoch and verified, and no node has two entries in
  one role.
\<close>

theorem snapshot_committee_is_exact:
  assumes "committee_from_chain_snapshot X unhex s reg ms epoch min_members = Inr c"
  shows "(\<forall>i. committee_is_member c i \<longleftrightarrow> (\<exists>m \<in> set (cs_members s). decode32 unhex (cm_node_id m) = Some i) \<and>
      is_chain_eligible reg i \<and> is_eligible_for_committee ms i) \<and>
    cs_epoch s = epoch \<and> pc_epoch c = epoch \<and> snapshot_verify_hash X unhex s \<and> committee_ok c \<and>
    min_members \<le> length (pc_sequencers c) + length (pc_attestors c)"
proof -
  let ?f = "member_identity unhex reg ms epoch"
  let ?c = "fold (\<lambda>m c. case ?f m of None \<Rightarrow> c | Some n \<Rightarrow> committee_add_node n c) (cs_members s) (committee_new epoch)"
  have c: "c = ?c" "cs_epoch s = epoch" "snapshot_verify_hash X unhex s"
    "min_members \<le> length (pc_sequencers c) + length (pc_attestors c)"
    using assms by (auto simp: committee_from_chain_snapshot_def Let_def not_less split: if_splits)
  have roles: "\<forall>m n. ?f m = Some n \<longrightarrow> ni_role n \<noteq> ObserverRole" using member_identity_Some(2) by blast
  note built = committee_fold [where f = ?f and ms = "cs_members s" and c = "committee_new epoch", OF roles]
  have empty: "committee_ok (committee_new epoch)" "pc_epoch (committee_new epoch) = epoch"
    "\<not> committee_is_member (committee_new epoch) i" for i
    by (simp_all add: committee_ok_def committee_new_def bt_ok_def bt_get_def committee_is_member_def bt_has_def)
  have "(\<exists>n. ?f m = Some n \<and> ni_node_id n = i) \<longleftrightarrow>
      decode32 unhex (cm_node_id m) = Some i \<and> is_chain_eligible reg i \<and> is_eligible_for_committee ms i" for m i
    using member_identity_Some(1) [of unhex reg ms epoch m] member_identity_Some(2) [of unhex reg ms epoch m] by fastforce
  then have "committee_is_member c i \<longleftrightarrow> (\<exists>m \<in> set (cs_members s). decode32 unhex (cm_node_id m) = Some i) \<and>
      is_chain_eligible reg i \<and> is_eligible_for_committee ms i" for i
    using built(3) [of i] by (simp add: c(1) empty)
  then show ?thesis using c empty(1,2) built(1,2) by simp
qed

theorem snapshot_committee_is_exact_witness:
  defines "unhex \<equiv> \<lambda>s. if s = ''00'' then Some (replicate 32 0) else None"
  defines "X \<equiv> extern_std\<lparr>x_sha256 := (\<lambda>_. 0)\<rparr>"
  defines "reg \<equiv> [(0 :: bytes32, \<lparr>sq_node_id = 0, sq_public_key = 8, sq_moniker = [], sq_operator_address = [],
    sq_cosmos_validator_address = None, sq_registered_epoch = 0, sq_is_active = True, sq_chain_status = ChainActive\<rparr>)]"
  defines "s \<equiv> \<lparr>cs_epoch = 4, cs_members = [\<lparr>cm_node_id = ''00'', cm_public_key = [], cm_moniker = [], cm_role = ''Validator''\<rparr>],
    cs_snapshot_hash = replicate 32 0, cs_produced_at_block = 1\<rparr>"
  shows "\<exists>c. committee_from_chain_snapshot X unhex s reg [] 4 1 = Inr c \<and>
    (\<forall>i. committee_is_member c i \<longleftrightarrow> (\<exists>m \<in> set (cs_members s). decode32 unhex (cm_node_id m) = Some i) \<and>
      is_chain_eligible reg i \<and> is_eligible_for_committee [] i)"
proof -
  have zero: "bytes32_of (replicate 32 0) = 0" by (simp add: bytes32_of_def numeral_eq_Suc)
  have i: "decode32 unhex ''00'' = Some 0" by (simp add: decode32_def unhex_def zero)
  have v: "snapshot_verify_hash X unhex s"
    by (simp add: snapshot_verify_hash_def sorted_member_ids_def s_def i snapshot_compute_hash_def X_def zero)
  obtain c where c: "committee_from_chain_snapshot X unhex s reg [] 4 1 = Inr c"
    using v i by (simp add: committee_from_chain_snapshot_def s_def member_identity_def reg_def is_chain_eligible_def bt_get_def
        chain_committee_eligible_def is_eligible_for_committee_def committee_add_node_def committee_new_def
        node_activate_def node_identity_new_def)
  from snapshot_committee_is_exact [OF this] c show ?thesis by blast
qed

text \<open>
  After a sync no node that the chain does not list as active passes the local eligibility test, and a banned
  or removed node keeps its status along every history of registrations, transitions, suspensions and syncs.
\<close>

theorem chain_status_bars_from_committee:
  assumes "bt_get reg n = Some r" and "sq_chain_status r \<noteq> ChainActive"
  shows "\<not> is_eligible_for_committee (sync_membership_from_chain reg e m) n \<and>
    (ended_member k st m \<longrightarrow> ended_member k st (fst (run membership_step m ops)))"
  using sync_not_eligible [OF assms(1)] assms(2) membership.run_inv [of k st m ops]
  by (simp add: chain_committee_eligible_def)

theorem chain_status_bars_from_committee_witness:
  defines "reg \<equiv> [(7 :: bytes32, \<lparr>sq_node_id = 7, sq_public_key = 8, sq_moniker = [], sq_operator_address = [],
    sq_cosmos_validator_address = None, sq_registered_epoch = 0, sq_is_active = False, sq_chain_status = ChainJailed\<rparr>)]"
  shows "\<not> is_eligible_for_committee (sync_membership_from_chain reg 3 []) 7"
  using chain_status_bars_from_committee [of reg 7 _ 3 "[]"] by (simp add: reg_def bt_get_def)

text \<open>
  C18. Leadership is proportional to weight: in every round of as many slots as the total weight, each eligible
  proposer leads exactly as many slots as its weight.
\<close>

theorem leadership_is_proportional_to_weight:
  fixes c :: poseq_committee
  defines "T \<equiv> sum_list (map (\<lambda>p. unat (proposer_weight p)) (eligible_proposers c))"
  assumes "committee_ok c" and "p \<in> set (eligible_proposers c)" and "T < 2 ^ 64" and "(k + 1) * T \<le> 2 ^ 64"
  shows "card {t. t < T \<and> map_option sl_node_id (select_leader X (of_nat (k * T + t)) epoch c WeightedRoundRobin) =
    Some (ni_node_id p)} = unat (proposer_weight p)"
proof -
  define ps where "ps = sort_key ni_node_id (eligible_proposers c)"
  define ws where "ws = map proposer_weight ps"
  have mset: "mset ps = mset (eligible_proposers c)" by (simp add: ps_def)
  have T: "T = sum_list (map unat ws)"
    unfolding T_def ws_def map_map comp_def by (metis mset mset_map sum_mset_sum_list)
  have total: "unat (sum_list ws) = T" using unat_sum_list_fits [of ws] assms(4) by (simp add: T)
  have "distinct (map ni_node_id ps)"
    using proposers_distinct [OF assms(2)] by (simp add: ps_def distinct_map)
  moreover obtain j where j: "j < length ps" "ps ! j = p"
    using assms(3) by (metis ps_def in_set_conv_nth set_sort)
  ultimately have id_iff: "ni_node_id (ps ! i) = ni_node_id p \<longleftrightarrow> i = j" if "i < length ps" for i
    using that by (auto simp: distinct_conv_nth)
  have pick_less: "weighted_pick q 0 0 ws < length ps" for q
  proof -
    have "ws \<noteq> []" using j(1) by (auto simp: ws_def)
    from weighted_pick_bound [OF this, of q 0 0] show ?thesis by (simp add: ws_def)
  qed
  have "map_option sl_node_id (select_leader X (of_nat (k * T + t)) epoch c WeightedRoundRobin) = Some (ni_node_id p) \<longleftrightarrow>
      weighted_pick (of_nat t) 0 0 ws = j" if t: "t < T" for t
  proof -
    have "k * T + t < 2 ^ 64" using assms(5) t by simp
    then have "unat (of_nat (k * T + t) mod sum_list ws) = t"
      using t by (simp only: unat_mod total unat_of_nat_u64) simp
    then have "(of_nat (unat (of_nat (k * T + t) mod sum_list ws)) :: u64) = of_nat t" by (rule arg_cong)
    then have "of_nat (k * T + t) mod sum_list ws = of_nat t" by simp
    moreover have "sum_list ws \<noteq> 0" using total t by (metis not_less0 unat_0)
    ultimately show ?thesis
      unfolding select_leader_weighted ps_def [symmetric] ws_def [symmetric] using id_iff pick_less by simp
  qed
  then have "{t. t < T \<and> map_option sl_node_id (select_leader X (of_nat (k * T + t)) epoch c WeightedRoundRobin) =
      Some (ni_node_id p)} = {t. t < T \<and> weighted_pick (of_nat t) 0 0 ws = j}" by (intro Collect_cong conj_cong refl)
  moreover have "ws ! j = proposer_weight p" using j by (simp add: ws_def)
  ultimately show ?thesis using weighted_pick_count [of ws j] assms(4) j(1) by (simp add: T ws_def)
qed

definition sample_proposer :: "bytes32 \<Rightarrow> string \<Rightarrow> node_identity" where
  "sample_proposer i w = (node_activate (node_identity_new i i SequencerRole 0))\<lparr>ni_metadata := [(''weight'', w)]\<rparr>"

definition sample_committee :: poseq_committee where
  "sample_committee = \<lparr>pc_epoch = 1, pc_sequencers = [(1, sample_proposer 1 ''3''), (2, sample_proposer 2 ''+1'')], pc_attestors = []\<rparr>"

theorem leadership_is_proportional_to_weight_witness:
  "card {t. t < 4 \<and> map_option sl_node_id (select_leader extern_std (of_nat (5 * 4 + t)) 1 sample_committee WeightedRoundRobin) =
    Some 1} = 3"
proof -
  have w: "proposer_weight (sample_proposer i ''3'') = 3" "proposer_weight (sample_proposer i ''+1'') = 1" for i
    by (simp_all add: proposer_weight_def sample_proposer_def bt_get_def parse_u64_def)
  have ps: "eligible_proposers sample_committee = [sample_proposer 1 ''3'', sample_proposer 2 ''+1'']"
    by (simp add: eligible_proposers_def sample_committee_def bt_values_def node_is_active_def sample_proposer_def
        node_activate_def node_identity_new_def)
  have ok: "committee_ok sample_committee"
    by (auto simp: committee_ok_def sample_committee_def bt_ok_def bt_get_def sample_proposer_def node_activate_def
        node_identity_new_def split: if_splits)
  have id: "ni_node_id (sample_proposer 1 ''3'') = 1" by (simp add: sample_proposer_def node_activate_def node_identity_new_def)
  show ?thesis
    using leadership_is_proportional_to_weight [OF ok, of "sample_proposer 1 ''3''" 5 extern_std 1] by (simp add: ps w id)
qed

text \<open>Round-robin leadership: among as many consecutive slots as there are proposers, each of them leads once.\<close>

theorem round_robin_is_fair:
  fixes c :: poseq_committee
  defines "n \<equiv> length (eligible_proposers c)"
  assumes "committee_ok c" and "p \<in> set (eligible_proposers c)" and "n < 2 ^ 64" and "(k + 1) * n \<le> 2 ^ 64"
  shows "\<exists>!t. t < n \<and> map_option sl_node_id (select_leader X (of_nat (k * n + t)) epoch c RoundRobin) = Some (ni_node_id p)"
proof -
  define ps where "ps = sort_key ni_node_id (eligible_proposers c)"
  have len: "length ps = n" by (simp add: ps_def n_def)
  have "distinct (map ni_node_id ps)" using proposers_distinct [OF assms(2)] by (simp add: ps_def distinct_map)
  moreover obtain j where j: "j < n" "ps ! j = p" using assms(3) by (metis len ps_def in_set_conv_nth set_sort)
  ultimately have id_iff: "ni_node_id (ps ! i) = ni_node_id p \<longleftrightarrow> i = j" if "i < n" for i
    using that by (auto simp: distinct_conv_nth len)
  have lead: "map_option sl_node_id (select_leader X (of_nat (k * n + t)) epoch c RoundRobin) = Some (ni_node_id (ps ! t))"
    if t: "t < n" for t
  proof -
    have "k * n + t < 2 ^ 64" using assms(5) t by simp
    then have "unat (of_nat (k * n + t) mod of_nat n :: u64) = t"
      using t assms(4) by (simp only: unat_mod unat_of_nat_u64) simp
    moreover have "ps \<noteq> []" using len t by auto
    ultimately show ?thesis by (simp add: select_leader_def Let_def ps_def [symmetric] len)
  qed
  show ?thesis
  proof (intro ex1I [of _ j] conjI)
    fix t assume t: "t < n \<and>
      map_option sl_node_id (select_leader X (of_nat (k * n + t)) epoch c RoundRobin) = Some (ni_node_id p)"
    then have "Some (ni_node_id (ps ! t)) = Some (ni_node_id p)" using lead [of t] by (simp only: simp_thms)
    then show "t = j" using t id_iff [of t] by simp
  qed (use j lead [of j] in simp_all)
qed

text \<open>
  Epochs only move forward: along every sequence of attempts the epochs entered are strictly increasing, and
  every stored epoch lies at or before the current one and has a nonempty committee and slot range.
\<close>

theorem epochs_move_forward:
  "sorted_wrt (<) (concat (snd (run epoch_step (epoch_store_new initial) attempts))) \<and>
   epochs_ok (fst (run epoch_step (epoch_store_new initial) attempts))"
proof -
  have "epochs_ok (epoch_store_new initial)" by (simp add: epochs_ok_def epoch_store_new_def bt_get_def)
  then show ?thesis using run_epochs_increase epochs.run_inv by blast
qed

text \<open>
  Along every sequence of imports each epoch is imported at most once, and every cached snapshot passed the
  hash check of its own epoch.
\<close>

theorem snapshots_are_verified_and_imported_once:
  "distinct (concat (snd (run (import_step X unhex) importer_new ss))) \<and>
   (\<forall>k s. bt_get (im_snapshots (fst (run (import_step X unhex) importer_new ss))) k = Some s \<longrightarrow>
      cs_epoch s = k \<and> snapshot_verify_hash X unhex s)"
proof -
  have new: "\<forall>k s. bt_get (im_snapshots importer_new) k = Some s \<longrightarrow> cs_epoch s = k \<and> snapshot_verify_hash X unhex s"
    by (simp add: importer_new_def bt_get_def)
  show ?thesis
    using imported.run_once [OF new, of ss] imported.run_inv [OF new, of ss] by (simp only: list.map_ident simp_thms)
qed

text \<open>
  Every slot of an epoch, and no other, gets a leader, and the leader is a member of the committee.
\<close>

theorem slot_leaders_are_members:
  assumes "finite committee" and "committee \<noteq> {}"
  shows "case bt_get (assign_slot_leaders X committee e) slot of
      None \<Rightarrow> \<not> slot_in slot e | Some m \<Rightarrow> slot_in slot e \<and> m \<in> committee"
proof -
  let ?ms = "sorted_list_of_set committee" and ?h = "active_compute_hash X committee"
  let ?f = "\<lambda>slot. ?ms ! slot_leader_index X ?h (length ?ms) slot"
  have ne: "length ?ms \<noteq> 0" using assms by (simp add: card_gt_0_iff)
  then have "slot_leader_index X ?h (length ?ms) slot < length ?ms"
    unfolding slot_leader_index_def Let_def neq0_conv by (rule mod_less_divisor)
  then have "?f slot \<in> set ?ms" by (rule nth_mem)
  then have mem: "?f slot \<in> committee" using assms(1) by simp
  have "slot \<in> of_nat ` {unat (ep_start_slot e) ..< unat (ep_end_slot e)} \<longleftrightarrow> slot_in slot e"
  proof
    assume "slot \<in> of_nat ` {unat (ep_start_slot e) ..< unat (ep_end_slot e)}"
    then obtain n where n: "slot = of_nat n" "unat (ep_start_slot e) \<le> n" "n < unat (ep_end_slot e)" by auto
    then have "unat slot = n" using unat_less_2p [of "ep_end_slot e"] by (simp add: unat_of_nat_u64)
    then show "slot_in slot e" using n by (simp add: slot_in_def word_le_nat_alt word_less_nat_alt)
  next
    assume "slot_in slot e"
    then have "unat slot \<in> {unat (ep_start_slot e) ..< unat (ep_end_slot e)}"
      by (simp add: slot_in_def word_le_nat_alt word_less_nat_alt)
    then show "slot \<in> of_nat ` {unat (ep_start_slot e) ..< unat (ep_end_slot e)}" by (intro image_eqI [of _ _ "unat slot"]) simp_all
  qed
  then show ?thesis
    using ne mem by (simp add: assign_slot_leaders_def Let_def get_fold_put_fun bt_get_def [of "[]"])
qed

text \<open>
  At an epoch boundary every pending batch is carried, dropped or escalated, exactly once, and finalized batches are
  carried.
\<close>

theorem boundary_accounts_for_every_batch:
  defines "r \<equiv> \<lambda>e pending policy tr. handle_boundary e pending policy tr"
  shows "mset (br_batches_carried (r e pending policy tr)) + mset (br_batches_dropped (r e pending policy tr)) +
      mset (br_batches_escalated (r e pending policy tr)) = mset (map fst pending) \<and>
    set (map fst (filter snd pending)) \<subseteq> set (br_batches_carried (r e pending policy tr))"
proof -
  have "mset (br_batches_carried (fold (boundary_batch policy) pending s)) +
      mset (br_batches_dropped (fold (boundary_batch policy) pending s)) +
      mset (br_batches_escalated (fold (boundary_batch policy) pending s)) =
      mset (br_batches_carried s) + mset (br_batches_dropped s) + mset (br_batches_escalated s) + mset (map fst pending)" for s
    by (induction pending arbitrary: s) (auto simp: boundary_batch_def split: carry_forward_decision.split)
  moreover have "set (br_batches_carried s) \<union> set (map fst (filter snd pending)) \<subseteq>
      set (br_batches_carried (fold (boundary_batch policy) pending s))" for s
  proof (induction pending arbitrary: s)
    case (Cons b pending)
    have "set (br_batches_carried s) \<union> (if snd b then {fst b} else {}) \<subseteq> set (br_batches_carried (boundary_batch policy b s))"
      by (auto simp: boundary_batch_def split: carry_forward_decision.split)
    then show ?case using Cons.IH [of "boundary_batch policy b s"] by (auto split: if_splits)
  qed simp
  ultimately show ?thesis by (simp add: r_def handle_boundary_def)
qed

text \<open>
  A snapshot can list a node as sequencer and as validator. It then passes the hash check, and the node counts twice
  in the quorum.
\<close>

theorem node_in_two_roles_counts_twice:
  "committee_quorum_size (committee_add_node (node_activate (node_identity_new 7 8 ValidatorRole 1))
     (committee_add_node (node_activate (node_identity_new 7 8 SequencerRole 1)) (committee_new 1))) = 2"
  by (simp add: committee_quorum_size_def eligible_attestors_def committee_add_node_def committee_new_def node_activate_def
      node_identity_new_def node_is_active_def bt_values_def)

text \<open>The committee root does not tell roles apart: a validator turned sequencer leaves it unchanged.\<close>

theorem committee_root_ignores_roles:
  "compute_committee_root X (committee_add_node (node_identity_new 2 2 ValidatorRole 1)
     (committee_add_node (node_identity_new 1 1 SequencerRole 1) (committee_new 1))) =
   compute_committee_root X (committee_add_node (node_identity_new 2 2 SequencerRole 1)
     (committee_add_node (node_identity_new 1 1 SequencerRole 1) (committee_new 1)))"
  by (simp add: compute_committee_root_def committee_root_preimage_def committee_add_node_def committee_new_def
      node_identity_new_def bt_keys_def)

text \<open>A snapshot without a positive block height is never stale, however old it is.\<close>

theorem undated_snapshot_is_never_stale:
  assumes "snapshot_verify_hash X unhex s" and "cs_produced_at_block s \<le> 0" and "\<not> bt_has (im_snapshots im) (cs_epoch s)"
  shows "snd (snapshot_import X unhex s im) = Inr ()"
  using assms by (simp add: snapshot_import_def)

end
