(* ===== verification/Spec2Isabelle.thy ===== *)
theory Spec2Isabelle
  imports Fee_Executor HotStuff_Engine Contracts Merkle Spending Encrypted Finality Bridge Auction Sequencer_Fees Committee
begin

text \<open>
  Verification of the Rust core of Omniphi: the runtime, which turns signed intents into plans on an object
  store (\<^verbatim>\<open>src/runtime/src\<close>), and the sequencer PoSeq, which collects intents, lets solvers bid for them,
  orders them and finalizes batches by consensus (\<^verbatim>\<open>src/poseq/src\<close>). The parts meet as in the program: an
  intent enters the pool, a bundle wins its auction, validators check the finality commitment and vote, the
  finalized batch is delivered to the runtime, which admits, resolves, schedules and settles the intents and
  charges their fees.

  \<^bold>\<open>Foundations.\<close> \<^verbatim>\<open>Omniphi_Prelude\<close>: machine integers as words with Rust's checked, saturating and wrapping
  operations; the three outcomes of a call (value, error, panic); \<^verbatim>\<open>BTreeMap\<close> as a sorted association list
  behind the locale \<^verbatim>\<open>ordered_map\<close> and its extension \<^verbatim>\<open>weighted_map\<close> (sums of values); code outside the
  repository as the record \<^verbatim>\<open>extern\<close> (SHA-256, Ed25519, serializers), with what a theorem needs of it as a
  named hypothesis, met by a concrete instance in its witness; runs of a step function, with the locales
  \<^verbatim>\<open>preserving_machine\<close> (invariants), \<^verbatim>\<open>monotone_machine\<close>, \<^verbatim>\<open>budget_machine\<close>, \<^verbatim>\<open>once_machine\<close> (no event
  twice) and \<^verbatim>\<open>refined_machine\<close> (simulation of an abstract machine). Each component with a history is an
  interpretation of one of them: its laws are discharged for the model's operations, and the properties of
  histories are the facts of that interpretation.

  \<^bold>\<open>Runtime state.\<close> \<^verbatim>\<open>Capabilities\<close> (\<^verbatim>\<open>errors.rs\<close>, \<^verbatim>\<open>capabilities/checker.rs\<close>); \<^verbatim>\<open>Objects\<close> (\<^verbatim>\<open>objects/\<close>);
  \<^verbatim>\<open>Store\<close> (\<^verbatim>\<open>state/store.rs\<close>: canonical map and typed overlays, shown to agree after a sync); \<^verbatim>\<open>Merkle\<close>
  (\<^verbatim>\<open>state/merkle.rs\<close>: proofs verify, are sound, and the root determines the objects); \<^verbatim>\<open>Spending\<close>
  (\<^verbatim>\<open>capabilities/spending.rs\<close>: no capability is overspent, the indexes agree with scans).

  \<^bold>\<open>Runtime execution.\<close> \<^verbatim>\<open>Gas\<close> (\<^verbatim>\<open>gas/\<close>); \<^verbatim>\<open>Intents\<close> (\<^verbatim>\<open>intents/types.rs\<close>, \<^verbatim>\<open>base.rs\<close>, \<^verbatim>\<open>sponsorship.rs\<close>:
  admission accepts exactly the admissible transactions and each nonce once); \<^verbatim>\<open>Encrypted\<close>
  (\<^verbatim>\<open>intents/encrypted.rs\<close>); \<^verbatim>\<open>Planner\<close> (\<^verbatim>\<open>resolution/planner.rs\<close>: sound plans, exact swap price); \<^verbatim>\<open>Scheduler\<close>
  (\<^verbatim>\<open>scheduler/parallel.rs\<close>: conflict-free groups); \<^verbatim>\<open>Settlement\<close> (\<^verbatim>\<open>settlement/engine.rs\<close>: plans are atomic,
  versions move once, rounds account for every plan); \<^verbatim>\<open>Contracts\<close> (\<^verbatim>\<open>contracts/advanced.rs\<close>: registries of
  contracts, among them allowances refining a table).

  \<^bold>\<open>Runtime fees.\<close> \<^verbatim>\<open>Fee_Model\<close> (\<^verbatim>\<open>fees/envelope.rs\<close>, \<^verbatim>\<open>poseq_fee.rs\<close>, \<^verbatim>\<open>routing.rs\<close>, \<^verbatim>\<open>accounting.rs\<close>) and
  \<^verbatim>\<open>Fee_Executor\<close> (\<^verbatim>\<open>fees/executor.rs\<close> and the fee pass of the settlement engine): fees are bounded, conserved
  and moved exactly on the balances.

  \<^bold>\<open>Sequencer.\<close> \<^verbatim>\<open>Intent_Pool\<close> (\<^verbatim>\<open>intent_pool/\<close>: schema, life cycle and pool); \<^verbatim>\<open>Auction\<close> (\<^verbatim>\<open>auction/\<close>,
  \<^verbatim>\<open>finality/commitment.rs\<close>, \<^verbatim>\<open>finality/validator_checks.rs\<close>: sealed bids, best outcome, canonical order,
  pre-vote checks); \<^verbatim>\<open>Sequencer_Fees\<close> (\<^verbatim>\<open>gas/\<close>); \<^verbatim>\<open>HotStuff_Types\<close> and \<^verbatim>\<open>HotStuff_Engine\<close> (\<^verbatim>\<open>hotstuff/\<close>: voting
  safety across crashes, quorum intersection by the locale \<^verbatim>\<open>quorum_system\<close>, liveness of the pacemaker);
  \<^verbatim>\<open>Sequencer_Crypto\<close> (\<^verbatim>\<open>crypto/\<close>); \<^verbatim>\<open>Attestation\<close> (\<^verbatim>\<open>proposals/\<close>, \<^verbatim>\<open>attestations/\<close>, \<^verbatim>\<open>finalization/\<close>);
  \<^verbatim>\<open>Finality\<close> (\<^verbatim>\<open>finality/mod.rs\<close>); \<^verbatim>\<open>Bridge\<close> (\<^verbatim>\<open>bridge/\<close>: idempotent delivery, single acknowledgement);
  \<^verbatim>\<open>Slashing\<close> (\<^verbatim>\<open>bonding/\<close>, \<^verbatim>\<open>slashing/\<close>, \<^verbatim>\<open>misbehavior/\<close>, \<^verbatim>\<open>penalties/\<close>: bonds are never overslashed,
  nodes are jailed exactly at the threshold and serve their sentence); \<^verbatim>\<open>Committee\<close> (\<^verbatim>\<open>identities/\<close>,
  \<^verbatim>\<open>membership/\<close>, \<^verbatim>\<open>chain_bridge/snapshot.rs\<close>, \<^verbatim>\<open>committee/\<close>, \<^verbatim>\<open>committee_rotation/\<close>, \<^verbatim>\<open>epochs/\<close>,
  \<^verbatim>\<open>leader_selection/\<close>: rotation picks the best eligible nodes and no jailed one, leadership is proportional
  to weight).

  \<^bold>\<open>Conventions.\<close> A Rust struct is a record, an enum a datatype, \<^verbatim>\<open>u64\<close> and \<^verbatim>\<open>u128\<close> are words; unchecked
  arithmetic wraps as in a release build, checked arithmetic and indexing that panic are values of the outcome
  type. An operation on \<^verbatim>\<open>&mut self\<close> returns the new state with its result. All loops are recursions or folds
  over finite lists, so no fuel is used; the functions that do not recurse structurally (the levels of the
  Merkle tree, the search for a group) carry a measure. \<^verbatim>\<open>HashMap\<close> iteration, where the source uses it, is over
  key-sorted lists only where the result does not depend on the order.

  \<^bold>\<open>Not modelled.\<close> Sockets, processes, disks, JSON and command-line code (networking, node, devnet, persistence
  engines, toolkits, the solver daemon); the WASM validator bridge; the concurrent store's locks; logging.
  Still to come: the safety kernel, the rights engine, the solver market and the runtime's batch ingress. The Go
  chain and the web parts are outside the Rust core.
\<close>

end
